(* ===== verification/Prelude.thy ===== *)
theory Prelude
  imports Main "HOL-Library.Char_ord" "HOL-Library.List_Lexorder" "HOL-Library.Product_Lexorder"
begin

text \<open>
  What every component of the development shares: the names of the model's basic types, the
  result type that carries Python exceptions as values, the sequencing of fallible steps, the
  list operations that SQL statements and comprehensions of the program become, and the generic
  lemmas about them that the component proofs use through the simplifier.
\<close>

section \<open>Basic types\<close>

text \<open>
  Instants and durations are integers counting microseconds, the resolution of Python's
  \<open>datetime\<close>; instants count from the Unix epoch in UTC.
\<close>

type_synonym time = int
type_synonym str = string
type_synonym ident = int

abbreviation microseconds_per_second :: int where
  "microseconds_per_second \<equiv> 1000000"

abbreviation seconds :: "int \<Rightarrow> time" where
  "seconds n \<equiv> n * 1000000"

abbreviation minutes :: "int \<Rightarrow> time" where
  "minutes n \<equiv> n * 60000000"

abbreviation hours :: "int \<Rightarrow> time" where
  "hours n \<equiv> n * 3600000000"

abbreviation days :: "int \<Rightarrow> time" where
  "days n \<equiv> n * 86400000000"

text \<open>
  A \<open>datetime\<close> value as the program handles it: with a time zone (then it denotes an instant)
  or without one, which the code reads as UTC.
\<close>

datatype moment = Aware time | Naive time

fun replace_tzinfo_utc :: "moment \<Rightarrow> time" where
  "replace_tzinfo_utc (Aware t) = t"
| "replace_tzinfo_utc (Naive t) = t"

text \<open>The instants that a \<open>datetime\<close> can hold: the years 1 to 9999.\<close>

definition datetime_range :: "time \<Rightarrow> bool" where
  "datetime_range t \<longleftrightarrow> -62135596800000000 \<le> t \<and> t < 253402300800000000"

text \<open>
  A field of a partial update as \<open>model_dump(exclude_unset=True)\<close> leaves it: absent, or present with
  the value that was sent.
\<close>

datatype 'a field = Unset | Given 'a

fun given :: "'a field \<Rightarrow> 'a \<Rightarrow> 'a" where
  "given Unset old = old"
| "given (Given v) old = v"

section \<open>Fallible computations\<close>

text \<open>
  A call that may raise is a value of \<open>'e + 'a\<close>: \<open>Inl\<close> the exception, \<open>Inr\<close> the result.
  \<open>rbind m f\<close> runs \<open>m\<close> and hands its result to \<open>f\<close>; an exception skips the rest, as it does in
  the source.
\<close>

definition rbind :: "'e + 'a \<Rightarrow> ('a \<Rightarrow> 'e + 'b) \<Rightarrow> 'e + 'b" where
  "rbind m f = (case m of Inl e \<Rightarrow> Inl e | Inr x \<Rightarrow> f x)"

lemma rbind_Inl [simp]: "rbind (Inl e) f = Inl e"
  by (simp add: rbind_def)

lemma rbind_Inr [simp]: "rbind (Inr x) f = f x"
  by (simp add: rbind_def)

lemma rbind_eq_Inr: "rbind m f = Inr y \<longleftrightarrow> (\<exists>x. m = Inr x \<and> f x = Inr y)"
  by (cases m) simp_all

lemma rbind_eq_Inl: "rbind m f = Inl e \<longleftrightarrow> m = Inl e \<or> (\<exists>x. m = Inr x \<and> f x = Inl e)"
  by (cases m) simp_all

lemma rbindE:
  assumes "rbind m f = Inr y"
  obtains x where "m = Inr x" "f x = Inr y"
  using assms by (auto simp: rbind_eq_Inr)

lemma map_sum_eq_Inr: "map_sum f g m = Inr y \<longleftrightarrow> (\<exists>x. m = Inr x \<and> y = g x)"
  by (cases m) auto

lemma map_sum_eq_Inl: "map_sum f g m = Inl e \<longleftrightarrow> (\<exists>x. m = Inl x \<and> e = f x)"
  by (cases m) auto

lemma rbind_cong [fundef_cong]:
  "m = m' \<Longrightarrow> (\<And>x. m' = Inr x \<Longrightarrow> f x = g x) \<Longrightarrow> rbind m f = rbind m' g"
  by (cases m') simp_all

lemma not_isl_Inr: "\<not> isl r \<Longrightarrow> \<exists>x. r = Inr x"
  by (cases r) simp_all

section \<open>Lemma collections\<close>

text \<open>
  \<open>repo_simps\<close> rewrites what a query answers after a write; \<open>frame_simps\<close> says which tables a
  write leaves alone.
\<close>

named_theorems repo_simps \<open>what a repository read answers after a repository write\<close>
named_theorems frame_simps \<open>tables a repository write leaves unchanged\<close>

section \<open>Lists as tables\<close>

text \<open>
  \<open>scalar_one_or_none\<close> on the rows a statement selects: the first matching row (the statements of
  the program that use it filter on a unique key).
\<close>

primrec find_row :: "('a \<Rightarrow> bool) \<Rightarrow> 'a list \<Rightarrow> 'a option" where
  "find_row P [] = None"
| "find_row P (x # xs) = (if P x then Some x else find_row P xs)"

text \<open>\<open>UPDATE t SET \<dots> WHERE P\<close>, and the number of rows it touches.\<close>

definition update_where :: "('a \<Rightarrow> bool) \<Rightarrow> ('a \<Rightarrow> 'a) \<Rightarrow> 'a list \<Rightarrow> 'a list" where
  "update_where P f xs = map (\<lambda>x. if P x then f x else x) xs"

definition count_where :: "('a \<Rightarrow> bool) \<Rightarrow> 'a list \<Rightarrow> int" where
  "count_where P xs = int (length (filter P xs))"

text \<open>\<open>DELETE FROM t WHERE P\<close>.\<close>

definition delete_where :: "('a \<Rightarrow> bool) \<Rightarrow> 'a list \<Rightarrow> 'a list" where
  "delete_where P xs = filter (\<lambda>x. \<not> P x) xs"

text \<open>\<open>LIMIT\<close> and \<open>OFFSET\<close>; the callers validate both as non-negative.\<close>

definition limit_offset :: "int \<Rightarrow> int \<Rightarrow> 'a list \<Rightarrow> 'a list" where
  "limit_offset limit offset xs = take (nat limit) (drop (nat offset) xs)"

lemma find_row_Some_iff_ex: "(\<exists>y. find_row P xs = Some y) \<longleftrightarrow> (\<exists>x\<in>set xs. P x)"
  by (induction xs) auto

lemma find_row_None_iff: "find_row P xs = None \<longleftrightarrow> (\<forall>x\<in>set xs. \<not> P x)"
  by (induction xs) auto

lemma find_row_SomeD: "find_row P xs = Some x \<Longrightarrow> x \<in> set xs \<and> P x"
  by (induction xs) (auto split: if_splits)

lemma find_row_append:
  "find_row P (xs @ ys) = (case find_row P xs of None \<Rightarrow> find_row P ys | Some x \<Rightarrow> Some x)"
  by (induction xs) auto

lemma find_row_cong:
  "(\<And>x. x \<in> set xs \<Longrightarrow> P x = Q x) \<Longrightarrow> find_row P xs = find_row Q xs"
  by (induction xs) auto

text \<open>When at most one row can match, the row found is that row.\<close>

lemma find_row_unique:
  assumes "x \<in> set xs" and "P x" and "\<And>y. y \<in> set xs \<Longrightarrow> P y \<Longrightarrow> y = x"
  shows "find_row P xs = Some x"
proof -
  obtain y where y: "find_row P xs = Some y"
    using assms(1,2) find_row_Some_iff_ex [of P xs] by auto
  then have "y \<in> set xs" and "P y" using find_row_SomeD by fastforce+
  with assms(3) y show ?thesis by simp
qed

lemma find_row_update_where:
  assumes "\<And>x. Q x \<Longrightarrow> P (f x) \<longleftrightarrow> P x"
  shows "find_row P (update_where Q f xs) =
    map_option (\<lambda>x. if Q x then f x else x) (find_row P xs)"
proof (induction xs)
  case Nil
  show ?case by (simp add: update_where_def)
next
  case (Cons x xs)
  have "P (if Q x then f x else x) \<longleftrightarrow> P x" using assms [of x] by simp
  with Cons show ?case by (simp add: update_where_def)
qed

lemma set_update_where:
  "set (update_where P f xs) = (\<lambda>x. if P x then f x else x) ` set xs"
  by (simp add: update_where_def)

lemma length_update_where [simp]: "length (update_where P f xs) = length xs"
  by (simp add: update_where_def)

lemma update_where_id: "(\<And>x. x \<in> set xs \<Longrightarrow> \<not> P x) \<Longrightarrow> update_where P f xs = xs"
  by (simp add: update_where_def map_idI)

lemma map_update_where:
  "(\<And>x. g (f x) = g x) \<Longrightarrow> map g (update_where P f xs) = map g xs"
  by (simp add: update_where_def)

lemma set_delete_where [simp]: "set (delete_where P xs) = {x \<in> set xs. \<not> P x}"
  by (auto simp: delete_where_def)

lemma find_row_delete_where:
  "(\<And>x. P x \<Longrightarrow> \<not> Q x) \<Longrightarrow> find_row P (delete_where Q xs) = find_row P xs"
  by (induction xs) (auto simp: delete_where_def)

lemma find_row_delete_same: "find_row P (delete_where P xs) = None"
  by (simp add: find_row_None_iff)

lemma distinct_map_delete_where: "distinct (map g xs) \<Longrightarrow> distinct (map g (delete_where P xs))"
  by (simp add: delete_where_def distinct_map_filter)

lemma count_where_pos: "count_where P xs > 0 \<longleftrightarrow> (\<exists>x\<in>set xs. P x)"
  by (auto simp: count_where_def filter_empty_conv)

lemma length_delete_where: "int (length (delete_where P xs)) = int (length xs) - count_where P xs"
proof -
  have "length (filter P xs) + length (filter (\<lambda>x. \<not> P x) xs) = length xs"
    by (rule sum_length_filter_compl)
  then show ?thesis by (simp add: count_where_def delete_where_def)
qed

text \<open>Two rows of a table with distinct keys that agree on the key are the same row.\<close>

lemma distinct_key_eq:
  "distinct (map k xs) \<Longrightarrow> x \<in> set xs \<Longrightarrow> y \<in> set xs \<Longrightarrow> k x = k y \<Longrightarrow> x = y"
  by (simp add: distinct_map inj_on_def)

lemma find_row_key:
  assumes "distinct (map k xs)" and "x \<in> set xs"
  shows "find_row (\<lambda>y. k y = k x) xs = Some x"
  using assms distinct_key_eq by (intro find_row_unique) auto

lemma option_eqI: "(\<And>v. x = Some v \<longleftrightarrow> y = Some v) \<Longrightarrow> x = y"
  by (cases x; cases y) auto

section \<open>Sorted pairs\<close>

lemma sorted_map_fst: "sorted (ps :: ('a::linorder \<times> 'b::linorder) list) \<Longrightarrow> sorted (map fst ps)"
  by (induction ps) (auto simp: less_eq_prod_def dest: order_less_imp_le)

end
