(* ===== verification/PyStr.thy ===== *)
theory PyStr
  imports Prelude
begin

text \<open>
  The operations of Python's \<open>str\<close> and \<open>int\<close> that the program uses. A \<open>str\<close> is a list of code
  points; the model's characters are the code points below 256, on which these definitions agree
  with CPython case by case (white space, lower case, what \<open>int\<close> accepts).
\<close>

section \<open>Characters\<close>

definition is_space :: "char \<Rightarrow> bool" where
  "is_space c \<longleftrightarrow> (let n = of_char c :: nat in
     9 \<le> n \<and> n \<le> 13 \<or> 28 \<le> n \<and> n \<le> 32 \<or> n = 133 \<or> n = 160)"

definition lower_char :: "char \<Rightarrow> char" where
  "lower_char c = (let n = of_char c :: nat in
     if 65 \<le> n \<and> n \<le> 90 \<or> 192 \<le> n \<and> n \<le> 222 \<and> n \<noteq> 215 then char_of (n + 32) else c)"

definition is_digit :: "char \<Rightarrow> bool" where
  "is_digit c \<longleftrightarrow> (let n = of_char c :: nat in 48 \<le> n \<and> n \<le> 57)"

definition digit_val :: "char \<Rightarrow> nat" where
  "digit_val c = of_char c - 48"

definition digit_char :: "nat \<Rightarrow> char" where
  "digit_char d = char_of (48 + d)"

text \<open>\<open>str.isprintable\<close> on one character.\<close>

definition is_printable :: "char \<Rightarrow> bool" where
  "is_printable c \<longleftrightarrow> (let n = of_char c :: nat in 32 \<le> n \<and> n \<le> 126 \<or> 161 \<le> n \<and> n \<noteq> 173)"

section \<open>Strings\<close>

definition lstrip_by :: "(char \<Rightarrow> bool) \<Rightarrow> str \<Rightarrow> str" where
  "lstrip_by P s = dropWhile P s"

definition rstrip_by :: "(char \<Rightarrow> bool) \<Rightarrow> str \<Rightarrow> str" where
  "rstrip_by P s = rev (dropWhile P (rev s))"

text \<open>\<open>s.strip()\<close> is \<open>strip_by is_space\<close>; \<open>s.strip('"')\<close> strips one character.\<close>

definition strip_by :: "(char \<Rightarrow> bool) \<Rightarrow> str \<Rightarrow> str" where
  "strip_by P s = rstrip_by P (lstrip_by P s)"

abbreviation strip :: "str \<Rightarrow> str" where
  "strip \<equiv> strip_by is_space"

abbreviation lower :: "str \<Rightarrow> str" where
  "lower \<equiv> map lower_char"

fun split_on :: "char \<Rightarrow> str \<Rightarrow> str list" where
  "split_on c [] = [[]]"
| "split_on c (x # xs) =
     (if x = c then [] # split_on c xs
      else (case split_on c xs of [] \<Rightarrow> [[x]] | w # ws \<Rightarrow> (x # w) # ws))"

definition startswith :: "str \<Rightarrow> str \<Rightarrow> bool" where
  "startswith prefix s \<longleftrightarrow> take (length prefix) s = prefix"

section \<open>Integers\<close>

text \<open>
  \<open>str(n)\<close> in decimal, and \<open>int(s)\<close>: surrounding white space, an optional sign, digits with single
  underscores between them, at most 4300 digits; anything else is a \<open>ValueError\<close> (\<open>None\<close>).
\<close>

fun show_nat :: "nat \<Rightarrow> str" where
  "show_nat n = (if n < 10 then [digit_char n] else show_nat (n div 10) @ [digit_char (n mod 10)])"

declare show_nat.simps [simp del]

definition show_int :: "int \<Rightarrow> str" where
  "show_int n = (if n < 0 then CHR ''-'' # show_nat (nat (- n)) else show_nat (nat n))"

definition int_space :: "char \<Rightarrow> bool" where
  "int_space c \<longleftrightarrow> (let n = of_char c :: nat in 9 \<le> n \<and> n \<le> 13 \<or> n = 32 \<or> n = 133 \<or> n = 160)"

fun int_body :: "bool \<Rightarrow> nat \<Rightarrow> str \<Rightarrow> nat option" where
  "int_body prev acc [] = (if prev then Some acc else None)"
| "int_body prev acc (c # cs) =
     (if is_digit c then int_body True (acc * 10 + digit_val c) cs
      else if c = CHR ''_'' \<and> prev then int_body False acc cs
      else None)"

abbreviation max_str_digits :: nat where
  "max_str_digits \<equiv> 4300"

definition py_int :: "str \<Rightarrow> int option" where
  "py_int s =
     (let t = strip_by int_space s in
      if length (filter is_digit t) > max_str_digits then None
      else (case t of
              [] \<Rightarrow> None
            | c # cs \<Rightarrow>
                if c = CHR ''-'' then map_option (\<lambda>n. - int n) (int_body False 0 cs)
                else if c = CHR ''+'' then map_option int (int_body False 0 cs)
                else map_option int (int_body False 0 t)))"

section \<open>Lemmas\<close>

lemma of_char_digit_char [simp]: "d < 10 \<Longrightarrow> (of_char (digit_char d) :: nat) = 48 + d"
  by (simp add: digit_char_def)

lemma is_digit_digit_char [simp]: "d < 10 \<Longrightarrow> is_digit (digit_char d)"
  by (simp add: is_digit_def)

lemma digit_val_digit_char [simp]: "d < 10 \<Longrightarrow> digit_val (digit_char d) = d"
  by (simp add: digit_val_def)

lemma is_digit_not_int_space: "is_digit c \<Longrightarrow> \<not> int_space c"
  by (simp add: is_digit_def int_space_def Let_def)

lemma is_space_lower_char [simp]: "is_space (lower_char c) = is_space c"
  by (auto simp: is_space_def lower_char_def Let_def)

lemma lower_char_idem [simp]: "lower_char (lower_char c) = lower_char c"
  by (auto simp: lower_char_def Let_def)

lemma dropWhile_map: "dropWhile P (map f xs) = map f (dropWhile (P \<circ> f) xs)"
  by (induction xs) auto

lemma strip_by_map: "(\<And>c. P (f c) = P c) \<Longrightarrow> strip_by P (map f s) = map f (strip_by P s)"
  by (simp add: strip_by_def rstrip_by_def lstrip_by_def dropWhile_map rev_map comp_def)

lemma strip_lower: "strip (lower s) = lower (strip s)"
  by (rule strip_by_map) simp

lemma hd_strip_by: "strip_by P s \<noteq> [] \<Longrightarrow> \<not> P (hd (strip_by P s))"
proof -
  let ?t = "dropWhile P s"
  assume "strip_by P s \<noteq> []"
  then have ne: "dropWhile P (rev ?t) \<noteq> []"
    by (simp only: strip_by_def rstrip_by_def lstrip_by_def rev_is_Nil_conv not_False_eq_True)
  then have "?t \<noteq> []" by (metis dropWhile.simps(1) rev.simps(1))
  then have "\<not> P (hd ?t)" by (rule hd_dropWhile)
  moreover obtain u where "rev ?t = u @ dropWhile P (rev ?t)"
    by (metis takeWhile_dropWhile_id)
  then have "?t = rev (dropWhile P (rev ?t)) @ rev u"
    by (metis rev_append rev_rev_ident)
  then have "hd ?t = hd (rev (dropWhile P (rev ?t)))"
    using ne by (metis hd_append2 rev_is_Nil_conv)
  ultimately show ?thesis
    by (simp only: strip_by_def rstrip_by_def lstrip_by_def not_False_eq_True)
qed

lemma last_strip_by: "strip_by P s \<noteq> [] \<Longrightarrow> \<not> P (last (strip_by P s))"
  by (simp add: strip_by_def rstrip_by_def lstrip_by_def last_rev hd_dropWhile)

text \<open>A string whose ends are not stripped characters is left alone.\<close>

lemma strip_by_id:
  assumes "s \<noteq> [] \<Longrightarrow> \<not> P (hd s)" and "s \<noteq> [] \<Longrightarrow> \<not> P (last s)"
  shows "strip_by P s = s"
proof (cases "s = []")
  case True
  then show ?thesis by (simp add: strip_by_def rstrip_by_def lstrip_by_def)
next
  case False
  then have "dropWhile P s = s" using assms(1) by (cases s) auto
  moreover have "dropWhile P (rev s) = rev s"
    using False assms(2) by (cases "rev s") (auto simp: last_rev [symmetric] hd_rev)
  ultimately show ?thesis by (simp add: strip_by_def rstrip_by_def lstrip_by_def)
qed

lemma strip_by_idem [simp]: "strip_by P (strip_by P s) = strip_by P s"
  by (rule strip_by_id) (simp_all add: hd_strip_by last_strip_by)

lemma set_strip_by: "set (strip_by P s) \<subseteq> set s"
  by (auto simp: strip_by_def rstrip_by_def lstrip_by_def dest!: set_dropWhileD)

lemma split_on_not_Nil [simp]: "split_on c s \<noteq> []"
  by (induction c s rule: split_on.induct) (auto split: list.splits)

lemma split_on_no_sep: "w \<in> set (split_on c s) \<Longrightarrow> c \<notin> set w"
  by (induction c s arbitrary: w rule: split_on.induct)
    (fastforce split: if_splits list.splits)+

subsection \<open>Decimal round trip\<close>

lemma show_nat_not_Nil [simp]: "show_nat n \<noteq> []"
  by (subst show_nat.simps) simp

lemma show_nat_digits: "c \<in> set (show_nat n) \<Longrightarrow> is_digit c"
proof (induction n arbitrary: c rule: show_nat.induct)
  case (1 n)
  then show ?case
    by (cases "n < 10") (auto simp: show_nat.simps [of n])
qed

lemma int_body_append:
  "list_all is_digit s \<Longrightarrow> s \<noteq> [] \<Longrightarrow> is_digit d \<Longrightarrow>
   int_body prev acc (s @ [d]) = map_option (\<lambda>n. n * 10 + digit_val d) (int_body prev acc s)"
proof (induction s arbitrary: prev acc)
  case Nil
  then show ?case by simp
next
  case (Cons a s)
  then show ?case by (cases "s = []") simp_all
qed

lemma int_body_show_nat: "int_body prev 0 (show_nat n) = Some n"
proof (induction n rule: show_nat.induct)
  case (1 n)
  show ?case
  proof (cases "n < 10")
    case True
    then show ?thesis by (simp add: show_nat.simps [of n])
  next
    case False
    with 1 have "int_body prev 0 (show_nat (n div 10)) = Some (n div 10)" by simp
    with False show ?thesis
      by (simp add: show_nat.simps [of n] int_body_append list_all_iff show_nat_digits)
  qed
qed

lemma length_show_nat: "n < 10 ^ Suc k \<Longrightarrow> length (show_nat n) \<le> Suc k"
proof (induction n arbitrary: k rule: show_nat.induct)
  case (1 n)
  show ?case
  proof (cases "n < 10")
    case True
    then show ?thesis by (simp add: show_nat.simps [of n])
  next
    case False
    with 1 obtain j where j: "k = Suc j" by (cases k) auto
    with 1 have "n div 10 < 10 ^ Suc j" by (simp add: less_mult_imp_div_less mult.commute)
    with 1 False have "length (show_nat (n div 10)) \<le> Suc j" by blast
    with False j show ?thesis by (simp add: show_nat.simps [of n])
  qed
qed

lemma show_int_ends:
  "show_int n \<noteq> []" "\<not> int_space (hd (show_int n))" "\<not> int_space (last (show_int n))"
proof -
  have "hd (show_nat m) \<in> set (show_nat m)" "last (show_nat m) \<in> set (show_nat m)" for m
    by simp_all
  then have "\<not> int_space (hd (show_nat m))" "\<not> int_space (last (show_nat m))" for m
    using show_nat_digits is_digit_not_int_space by blast+
  then show "show_int n \<noteq> []" "\<not> int_space (hd (show_int n))" "\<not> int_space (last (show_int n))"
    by (simp_all add: show_int_def int_space_def)
qed

text \<open>
  \<open>int(str(n)) = n\<close> for every integer of the database's 64-bit range, which is far inside the
  digit limit.
\<close>

abbreviation db_int :: "int \<Rightarrow> bool" where
  "db_int n \<equiv> \<bar>n\<bar> < 10 ^ 19"

lemma length_show_db_int: "db_int n \<Longrightarrow> length (show_nat (nat \<bar>n\<bar>)) \<le> 19"
proof -
  assume "db_int n"
  then have "nat \<bar>n\<bar> < 10 ^ Suc 18" by simp
  then show ?thesis using length_show_nat [of "nat \<bar>n\<bar>" 18] by simp
qed

lemma count_digits_show: "length (filter is_digit (show_int n)) = length (show_nat (nat \<bar>n\<bar>))"
proof -
  have "filter is_digit (show_nat m) = show_nat m" for m
    by (simp add: filter_id_conv show_nat_digits)
  then show ?thesis by (simp add: show_int_def is_digit_def [of "CHR ''-''"])
qed

lemma py_int_show_int:
  assumes "db_int n"
  shows "py_int (show_int n) = Some n"
proof -
  have strip: "strip_by int_space (show_int n) = show_int n"
    by (rule strip_by_id) (simp_all add: show_int_ends)
  have few: "\<not> length (filter is_digit (show_int n)) > max_str_digits"
    using length_show_db_int [OF assms] by (simp add: count_digits_show)
  show ?thesis
  proof (cases "n < 0")
    case True
    then show ?thesis
      using few by (simp add: py_int_def strip Let_def) (simp add: show_int_def int_body_show_nat)
  next
    case False
    obtain c cs where c: "show_nat (nat n) = c # cs"
      by (cases "show_nat (nat n)") simp_all
    then have "is_digit c" using show_nat_digits [of c "nat n"] by simp
    then have "c \<noteq> CHR ''-''" "c \<noteq> CHR ''+''" by (auto simp: is_digit_def)
    with False c have "py_int (show_int n) = map_option int (int_body False 0 (show_nat (nat n)))"
      using few by (simp add: py_int_def strip Let_def) (simp add: show_int_def)
    with False show ?thesis by (simp add: int_body_show_nat)
  qed
qed

end
