(* ===== verification/Errors.thy ===== *)
theory Errors
  imports PyStr
begin

text \<open>
  \<open>app/core/error_codes.py\<close> and \<open>app/core/exceptions.py\<close>: the error codes a client can
  translate, the domain exceptions with their status and default code, and the other exceptions
  that the modelled code raises or catches.
\<close>

section \<open>Error codes\<close>

datatype ErrorCode =
    UNEXPECTED | VALIDATION | RATE_LIMITED | REQUEST_FAILED | NOT_FOUND | CONFLICT
  | UNAUTHORIZED | FORBIDDEN | PAYLOAD_TOO_LARGE | PRECONDITION_REQUIRED | VERSION_CONFLICT
  | IDEMPOTENCY_INVALID_KEY | IDEMPOTENCY_BODY_MISMATCH | IDEMPOTENCY_IN_FLIGHT
  | AUTH_INVALID_CREDENTIALS | AUTH_BAD_LOGIN | AUTH_CURRENT_PASSWORD_INCORRECT
  | AUTH_IMPERSONATION_SELF | AUTH_IMPERSONATION_REVOKED | AUTH_IMPERSONATION_BLOCKED
  | AUTH_INSUFFICIENT_PERMISSIONS | AUTH_INVALID_TOKEN | AUTH_EMAIL_NOT_VERIFIED
  | ITEM_NOT_FOUND | ATTACHMENT_NOT_FOUND | ATTACHMENT_TYPE_REFUSED | ATTACHMENT_TOO_LARGE
  | USER_NOT_FOUND | USER_EMAIL_TAKEN | USER_PASSWORD_INCORRECT | USER_SELF_ADMIN_ROLE
  | USER_CLOSE_OWN_ACCOUNT
  | ROLE_NOT_FOUND | ROLE_NAME_TAKEN | ROLE_ADMIN_IMMUTABLE | ROLE_BUILT_IN | ROLE_HAS_ACCOUNTS
  | PERMISSION_NOT_FOUND
  | REQUEST_LOG_NOT_FOUND | AUDIT_LOG_NOT_FOUND

fun code_value :: "ErrorCode \<Rightarrow> str" where
  "code_value UNEXPECTED = ''error.unexpected''"
| "code_value VALIDATION = ''error.validation''"
| "code_value RATE_LIMITED = ''error.rateLimited''"
| "code_value REQUEST_FAILED = ''error.requestFailed''"
| "code_value NOT_FOUND = ''error.notFound''"
| "code_value CONFLICT = ''error.conflict''"
| "code_value UNAUTHORIZED = ''error.unauthorized''"
| "code_value FORBIDDEN = ''error.forbidden''"
| "code_value PAYLOAD_TOO_LARGE = ''error.payloadTooLarge''"
| "code_value PRECONDITION_REQUIRED = ''error.preconditionRequired''"
| "code_value VERSION_CONFLICT = ''error.versionConflict''"
| "code_value IDEMPOTENCY_INVALID_KEY = ''idempotency.invalidKey''"
| "code_value IDEMPOTENCY_BODY_MISMATCH = ''idempotency.bodyMismatch''"
| "code_value IDEMPOTENCY_IN_FLIGHT = ''idempotency.inFlight''"
| "code_value AUTH_INVALID_CREDENTIALS = ''auth.invalidCredentials''"
| "code_value AUTH_BAD_LOGIN = ''auth.badLogin''"
| "code_value AUTH_CURRENT_PASSWORD_INCORRECT = ''auth.currentPasswordIncorrect''"
| "code_value AUTH_IMPERSONATION_SELF = ''auth.impersonationSelf''"
| "code_value AUTH_IMPERSONATION_REVOKED = ''auth.impersonationRevoked''"
| "code_value AUTH_IMPERSONATION_BLOCKED = ''auth.impersonationBlocked''"
| "code_value AUTH_INSUFFICIENT_PERMISSIONS = ''auth.insufficientPermissions''"
| "code_value AUTH_INVALID_TOKEN = ''auth.invalidToken''"
| "code_value AUTH_EMAIL_NOT_VERIFIED = ''auth.emailNotVerified''"
| "code_value ITEM_NOT_FOUND = ''item.notFound''"
| "code_value ATTACHMENT_NOT_FOUND = ''attachment.notFound''"
| "code_value ATTACHMENT_TYPE_REFUSED = ''attachment.typeRefused''"
| "code_value ATTACHMENT_TOO_LARGE = ''attachment.tooLarge''"
| "code_value USER_NOT_FOUND = ''user.notFound''"
| "code_value USER_EMAIL_TAKEN = ''user.emailTaken''"
| "code_value USER_PASSWORD_INCORRECT = ''user.passwordIncorrect''"
| "code_value USER_SELF_ADMIN_ROLE = ''user.selfAdminRole''"
| "code_value USER_CLOSE_OWN_ACCOUNT = ''user.closeOwnAccount''"
| "code_value ROLE_NOT_FOUND = ''role.notFound''"
| "code_value ROLE_NAME_TAKEN = ''role.nameTaken''"
| "code_value ROLE_ADMIN_IMMUTABLE = ''role.adminImmutable''"
| "code_value ROLE_BUILT_IN = ''role.builtIn''"
| "code_value ROLE_HAS_ACCOUNTS = ''role.hasAccounts''"
| "code_value PERMISSION_NOT_FOUND = ''permission.notFound''"
| "code_value REQUEST_LOG_NOT_FOUND = ''requestLog.notFound''"
| "code_value AUDIT_LOG_NOT_FOUND = ''auditLog.notFound''"

section \<open>Domain exceptions\<close>

datatype error_class =
    DomainError | NotFoundError | ConflictError | AuthError | ForbiddenError
  | PayloadTooLargeError | PreconditionRequiredError | PreconditionFailedError

fun status_code_of :: "error_class \<Rightarrow> int" where
  "status_code_of DomainError = 500"
| "status_code_of NotFoundError = 404"
| "status_code_of ConflictError = 409"
| "status_code_of AuthError = 401"
| "status_code_of ForbiddenError = 403"
| "status_code_of PayloadTooLargeError = 413"
| "status_code_of PreconditionRequiredError = 428"
| "status_code_of PreconditionFailedError = 412"

fun default_code :: "error_class \<Rightarrow> ErrorCode" where
  "default_code DomainError = UNEXPECTED"
| "default_code NotFoundError = NOT_FOUND"
| "default_code ConflictError = CONFLICT"
| "default_code AuthError = UNAUTHORIZED"
| "default_code ForbiddenError = FORBIDDEN"
| "default_code PayloadTooLargeError = PAYLOAD_TOO_LARGE"
| "default_code PreconditionRequiredError = PRECONDITION_REQUIRED"
| "default_code PreconditionFailedError = VERSION_CONFLICT"

datatype param = PStr str | PInt int

type_synonym error_params = "(str \<times> param) list"

record domain_error =
  err_class :: error_class
  err_detail :: str
  err_code :: ErrorCode
  err_params :: error_params

text \<open>\<open>DomainError.__init__\<close>: the class's code unless the raise site names one.\<close>

definition make_error ::
  "error_class \<Rightarrow> str \<Rightarrow> ErrorCode option \<Rightarrow> error_params option \<Rightarrow> domain_error" where
  "make_error cls detail code params =
     \<lparr>err_class = cls, err_detail = detail,
      err_code = (case code of Some c \<Rightarrow> c | None \<Rightarrow> default_code cls),
      err_params = (case params of Some p \<Rightarrow> p | None \<Rightarrow> [])\<rparr>"

text \<open>
  Every exception the modelled code can raise. \<open>IntegrityError\<close> carries the SQLSTATE the driver
  reports, as does \<open>DataError\<close> (a value too long for its column); \<open>StaleDataError\<close> is SQLAlchemy's
  lost-update signal and \<open>InvalidRequestError\<close> its refusal to refresh a row that is gone;
  \<open>ValueError\<close>, \<open>KeyError\<close> and \<open>RuntimeError\<close> are Python's.
\<close>

datatype exn =
    Domain domain_error
  | IntegrityError str
  | DataError str
  | StaleDataError
  | InvalidRequestError
  | ValueError str
  | KeyError str
  | RuntimeError str

type_synonym 'a result = "exn + 'a"

text \<open>\<open>raise NotFoundError("\<dots>", code=\<dots>)\<close> and its siblings.\<close>

definition raise_error :: "error_class \<Rightarrow> str \<Rightarrow> ErrorCode \<Rightarrow> 'a result" where
  "raise_error cls detail code = Inl (Domain (make_error cls detail (Some code) None))"

text \<open>\<open>app/services/support.py\<close>: \<open>or_not_found\<close>.\<close>

definition or_not_found :: "'a option \<Rightarrow> str \<Rightarrow> ErrorCode \<Rightarrow> 'a result" where
  "or_not_found value message code =
     (case value of None \<Rightarrow> raise_error NotFoundError message code | Some x \<Rightarrow> Inr x)"

definition error_code_of :: "'a result \<Rightarrow> ErrorCode option" where
  "error_code_of r = (case r of Inl (Domain e) \<Rightarrow> Some (err_code e) | _ \<Rightarrow> None)"

section \<open>Lemmas\<close>

lemma or_not_found_simps [simp]:
  "or_not_found (Some x) m c = Inr x"
  "or_not_found None m c = raise_error NotFoundError m c"
  by (simp_all add: or_not_found_def)

lemma or_not_found_eq_Inr: "or_not_found v m c = Inr x \<longleftrightarrow> v = Some x"
  by (cases v) (simp_all add: raise_error_def)

lemma raise_error_neq_Inr [simp]: "raise_error k m c \<noteq> Inr x" "Inr x \<noteq> raise_error k m c"
  by (simp_all add: raise_error_def)

lemma rbind_raise_error [simp]: "rbind (raise_error k m c) f = raise_error k m c"
  by (simp add: raise_error_def)

lemma error_code_of_simps [simp]:
  "error_code_of (raise_error k m c) = Some c"
  "error_code_of (Inr x) = None"
  by (simp_all add: error_code_of_def raise_error_def make_error_def)

end
