(* ===== verification/Models.thy ===== *)
theory Models
  imports Errors
begin

text \<open>
  \<open>app/models\<close> and \<open>app/db/mixins.py\<close>: the entities as records, the database as a record of tables
  (lists of rows in insertion order), the identifier sequence of each table, and the integrity
  constraints that the schema declares. A table of the model holds what a committed transaction
  would leave; \<open>tx_now\<close> is PostgreSQL's \<open>now()\<close>, the start of the current transaction, which the
  columns with \<open>server_default=func.now()\<close> read.
\<close>

section \<open>Roles and permissions\<close>

datatype Scope = ScopeOwn | ScopeAll

fun scope_value :: "Scope \<Rightarrow> str" where
  "scope_value ScopeOwn = ''own''"
| "scope_value ScopeAll = ''all''"

record Permission =
  perm_id :: ident
  perm_resource :: str
  perm_action :: str

record RolePermission =
  grant_permission :: Permission
  grant_scope :: Scope

record Role =
  role_id :: ident
  role_name :: str
  role_features :: "str option"
  role_grants :: "RolePermission list"
  role_created_at :: time
  role_updated_at :: time

section \<open>Users\<close>

text \<open>\<open>UserRole\<close>: the names of the two built-in roles.\<close>

abbreviation USER_ROLE :: str where
  "USER_ROLE \<equiv> ''user''"

abbreviation ADMIN_ROLE :: str where
  "ADMIN_ROLE \<equiv> ''superadmin''"

text \<open>
  The columns of \<open>users\<close>, and the loaded \<open>User\<close> object, which also carries the roles that
  \<open>user_roles\<close> links to it.
\<close>

record user_row =
  user_id :: ident
  user_email :: str
  user_name :: "str option"
  user_hashed_password :: str
  user_email_verified_at :: "time option"
  user_password_changed_at :: "time option"
  user_deleted_at :: "time option"
  user_created_at :: time
  user_updated_at :: time

record User = user_row +
  user_roles :: "Role list"

section \<open>What an account owns\<close>

record Item =
  item_id :: ident
  item_title :: str
  item_description :: "str option"
  item_owner_id :: ident
  item_version :: int
  item_deleted_at :: "time option"
  item_created_at :: time
  item_updated_at :: time

record Attachment =
  att_id :: ident
  att_key :: str
  att_filename :: str
  att_content_type :: str
  att_size_bytes :: int
  att_item_id :: ident
  att_created_at :: time
  att_updated_at :: time

record RefreshToken =
  rt_id :: ident
  rt_token_hash :: str
  rt_user_id :: ident
  rt_expires_at :: time
  rt_revoked_at :: "time option"
  rt_created_at :: time

datatype TokenPurpose = EMAIL_VERIFICATION | PASSWORD_RESET

fun purpose_value :: "TokenPurpose \<Rightarrow> str" where
  "purpose_value EMAIL_VERIFICATION = ''email-verification''"
| "purpose_value PASSWORD_RESET = ''password-reset''"

record SingleUseToken =
  sut_id :: ident
  sut_token_hash :: str
  sut_user_id :: ident
  sut_purpose :: TokenPurpose
  sut_expires_at :: time
  sut_used_at :: "time option"
  sut_created_at :: time

record IdempotencyKey =
  ik_id :: ident
  ik_key :: str
  ik_user_id :: ident
  ik_method :: str
  ik_path :: str
  ik_request_hash :: str
  ik_status_code :: "int option"
  ik_response_body :: "str option"
  ik_content_type :: "str option"
  ik_completed_at :: "time option"
  ik_created_at :: time

record UserPreferences =
  pref_id :: ident
  pref_user_id :: ident
  pref_locale :: str
  pref_theme :: str
  pref_timezone :: str
  pref_show_request_id :: bool
  pref_features :: "str option"

section \<open>The two logs\<close>

record RequestLog =
  rl_id :: ident
  rl_request_id :: str
  rl_method :: str
  rl_path :: str
  rl_status_code :: int
  rl_duration_us :: int
  rl_client_ip :: "str option"
  rl_user_id :: "ident option"
  rl_created_at :: time

text \<open>One column of a recorded change; the values are what \<open>jsonable\<close> leaves in the JSON document.\<close>

datatype json =
    JNull | JBool bool | JInt int | JFloat str | JStr str | JList "json list"
  | JObj "(str \<times> json) list"

record AuditLog =
  al_id :: ident
  al_occurred_at :: time
  al_request_id :: "str option"
  al_actor_id :: "ident option"
  al_impersonator_id :: "ident option"
  al_source :: str
  al_method :: "str option"
  al_path :: "str option"
  al_client_ip :: "str option"
  al_table_name :: str
  al_action :: str
  al_row_pk :: "str option"
  al_changes :: "(str \<times> json) list"
  al_truncated :: bool

section \<open>The database\<close>

datatype table =
    TUsers | TRoles | TPermissions | TItems | TAttachments | TRefreshTokens | TSingleUseTokens
  | TIdempotencyKeys | TPreferences | TRequestLogs | TAuditLogs

record database =
  t_users :: "user_row list"
  t_user_roles :: "(ident \<times> ident) list"
  t_roles :: "Role list"
  t_permissions :: "Permission list"
  t_items :: "Item list"
  t_attachments :: "Attachment list"
  t_refresh_tokens :: "RefreshToken list"
  t_single_use_tokens :: "SingleUseToken list"
  t_idempotency_keys :: "IdempotencyKey list"
  t_preferences :: "UserPreferences list"
  t_request_logs :: "RequestLog list"
  t_audit_logs :: "AuditLog list"
  seqs :: "table \<Rightarrow> ident"
  tx_now :: time

definition empty_db :: database where
  "empty_db = \<lparr>t_users = [], t_user_roles = [], t_roles = [], t_permissions = [], t_items = [],
     t_attachments = [], t_refresh_tokens = [], t_single_use_tokens = [], t_idempotency_keys = [],
     t_preferences = [], t_request_logs = [], t_audit_logs = [], seqs = (\<lambda>_. 1), tx_now = 0\<rparr>"

text \<open>\<open>nextval\<close> on a table's identifier sequence.\<close>

definition bump :: "table \<Rightarrow> database \<Rightarrow> database" where
  "bump t d = d\<lparr>seqs := (seqs d)(t := seqs d t + 1)\<rparr>"

text \<open>
  The SQLSTATE of a unique violation, of a foreign key violation, and of a string longer than its
  \<open>VARCHAR\<close> column.
\<close>

abbreviation UNIQUE_VIOLATION :: str where
  "UNIQUE_VIOLATION \<equiv> ''23505''"

abbreviation FOREIGN_KEY_VIOLATION :: str where
  "FOREIGN_KEY_VIOLATION \<equiv> ''23503''"

abbreviation STRING_TRUNCATION :: str where
  "STRING_TRUNCATION \<equiv> ''22001''"

subsection \<open>Soft deletion\<close>

text \<open>\<open>SoftDeleteMixin\<close>: \<open>is_active\<close> is \<open>deleted_at IS NULL\<close>, \<open>mark_deleted\<close> stamps the clock.\<close>

definition user_is_active :: "('a) user_row_scheme \<Rightarrow> bool" where
  "user_is_active u \<longleftrightarrow> user_deleted_at u = None"

definition user_mark_deleted :: "time \<Rightarrow> ('a) user_row_scheme \<Rightarrow> ('a) user_row_scheme" where
  "user_mark_deleted now u = u\<lparr>user_deleted_at := Some now\<rparr>"

definition item_is_active :: "Item \<Rightarrow> bool" where
  "item_is_active i \<longleftrightarrow> item_deleted_at i = None"

definition item_mark_deleted :: "time \<Rightarrow> Item \<Rightarrow> Item" where
  "item_mark_deleted now i = i\<lparr>item_deleted_at := Some now\<rparr>"

section \<open>Integrity constraints\<close>

text \<open>
  The constraints of the schema, one predicate per table: primary keys, the unique constraints
  (for \<open>users\<close> the partial index on the address of active accounts), the foreign keys, and the
  lengths of the columns that a client fills.
  \<open>keyed\<close> says that identifiers are distinct and below the table's sequence.
\<close>

definition keyed :: "('r \<Rightarrow> ident) \<Rightarrow> 'r list \<Rightarrow> ident \<Rightarrow> bool" where
  "keyed k rows next \<longleftrightarrow> distinct (map k rows) \<and> (\<forall>r\<in>set rows. k r < next)"

text \<open>
  The lengths of the text columns of \<open>users\<close> and \<open>roles\<close>. A password hash is not checked: bcrypt's are 60
  characters, its column has 255.
\<close>

definition user_too_long :: "'a user_row_scheme \<Rightarrow> bool" where
  "user_too_long u \<longleftrightarrow> length (user_email u) > 255
     \<or> (case user_name u of None \<Rightarrow> False | Some n \<Rightarrow> length n > 120)"

definition role_too_long :: "Role \<Rightarrow> bool" where
  "role_too_long r \<longleftrightarrow> length (role_name r) > 50
     \<or> (case role_features r of None \<Rightarrow> False | Some f \<Rightarrow> length f > 200)"

definition wf_users :: "database \<Rightarrow> bool" where
  "wf_users d \<longleftrightarrow> keyed user_id (t_users d) (seqs d TUsers)
     \<and> distinct (map user_email (filter user_is_active (t_users d)))
     \<and> (\<forall>u\<in>set (t_users d). \<not> user_too_long u)"

definition wf_roles :: "database \<Rightarrow> bool" where
  "wf_roles d \<longleftrightarrow> keyed role_id (t_roles d) (seqs d TRoles)
     \<and> distinct (map role_name (t_roles d))
     \<and> (\<forall>r\<in>set (t_roles d). distinct (map (perm_id \<circ> grant_permission) (role_grants r)) \<and> \<not> role_too_long r)"

definition wf_links :: "database \<Rightarrow> bool" where
  "wf_links d \<longleftrightarrow> distinct (t_user_roles d)
     \<and> (\<forall>(u, r)\<in>set (t_user_roles d). u \<in> user_id ` set (t_users d) \<and> r \<in> role_id ` set (t_roles d))"

definition wf_items :: "database \<Rightarrow> bool" where
  "wf_items d \<longleftrightarrow> keyed item_id (t_items d) (seqs d TItems)
     \<and> (\<forall>i\<in>set (t_items d). item_owner_id i \<in> user_id ` set (t_users d) \<and> length (item_title i) \<le> 255)"

definition wf_refresh_tokens :: "database \<Rightarrow> bool" where
  "wf_refresh_tokens d \<longleftrightarrow> keyed rt_id (t_refresh_tokens d) (seqs d TRefreshTokens)
     \<and> distinct (map rt_token_hash (t_refresh_tokens d))
     \<and> (\<forall>t\<in>set (t_refresh_tokens d). rt_user_id t \<in> user_id ` set (t_users d))"

definition wf_single_use_tokens :: "database \<Rightarrow> bool" where
  "wf_single_use_tokens d \<longleftrightarrow> keyed sut_id (t_single_use_tokens d) (seqs d TSingleUseTokens)
     \<and> distinct (map sut_token_hash (t_single_use_tokens d))
     \<and> (\<forall>t\<in>set (t_single_use_tokens d). sut_user_id t \<in> user_id ` set (t_users d))"

section \<open>Lemmas\<close>

lemma seqs_bump [simp]: "seqs (bump t d) = (seqs d)(t := seqs d t + 1)"
  by (simp add: bump_def)

lemma bump_frame [simp]:
  "t_users (bump t d) = t_users d" "t_user_roles (bump t d) = t_user_roles d"
  "t_roles (bump t d) = t_roles d" "t_permissions (bump t d) = t_permissions d"
  "t_items (bump t d) = t_items d" "t_attachments (bump t d) = t_attachments d"
  "t_refresh_tokens (bump t d) = t_refresh_tokens d"
  "t_single_use_tokens (bump t d) = t_single_use_tokens d"
  "t_idempotency_keys (bump t d) = t_idempotency_keys d"
  "t_preferences (bump t d) = t_preferences d" "t_request_logs (bump t d) = t_request_logs d"
  "t_audit_logs (bump t d) = t_audit_logs d" "tx_now (bump t d) = tx_now d"
  by (simp_all add: bump_def)

lemma keyed_append:
  "keyed k rows n \<Longrightarrow> k r = n \<Longrightarrow> keyed k (rows @ [r]) (n + 1)"
  by (auto simp: keyed_def)

lemma keyed_map:
  assumes "\<And>r. k (f r) = k r"
  shows "keyed k (map f rows) n = keyed k rows n"
  using assms by (simp add: keyed_def comp_def)

lemma keyed_update_where:
  "(\<And>r. k (f r) = k r) \<Longrightarrow> keyed k (update_where P f rows) n = keyed k rows n"
  by (simp add: update_where_def keyed_map)

lemma keyed_delete_where: "keyed k rows n \<Longrightarrow> keyed k (delete_where P rows) n"
  by (auto simp: keyed_def distinct_map_delete_where)

lemma keyed_unique:
  "keyed k rows n \<Longrightarrow> r \<in> set rows \<Longrightarrow> r' \<in> set rows \<Longrightarrow> k r = k r' \<Longrightarrow> r = r'"
  by (auto simp: keyed_def dest: distinct_key_eq)

lemma keyed_fresh: "keyed k rows n \<Longrightarrow> r \<in> set rows \<Longrightarrow> k r \<noteq> n"
  by (auto simp: keyed_def)

end
