(* ===== verification/Authorization.thy ===== *)
theory Authorization
  imports Models "HOL-Library.AList"
begin

text \<open>
  \<open>app/core/authorization.py\<close>: which scope an account holds on a permission, who outranks whom and
  who may impersonate whom, and the base roles that \<open>app/db/seed.py\<close> writes.
\<close>

section \<open>Resources, actions and base roles\<close>

abbreviation ITEMS :: str where "ITEMS \<equiv> ''items''"
abbreviation REQUEST_LOG :: str where "REQUEST_LOG \<equiv> ''request_log''"
abbreviation USERS :: str where "USERS \<equiv> ''users''"
abbreviation ROLES :: str where "ROLES \<equiv> ''roles''"
abbreviation FEATURE_FLAGS :: str where "FEATURE_FLAGS \<equiv> ''feature_flags''"
abbreviation SETTINGS :: str where "SETTINGS \<equiv> ''settings''"
abbreviation AUDIT_LOG :: str where "AUDIT_LOG \<equiv> ''audit_log''"

abbreviation READ :: str where "READ \<equiv> ''read''"
abbreviation CREATE :: str where "CREATE \<equiv> ''create''"
abbreviation UPDATE :: str where "UPDATE \<equiv> ''update''"
abbreviation DELETE :: str where "DELETE \<equiv> ''delete''"
abbreviation IMPERSONATE :: str where "IMPERSONATE \<equiv> ''impersonate''"

definition BASE_ROLES :: "(str \<times> (str \<times> str \<times> Scope) list) list" where
  "BASE_ROLES =
    [(''user'',
      [(ITEMS, READ, ScopeOwn), (ITEMS, CREATE, ScopeOwn), (ITEMS, UPDATE, ScopeOwn),
       (ITEMS, DELETE, ScopeOwn), (REQUEST_LOG, READ, ScopeOwn),
       (FEATURE_FLAGS, READ, ScopeAll), (SETTINGS, READ, ScopeAll)]),
     (''superadmin'',
      [(ITEMS, READ, ScopeOwn), (ITEMS, CREATE, ScopeOwn), (ITEMS, UPDATE, ScopeOwn),
       (ITEMS, DELETE, ScopeOwn), (REQUEST_LOG, READ, ScopeAll), (USERS, READ, ScopeAll),
       (USERS, UPDATE, ScopeAll), (USERS, DELETE, ScopeAll), (USERS, IMPERSONATE, ScopeAll),
       (ROLES, READ, ScopeAll), (ROLES, CREATE, ScopeAll), (ROLES, UPDATE, ScopeAll),
       (ROLES, DELETE, ScopeAll), (FEATURE_FLAGS, READ, ScopeAll),
       (FEATURE_FLAGS, UPDATE, ScopeAll), (SETTINGS, READ, ScopeAll), (AUDIT_LOG, READ, ScopeAll)])]"

definition BLOCKED_WHILE_IMPERSONATING :: "(str \<times> str) set" where
  "BLOCKED_WHILE_IMPERSONATING =
    {(ROLES, CREATE), (ROLES, UPDATE), (ROLES, DELETE), (USERS, UPDATE), (USERS, DELETE),
     (USERS, IMPERSONATE), (FEATURE_FLAGS, UPDATE)}"

section \<open>Scopes\<close>

definition is_superuser :: "User \<Rightarrow> bool" where
  "is_superuser user \<longleftrightarrow> (\<exists>role\<in>set (user_roles user). role_name role = ADMIN_ROLE)"

text \<open>
  \<open>_widest\<close>: the dict that the two nested loops fill, in insertion order; an entry that is already
  \<open>all\<close> is never overwritten.
\<close>

definition grant_key :: "RolePermission \<Rightarrow> str \<times> str" where
  "grant_key g = (perm_resource (grant_permission g), perm_action (grant_permission g))"

definition widest_step ::
  "RolePermission \<Rightarrow> ((str \<times> str) \<times> Scope) list \<Rightarrow> ((str \<times> str) \<times> Scope) list" where
  "widest_step g widest =
     (if map_of widest (grant_key g) \<noteq> Some ScopeAll
      then AList.update (grant_key g) (grant_scope g) widest else widest)"

definition widest :: "User \<Rightarrow> ((str \<times> str) \<times> Scope) list" where
  "widest user = fold (\<lambda>role w. fold widest_step (role_grants role) w) (user_roles user) []"

definition scope_for :: "User \<Rightarrow> str \<Rightarrow> str \<Rightarrow> Scope option" where
  "scope_for user resource action =
     (if is_superuser user then Some ScopeAll else map_of (widest user) (resource, action))"

definition outranks :: "User \<Rightarrow> User \<Rightarrow> bool" where
  "outranks actor target \<longleftrightarrow> is_superuser actor \<or> \<not> is_superuser target"

definition may_impersonate :: "User \<Rightarrow> User \<Rightarrow> bool" where
  "may_impersonate actor target \<longleftrightarrow>
     (if scope_for actor USERS IMPERSONATE = None then False else outranks actor target)"

definition granted :: "User \<Rightarrow> (str \<times> str \<times> Scope) list" where
  "granted user =
     map (\<lambda>((resource, action), scope). (resource, action, scope))
       (sort_key (\<lambda>(key, scope). (key, scope_value scope)) (widest user))"

section \<open>Seeding\<close>

text \<open>
  \<open>seed_roles\<close>: one permission row per distinct pair, in the order the loop meets them, then one
  role per entry of \<open>BASE_ROLES\<close> with its grants.
\<close>

definition seed_pairs :: "(str \<times> str) list" where
  "seed_pairs = fold (\<lambda>(name, grants) seen.
      fold (\<lambda>(resource, action, scope) seen.
        if (resource, action) \<in> set seen then seen else seen @ [(resource, action)]) grants seen)
      BASE_ROLES []"

fun insert_permissions :: "(str \<times> str) list \<Rightarrow> database \<Rightarrow> database" where
  "insert_permissions [] d = d"
| "insert_permissions ((resource, action) # rest) d =
     insert_permissions rest (bump TPermissions
       (d\<lparr>t_permissions := t_permissions d @
          [\<lparr>perm_id = seqs d TPermissions, perm_resource = resource, perm_action = action\<rparr>]\<rparr>))"

definition seed_grants :: "Permission list \<Rightarrow> (str \<times> str \<times> Scope) list \<Rightarrow> RolePermission list" where
  "seed_grants perms grants =
     concat (map (\<lambda>(resource, action, scope).
       (case find_row (\<lambda>p. perm_resource p = resource \<and> perm_action p = action) perms of
          None \<Rightarrow> [] | Some p \<Rightarrow> [\<lparr>grant_permission = p, grant_scope = scope\<rparr>])) grants)"

fun insert_seed_roles ::
  "(str \<times> (str \<times> str \<times> Scope) list) list \<Rightarrow> database \<Rightarrow> database" where
  "insert_seed_roles [] d = d"
| "insert_seed_roles ((name, grants) # rest) d =
     insert_seed_roles rest (bump TRoles
       (d\<lparr>t_roles := t_roles d @
          [\<lparr>role_id = seqs d TRoles, role_name = name, role_features = None,
            role_grants = seed_grants (t_permissions d) grants,
            role_created_at = tx_now d, role_updated_at = tx_now d\<rparr>]\<rparr>))"

definition seed_roles :: "database \<Rightarrow> database" where
  "seed_roles d = insert_seed_roles BASE_ROLES (insert_permissions seed_pairs d)"

section \<open>The order of scopes\<close>

text \<open>\<open>own\<close> is narrower than \<open>all\<close>.\<close>

instantiation Scope :: linorder
begin

definition less_eq_Scope :: "Scope \<Rightarrow> Scope \<Rightarrow> bool" where
  "less_eq_Scope s t \<longleftrightarrow> s = ScopeOwn \<or> t = ScopeAll"

definition less_Scope :: "Scope \<Rightarrow> Scope \<Rightarrow> bool" where
  "less_Scope s t \<longleftrightarrow> s = ScopeOwn \<and> t = ScopeAll"

instance
proof
  fix x y z :: Scope
  show "x < y \<longleftrightarrow> x \<le> y \<and> \<not> y \<le> x" by (cases x; cases y) (auto simp: less_eq_Scope_def less_Scope_def)
  show "x \<le> x" by (cases x) (auto simp: less_eq_Scope_def)
  show "x \<le> y \<Longrightarrow> y \<le> z \<Longrightarrow> x \<le> z" by (auto simp: less_eq_Scope_def)
  show "x \<le> y \<Longrightarrow> y \<le> x \<Longrightarrow> x = y" by (auto simp: less_eq_Scope_def)
  show "x \<le> y \<or> y \<le> x" by (cases x; cases y) (auto simp: less_eq_Scope_def)
qed

end

lemma ScopeAll_top [simp]: "s \<le> ScopeAll" "ScopeAll \<le> s \<longleftrightarrow> s = ScopeAll"
  by (auto simp: less_eq_Scope_def)

lemma ScopeOwn_bot [simp]: "ScopeOwn \<le> s" "s \<le> ScopeOwn \<longleftrightarrow> s = ScopeOwn"
  by (cases s; auto simp: less_eq_Scope_def)+

section \<open>Scopes against their specification\<close>

text \<open>
  The specification: the set of scopes that the account's grants name for a permission; the
  effective scope is the widest of them.
\<close>

definition granted_scopes :: "User \<Rightarrow> str \<Rightarrow> str \<Rightarrow> Scope set" where
  "granted_scopes user resource action =
     {grant_scope g | role g. role \<in> set (user_roles user) \<and> g \<in> set (role_grants role)
        \<and> grant_key g = (resource, action)}"

definition widest_of :: "Scope set \<Rightarrow> Scope option" where
  "widest_of S = (if S = {} then None else Some (Max S))"

lemma finite_scopes [simp]: "finite (S :: Scope set)"
proof (rule finite_subset)
  show "S \<subseteq> {ScopeOwn, ScopeAll}" by (auto intro: Scope.exhaust)
qed simp

lemma widest_of_insert:
  "widest_of (insert s S) = (if widest_of S = Some ScopeAll then Some ScopeAll else Some s)"
proof (cases "S = {}")
  case True
  then show ?thesis by (simp add: widest_of_def)
next
  case False
  then have "Max (insert s S) = max s (Max S)" by simp
  with False show ?thesis
    by (cases s; cases "Max S") (auto simp: widest_of_def max_def)
qed

text \<open>One flat list of grants, in the order the loops visit them.\<close>

definition all_grants :: "User \<Rightarrow> RolePermission list" where
  "all_grants user = concat (map role_grants (user_roles user))"

lemma widest_fold: "widest user = fold widest_step (all_grants user) []"
proof -
  have "fold (\<lambda>role w. fold widest_step (role_grants role) w) roles w =
      fold widest_step (concat (map role_grants roles)) w" for roles w
    by (induction roles arbitrary: w) simp_all
  then show ?thesis by (simp add: widest_def all_grants_def)
qed

lemma map_of_widest_step:
  "map_of (widest_step g w) key =
     (if key = grant_key g \<and> map_of w key \<noteq> Some ScopeAll then Some (grant_scope g)
      else map_of w key)"
  by (auto simp: widest_step_def update_conv')

lemma map_of_fold_widest:
  "map_of (fold widest_step gs w) key =
     widest_of (set_option (map_of w key) \<union> grant_scope ` {g \<in> set gs. grant_key g = key})"
proof (induction gs arbitrary: w)
  case Nil
  then show ?case by (cases "map_of w key") (simp_all add: widest_of_def)
next
  case (Cons g gs)
  let ?S = "grant_scope ` {g \<in> set gs. grant_key g = key}"
  have "widest_of (set_option (map_of (widest_step g w) key) \<union> ?S) =
      widest_of (set_option (map_of w key) \<union> grant_scope ` {h \<in> set (g # gs). grant_key h = key})"
  proof (cases "grant_key g = key")
    case True
    then have set_eq: "{h \<in> set (g # gs). grant_key h = key} = insert g {g \<in> set gs. grant_key g = key}"
      by auto
    show ?thesis
    proof (cases "map_of w key")
      case None
      with True show ?thesis unfolding set_eq by (simp add: map_of_widest_step)
    next
      case (Some s)
      with True show ?thesis unfolding set_eq
        by (cases s; cases "grant_scope g")
          (simp_all add: map_of_widest_step widest_of_insert)
    qed
  next
    case False
    then have "{h \<in> set (g # gs). grant_key h = key} = {g \<in> set gs. grant_key g = key}" by auto
    with False show ?thesis by (simp add: map_of_widest_step)
  qed
  with Cons show ?case by simp
qed

lemma granted_scopes_all_grants:
  "granted_scopes user r a = grant_scope ` {g \<in> set (all_grants user). grant_key g = (r, a)}"
  by (auto simp: granted_scopes_def all_grants_def)

lemma map_of_widest: "map_of (widest user) (r, a) = widest_of (granted_scopes user r a)"
  by (simp add: widest_fold map_of_fold_widest granted_scopes_all_grants)

lemma distinct_widest: "distinct (map fst (widest user))"
proof -
  have "distinct (map fst w) \<Longrightarrow> distinct (map fst (fold widest_step gs w))" for gs w
    by (induction gs arbitrary: w) (simp_all add: widest_step_def distinct_update)
  then show ?thesis by (simp add: widest_fold)
qed

section \<open>Properties\<close>

text \<open>
  C17. The effective scope is the widest one any grant names: \<open>scope_for\<close>, which fills a dict in
  the order roles and grants are loaded and overwrites entries as it goes, equals the
  order-free specification (no grant: no scope; otherwise the maximum of the granted scopes), and a
  superuser holds \<open>all\<close> on every permission without any grant row.
\<close>

theorem scope_for_is_widest_grant:
  "scope_for user resource action =
     (if is_superuser user then Some ScopeAll else widest_of (granted_scopes user resource action))"
  by (simp add: scope_for_def map_of_widest)

lemma set_granted: "set (granted user) = {(r, a, s). widest_of (granted_scopes user r a) = Some s}"
proof -
  have "(r, a, s) \<in> set (granted user) \<longleftrightarrow> ((r, a), s) \<in> set (widest user)" for r a s
    by (force simp: granted_def)
  moreover have "((r, a), s) \<in> set (widest user) \<longleftrightarrow> map_of (widest user) (r, a) = Some s" for r a s
    using distinct_widest by (simp add: map_of_eq_Some_iff)
  ultimately show ?thesis by (auto simp: map_of_widest)
qed

lemma sorted_granted:
  "sorted (map (\<lambda>(r, a, s). (r, a)) (granted user))" (is ?sorted)
  "distinct (map (\<lambda>(r, a, s). (r, a)) (granted user))" (is ?distinct)
proof -
  let ?ws = "sort_key (\<lambda>(key, scope). (key, scope_value scope)) (widest user)"
  have keys: "map (\<lambda>(r, a, s). (r, a)) (granted user) = map fst ?ws"
    by (simp add: granted_def split_def)
  have "sorted (map (\<lambda>(key, scope). (key, scope_value scope)) ?ws)" by (rule sorted_sort_key)
  then have "sorted (map fst (map (\<lambda>(key, scope). (key, scope_value scope)) ?ws))"
    by (rule sorted_map_fst)
  then show ?sorted unfolding keys by (simp add: comp_def split_def)
  show ?distinct unfolding keys using distinct_widest [of user] by (simp add: distinct_map)
qed

end
