(* ===== verification/UserRepo.thy ===== *)
theory UserRepo
  imports Authorization
begin

text \<open>
  \<open>app/repositories/user_repo.py\<close>, \<open>app/repositories/role_repo.py\<close> and the parts of
  \<open>app/repositories/base.py\<close> they inherit: the reads and writes on \<open>users\<close>, \<open>user_roles\<close>, \<open>roles\<close>
  and \<open>permissions\<close>. A read is a function of the database; a write returns the new database, or
  the exception that the flush raises. The locale \<open>user_repository\<close> is what the services rely on.
\<close>

section \<open>Reading users\<close>

text \<open>\<open>User.roles\<close>: loaded through \<open>user_roles\<close>, ordered by name.\<close>

definition roles_of :: "ident \<Rightarrow> database \<Rightarrow> Role list" where
  "roles_of uid d =
     sort_key role_name (filter (\<lambda>r. (uid, role_id r) \<in> set (t_user_roles d)) (t_roles d))"

definition load_user :: "database \<Rightarrow> user_row \<Rightarrow> User" where
  "load_user d r = user_row.extend r (User.fields (roles_of (user_id r) d))"

definition user_get_by_email :: "str \<Rightarrow> database \<Rightarrow> User option" where
  "user_get_by_email email d =
     map_option (load_user d) (find_row (\<lambda>u. user_email u = email \<and> user_is_active u) (t_users d))"

definition user_get :: "ident \<Rightarrow> database \<Rightarrow> User option" where
  "user_get uid d =
     map_option (load_user d) (find_row (\<lambda>u. user_id u = uid \<and> user_is_active u) (t_users d))"

definition user_list_all :: "int \<Rightarrow> int \<Rightarrow> database \<Rightarrow> User list" where
  "user_list_all limit offset d =
     map (load_user d)
       (limit_offset limit offset (sort_key user_id (filter user_is_active (t_users d))))"

definition user_count_all :: "database \<Rightarrow> int" where
  "user_count_all d = count_where user_is_active (t_users d)"

definition user_count_for_role :: "ident \<Rightarrow> database \<Rightarrow> int" where
  "user_count_for_role rid d =
     count_where (\<lambda>u. (user_id u, rid) \<in> set (t_user_roles d) \<and> user_is_active u) (t_users d)"

definition user_list_for_role :: "ident \<Rightarrow> database \<Rightarrow> User list" where
  "user_list_for_role rid d =
     map (load_user d) (sort_key user_id
       (filter (\<lambda>u. (user_id u, rid) \<in> set (t_user_roles d) \<and> user_is_active u) (t_users d)))"

definition user_exists_any :: "database \<Rightarrow> bool" where
  "user_exists_any d \<longleftrightarrow> t_users d \<noteq> []"

section \<open>Writing users\<close>

text \<open>
  A transient \<open>User(\<dots>)\<close>: the constructor's arguments, the column defaults, and no identifier or
  timestamps until the insert assigns them (the zeros are never read).
\<close>

definition new_user ::
  "str \<Rightarrow> str option \<Rightarrow> str \<Rightarrow> time option \<Rightarrow> Role list \<Rightarrow> User" where
  "new_user email name hashed_password verified_at roles =
     \<lparr>user_id = 0, user_email = email, user_name = name, user_hashed_password = hashed_password,
      user_email_verified_at = verified_at, user_password_changed_at = None,
      user_deleted_at = None, user_created_at = 0, user_updated_at = 0, user_roles = roles\<rparr>"

text \<open>The partial unique index \<open>uq_users_email_active\<close>: another active row has this address.\<close>

definition email_taken_by_other :: "user_row \<Rightarrow> database \<Rightarrow> bool" where
  "email_taken_by_other r d \<longleftrightarrow> user_is_active r \<and>
     (\<exists>r'\<in>set (t_users d). user_id r' \<noteq> user_id r \<and> user_is_active r' \<and> user_email r' = user_email r)"

text \<open>\<open>create\<close>: add, flush, refresh.\<close>

definition user_create :: "User \<Rightarrow> database \<Rightarrow> (User \<times> database) result" where
  "user_create u d =
     (let row = (user_row.truncate u)\<lparr>user_id := seqs d TUsers, user_created_at := tx_now d,
                   user_updated_at := tx_now d\<rparr>;
          d' = bump TUsers (d\<lparr>t_users := t_users d @ [row],
                 t_user_roles := t_user_roles d @
                   map (\<lambda>r. (user_id row, role_id r)) (user_roles u)\<rparr>)
      in if user_too_long row then Inl (DataError STRING_TRUNCATION)
         else if email_taken_by_other row d then Inl (IntegrityError UNIQUE_VIOLATION)
         else Inr (load_user d' row, d'))"

text \<open>
  \<open>save\<close>: flush the changed columns (the \<open>onupdate\<close> stamp moves when a column changed) and the
  changed role links, then refresh. The rows of the table fit their columns, so what is too long was
  changed.
\<close>

definition relink :: "ident \<Rightarrow> ident list \<Rightarrow> (ident \<times> ident) list \<Rightarrow> (ident \<times> ident) list" where
  "relink uid rids links =
     filter (\<lambda>(u, r). u = uid \<longrightarrow> r \<in> set rids) links
     @ map (Pair uid) (filter (\<lambda>r. (uid, r) \<notin> set links) (remdups rids))"

definition user_save :: "User \<Rightarrow> database \<Rightarrow> (User \<times> database) result" where
  "user_save u d =
     (case find_row (\<lambda>r. user_id r = user_id u) (t_users d) of
        None \<Rightarrow> Inl StaleDataError
      | Some old \<Rightarrow>
          (let row = (if user_row.truncate u = old then old
                      else (user_row.truncate u)\<lparr>user_updated_at := tx_now d\<rparr>);
               d' = d\<lparr>t_users := update_where (\<lambda>r. user_id r = user_id u) (\<lambda>_. row) (t_users d),
                      t_user_roles := relink (user_id u) (map role_id (user_roles u)) (t_user_roles d)\<rparr>
           in if user_too_long row then Inl (DataError STRING_TRUNCATION)
              else if email_taken_by_other row d then Inl (IntegrityError UNIQUE_VIOLATION)
              else Inr (load_user d' row, d')))"

text \<open>\<open>soft_delete\<close>: \<open>mark_deleted\<close> and flush.\<close>

definition user_soft_delete :: "time \<Rightarrow> User \<Rightarrow> database \<Rightarrow> database result" where
  "user_soft_delete now u d = map_sum id snd (user_save (user_mark_deleted now u) d)"

section \<open>Roles and permissions\<close>

definition role_get :: "ident \<Rightarrow> database \<Rightarrow> Role option" where
  "role_get rid d = find_row (\<lambda>r. role_id r = rid) (t_roles d)"

definition role_get_by_name :: "str \<Rightarrow> database \<Rightarrow> Role option" where
  "role_get_by_name name d = find_row (\<lambda>r. role_name r = name) (t_roles d)"

definition role_list_all :: "database \<Rightarrow> Role list" where
  "role_list_all d = sort_key role_name (t_roles d)"

text \<open>
  The primary key of \<open>role_permissions\<close> is the role and the permission: two grants of one permission
  in one role violate it. The name of a role is unique.
\<close>

definition role_conflicts :: "Role \<Rightarrow> database \<Rightarrow> bool" where
  "role_conflicts r d \<longleftrightarrow>
     \<not> distinct (map (perm_id \<circ> grant_permission) (role_grants r))
     \<or> (\<exists>r'\<in>set (t_roles d). role_id r' \<noteq> role_id r \<and> role_name r' = role_name r)"

definition role_create :: "Role \<Rightarrow> database \<Rightarrow> (Role \<times> database) result" where
  "role_create r d =
     (let row = r\<lparr>role_id := seqs d TRoles, role_created_at := tx_now d, role_updated_at := tx_now d\<rparr>
      in if role_too_long row then Inl (DataError STRING_TRUNCATION)
         else if role_conflicts row d then Inl (IntegrityError UNIQUE_VIOLATION)
         else Inr (row, bump TRoles (d\<lparr>t_roles := t_roles d @ [row]\<rparr>)))"

definition role_save :: "Role \<Rightarrow> database \<Rightarrow> (Role \<times> database) result" where
  "role_save r d =
     (case role_get (role_id r) d of
        None \<Rightarrow> Inl StaleDataError
      | Some old \<Rightarrow>
          (let row = (if role_name r = role_name old \<and> role_features r = role_features old then r
                      else r\<lparr>role_updated_at := tx_now d\<rparr>)
           in if role_too_long row then Inl (DataError STRING_TRUNCATION)
              else if role_conflicts row d then Inl (IntegrityError UNIQUE_VIOLATION)
              else Inr (row, d\<lparr>t_roles := update_where (\<lambda>r'. role_id r' = role_id r) (\<lambda>_. row)
                                 (t_roles d)\<rparr>)))"

text \<open>\<open>delete\<close>; the foreign key of \<open>user_roles\<close> cascades.\<close>

definition role_delete :: "Role \<Rightarrow> database \<Rightarrow> database" where
  "role_delete r d =
     d\<lparr>t_roles := delete_where (\<lambda>r'. role_id r' = role_id r) (t_roles d),
       t_user_roles := delete_where (\<lambda>(u, rid). rid = role_id r) (t_user_roles d)\<rparr>"

definition permission_get :: "str \<Rightarrow> str \<Rightarrow> database \<Rightarrow> Permission option" where
  "permission_get resource action d =
     find_row (\<lambda>p. perm_resource p = resource \<and> perm_action p = action) (t_permissions d)"

definition permission_list_all :: "database \<Rightarrow> Permission list" where
  "permission_list_all d = sort_key (\<lambda>p. (perm_resource p, perm_action p)) (t_permissions d)"

section \<open>Lemmas on loaded users\<close>

lemma load_user_simps [simp]:
  "user_id (load_user d r) = user_id r" "user_email (load_user d r) = user_email r"
  "user_name (load_user d r) = user_name r"
  "user_hashed_password (load_user d r) = user_hashed_password r"
  "user_email_verified_at (load_user d r) = user_email_verified_at r"
  "user_password_changed_at (load_user d r) = user_password_changed_at r"
  "user_deleted_at (load_user d r) = user_deleted_at r"
  "user_roles (load_user d r) = roles_of (user_id r) d"
  "user_is_active (load_user d r) = user_is_active r"
  "user_too_long (load_user d r) = user_too_long r" "user_row.truncate (load_user d r) = r"
  by (cases r; simp add: load_user_def user_row.defs User.defs user_is_active_def user_too_long_def)+

lemma truncate_simps [simp]:
  "user_id (user_row.truncate u) = user_id u" "user_email (user_row.truncate u) = user_email u"
  "user_name (user_row.truncate u) = user_name u"
  "user_hashed_password (user_row.truncate u) = user_hashed_password u"
  "user_email_verified_at (user_row.truncate u) = user_email_verified_at u"
  "user_password_changed_at (user_row.truncate u) = user_password_changed_at u"
  "user_deleted_at (user_row.truncate u) = user_deleted_at u"
  "user_is_active (user_row.truncate u) = user_is_active u"
  "user_too_long (user_row.truncate u) = user_too_long u"
  by (simp_all add: user_row.defs user_is_active_def user_too_long_def)

lemma user_too_long_simps [simp]:
  "user_too_long (u\<lparr>user_id := i\<rparr>) = user_too_long u"
  "user_too_long (u\<lparr>user_hashed_password := h\<rparr>) = user_too_long u"
  "user_too_long (u\<lparr>user_email_verified_at := t\<rparr>) = user_too_long u"
  "user_too_long (u\<lparr>user_password_changed_at := t\<rparr>) = user_too_long u"
  "user_too_long (u\<lparr>user_deleted_at := t\<rparr>) = user_too_long u"
  "user_too_long (u\<lparr>user_created_at := c\<rparr>) = user_too_long u"
  "user_too_long (u\<lparr>user_updated_at := c\<rparr>) = user_too_long u"
  "user_too_long (user_mark_deleted c u) = user_too_long u"
  by (simp_all add: user_too_long_def user_mark_deleted_def)

lemma user_too_long_roles [simp]: "user_too_long ((u :: User)\<lparr>user_roles := rs\<rparr>) = user_too_long u"
  by (simp add: user_too_long_def)

lemma set_roles_of: "set (roles_of uid d) = {r \<in> set (t_roles d). (uid, role_id r) \<in> set (t_user_roles d)}"
  by (auto simp: roles_of_def)

lemma roles_of_cong:
  assumes "t_roles d = t_roles d'"
    and "\<And>rid. (uid, rid) \<in> set (t_user_roles d) \<longleftrightarrow> (uid, rid) \<in> set (t_user_roles d')"
  shows "roles_of uid d = roles_of uid d'"
  using assms by (simp add: roles_of_def)

section \<open>The account tables and their invariant\<close>

definition wf_accounts :: "database \<Rightarrow> bool" where
  "wf_accounts d \<longleftrightarrow> wf_users d \<and> wf_roles d \<and> wf_links d"

lemma wf_accountsD:
  "wf_accounts d \<Longrightarrow> wf_users d" "wf_accounts d \<Longrightarrow> wf_roles d" "wf_accounts d \<Longrightarrow> wf_links d"
  by (simp_all add: wf_accounts_def)

lemma wf_users_id_unique:
  "wf_users d \<Longrightarrow> r \<in> set (t_users d) \<Longrightarrow> r' \<in> set (t_users d) \<Longrightarrow> user_id r = user_id r' \<Longrightarrow> r = r'"
  by (auto simp: wf_users_def dest: keyed_unique)

lemma wf_users_email_unique:
  assumes "wf_users d" "r \<in> set (t_users d)" "r' \<in> set (t_users d)"
    and "user_is_active r" "user_is_active r'" "user_email r = user_email r'"
  shows "r = r'"
  using assms distinct_key_eq [of user_email "filter user_is_active (t_users d)" r r']
  by (simp add: wf_users_def)

lemma user_get_iff:
  assumes "wf_users d"
  shows "user_get uid d = Some u \<longleftrightarrow>
    (\<exists>r\<in>set (t_users d). user_id r = uid \<and> user_is_active r \<and> u = load_user d r)" (is "?l \<longleftrightarrow> ?r")
proof
  assume ?l
  then show ?r by (auto simp: user_get_def dest!: find_row_SomeD)
next
  assume ?r
  then obtain r where r: "r \<in> set (t_users d)" "user_id r = uid" "user_is_active r" "u = load_user d r"
    by blast
  then have "find_row (\<lambda>u. user_id u = uid \<and> user_is_active u) (t_users d) = Some r"
    using assms by (intro find_row_unique) (auto intro: wf_users_id_unique)
  with r show ?l by (simp add: user_get_def)
qed

lemma user_get_by_email_iff:
  assumes "wf_users d"
  shows "user_get_by_email e d = Some u \<longleftrightarrow>
    (\<exists>r\<in>set (t_users d). user_email r = e \<and> user_is_active r \<and> u = load_user d r)" (is "?l \<longleftrightarrow> ?r")
proof
  assume ?l
  then show ?r by (auto simp: user_get_by_email_def dest!: find_row_SomeD)
next
  assume ?r
  then obtain r where r: "r \<in> set (t_users d)" "user_email r = e" "user_is_active r" "u = load_user d r"
    by blast
  then have "find_row (\<lambda>u. user_email u = e \<and> user_is_active u) (t_users d) = Some r"
    using assms by (intro find_row_unique) (auto intro: wf_users_email_unique)
  with r show ?l by (simp add: user_get_by_email_def)
qed

lemma user_get_None_iff:
  "user_get uid d = None \<longleftrightarrow> (\<forall>r\<in>set (t_users d). user_id r = uid \<longrightarrow> \<not> user_is_active r)"
  by (auto simp: user_get_def find_row_None_iff)

lemma user_get_by_email_None_iff:
  "user_get_by_email e d = None \<longleftrightarrow> (\<forall>r\<in>set (t_users d). user_email r = e \<longrightarrow> \<not> user_is_active r)"
  by (auto simp: user_get_by_email_def find_row_None_iff)

lemma role_get_by_name_SomeD: "role_get_by_name n d = Some r \<Longrightarrow> r \<in> set (t_roles d) \<and> role_name r = n"
  by (auto simp: role_get_by_name_def dest: find_row_SomeD)

lemma role_get_SomeD: "role_get i d = Some r \<Longrightarrow> r \<in> set (t_roles d) \<and> role_id r = i"
  by (auto simp: role_get_def dest: find_row_SomeD)

lemma wf_roles_id_unique:
  "wf_roles d \<Longrightarrow> r \<in> set (t_roles d) \<Longrightarrow> r' \<in> set (t_roles d) \<Longrightarrow> role_id r = role_id r' \<Longrightarrow> r = r'"
  by (auto simp: wf_roles_def dest: keyed_unique)

lemma wf_roles_name_unique:
  "wf_roles d \<Longrightarrow> r \<in> set (t_roles d) \<Longrightarrow> r' \<in> set (t_roles d) \<Longrightarrow> role_name r = role_name r' \<Longrightarrow> r = r'"
  by (auto simp: wf_roles_def dest: distinct_key_eq)

lemma role_get_by_name_iff:
  assumes "wf_roles d"
  shows "role_get_by_name n d = Some r \<longleftrightarrow> r \<in> set (t_roles d) \<and> role_name r = n"
proof
  assume "r \<in> set (t_roles d) \<and> role_name r = n"
  then show "role_get_by_name n d = Some r"
    unfolding role_get_by_name_def using assms
    by (intro find_row_unique) (auto intro: wf_roles_name_unique)
qed (rule role_get_by_name_SomeD)

lemma role_get_iff:
  assumes "wf_roles d"
  shows "role_get i d = Some r \<longleftrightarrow> r \<in> set (t_roles d) \<and> role_id r = i"
proof
  assume "r \<in> set (t_roles d) \<and> role_id r = i"
  then show "role_get i d = Some r"
    unfolding role_get_def using assms
    by (intro find_row_unique) (auto intro: wf_roles_id_unique)
qed (rule role_get_SomeD)

subsection \<open>Creating an account\<close>

lemma user_create_shape:
  assumes "user_create u d = Inr (u', d')"
  obtains row where "row = (user_row.truncate u)\<lparr>user_id := seqs d TUsers, user_created_at := tx_now d,
                   user_updated_at := tx_now d\<rparr>"
    and "\<not> email_taken_by_other row d" "\<not> user_too_long row"
    and "d' = bump TUsers (d\<lparr>t_users := t_users d @ [row],
           t_user_roles := t_user_roles d @ map (\<lambda>r. (user_id row, role_id r)) (user_roles u)\<rparr>)"
    and "u' = load_user d' row"
  using assms by (auto simp: user_create_def Let_def split: if_splits)

lemma user_create_wf:
  assumes "wf_accounts d" and "user_create u d = Inr (u', d')"
    and roles: "set (user_roles u) \<subseteq> set (t_roles d)" "distinct (map role_id (user_roles u))"
  shows "wf_accounts d'"
  using assms(2)
proof (rule user_create_shape)
  fix row
  assume row: "row = (user_row.truncate u)\<lparr>user_id := seqs d TUsers, user_created_at := tx_now d,
                   user_updated_at := tx_now d\<rparr>"
    and free: "\<not> email_taken_by_other row d" "\<not> user_too_long row"
    and d': "d' = bump TUsers (d\<lparr>t_users := t_users d @ [row],
           t_user_roles := t_user_roles d @ map (\<lambda>r. (user_id row, role_id r)) (user_roles u)\<rparr>)"
  from assms(1) have wf: "wf_users d" "wf_roles d" "wf_links d" by (simp_all add: wf_accounts_def)
  have id: "user_id row = seqs d TUsers" by (simp add: row)
  have fresh: "r \<in> set (t_users d) \<Longrightarrow> user_id r \<noteq> user_id row" for r
    using wf(1) id by (auto simp: wf_users_def dest: keyed_fresh)
  have "wf_users d'"
    using wf(1) free fresh id
    by (auto simp: d' wf_users_def keyed_append email_taken_by_other_def)
  moreover have "wf_roles d'" using wf(2) by (simp add: d' wf_roles_def)
  moreover have "wf_links d'"
  proof -
    have "(user_id row, r) \<notin> set (t_user_roles d)" for r
      using wf(3) fresh by (fastforce simp: wf_links_def)
    moreover have "distinct (map (\<lambda>r. (user_id row, role_id r)) (user_roles u))"
      using roles(2) by (simp add: distinct_map inj_on_def)
    ultimately show ?thesis
      using wf(3) roles(1) by (fastforce simp: d' wf_links_def)
  qed
  ultimately show ?thesis by (simp add: wf_accounts_def)
qed

lemma user_create_get:
  assumes wf: "wf_accounts d" and create: "user_create u d = Inr (u', d')"
  shows "user_id u' = seqs d TUsers \<and> user_email u' = user_email u \<and>
      user_hashed_password u' = user_hashed_password u \<and> user_name u' = user_name u \<and>
      user_email_verified_at u' = user_email_verified_at u \<and>
      user_password_changed_at u' = user_password_changed_at u \<and>
      set (user_roles u') = {r \<in> set (t_roles d). role_id r \<in> role_id ` set (user_roles u)} \<and>
      user_is_active u' = user_is_active u \<and>
      (\<forall>uid. uid \<noteq> user_id u' \<longrightarrow> user_get uid d' = user_get uid d) \<and>
      (user_is_active u \<longrightarrow> user_get (user_id u') d' = Some u')"
  using create
proof (rule user_create_shape)
  fix row
  assume row: "row = (user_row.truncate u)\<lparr>user_id := seqs d TUsers, user_created_at := tx_now d,
                   user_updated_at := tx_now d\<rparr>"
    and d': "d' = bump TUsers (d\<lparr>t_users := t_users d @ [row],
           t_user_roles := t_user_roles d @ map (\<lambda>r. (user_id row, role_id r)) (user_roles u)\<rparr>)"
    and u': "u' = load_user d' row"
  have id: "user_id row = seqs d TUsers" by (simp add: row)
  have fresh: "r \<in> set (t_users d) \<Longrightarrow> user_id r \<noteq> seqs d TUsers" for r
    using wf by (auto simp: wf_accounts_def wf_users_def dest: keyed_fresh)
  have nolink: "(seqs d TUsers, r) \<notin> set (t_user_roles d)" for r
    using wf fresh by (fastforce simp: wf_accounts_def wf_links_def)
  have other: "user_id r \<noteq> seqs d TUsers \<Longrightarrow> load_user d' r = load_user d r" for r
    by (auto simp: load_user_def d' id intro!: arg_cong [where f = "\<lambda>x. user_row.extend r (User.fields x)"] roles_of_cong)
  have "set (user_roles u') = {r \<in> set (t_roles d). role_id r \<in> role_id ` set (user_roles u)}"
    using nolink by (auto simp: u' d' set_roles_of id)
  moreover have "user_get uid d' = user_get uid d" if "uid \<noteq> seqs d TUsers" for uid
  proof -
    have "find_row (\<lambda>u. user_id u = uid \<and> user_is_active u) (t_users d') =
        find_row (\<lambda>u. user_id u = uid \<and> user_is_active u) (t_users d)"
      using that by (simp add: d' find_row_append id split: option.split)
    then show ?thesis
      using that by (auto simp: user_get_def dest!: find_row_SomeD intro!: option.map_cong other)
  qed
  moreover have "user_get (user_id u') d' = Some u'" if "user_is_active u"
  proof -
    have "find_row (\<lambda>r. user_id r = seqs d TUsers \<and> user_is_active r) (t_users d) = None"
      using fresh by (auto simp: find_row_None_iff)
    then show ?thesis using that by (simp add: user_get_def u' id d' find_row_append row user_is_active_def)
  qed
  ultimately show ?thesis by (simp add: u' row user_is_active_def)
qed

lemma user_create_succeeds:
  assumes "user_get_by_email (user_email u) d = None" "\<not> user_too_long u"
  shows "\<exists>u' d'. user_create u d = Inr (u', d')"
  using assms by (auto simp: user_create_def Let_def email_taken_by_other_def user_get_by_email_None_iff)

subsection \<open>Saving an account\<close>

lemma set_relink:
  "(u, r) \<in> set (relink uid rids links) \<longleftrightarrow> (if u = uid then r \<in> set rids else (u, r) \<in> set links)"
  by (auto simp: relink_def)

lemma distinct_relink: "distinct links \<Longrightarrow> distinct (relink uid rids links)"
  by (auto simp: relink_def distinct_map inj_on_def)

lemma user_save_shape:
  assumes "user_save u d = Inr (u', d')"
  obtains old row where "old \<in> set (t_users d)" "user_id old = user_id u"
    and "row = user_row.truncate u \<or> row = (user_row.truncate u)\<lparr>user_updated_at := tx_now d\<rparr>"
    and "\<not> email_taken_by_other row d" "\<not> user_too_long row"
    and "d' = d\<lparr>t_users := update_where (\<lambda>r. user_id r = user_id u) (\<lambda>_. row) (t_users d),
           t_user_roles := relink (user_id u) (map role_id (user_roles u)) (t_user_roles d)\<rparr>"
    and "u' = load_user d' row"
proof -
  obtain old where f: "find_row (\<lambda>r. user_id r = user_id u) (t_users d) = Some old"
    using assms by (auto simp: user_save_def split: option.splits)
  let ?row = "if user_row.truncate u = old then old else (user_row.truncate u)\<lparr>user_updated_at := tx_now d\<rparr>"
  have "\<not> user_too_long ?row \<and> \<not> email_taken_by_other ?row d \<and> u' = load_user d' ?row
      \<and> d' = d\<lparr>t_users := update_where (\<lambda>r. user_id r = user_id u) (\<lambda>_. ?row) (t_users d),
           t_user_roles := relink (user_id u) (map role_id (user_roles u)) (t_user_roles d)\<rparr>"
    using assms unfolding user_save_def f option.case Let_def by (auto split: if_split_asm)
  then show ?thesis
    using find_row_SomeD [OF f] by (intro that [of old ?row]) auto
qed

lemma set_replace_row:
  "set (update_where (\<lambda>r. k r = i) (\<lambda>_. row) rows) =
     {r \<in> set rows. k r \<noteq> i} \<union> (if \<exists>r\<in>set rows. k r = i then {row} else {})"
  by (auto simp: set_update_where)

lemma find_row_replace:
  "\<not> P row \<Longrightarrow> (\<And>x. P x \<Longrightarrow> k x \<noteq> i) \<Longrightarrow>
   find_row P (update_where (\<lambda>x. k x = i) (\<lambda>_. row) xs) = find_row P xs"
  by (induction xs) (auto simp: update_where_def)

lemma map_filter_replace:
  assumes "distinct (map f (filter P xs))" and "distinct (map k xs)"
    and "P row \<Longrightarrow> \<forall>x\<in>set xs. k x \<noteq> i \<longrightarrow> P x \<longrightarrow> f x \<noteq> f row"
  shows "distinct (map f (filter P (update_where (\<lambda>x. k x = i) (\<lambda>_. row) xs)))"
  using assms
proof (induction xs)
  case Nil
  then show ?case by (simp add: update_where_def)
next
  case (Cons x xs)
  show ?case
  proof (cases "k x = i")
    case True
    have ne: "k y \<noteq> i" if "y \<in> set xs" for y
      using Cons.prems(2) True imageI [OF that, of k] by auto
    have tail: "update_where (\<lambda>x. k x = i) (\<lambda>_. row) xs = xs"
      by (rule update_where_id) (rule ne)
    have "update_where (\<lambda>x. k x = i) (\<lambda>_. row) (x # xs) = row # xs"
      using True tail by (simp add: update_where_def)
    moreover have "f row \<notin> f ` set (filter P xs)" if "P row"
      using Cons.prems(3) [OF that] ne by (auto dest: sym)
    ultimately show ?thesis using Cons.prems(1) by (auto split: if_splits)
  next
    case False
    have "f x \<notin> f ` set (filter P (update_where (\<lambda>x. k x = i) (\<lambda>_. row) xs))" if "P x"
      using Cons.prems that False by (auto simp: set_replace_row split: if_splits)
    moreover have "distinct (map f (filter P (update_where (\<lambda>x. k x = i) (\<lambda>_. row) xs)))"
      using Cons.prems by (intro Cons.IH) (auto split: if_splits)
    ultimately show ?thesis using False by (simp add: update_where_def)
  qed
qed

lemma user_save_wf:
  assumes wf: "wf_accounts d" and save: "user_save u d = Inr (u', d')"
    and roles: "set (user_roles u) \<subseteq> set (t_roles d)"
  shows "wf_accounts d'"
  using save
proof (rule user_save_shape)
  fix old row
  assume old: "old \<in> set (t_users d)" "user_id old = user_id u"
    and row: "row = user_row.truncate u \<or> row = (user_row.truncate u)\<lparr>user_updated_at := tx_now d\<rparr>"
    and free: "\<not> email_taken_by_other row d" "\<not> user_too_long row"
    and d': "d' = d\<lparr>t_users := update_where (\<lambda>r. user_id r = user_id u) (\<lambda>_. row) (t_users d),
           t_user_roles := relink (user_id u) (map role_id (user_roles u)) (t_user_roles d)\<rparr>"
  from wf have w: "wf_users d" "wf_roles d" "wf_links d" by (simp_all add: wf_accounts_def)
  have id: "user_id row = user_id u" using row by auto
  have rows: "set (t_users d') = {r \<in> set (t_users d). user_id r \<noteq> user_id u} \<union> {row}"
    using old by (auto simp: d' set_replace_row)
  have ids: "map user_id (t_users d') = map user_id (t_users d)"
    using id by (auto simp: d' update_where_def)
  have "wf_users d'"
  proof -
    have sq: "seqs d' = seqs d" by (simp add: d')
    have "user_id row < seqs d TUsers" using w(1) old id by (auto simp: wf_users_def keyed_def)
    then have "keyed user_id (t_users d') (seqs d' TUsers)"
      using w(1) rows by (auto simp: wf_users_def keyed_def ids sq)
    moreover have "distinct (map user_email (filter user_is_active (t_users d')))"
      unfolding d' using w(1) free id
      by (simp, intro map_filter_replace) (auto simp: wf_users_def keyed_def email_taken_by_other_def)
    moreover have "\<forall>r\<in>set (t_users d'). \<not> user_too_long r"
      using w(1) rows free(2) by (auto simp: wf_users_def)
    ultimately show ?thesis by (simp add: wf_users_def)
  qed
  moreover have "wf_roles d'" using w(2) by (simp add: d' wf_roles_def)
  moreover have "wf_links d'"
  proof -
    have "user_id ` set (t_users d') = user_id ` set (t_users d)"
      using ids by (metis list.set_map)
    then show ?thesis
      using w(3) roles old id
      by (auto simp: wf_links_def distinct_relink set_relink d' split: if_splits)
        (force+)
  qed
  ultimately show ?thesis by (simp add: wf_accounts_def)
qed

lemma user_save_get:
  assumes wf: "wf_accounts d" and save: "user_save u d = Inr (u', d')"
    and roles: "set (user_roles u) \<subseteq> set (t_roles d)"
  shows "user_id u' = user_id u \<and> user_email u' = user_email u \<and> user_name u' = user_name u \<and>
      user_hashed_password u' = user_hashed_password u \<and>
      user_email_verified_at u' = user_email_verified_at u \<and>
      user_password_changed_at u' = user_password_changed_at u \<and>
      user_deleted_at u' = user_deleted_at u \<and> set (user_roles u') = set (user_roles u) \<and>
      (\<forall>uid. uid \<noteq> user_id u \<longrightarrow> user_get uid d' = user_get uid d) \<and>
      user_get (user_id u) d' = (if user_is_active u then Some u' else None)"
  using save
proof (rule user_save_shape)
  fix old row
  assume old: "old \<in> set (t_users d)" "user_id old = user_id u"
    and row: "row = user_row.truncate u \<or> row = (user_row.truncate u)\<lparr>user_updated_at := tx_now d\<rparr>"
    and d': "d' = d\<lparr>t_users := update_where (\<lambda>r. user_id r = user_id u) (\<lambda>_. row) (t_users d),
           t_user_roles := relink (user_id u) (map role_id (user_roles u)) (t_user_roles d)\<rparr>"
    and u': "u' = load_user d' row"
  have w: "wf_roles d" "wf_users d'"
    using wf user_save_wf [OF wf save roles] by (simp_all add: wf_accounts_def)
  have id: "user_id row = user_id u" using row by auto
  have rows: "set (t_users d') = {r \<in> set (t_users d). user_id r \<noteq> user_id u} \<union> {row}"
    using old by (auto simp: d' set_replace_row)
  have other: "user_id r \<noteq> user_id u \<Longrightarrow> load_user d' r = load_user d r" for r
    by (auto simp: load_user_def d' set_relink intro!: arg_cong [where f = "\<lambda>x. user_row.extend r (User.fields x)"] roles_of_cong)
  have "set (user_roles u') = set (user_roles u)"
    using roles w(1) by (auto simp: u' id set_roles_of d' set_relink dest: wf_roles_id_unique)
  moreover have "user_get uid d' = user_get uid d" if "uid \<noteq> user_id u" for uid
  proof -
    have "find_row (\<lambda>r. user_id r = uid \<and> user_is_active r) (t_users d') =
        find_row (\<lambda>r. user_id r = uid \<and> user_is_active r) (t_users d)"
      unfolding d' using that id by (simp, intro find_row_replace) auto
    then show ?thesis
      using that by (auto simp: user_get_def dest!: find_row_SomeD intro!: option.map_cong other)
  qed
  moreover have "user_get (user_id u) d' = (if user_is_active u then Some u' else None)"
  proof -
    have act: "user_is_active row = user_is_active u" using row by (auto simp: user_is_active_def)
    then show ?thesis
      using rows id by (auto simp: user_get_iff [OF w(2)] user_get_None_iff u')
  qed
  ultimately show ?thesis using row by (auto simp: u')
qed

text \<open>A write on one row of \<open>users\<close> leaves every other table as it was.\<close>

lemma user_save_frame:
  assumes "user_save u d = Inr (u', d')"
  shows "t_roles d' = t_roles d \<and> t_permissions d' = t_permissions d \<and> t_items d' = t_items d \<and>
    t_attachments d' = t_attachments d \<and> t_refresh_tokens d' = t_refresh_tokens d \<and>
    t_single_use_tokens d' = t_single_use_tokens d \<and> t_idempotency_keys d' = t_idempotency_keys d \<and>
    t_preferences d' = t_preferences d \<and> seqs d' = seqs d \<and> tx_now d' = tx_now d \<and>
    map user_id (t_users d') = map user_id (t_users d)"
  using assms
  by (rule user_save_shape) (auto simp: update_where_def)

lemma user_create_frame:
  assumes "user_create u d = Inr (u', d')"
  shows "t_roles d' = t_roles d \<and> t_permissions d' = t_permissions d \<and> t_items d' = t_items d \<and>
    t_attachments d' = t_attachments d \<and> t_refresh_tokens d' = t_refresh_tokens d \<and>
    t_single_use_tokens d' = t_single_use_tokens d \<and> t_idempotency_keys d' = t_idempotency_keys d \<and>
    t_preferences d' = t_preferences d \<and> tx_now d' = tx_now d"
  using assms by (rule user_create_shape) auto

lemma user_save_succeeds:
  assumes "wf_accounts d" "r \<in> set (t_users d)" "user_id r = user_id u"
    and "user_is_active u \<Longrightarrow> user_email u = user_email r \<and> user_is_active r \<or> user_get_by_email (user_email u) d = None"
    and "\<not> user_too_long u"
  shows "\<exists>u' d'. user_save u d = Inr (u', d')"
proof -
  have "find_row (\<lambda>r. user_id r = user_id u) (t_users d) = Some r"
    using assms(1-3) by (intro find_row_unique) (auto simp: wf_accounts_def intro: wf_users_id_unique)
  moreover have "\<not> email_taken_by_other row d \<and> \<not> user_too_long row"
    if "row = r \<and> user_row.truncate u = r \<or> row = (user_row.truncate u)\<lparr>user_updated_at := tx_now d\<rparr>" for row
  proof -
    have "user_id row = user_id r" "user_email row = user_email u" "user_is_active row = user_is_active u"
      "\<not> user_too_long row"
      using that assms(3,5) by (auto simp: user_is_active_def user_too_long_def)
    then show ?thesis
      using assms wf_users_email_unique [OF wf_accountsD(1) [OF assms(1)] assms(2)]
      by (auto simp: email_taken_by_other_def user_get_by_email_None_iff) (metis)
  qed
  ultimately show ?thesis by (auto simp: user_save_def Let_def)
qed

section \<open>The interface the services use\<close>

text \<open>
  \<open>UserRepositoryProtocol\<close> of \<open>app/services/protocols.py\<close> with the laws that the services rely on.
  \<open>assignable\<close> says that the roles of an account are rows of the store, which holds of every role
  that the role repository answered. \<open>account_fields\<close> is what an account is apart from its
  identifier and its timestamps.
\<close>

definition account_fields ::
  "User \<Rightarrow> str \<times> str option \<times> str \<times> time option \<times> time option \<times> Role set" where
  "account_fields u = (user_email u, user_name u, user_hashed_password u, user_email_verified_at u,
     user_password_changed_at u, set (user_roles u))"

lemma account_fields_eq [simp]:
  "account_fields u = account_fields v \<longleftrightarrow> user_email u = user_email v \<and> user_name u = user_name v \<and>
    user_hashed_password u = user_hashed_password v \<and>
    user_email_verified_at u = user_email_verified_at v \<and>
    user_password_changed_at u = user_password_changed_at v \<and> set (user_roles u) = set (user_roles v)"
  by (auto simp: account_fields_def)

locale user_repository =
  fixes get :: "ident \<Rightarrow> 's \<Rightarrow> User option"
    and get_by_email :: "str \<Rightarrow> 's \<Rightarrow> User option"
    and create :: "User \<Rightarrow> 's \<Rightarrow> (User \<times> 's) result"
    and save :: "User \<Rightarrow> 's \<Rightarrow> (User \<times> 's) result"
    and soft_delete :: "time \<Rightarrow> User \<Rightarrow> 's \<Rightarrow> 's result"
    and inv :: "'s \<Rightarrow> bool"
    and assignable :: "User \<Rightarrow> 's \<Rightarrow> bool"
  assumes get_found: "inv s \<Longrightarrow> get i s = Some u \<Longrightarrow> user_id u = i \<and> user_is_active u \<and> assignable u s \<and> \<not> user_too_long u"
    and get_by_email_iff:
      "inv s \<Longrightarrow> get_by_email e s = Some u \<longleftrightarrow> user_email u = e \<and> get (user_id u) s = Some u"
    and create_ok: "get_by_email (user_email u) s = None \<Longrightarrow> \<not> user_too_long u \<Longrightarrow> \<exists>u' s'. create u s = Inr (u', s')"
    and create_law: "inv s \<Longrightarrow> assignable u s \<Longrightarrow> user_is_active u \<Longrightarrow> create u s = Inr (u', s') \<Longrightarrow>
      inv s' \<and> account_fields u' = account_fields u \<and> get (user_id u') s = None \<and>
      (\<forall>i. get i s' = (if i = user_id u' then Some u' else get i s))"
    and create_refused: "inv s \<Longrightarrow> user_is_active u \<Longrightarrow> get_by_email (user_email u) s \<noteq> None \<Longrightarrow>
      \<not> user_too_long u \<Longrightarrow> create u s = Inl (IntegrityError UNIQUE_VIOLATION)"
    and save_ok: "inv s \<Longrightarrow> get (user_id u) s = Some u0 \<Longrightarrow>
      user_email u = user_email u0 \<or> get_by_email (user_email u) s = None \<Longrightarrow> \<not> user_too_long u \<Longrightarrow>
      \<exists>u' s'. save u s = Inr (u', s')"
    and save_law: "inv s \<Longrightarrow> assignable u s \<Longrightarrow> user_is_active u \<Longrightarrow> get (user_id u) s \<noteq> None \<Longrightarrow>
      save u s = Inr (u', s') \<Longrightarrow>
      inv s' \<and> user_id u' = user_id u \<and> account_fields u' = account_fields u \<and>
      (\<forall>i. get i s' = (if i = user_id u then Some u' else get i s))"
    and soft_delete_law: "inv s \<Longrightarrow> get (user_id u) s = Some u \<Longrightarrow>
      \<exists>s'. soft_delete now u s = Inr s' \<and> inv s' \<and>
        (\<forall>i. get i s' = (if i = user_id u then None else get i s))"
begin

lemma email_unique:
  assumes "inv s" "get i s = Some u" "get j s = Some v" "user_email u = user_email v"
  shows "u = v"
proof -
  have "get_by_email (user_email u) s = Some u" "get_by_email (user_email u) s = Some v"
    using assms get_found [OF assms(1)] by (auto simp: get_by_email_iff)
  then show ?thesis by simp
qed

lemma get_by_email_after_create:
  assumes "inv s" "assignable u s" "user_is_active u" "create u s = Inr (u', s')"
  shows "get_by_email e s' = (if e = user_email u then Some u' else get_by_email e s)"
proof -
  note law = create_law [OF assms]
  show ?thesis
  proof (cases "e = user_email u")
    case True
    then show ?thesis using law by (simp add: get_by_email_iff)
  next
    case False
    then have "get_by_email e s' = Some v \<longleftrightarrow> get_by_email e s = Some v" for v
      using law assms(1) by (auto simp: get_by_email_iff)
    with False show ?thesis by (simp add: option_eqI)
  qed
qed

lemma get_by_email_after_soft_delete:
  assumes "inv s" "get (user_id u) s = Some u" "soft_delete now u s = Inr s'"
  shows "inv s'" "get_by_email e s' = (if e = user_email u then None else get_by_email e s)"
proof -
  from soft_delete_law [OF assms(1,2), of now] assms(3)
  have inv': "inv s'" and get': "\<And>i. get i s' = (if i = user_id u then None else get i s)" by auto
  show "inv s'" by (rule inv')
  have "get_by_email e s' = Some v \<longleftrightarrow> e \<noteq> user_email u \<and> get_by_email e s = Some v" for v
  proof -
    have "user_email v = user_email u \<longleftrightarrow> user_id v = user_id u" if v: "get (user_id v) s = Some v"
    proof
      assume "user_email v = user_email u"
      with v have "v = u" by (rule email_unique [OF assms(1) _ assms(2)])
      then show "user_id v = user_id u" by simp
    next
      assume "user_id v = user_id u"
      with v assms(2) have "v = u" by (metis option.inject)
      then show "user_email v = user_email u" by simp
    qed
    then show ?thesis
      unfolding get_by_email_iff [OF inv'] get_by_email_iff [OF assms(1)] get' by auto
  qed
  then show "get_by_email e s' = (if e = user_email u then None else get_by_email e s)"
    by (intro option_eqI) simp
qed

text \<open>A closed account frees its address, and the account that takes it is a new one.\<close>

lemma create_after_soft_delete:
  assumes "inv s" "get (user_id u) s = Some u" "soft_delete now u s = Inr s'"
    and "user_email v = user_email u" "\<not> user_too_long v"
  shows "\<exists>v' s''. create v s' = Inr (v', s'')"
  using get_by_email_after_soft_delete [OF assms(1-3)] assms(4,5) by (intro create_ok) simp_all

text \<open>Saving an account under its own address never collides and changes no other lookup.\<close>

lemma save_same_email:
  assumes "inv s" "assignable u s" "user_is_active u" "get (user_id u) s = Some u0"
    and "user_email u = user_email u0" "\<not> user_too_long u"
  obtains u' s' where "save u s = Inr (u', s')" "inv s'" "user_id u' = user_id u"
    "account_fields u' = account_fields u"
    "\<And>i. get i s' = (if i = user_id u then Some u' else get i s)"
proof -
  obtain u' s' where s: "save u s = Inr (u', s')" using save_ok assms by metis
  with save_law [OF assms(1-3) _ s] assms(4) show ?thesis by (intro that [OF s]) auto
qed

end

definition assignable :: "User \<Rightarrow> database \<Rightarrow> bool" where
  "assignable u d \<longleftrightarrow> set (user_roles u) \<subseteq> set (t_roles d) \<and> distinct (map role_id (user_roles u))"

lemma assignable_load_user: "wf_roles d \<Longrightarrow> assignable (load_user d r) d"
  by (auto simp: assignable_def set_roles_of roles_of_def wf_roles_def keyed_def distinct_map
      inj_on_def)

interpretation users: user_repository user_get user_get_by_email user_create user_save
  user_soft_delete wf_accounts assignable
proof unfold_locales
  fix d :: database and i u
  assume "wf_accounts d" "user_get i d = Some u"
  then show "user_id u = i \<and> user_is_active u \<and> assignable u d \<and> \<not> user_too_long u"
    by (auto simp: wf_accounts_def user_get_iff assignable_load_user wf_users_def)
next
  fix d e and u :: User
  assume "wf_accounts d"
  then show "user_get_by_email e d = Some u \<longleftrightarrow> user_email u = e \<and> user_get (user_id u) d = Some u"
    by (auto simp: wf_accounts_def user_get_iff user_get_by_email_iff)
next
  fix u :: User and d
  assume "user_get_by_email (user_email u) d = None" "\<not> user_too_long u"
  then show "\<exists>u' d'. user_create u d = Inr (u', d')" by (rule user_create_succeeds)
next
  fix d u u' d'
  assume a: "wf_accounts d" "assignable u d" "user_is_active u" "user_create u d = Inr (u', d')"
  have fresh: "user_get (seqs d TUsers) d = None"
    using a(1) by (auto simp: wf_accounts_def wf_users_def user_get_None_iff dest: keyed_fresh)
  show "wf_accounts d' \<and> account_fields u' = account_fields u \<and> user_get (user_id u') d = None \<and>
      (\<forall>i. user_get i d' = (if i = user_id u' then Some u' else user_get i d))"
    using a user_create_wf [OF a(1,4)] user_create_get [OF a(1,4)] fresh
    by (auto simp: assignable_def wf_accounts_def dest: wf_roles_id_unique)
next
  fix d :: database and u :: User
  assume "wf_accounts d" "user_is_active u" "user_get_by_email (user_email u) d \<noteq> None" "\<not> user_too_long u"
  then show "user_create u d = Inl (IntegrityError UNIQUE_VIOLATION)"
    by (auto simp: user_create_def Let_def email_taken_by_other_def user_is_active_def
        user_get_by_email_None_iff wf_accounts_def wf_users_def dest: keyed_fresh)
next
  fix d and u u0 :: User
  assume a: "wf_accounts d" "user_get (user_id u) d = Some u0"
    "user_email u = user_email u0 \<or> user_get_by_email (user_email u) d = None" "\<not> user_too_long u"
  then obtain r where "r \<in> set (t_users d)" "user_id r = user_id u" "user_is_active r" "u0 = load_user d r"
    by (auto simp: wf_accounts_def user_get_iff)
  with a show "\<exists>u' d'. user_save u d = Inr (u', d')" by (intro user_save_succeeds) auto
next
  fix d u u' d'
  assume a: "wf_accounts d" "assignable u d" "user_is_active u" "user_save u d = Inr (u', d')"
  then show "wf_accounts d' \<and> user_id u' = user_id u \<and> account_fields u' = account_fields u \<and>
      (\<forall>i. user_get i d' = (if i = user_id u then Some u' else user_get i d))"
    using user_save_wf [OF a(1,4)] user_save_get [OF a(1,4)] by (auto simp: assignable_def)
next
  fix d u now
  assume a: "wf_accounts d" "user_get (user_id u) d = Some u"
  let ?u = "user_mark_deleted now u"
  obtain r where r: "r \<in> set (t_users d)" "user_id r = user_id u" "u = load_user d r"
    using a by (auto simp: wf_accounts_def user_get_iff)
  have m: "user_id ?u = user_id u" "\<not> user_is_active ?u" "user_roles ?u = user_roles u"
    by (simp_all add: user_mark_deleted_def user_is_active_def)
  have roles: "set (user_roles ?u) \<subseteq> set (t_roles d)" using m(3) r(3) by (auto simp: set_roles_of)
  obtain u' d' where s: "user_save ?u d = Inr (u', d')"
  proof -
    have "\<not> user_too_long r"
      using a(1) r(1) by (simp add: wf_accounts_def wf_users_def)
    then have "\<not> user_too_long ?u"
      by (simp add: r(3))
    then show thesis
      using user_save_succeeds [OF a(1) r(1), of ?u] r(2) m(1,2) that by auto
  qed
  show "\<exists>d'. user_soft_delete now u d = Inr d' \<and> wf_accounts d' \<and>
        (\<forall>i. user_get i d' = (if i = user_id u then None else user_get i d))"
    using user_save_wf [OF a(1) s roles] user_save_get [OF a(1) s roles] m
    by (auto simp: user_soft_delete_def s)
qed

end
