(* ===== verification/Items.thy ===== *)
theory Items
  imports Models
begin

text \<open>
  \<open>app/repositories/item_repo.py\<close>, \<open>app/services/item_service.py\<close>, \<open>app/core/http/concurrency.py\<close>
  and \<open>app/api/v1/routes/items.py\<close>: the items of an account, their version column, and the
  conditional requests that keep two editors from overwriting each other.

  An entity that a request loaded stays in its session until the flush, while other transactions
  commit. The writes therefore take both the row as it was loaded and the row as it is edited; the
  service operations compose the read and the flush on one database, and the last section
  interleaves the reads and the flushes of many requests.
\<close>

section \<open>The repository\<close>

abbreviation TITLE_LENGTH :: nat where
  "TITLE_LENGTH \<equiv> 255"

abbreviation LOST_UPDATE :: str where
  "LOST_UPDATE \<equiv> ''This item changed while you were editing it''"

definition item_owned_by :: "ident \<Rightarrow> Item \<Rightarrow> bool" where
  "item_owned_by owner i \<longleftrightarrow> item_owner_id i = owner \<and> item_is_active i"

definition items_for_owner :: "ident \<Rightarrow> database \<Rightarrow> Item list" where
  "items_for_owner owner d = sort_key item_id (filter (item_owned_by owner) (t_items d))"

definition item_list_for_owner :: "ident \<Rightarrow> int \<Rightarrow> int \<Rightarrow> database \<Rightarrow> Item list" where
  "item_list_for_owner owner limit offset d = limit_offset limit offset (items_for_owner owner d)"

definition item_count_for_owner :: "ident \<Rightarrow> database \<Rightarrow> int" where
  "item_count_for_owner owner d = count_where (item_owned_by owner) (t_items d)"

definition item_get_for_owner :: "ident \<Rightarrow> ident \<Rightarrow> database \<Rightarrow> Item option" where
  "item_get_for_owner iid owner d =
     find_row (\<lambda>i. item_id i = iid \<and> item_owned_by owner i) (t_items d)"

text \<open>\<open>create\<close>: insert at version 1 and refresh.\<close>

definition item_create :: "str \<Rightarrow> str option \<Rightarrow> ident \<Rightarrow> database \<Rightarrow> (Item \<times> database) result" where
  "item_create title description owner d =
     (let row = \<lparr>item_id = seqs d TItems, item_title = title, item_description = description,
                 item_owner_id = owner, item_version = 1, item_deleted_at = None,
                 item_created_at = tx_now d, item_updated_at = tx_now d\<rparr>
      in if length title > TITLE_LENGTH then Inl (DataError STRING_TRUNCATION)
         else if owner \<notin> user_id ` set (t_users d) then Inl (IntegrityError FOREIGN_KEY_VIOLATION)
         else Inr (row, bump TItems (d\<lparr>t_items := t_items d @ [row]\<rparr>)))"

text \<open>
  The flush of one edited item. Without a changed column there is no statement. Otherwise the
  \<open>UPDATE\<close> is qualified with the loaded version and sets the next one; a statement that matches no
  row is the \<open>StaleDataError\<close> that \<open>_flush\<close> turns into a failed precondition.
\<close>

definition same_version :: "Item \<Rightarrow> Item \<Rightarrow> bool" where
  "same_version loaded i \<longleftrightarrow> item_id i = item_id loaded \<and> item_version i = item_version loaded"

definition item_flush :: "Item \<Rightarrow> Item \<Rightarrow> database \<Rightarrow> database result" where
  "item_flush loaded edited d =
     (if edited = loaded then Inr d
      else if length (item_title edited) > TITLE_LENGTH then Inl (DataError STRING_TRUNCATION)
      else if count_where (same_version loaded) (t_items d) = 0
      then Inl (Domain (make_error PreconditionFailedError LOST_UPDATE None None))
      else Inr (d\<lparr>t_items := update_where (same_version loaded)
                    (\<lambda>_. edited\<lparr>item_version := item_version loaded + 1, item_updated_at := tx_now d\<rparr>)
                    (t_items d)\<rparr>))"

text \<open>\<open>save\<close>: flush, then refresh from the row.\<close>

definition item_save :: "Item \<Rightarrow> Item \<Rightarrow> database \<Rightarrow> (Item \<times> database) result" where
  "item_save loaded edited d =
     rbind (item_flush loaded edited d) (\<lambda>d'.
       (case find_row (\<lambda>i. item_id i = item_id loaded) (t_items d') of
          None \<Rightarrow> Inl InvalidRequestError
        | Some row \<Rightarrow> Inr (row, d')))"

definition item_soft_delete :: "time \<Rightarrow> Item \<Rightarrow> database \<Rightarrow> database result" where
  "item_soft_delete now loaded d = item_flush loaded (item_mark_deleted now loaded) d"

text \<open>
  \<open>soft_delete_for_owner\<close>: the session holds the items that the query answered, each is marked,
  one flush writes them all.
\<close>

fun item_soft_delete_each :: "time \<Rightarrow> Item list \<Rightarrow> database \<Rightarrow> database result" where
  "item_soft_delete_each now [] d = Inr d"
| "item_soft_delete_each now (i # is) d =
     rbind (item_soft_delete now i d) (item_soft_delete_each now is)"

definition item_soft_delete_for_owner :: "time \<Rightarrow> ident \<Rightarrow> database \<Rightarrow> database result" where
  "item_soft_delete_for_owner now owner d =
     item_soft_delete_each now (filter (item_owned_by owner) (t_items d)) d"

section \<open>The service\<close>

abbreviation STALE_READ :: str where
  "STALE_READ \<equiv> ''This item changed since you read it''"

text \<open>
  \<open>ItemUpdate\<close>: the body as it arrives, where a field may be absent or null, and the validator that
  refuses a null title.
\<close>

record ItemUpdateBody =
  iub_title :: "str option field"
  iub_description :: "str option field"

record ItemUpdate =
  iu_title :: "str field"
  iu_description :: "str option field"

fun reject_explicitly_null_title :: "str option field \<Rightarrow> str field result" where
  "reject_explicitly_null_title Unset = Inr Unset"
| "reject_explicitly_null_title (Given None) = Inl (ValueError ''title cannot be null'')"
| "reject_explicitly_null_title (Given (Some t)) = Inr (Given t)"

definition validate_item_update :: "ItemUpdateBody \<Rightarrow> ItemUpdate result" where
  "validate_item_update body =
     rbind (reject_explicitly_null_title (iub_title body))
       (\<lambda>t. Inr \<lparr>iu_title = t, iu_description = iub_description body\<rparr>)"

definition item_service_list_for_owner ::
  "ident \<Rightarrow> int \<Rightarrow> int \<Rightarrow> database \<Rightarrow> Item list \<times> int" where
  "item_service_list_for_owner owner limit offset d =
     (item_list_for_owner owner limit offset d, item_count_for_owner owner d)"

definition item_service_get :: "ident \<Rightarrow> ident \<Rightarrow> database \<Rightarrow> Item result" where
  "item_service_get iid owner d =
     or_not_found (item_get_for_owner iid owner d) ''Item not found'' ITEM_NOT_FOUND"

definition at_version :: "ident \<Rightarrow> ident \<Rightarrow> int option \<Rightarrow> database \<Rightarrow> Item result" where
  "at_version iid owner expected d =
     rbind (item_service_get iid owner d) (\<lambda>item.
       (case expected of
          Some v \<Rightarrow>
            if item_version item \<noteq> v
            then Inl (Domain (make_error PreconditionFailedError STALE_READ None
                   (Some [(''expected'', PInt v), (''current'', PInt (item_version item))])))
            else Inr item
        | None \<Rightarrow> Inr item))"

text \<open>The \<open>setattr\<close> loop over the fields that were sent.\<close>

definition apply_item_update :: "ItemUpdate \<Rightarrow> Item \<Rightarrow> Item" where
  "apply_item_update data item =
     item\<lparr>item_title := given (iu_title data) (item_title item),
          item_description := given (iu_description data) (item_description item)\<rparr>"

definition item_service_update ::
  "ident \<Rightarrow> ident \<Rightarrow> ItemUpdate \<Rightarrow> int option \<Rightarrow> database \<Rightarrow> (Item \<times> database) result" where
  "item_service_update iid owner data expected d =
     rbind (at_version iid owner expected d) (\<lambda>item.
       item_save item (apply_item_update data item) d)"

definition item_service_delete ::
  "time \<Rightarrow> ident \<Rightarrow> ident \<Rightarrow> int option \<Rightarrow> database \<Rightarrow> database result" where
  "item_service_delete now iid owner expected d =
     rbind (at_version iid owner expected d) (\<lambda>item. item_soft_delete now item d)"

section \<open>Conditional requests\<close>

abbreviation ANY_VERSION :: str where
  "ANY_VERSION \<equiv> ''*''"

abbreviation WEAK_PREFIX :: str where
  "WEAK_PREFIX \<equiv> ''W/''"

abbreviation QUOTE :: char where
  "QUOTE \<equiv> CHR 0x22"

definition etag_for :: "int \<Rightarrow> str" where
  "etag_for version = WEAK_PREFIX @ [QUOTE] @ show_int version @ [QUOTE]"

definition parse_etag :: "str \<Rightarrow> int option" where
  "parse_etag value =
     (let candidate = strip value;
          candidate = (if startswith WEAK_PREFIX candidate then drop (length WEAK_PREFIX) candidate
                       else candidate)
      in py_int (strip_by (\<lambda>c. c = QUOTE) candidate))"

definition require_if_match :: "str option \<Rightarrow> int option result" where
  "require_if_match if_match =
     (case if_match of
        None \<Rightarrow> Inl (Domain (make_error PreconditionRequiredError
          ''This write needs an If-Match header carrying the ETag you last read'' None None))
      | Some v \<Rightarrow>
          if strip v = ANY_VERSION then Inr None
          else (case parse_etag v of
                  None \<Rightarrow> Inl (Domain (make_error PreconditionFailedError
                    ''If-Match does not carry an ETag this API issued'' None None))
                | Some version \<Rightarrow> Inr (Some version)))"

section \<open>The routes\<close>

text \<open>A route answers the item it read or wrote together with the \<open>ETag\<close> header of \<open>_tagged\<close>.\<close>

definition route_create_item ::
  "ident \<Rightarrow> str \<Rightarrow> str option \<Rightarrow> database \<Rightarrow> ((Item \<times> str) \<times> database) result" where
  "route_create_item caller title description d =
     rbind (item_create title description caller d) (\<lambda>(item, d').
       Inr ((item, etag_for (item_version item)), d'))"

definition route_get_item :: "ident \<Rightarrow> ident \<Rightarrow> database \<Rightarrow> (Item \<times> str) result" where
  "route_get_item caller iid d =
     rbind (item_service_get iid caller d) (\<lambda>item. Inr (item, etag_for (item_version item)))"

definition route_update_item ::
  "ident \<Rightarrow> ident \<Rightarrow> ItemUpdate \<Rightarrow> str option \<Rightarrow> database \<Rightarrow> ((Item \<times> str) \<times> database) result" where
  "route_update_item caller iid data if_match d =
     rbind (require_if_match if_match) (\<lambda>expected.
       rbind (item_service_update iid caller data expected d) (\<lambda>(item, d').
         Inr ((item, etag_for (item_version item)), d')))"

definition route_delete_item ::
  "time \<Rightarrow> ident \<Rightarrow> ident \<Rightarrow> str option \<Rightarrow> database \<Rightarrow> database result" where
  "route_delete_item now caller iid if_match d =
     rbind (require_if_match if_match) (\<lambda>expected. item_service_delete now iid caller expected d)"

section \<open>Lemmas\<close>

lemma item_owned_by_simps [simp]:
  "item_owned_by ow (i\<lparr>item_version := v\<rparr>) = item_owned_by ow i"
  "item_owned_by ow (i\<lparr>item_updated_at := t\<rparr>) = item_owned_by ow i"
  "item_owned_by ow (i\<lparr>item_title := s\<rparr>) = item_owned_by ow i"
  "item_owned_by ow (i\<lparr>item_description := de\<rparr>) = item_owned_by ow i"
  by (simp_all add: item_owned_by_def item_is_active_def)

lemma not_owned_mark_deleted [simp]: "\<not> item_owned_by ow (item_mark_deleted now i)"
  by (simp add: item_owned_by_def item_is_active_def item_mark_deleted_def)

lemma wf_items_keyed: "wf_items d \<Longrightarrow> keyed item_id (t_items d) (seqs d TItems)"
  by (simp add: wf_items_def)

lemma wf_items_unique:
  "wf_items d \<Longrightarrow> i \<in> set (t_items d) \<Longrightarrow> j \<in> set (t_items d) \<Longrightarrow> item_id i = item_id j \<Longrightarrow> i = j"
  by (auto dest: wf_items_keyed keyed_unique)

lemma item_get_for_owner_iff:
  assumes "wf_items d"
  shows "item_get_for_owner iid owner d = Some i \<longleftrightarrow>
    i \<in> set (t_items d) \<and> item_id i = iid \<and> item_owned_by owner i"
proof
  assume "i \<in> set (t_items d) \<and> item_id i = iid \<and> item_owned_by owner i"
  then show "item_get_for_owner iid owner d = Some i"
    unfolding item_get_for_owner_def using wf_items_unique [OF assms]
    by (intro find_row_unique) auto
qed (auto simp: item_get_for_owner_def dest!: find_row_SomeD)

lemma item_service_get_eq_Inr: "item_service_get iid owner d = Inr i \<longleftrightarrow> item_get_for_owner iid owner d = Some i"
  by (simp add: item_service_get_def or_not_found_eq_Inr)

lemma at_version_eq_Inr:
  "at_version iid owner expected d = Inr i \<longleftrightarrow>
   item_get_for_owner iid owner d = Some i \<and> (\<forall>v. expected = Some v \<longrightarrow> item_version i = v)"
  by (auto simp: at_version_def rbind_eq_Inr item_service_get_eq_Inr split: option.splits)

text \<open>A flush of a row that is still at the loaded version replaces that row and no other.\<close>

lemma item_flush_current:
  assumes "wf_items d" and "i \<in> set (t_items d)" and "edited \<noteq> i" and "length (item_title edited) \<le> 255"
  shows "item_flush i edited d = Inr (d\<lparr>t_items := update_where (\<lambda>j. j = i)
    (\<lambda>_. edited\<lparr>item_version := item_version i + 1, item_updated_at := tx_now d\<rparr>) (t_items d)\<rparr>)"
proof -
  have eq: "update_where (same_version i) f (t_items d) = update_where (\<lambda>j. j = i) f (t_items d)" for f
    using wf_items_unique [OF assms(1)] assms(2)
    by (auto simp: update_where_def same_version_def intro!: map_cong)
  have "count_where (same_version i) (t_items d) \<noteq> 0"
    using assms(2) count_where_pos [of "same_version i" "t_items d"] by (auto simp: same_version_def)
  then show ?thesis using assms(3,4) by (simp add: item_flush_def eq)
qed

text \<open>A flush of a row that has moved on is refused.\<close>

lemma item_flush_stale:
  assumes "\<And>j. j \<in> set (t_items d) \<Longrightarrow> item_id j = item_id i \<Longrightarrow> item_version j \<noteq> item_version i"
    and "edited \<noteq> i" and "length (item_title edited) \<le> 255"
  shows "item_flush i edited d = Inl (Domain (make_error PreconditionFailedError LOST_UPDATE None None))"
proof -
  have "count_where (same_version i) (t_items d) = 0"
    using assms(1) by (auto simp: count_where_def same_version_def filter_empty_conv)
  then show ?thesis using assms(2,3) by (simp add: item_flush_def)
qed

lemma item_flush_Inr_cases:
  assumes "item_flush loaded edited d = Inr d'"
  obtains (same) "edited = loaded" "d' = d"
  | (written) i where "edited \<noteq> loaded" "i \<in> set (t_items d)" "same_version loaded i"
      "length (item_title edited) \<le> 255"
      "d' = d\<lparr>t_items := update_where (same_version loaded)
         (\<lambda>_. edited\<lparr>item_version := item_version loaded + 1, item_updated_at := tx_now d\<rparr>) (t_items d)\<rparr>"
proof (cases "edited = loaded")
  case True
  then show ?thesis using assms by (intro same) (auto simp: item_flush_def)
next
  case False
  then have "count_where (same_version loaded) (t_items d) > 0" and le: "length (item_title edited) \<le> 255"
    using assms by (auto simp: item_flush_def count_where_def split: if_splits)
  then obtain i where "i \<in> set (t_items d)" "same_version loaded i" by (auto simp: count_where_pos)
  then show ?thesis using False le assms by (intro written) (auto simp: item_flush_def split: if_splits)
qed

lemma item_flush_wf:
  assumes "wf_items d" "item_flush loaded edited d = Inr d'"
    and "item_id edited = item_id loaded" "item_owner_id edited \<in> user_id ` set (t_users d)"
  shows "wf_items d'"
  using assms(2)
proof (cases rule: item_flush_Inr_cases)
  case same
  then show ?thesis using assms(1) by simp
next
  case (written i)
  have "map item_id (t_items d') = map item_id (t_items d)"
    using assms(3) by (auto simp: written(5) update_where_def same_version_def)
  moreover have "j \<in> set (t_items d') \<Longrightarrow> item_id j < seqs d TItems \<and> item_owner_id j \<in> user_id ` set (t_users d) \<and>
      length (item_title j) \<le> 255" for j
    using assms(1,3,4) written(2,3,4)
    by (auto simp: written(5) set_update_where wf_items_def keyed_def same_version_def split: if_splits)
  ultimately show ?thesis using assms(1) by (auto simp: wf_items_def keyed_def written(5))
qed

text \<open>Retiring every item of an account in one flush.\<close>

definition item_retired :: "time \<Rightarrow> time \<Rightarrow> Item \<Rightarrow> Item" where
  "item_retired now stamp i =
     (item_mark_deleted now i)\<lparr>item_version := item_version i + 1, item_updated_at := stamp\<rparr>"

lemma item_retired_simps [simp]:
  "item_id (item_retired now st i) = item_id i" "item_owner_id (item_retired now st i) = item_owner_id i"
  "item_title (item_retired now st i) = item_title i"
  "item_is_active (item_retired now st i) = False"
  by (simp_all add: item_retired_def item_mark_deleted_def item_is_active_def)

lemma item_soft_delete_each_eq:
  assumes "wf_items d" "set is \<subseteq> set (t_items d)" "distinct is" "\<forall>i\<in>set is. item_is_active i"
  shows "item_soft_delete_each now is d =
    Inr (d\<lparr>t_items := map (\<lambda>j. if j \<in> set is then item_retired now (tx_now d) j else j) (t_items d)\<rparr>)"
  using assms
proof (induction "is" arbitrary: d)
  case Nil
  then show ?case by simp
next
  case (Cons i "is")
  let ?d = "d\<lparr>t_items := update_where (\<lambda>j. j = i) (\<lambda>_. item_retired now (tx_now d) i) (t_items d)\<rparr>"
  have i: "i \<in> set (t_items d)" "length (item_title i) \<le> 255" "item_owner_id i \<in> user_id ` set (t_users d)"
    using Cons.prems by (auto simp: wf_items_def)
  have "item_deleted_at (item_mark_deleted now i) \<noteq> item_deleted_at i"
    using Cons.prems(4) by (simp add: item_mark_deleted_def item_is_active_def)
  then have "item_mark_deleted now i \<noteq> i" by auto
  then have step: "item_soft_delete now i d = Inr ?d"
    using item_flush_current [OF Cons.prems(1) i(1), of "item_mark_deleted now i"] i(2)
    by (simp add: item_soft_delete_def item_retired_def item_mark_deleted_def)
  have "wf_items ?d"
    using item_flush_wf [OF Cons.prems(1)] step i(3) by (auto simp: item_soft_delete_def item_mark_deleted_def)
  moreover have "set is \<subseteq> set (t_items ?d)"
    using Cons.prems(2,3) by (auto simp: set_update_where)
  ultimately have "item_soft_delete_each now is ?d =
      Inr (?d\<lparr>t_items := map (\<lambda>j. if j \<in> set is then item_retired now (tx_now d) j else j) (t_items ?d)\<rparr>)"
    using Cons.IH [of ?d] Cons.prems by simp
  moreover have "item_retired now (tx_now d) i \<notin> set is" using Cons.prems(4) by (auto dest: bspec)
  ultimately show ?case
    using Cons.prems(3) by (auto simp: step update_where_def)
qed

lemma item_soft_delete_for_owner_eq:
  assumes "wf_items d"
  shows "item_soft_delete_for_owner now owner d =
    Inr (d\<lparr>t_items := map (\<lambda>j. if item_owned_by owner j then item_retired now (tx_now d) j else j) (t_items d)\<rparr>)"
proof -
  have "distinct (t_items d)"
    using wf_items_keyed [OF assms] by (simp add: keyed_def distinct_map)
  then show ?thesis
    unfolding item_soft_delete_for_owner_def using assms
    by (subst item_soft_delete_each_eq) (auto simp: item_owned_by_def)
qed

section \<open>What the routes promise\<close>

lemma show_int_no_quote: "c \<in> set (show_int n) \<Longrightarrow> c \<noteq> QUOTE"
  by (auto simp: show_int_def is_digit_def dest: show_nat_digits split: if_splits)

lemma strip_quotes:
  assumes "s \<noteq> []" "QUOTE \<notin> set s"
  shows "strip_by (\<lambda>c. c = QUOTE) (QUOTE # s @ [QUOTE]) = s"
proof -
  have "dropWhile (\<lambda>c. c = QUOTE) (s @ [QUOTE]) = s @ [QUOTE]"
    using assms by (cases s) auto
  moreover have "dropWhile (\<lambda>c. c = QUOTE) (rev s) = rev s"
    using assms by (cases s rule: rev_cases) auto
  ultimately show ?thesis by (simp add: strip_by_def lstrip_by_def rstrip_by_def)
qed

text \<open>
  The entity tag that the API hands out for a version is accepted back by the \<open>If-Match\<close>
  dependency and read as that version, for every version the column can hold.
\<close>

theorem if_match_accepts_issued_etag:
  assumes "db_int version"
  shows "require_if_match (Some (etag_for version)) = Inr (Some version)"
proof -
  have strip: "strip (etag_for version) = etag_for version"
    by (rule strip_by_id) (simp_all add: etag_for_def is_space_def)
  have "strip_by (\<lambda>c. c = QUOTE) (QUOTE # show_int version @ [QUOTE]) = show_int version"
    by (rule strip_quotes) (auto simp: show_int_ends dest: show_int_no_quote)
  then have "parse_etag (etag_for version) = py_int (show_int version)"
    by (simp add: parse_etag_def strip) (simp add: etag_for_def startswith_def)
  then show ?thesis
    using assms by (simp add: require_if_match_def strip py_int_show_int) (simp add: etag_for_def)
qed

theorem if_match_accepts_issued_etag_witness:
  "etag_for 42 = ''W/'' @ [QUOTE] @ ''42'' @ [QUOTE] \<and> require_if_match (Some (etag_for 42)) = Inr (Some 42)"
proof
  show "etag_for 42 = ''W/'' @ [QUOTE] @ ''42'' @ [QUOTE]" by code_simp
  show "require_if_match (Some (etag_for 42)) = Inr (Some 42)"
    by (rule if_match_accepts_issued_etag) simp
qed

text \<open>
  C35. What \<open>PATCH /items/{id}\<close> with an expected version does, on every branch: an item that is not
  the caller's is not found; a version that is not the current one is refused with both versions
  in the parameters; an edit that changes nothing writes nothing; any other edit replaces that one
  row, one version on, and leaves every other row as it was.
\<close>

theorem item_update_outcome:
  assumes "wf_items d"
  shows "item_service_update iid owner data (Some v) d =
    (case item_get_for_owner iid owner d of
       None \<Rightarrow> raise_error NotFoundError ''Item not found'' ITEM_NOT_FOUND
     | Some i \<Rightarrow>
         let edited = apply_item_update data i;
             written = edited\<lparr>item_version := v + 1, item_updated_at := tx_now d\<rparr>
         in if item_version i \<noteq> v
            then Inl (Domain \<lparr>err_class = PreconditionFailedError, err_detail = STALE_READ,
                   err_code = VERSION_CONFLICT,
                   err_params = [(''expected'', PInt v), (''current'', PInt (item_version i))]\<rparr>)
            else if edited = i then Inr (i, d)
            else if length (item_title edited) > 255 then Inl (DataError STRING_TRUNCATION)
            else Inr (written,
                   d\<lparr>t_items := map (\<lambda>j. if item_id j = iid then written else j) (t_items d)\<rparr>))"
proof (cases "item_get_for_owner iid owner d")
  case None
  then show ?thesis
    by (simp add: item_service_update_def at_version_def item_service_get_def)
next
  case (Some i)
  then have i: "i \<in> set (t_items d)" "item_id i = iid" by (auto simp: item_get_for_owner_iff [OF assms])
  have self: "find_row (\<lambda>j. item_id j = iid) (t_items d) = Some i"
    using i wf_items_unique [OF assms] by (intro find_row_unique) auto
  have here: "update_where (\<lambda>j. j = i) f (t_items d) = map (\<lambda>j. if item_id j = iid then f j else j) (t_items d)" for f
    using i wf_items_unique [OF assms] by (auto simp: update_where_def)
  have found: "find_row (\<lambda>j. item_id j = iid) (map (\<lambda>j. if item_id j = iid then w else j) (t_items d)) = Some w"
    if "item_id w = iid" for w
    using find_row_update_where [of "\<lambda>j. item_id j = iid" "\<lambda>j. item_id j = iid" "\<lambda>_. w" "t_items d"] that self i
    by (simp add: update_where_def)
  show ?thesis
  proof (cases "item_version i = v \<and> apply_item_update data i \<noteq> i \<and> length (item_title (apply_item_update data i)) \<le> 255")
    case True
    have "item_id (apply_item_update data i) = iid" using i by (simp add: apply_item_update_def)
    then show ?thesis
      using Some True i item_flush_current [OF assms i(1), of "apply_item_update data i"]
      by (simp add: item_service_update_def at_version_def item_service_get_def item_save_def here found Let_def)
  next
    case False
    then show ?thesis
      using Some i self
      by (auto simp: item_service_update_def at_version_def item_service_get_def item_save_def
          item_flush_def make_error_def Let_def)
  qed
qed

text \<open>A concrete table: an account, its item at version 3, and the item of another account.\<close>

definition sample_user :: "ident \<Rightarrow> user_row" where
  "sample_user uid = \<lparr>user_id = uid, user_email = ''a@b.co'' @ show_int uid, user_name = None,
     user_hashed_password = ''h'', user_email_verified_at = None, user_password_changed_at = None,
     user_deleted_at = None, user_created_at = 0, user_updated_at = 0\<rparr>"

definition sample_item :: "ident \<Rightarrow> ident \<Rightarrow> int \<Rightarrow> Item" where
  "sample_item iid owner v = \<lparr>item_id = iid, item_title = ''t'', item_description = None,
     item_owner_id = owner, item_version = v, item_deleted_at = None, item_created_at = 0,
     item_updated_at = 0\<rparr>"

definition sample_items_db :: database where
  "sample_items_db = empty_db\<lparr>t_users := [sample_user 1, sample_user 2],
     t_items := [sample_item 1 1 3, sample_item 2 2 1], seqs := (\<lambda>_. 3)\<rparr>"

lemma wf_sample_items_db: "wf_items sample_items_db"
  by (simp add: wf_items_def keyed_def sample_items_db_def sample_item_def sample_user_def)

theorem item_update_outcome_witness:
  "wf_items sample_items_db \<and>
   item_service_update 1 1 \<lparr>iu_title = Given ''x'', iu_description = Unset\<rparr> (Some 3) sample_items_db =
     Inr ((sample_item 1 1 4)\<lparr>item_title := ''x''\<rparr>,
       sample_items_db\<lparr>t_items := [(sample_item 1 1 4)\<lparr>item_title := ''x''\<rparr>, sample_item 2 2 1]\<rparr>)"
  using item_update_outcome [OF wf_sample_items_db, of 1 1 "\<lparr>iu_title = Given ''x'', iu_description = Unset\<rparr>" 3]
  by (simp add: wf_sample_items_db)
    (simp add: sample_items_db_def empty_db_def sample_item_def item_get_for_owner_def item_owned_by_def item_is_active_def
      apply_item_update_def Let_def)

section \<open>Isolation between accounts\<close>

lemma filter_map_same:
  assumes "\<And>x. x \<in> set xs \<Longrightarrow> P x \<Longrightarrow> f x = x" "\<And>x. x \<in> set xs \<Longrightarrow> P (f x) = P x"
  shows "filter P (map f xs) = filter P xs"
  using assms by (induction xs) auto

lemma item_flush_other:
  assumes "item_flush loaded edited d = Inr d'" and "item_owner_id edited = item_owner_id loaded"
    and "wf_items d" "loaded \<in> set (t_items d)" and "item_owner_id loaded \<noteq> owner"
  shows "filter (\<lambda>i. item_owner_id i = owner) (t_items d') = filter (\<lambda>i. item_owner_id i = owner) (t_items d)"
  using assms(1)
proof (cases rule: item_flush_Inr_cases)
  case (written i)
  have sv: "same_version loaded j \<longleftrightarrow> j = loaded" if "j \<in> set (t_items d)" for j
    using wf_items_unique [OF assms(3) that assms(4)] by (auto simp: same_version_def)
  then show ?thesis
    unfolding written(5) update_where_def using assms(2,5)
    by (simp, intro filter_map_same) auto
qed simp

lemma item_get_for_owner_row:
  "item_get_for_owner iid owner d = Some i \<Longrightarrow>
   i \<in> set (t_items d) \<and> item_id i = iid \<and> item_owner_id i = owner \<and> item_is_active i"
  by (auto simp: item_get_for_owner_def item_owned_by_def dest: find_row_SomeD)

text \<open>The three writes of a caller on the items table.\<close>

datatype item_request =
    CreateItem str "str option"
  | UpdateItem ident ItemUpdate "str option"
  | DeleteItem ident "str option"

fun run_item_request :: "time \<Rightarrow> ident \<Rightarrow> item_request \<Rightarrow> database \<Rightarrow> database result" where
  "run_item_request now caller (CreateItem t de) d = map_sum id snd (route_create_item caller t de d)"
| "run_item_request now caller (UpdateItem iid data im) d = map_sum id snd (route_update_item caller iid data im d)"
| "run_item_request now caller (DeleteItem iid im) d = route_delete_item now caller iid im d"

lemma run_item_request_cases:
  assumes "run_item_request now caller req d = Inr d'"
  obtains (created) row where "item_owner_id row = caller" "item_id row = seqs d TItems" "item_version row = 1"
      "caller \<in> user_id ` set (t_users d)" "length (item_title row) \<le> 255" "d' = bump TItems (d\<lparr>t_items := t_items d @ [row]\<rparr>)"
  | (flushed) loaded edited where "loaded \<in> set (t_items d)" "item_owner_id loaded = caller"
      "item_id edited = item_id loaded" "item_owner_id edited = item_owner_id loaded"
      "item_flush loaded edited d = Inr d'"
proof (cases req)
  case (CreateItem t de)
  then obtain row where "item_create t de caller d = Inr (row, d')"
    using assms by (auto simp: route_create_item_def map_sum_eq_Inr elim!: rbindE)
  then show ?thesis
    by (intro created [of row]) (auto simp: item_create_def Let_def split: if_splits)
next
  case (UpdateItem iid data im)
  then obtain i e where "item_get_for_owner iid caller d = Some i"
    and "item_flush i (apply_item_update data i) d = Inr d'"
    using assms by (auto simp: route_update_item_def item_service_update_def item_save_def at_version_eq_Inr
        map_sum_eq_Inr elim!: rbindE split: option.splits)
  then show ?thesis
    by (intro flushed [of i "apply_item_update data i"]) (auto simp: apply_item_update_def dest: item_get_for_owner_row)
next
  case (DeleteItem iid im)
  then obtain i where "item_get_for_owner iid caller d = Some i"
    and "item_flush i (item_mark_deleted now i) d = Inr d'"
    using assms by (auto simp: route_delete_item_def item_service_delete_def item_soft_delete_def at_version_eq_Inr
        elim!: rbindE)
  then show ?thesis
    by (intro flushed [of i "item_mark_deleted now i"]) (auto simp: item_mark_deleted_def dest: item_get_for_owner_row)
qed

text \<open>
  Whatever an account writes to the items routes, the schema's constraints stay true and the
  items of every other account are, in number, order and content, exactly what they were.
\<close>

theorem item_writes_isolated:
  assumes "wf_items d" and "run_item_request now caller req d = Inr d'"
  shows "wf_items d' \<and> (\<forall>other. other \<noteq> caller \<longrightarrow>
    filter (\<lambda>i. item_owner_id i = other) (t_items d') = filter (\<lambda>i. item_owner_id i = other) (t_items d))"
  using assms(2)
proof (cases rule: run_item_request_cases)
  case (created row)
  then show ?thesis using assms(1) by (auto simp: wf_items_def keyed_append)
next
  case (flushed loaded edited)
  have "item_owner_id edited \<in> user_id ` set (t_users d)"
    using flushed(1,4) assms(1) by (auto simp: wf_items_def)
  then show ?thesis
    using flushed item_flush_wf [OF assms(1) flushed(5,3)] item_flush_other [OF flushed(5,4) assms(1) flushed(1)]
    by auto
qed

lemma sample_get: "item_get_for_owner 1 1 sample_items_db = Some (sample_item 1 1 3)"
  by (simp add: item_get_for_owner_def sample_items_db_def sample_item_def item_owned_by_def item_is_active_def)

lemma sample_flush:
  "\<exists>d'. item_flush (sample_item 1 1 3) (item_mark_deleted 5 (sample_item 1 1 3)) sample_items_db = Inr d'"
proof -
  have "sample_item 1 1 3 \<in> set (t_items sample_items_db)" by (simp add: sample_items_db_def)
  then show ?thesis
    using item_flush_current [OF wf_sample_items_db, of "sample_item 1 1 3" "item_mark_deleted 5 (sample_item 1 1 3)"]
    by (auto simp: item_mark_deleted_def sample_item_def)
qed

theorem item_writes_isolated_witness:
  "wf_items sample_items_db \<and>
   (\<exists>d'. run_item_request 5 1 (DeleteItem 1 (Some ''*'')) sample_items_db = Inr d' \<and> wf_items d' \<and>
     filter (\<lambda>i. item_owner_id i = 2) (t_items d') = [sample_item 2 2 1])"
proof -
  obtain d' where d': "run_item_request 5 1 (DeleteItem 1 (Some ''*'')) sample_items_db = Inr d'"
    using sample_flush sample_get
    by (auto simp: route_delete_item_def require_if_match_def item_service_delete_def at_version_def
        item_service_get_def item_soft_delete_def strip_by_def lstrip_by_def rstrip_by_def is_space_def
        sample_item_def)
  with item_writes_isolated [OF wf_sample_items_db d'] wf_sample_items_db show ?thesis
    by (auto simp: sample_items_db_def sample_item_def)
qed

section \<open>Listing\<close>

lemma concat_pages:
  assumes "l > 0"
  shows "concat (map (\<lambda>k. take l (drop (k * l) xs)) [0..<n]) = take (n * l) xs"
proof (induction n)
  case (Suc n)
  have "take (n * l) xs @ take l (drop (n * l) xs) = take (n * l + l) xs" by (simp add: take_add)
  with Suc show ?case by (simp add: add.commute)
qed simp

text \<open>
  Reading \<open>GET /items\<close> page after page, with any page size, yields every active item of the
  caller exactly once, in order of identifier, and nothing else; the total that each page carries
  is the number of those items.
\<close>

theorem item_pages_complete:
  assumes "wf_items d" and "limit > 0" and "item_count_for_owner owner d \<le> int n * limit"
  shows "let pages = map (\<lambda>k. item_service_list_for_owner owner limit (int k * limit) d) [0..<n];
             listed = concat (map fst pages)
    in set listed = {i \<in> set (t_items d). item_owner_id i = owner \<and> item_is_active i} \<and>
       sorted (map item_id listed) \<and> distinct (map item_id listed) \<and>
       (\<forall>p\<in>set pages. snd p = int (length listed))"
proof -
  let ?all = "items_for_owner owner d"
  have len: "item_count_for_owner owner d = int (length ?all)"
    by (simp add: item_count_for_owner_def items_for_owner_def count_where_def)
  have page: "fst (item_service_list_for_owner owner limit (int k * limit) d) =
      take (nat limit) (drop (k * nat limit) ?all)" for k
    by (simp add: item_service_list_for_owner_def item_list_for_owner_def limit_offset_def nat_mult_distrib)
  have "int (length ?all) \<le> int (n * nat limit)" using assms(2,3) len by simp
  then have "length ?all \<le> n * nat limit" by linarith
  then have listed: "concat (map fst (map (\<lambda>k. item_service_list_for_owner owner limit (int k * limit) d) [0..<n])) = ?all"
    using concat_pages [of "nat limit" ?all n] assms(2) by (simp add: page comp_def)
  have "distinct (map item_id ?all)"
    using wf_items_keyed [OF assms(1)] by (auto simp: items_for_owner_def keyed_def distinct_map inj_on_def)
  moreover have "set ?all = {i \<in> set (t_items d). item_owner_id i = owner \<and> item_is_active i}"
    by (auto simp: items_for_owner_def item_owned_by_def)
  moreover have "sorted (map item_id ?all)" by (simp add: items_for_owner_def)
  ultimately show ?thesis unfolding Let_def listed
    by (auto simp: item_service_list_for_owner_def len)
qed

theorem item_pages_complete_witness:
  "wf_items sample_items_db \<and>
   concat (map fst (map (\<lambda>k. item_service_list_for_owner 2 1 (int k * 1) sample_items_db) [0..<2])) = [sample_item 2 2 1] \<and>
   sorted (map item_id (concat (map fst (map (\<lambda>k. item_service_list_for_owner 2 1 (int k * 1) sample_items_db) [0..<2]))))"
proof -
  have "item_count_for_owner 2 sample_items_db \<le> int 2 * 1"
    by (simp add: item_count_for_owner_def count_where_def sample_items_db_def sample_item_def
        item_owned_by_def item_is_active_def)
  from item_pages_complete [OF wf_sample_items_db _ this] show ?thesis
    by (auto simp: Let_def wf_sample_items_db)
      (simp add: item_service_list_for_owner_def item_list_for_owner_def items_for_owner_def limit_offset_def
        numeral_2_eq_2 sample_items_db_def sample_item_def item_owned_by_def item_is_active_def)
qed

section \<open>Concurrent editors\<close>

text \<open>
  Any number of requests, each with its own session. A request loads an item (through
  \<open>_at_version\<close>) and holds it with its edits; later it flushes, which either writes the row or is
  refused. Between the two, the other requests load, flush and insert, and the transaction clock
  moves. The state keeps, for every row written, what the request had loaded, what the table held
  just before the write, and what was written.
\<close>

record editing =
  ed_db :: database
  ed_held :: "nat \<Rightarrow> (Item \<times> Item) option"
  ed_log :: "(Item \<times> Item option \<times> Item option) list"

definition item_row :: "ident \<Rightarrow> database \<Rightarrow> Item option" where
  "item_row iid d = find_row (\<lambda>i. item_id i = iid) (t_items d)"

inductive edit_step :: "editing \<Rightarrow> editing \<Rightarrow> bool" where
  load_for_update: "at_version iid owner expected (ed_db s) = Inr i \<Longrightarrow>
    edit_step s (s\<lparr>ed_held := (ed_held s)(c := Some (i, apply_item_update data i))\<rparr>)"
| load_for_delete: "at_version iid owner expected (ed_db s) = Inr i \<Longrightarrow>
    edit_step s (s\<lparr>ed_held := (ed_held s)(c := Some (i, item_mark_deleted now i))\<rparr>)"
| flush_accepted: "ed_held s c = Some (l, e) \<Longrightarrow> item_flush l e (ed_db s) = Inr d' \<Longrightarrow>
    edit_step s (s\<lparr>ed_db := d', ed_held := (ed_held s)(c := None),
      ed_log := (if e = l then ed_log s
                 else (l, item_row (item_id l) (ed_db s), item_row (item_id l) d') # ed_log s)\<rparr>)"
| flush_refused: "ed_held s c = Some (l, e) \<Longrightarrow> item_flush l e (ed_db s) = Inl x \<Longrightarrow>
    edit_step s (s\<lparr>ed_held := (ed_held s)(c := None)\<rparr>)"
| insert_item: "item_create t de owner (ed_db s) = Inr (i, d') \<Longrightarrow> edit_step s (s\<lparr>ed_db := d'\<rparr>)"
| clock: "edit_step s (s\<lparr>ed_db := (ed_db s)\<lparr>tx_now := t\<rparr>\<rparr>)"

abbreviation edits :: "editing \<Rightarrow> editing \<Rightarrow> bool" where
  "edits \<equiv> edit_step\<^sup>*\<^sup>*"

text \<open>
  The invariant: what a session holds is a row the table had, at a version the table has not gone
  below; and if the versions agree the row is unchanged.
\<close>

definition held_ok :: "database \<Rightarrow> Item \<Rightarrow> Item \<Rightarrow> bool" where
  "held_ok d l e \<longleftrightarrow> item_id e = item_id l \<and> item_owner_id e = item_owner_id l \<and>
     item_owner_id l \<in> user_id ` set (t_users d) \<and>
     (\<exists>j\<in>set (t_items d). item_id j = item_id l \<and> item_version l \<le> item_version j \<and>
        (item_version l = item_version j \<longrightarrow> j = l))"

definition editing_ok :: "editing \<Rightarrow> bool" where
  "editing_ok s \<longleftrightarrow> wf_items (ed_db s) \<and>
     (\<forall>c l e. ed_held s c = Some (l, e) \<longrightarrow> held_ok (ed_db s) l e) \<and>
     (\<forall>(l, before, after)\<in>set (ed_log s). before = Some l \<and>
        (\<exists>w. after = Some w \<and> item_version w = item_version l + 1))"

lemma held_ok_mono:
  assumes "held_ok d l e" "set (t_items d) \<subseteq> set (t_items d')" "t_users d' = t_users d"
  shows "held_ok d' l e"
  using assms by (auto simp: held_ok_def)

lemma held_ok_load:
  assumes "at_version iid owner expected d = Inr i" "wf_items d"
    and "item_id e = item_id i" "item_owner_id e = item_owner_id i"
  shows "held_ok d i e"
proof -
  have "i \<in> set (t_items d)"
    using assms(1) item_get_for_owner_row by (auto simp: at_version_eq_Inr)
  with assms show ?thesis by (auto simp: held_ok_def wf_items_def)
qed

text \<open>A flush that writes finds the row as it was loaded, and moves its version.\<close>

lemma item_flush_held:
  assumes "item_flush l e d = Inr d'" "e \<noteq> l" "wf_items d" "held_ok d l e"
  obtains w where "l \<in> set (t_items d)" "item_id w = item_id l" "item_version w = item_version l + 1"
    "item_owner_id w = item_owner_id l" "t_users d' = t_users d"
    "t_items d' = update_where (\<lambda>j. item_id j = item_id l) (\<lambda>_. w) (t_items d)"
  using assms(1)
proof (cases rule: item_flush_Inr_cases)
  case (written i)
  obtain j where j: "j \<in> set (t_items d)" "item_id j = item_id l" "item_version l = item_version j \<Longrightarrow> j = l"
    using assms(4) by (auto simp: held_ok_def)
  have "i = j" using written(2,3) j wf_items_unique [OF assms(3)] by (auto simp: same_version_def)
  with written(3) j(3) have "l = i" by (auto simp: same_version_def)
  let ?w = "e\<lparr>item_version := item_version l + 1, item_updated_at := tx_now d\<rparr>"
  have "update_where (same_version l) (\<lambda>_. ?w) (t_items d) =
      update_where (\<lambda>j. item_id j = item_id l) (\<lambda>_. ?w) (t_items d)"
    using wf_items_unique [OF assms(3) _ written(2)] \<open>l = i\<close>
    by (auto simp: update_where_def same_version_def)
  then show ?thesis
    using written \<open>l = i\<close> assms(4) by (intro that [of ?w]) (auto simp: held_ok_def)
qed (use assms(2) in simp)

lemma held_ok_after_flush:
  assumes "held_ok d l' e'" "wf_items d" "l \<in> set (t_items d)" "item_id w = item_id l"
    and "item_version w = item_version l + 1" "t_users d' = t_users d"
    and "t_items d' = update_where (\<lambda>j. item_id j = item_id l) (\<lambda>_. w) (t_items d)"
  shows "held_ok d' l' e'"
proof -
  obtain j where j: "j \<in> set (t_items d)" "item_id j = item_id l'" "item_version l' \<le> item_version j"
    "item_version l' = item_version j \<longrightarrow> j = l'"
    using assms(1) by (auto simp: held_ok_def)
  have "\<exists>j\<in>set (t_items d'). item_id j = item_id l' \<and> item_version l' \<le> item_version j \<and>
      (item_version l' = item_version j \<longrightarrow> j = l')"
  proof (cases "item_id l' = item_id l")
    case True
    then have "j = l" using wf_items_unique [OF assms(2) j(1) assms(3)] j(2) by simp
    then have "w \<in> set (t_items d')" using assms(3,7) by (auto simp: set_update_where)
    with True j assms(4,5) \<open>j = l\<close> show ?thesis by (intro bexI [of _ w]) auto
  next
    case False
    then have "j \<in> set (t_items d')" using j assms(7) by (auto simp: set_update_where)
    with j show ?thesis by blast
  qed
  with assms(1,6) show ?thesis by (auto simp: held_ok_def)
qed

lemma item_row_mem:
  "wf_items d \<Longrightarrow> i \<in> set (t_items d) \<Longrightarrow> item_row (item_id i) d = Some i"
  using wf_items_unique by (auto simp: item_row_def intro!: find_row_unique)

lemma item_row_replaced:
  "wf_items d \<Longrightarrow> l \<in> set (t_items d) \<Longrightarrow> item_id w = item_id l \<Longrightarrow>
   t_items d' = update_where (\<lambda>j. item_id j = item_id l) (\<lambda>_. w) (t_items d) \<Longrightarrow>
   item_row (item_id l) d' = Some w"
  using find_row_update_where [of "\<lambda>j. item_id j = item_id l" "\<lambda>j. item_id j = item_id l" "\<lambda>_. w" "t_items d"]
    item_row_mem [of d l]
  by (auto simp: item_row_def)

lemma editing_ok_step: "edit_step s t \<Longrightarrow> editing_ok s \<Longrightarrow> editing_ok t"
proof (induction rule: edit_step.induct)
  case (load_for_update iid owner expected s i c data)
  then have "held_ok (ed_db s) i (apply_item_update data i)"
    by (intro held_ok_load) (auto simp: editing_ok_def apply_item_update_def)
  with load_for_update show ?case by (auto simp: editing_ok_def)
next
  case (load_for_delete iid owner expected s i c now)
  then have "held_ok (ed_db s) i (item_mark_deleted now i)"
    by (intro held_ok_load) (auto simp: editing_ok_def item_mark_deleted_def)
  with load_for_delete show ?case by (auto simp: editing_ok_def)
next
  case (flush_accepted s c l e d')
  then have ok: "wf_items (ed_db s)" "held_ok (ed_db s) l e" by (auto simp: editing_ok_def)
  show ?case
  proof (cases "e = l")
    case True
    with flush_accepted have "d' = ed_db s" by (simp add: item_flush_def)
    with True flush_accepted show ?thesis by (auto simp: editing_ok_def)
  next
    case False
    from item_flush_held [OF flush_accepted(2) False ok]
    obtain w where w: "l \<in> set (t_items (ed_db s))" "item_id w = item_id l"
      "item_version w = item_version l + 1" "item_owner_id w = item_owner_id l" "t_users d' = t_users (ed_db s)"
      "t_items d' = update_where (\<lambda>j. item_id j = item_id l) (\<lambda>_. w) (t_items (ed_db s))" .
    have "wf_items d'"
      using item_flush_wf [OF ok(1) flush_accepted(2)] ok(2) by (auto simp: held_ok_def)
    moreover have "held_ok d' l' e'" if "ed_held s c' = Some (l', e')" for c' l' e'
      using that flush_accepted(3) by (intro held_ok_after_flush [OF _ ok(1) w(1,2,3,5,6)]) (auto simp: editing_ok_def)
    ultimately show ?thesis
      using False flush_accepted(3) item_row_mem [OF ok(1) w(1)] item_row_replaced [OF ok(1) w(1,2,6)] w(3)
      by (auto simp: editing_ok_def)
  qed
next
  case (flush_refused s c l e x)
  then show ?case by (auto simp: editing_ok_def)
next
  case (insert_item t de owner s i d')
  then have "wf_items d' \<and> set (t_items (ed_db s)) \<subseteq> set (t_items d') \<and> t_users d' = t_users (ed_db s)"
    by (auto simp: editing_ok_def item_create_def wf_items_def keyed_append Let_def split: if_splits)
  with insert_item show ?case by (auto simp: editing_ok_def intro: held_ok_mono)
next
  case (clock s t)
  then show ?case by (auto simp: editing_ok_def wf_items_def held_ok_def)
qed

lemma editing_ok_reachable: "edits s t \<Longrightarrow> editing_ok s \<Longrightarrow> editing_ok t"
  by (induction rule: rtranclp_induct) (auto intro: editing_ok_step)

text \<open>
  C4. No update is lost, however the requests interleave: every row that some request overwrote was,
  at the moment of the write, exactly the row that this request had read, and the write moved its
  version by one.
\<close>

theorem no_lost_update:
  assumes "wf_items d"
    and "edits \<lparr>ed_db = d, ed_held = (\<lambda>_. None), ed_log = []\<rparr> s"
    and "(loaded, before, after) \<in> set (ed_log s)"
  shows "before = Some loaded \<and> (\<exists>w. after = Some w \<and> item_version w = item_version loaded + 1)"
proof -
  have "editing_ok \<lparr>ed_db = d, ed_held = (\<lambda>_. None), ed_log = []\<rparr>"
    using assms(1) by (simp add: editing_ok_def)
  with assms(2) have "editing_ok s" by (rule editing_ok_reachable)
  with assms(3) show ?thesis by (auto simp: editing_ok_def)
qed

theorem no_lost_update_witness:
  "\<exists>s before after. edits \<lparr>ed_db = sample_items_db, ed_held = (\<lambda>_. None), ed_log = []\<rparr> s \<and>
     ed_log s = [(sample_item 1 1 3, before, after)] \<and> before = Some (sample_item 1 1 3) \<and>
     (\<exists>w. after = Some w \<and> item_version w = 4)"
proof -
  let ?s0 = "\<lparr>ed_db = sample_items_db, ed_held = (\<lambda>_. None), ed_log = []\<rparr>"
  let ?l = "sample_item 1 1 3" and ?e = "item_mark_deleted 5 (sample_item 1 1 3)"
  obtain d' where d': "item_flush ?l ?e sample_items_db = Inr d'" using sample_flush by blast
  have ne: "?e \<noteq> ?l" by (simp add: item_mark_deleted_def sample_item_def)
  have "at_version 1 1 None (ed_db ?s0) = Inr ?l" using sample_get by (simp add: at_version_eq_Inr)
  from edit_step.load_for_delete [OF this, of 0 5]
  have one: "edit_step ?s0 (?s0\<lparr>ed_held := (\<lambda>_. None)(0 := Some (?l, ?e))\<rparr>)" by simp
  obtain s before after where two: "edit_step (?s0\<lparr>ed_held := (\<lambda>_. None)(0 := Some (?l, ?e))\<rparr>) s"
    and log: "ed_log s = [(?l, before, after)]"
    using edit_step.flush_accepted [of "?s0\<lparr>ed_held := (\<lambda>_. None)(0 := Some (?l, ?e))\<rparr>" 0 ?l ?e d'] d' ne
    by auto
  have run: "edits ?s0 s" using one two by (meson converse_rtranclp_into_rtranclp r_into_rtranclp)
  with log no_lost_update [OF wf_sample_items_db run, of ?l before after] show ?thesis
    by (auto simp: sample_item_def)
qed

end
