(* ===== verification/Config.thy ===== *)
theory Config
  imports Models
begin

text \<open>
  \<open>app/core/config.py\<close> and \<open>app/core/features.py\<close>: the settings with their validators and the
  comma-separated lists they carry, and the feature flags that a deployment serves.
\<close>

section \<open>Settings\<close>

abbreviation PLACEHOLDER_SECRET_KEY :: str where
  "PLACEHOLDER_SECRET_KEY \<equiv> ''change-me-in-production-to-a-random-32-byte-string''"

abbreviation MIN_SECRET_KEY_LENGTH :: nat where
  "MIN_SECRET_KEY_LENGTH \<equiv> 32"

record Settings =
  database_url :: str
  db_pool_size :: int
  db_max_overflow :: int
  db_pool_recycle :: int
  secret_key :: str
  jwt_algorithm :: str
  access_token_expire_minutes :: int
  refresh_token_expire_days :: int
  impersonation_token_expire_minutes :: int
  environment :: str
  docs_enabled :: "bool option"
  cors_origins :: str
  max_request_body_bytes :: int
  hsts_enabled :: "bool option"
  rate_limit_storage_uri :: str
  login_rate_limit :: str
  register_rate_limit :: str
  mail_rate_limit :: str
  service_name :: str
  log_level :: str
  log_format :: str
  log_file :: "str option"
  metrics_enabled :: bool
  tracing_enabled :: bool
  otlp_endpoint :: str
  request_log_excluded_paths :: str
  request_log_persist_enabled :: bool
  feature_flags :: str
  audit_log_retention_days :: int
  request_log_retention_days :: int
  jobs_enabled :: bool
  jobs_startup_delay_seconds :: int
  idempotency_enabled :: bool
  idempotency_retention_hours :: int
  idempotency_in_flight_timeout_seconds :: int
  app_base_url :: str
  storage_backend :: str
  storage_root :: str
  max_attachment_bytes :: int
  attachment_content_types :: str
  mail_backend :: str
  mail_from :: str
  smtp_host :: str
  smtp_port :: int
  smtp_username :: "str option"
  smtp_password :: "str option"
  smtp_starttls :: bool
  email_verification_expire_hours :: int
  mail_resend_cooldown_seconds :: int
  password_reset_expire_minutes :: int
  require_verified_email :: bool
  demo_data_enabled :: bool

text \<open>The defaults; \<open>database_url\<close> and \<open>secret_key\<close> have none and are arguments.\<close>

definition default_settings :: "str \<Rightarrow> str \<Rightarrow> Settings" where
  "default_settings url key =
     \<lparr>database_url = url, db_pool_size = 5, db_max_overflow = 10, db_pool_recycle = 1800,
      secret_key = key, jwt_algorithm = ''HS256'', access_token_expire_minutes = 30,
      refresh_token_expire_days = 7, impersonation_token_expire_minutes = 30,
      environment = ''development'', docs_enabled = None, cors_origins = [],
      max_request_body_bytes = 8 * 1024 * 1024, hsts_enabled = None,
      rate_limit_storage_uri = [], login_rate_limit = ''10/minute'', register_rate_limit = ''5/minute'',
      mail_rate_limit = ''5/hour'', service_name = ''fastapi-template'', log_level = ''INFO'',
      log_format = ''json'', log_file = None, metrics_enabled = True, tracing_enabled = True, otlp_endpoint = [],
      request_log_excluded_paths = ''/health,/health/ready,/metrics'',
      request_log_persist_enabled = True, feature_flags = ''items,request-log,audit-log'',
      audit_log_retention_days = 365, request_log_retention_days = 30, jobs_enabled = True,
      jobs_startup_delay_seconds = 30, idempotency_enabled = True,
      idempotency_retention_hours = 24, idempotency_in_flight_timeout_seconds = 60,
      app_base_url = ''http://localhost:4200'', storage_backend = ''local'',
      storage_root = ''var/uploads'', max_attachment_bytes = 5 * 1024 * 1024,
      attachment_content_types = ''image/png,image/jpeg,image/webp,application/pdf,text/plain'',
      mail_backend = ''log'', mail_from = ''no-reply@example.com'', smtp_host = ''localhost'', smtp_port = 587,
      smtp_username = None, smtp_password = None, smtp_starttls = True,
      email_verification_expire_hours = 48, mail_resend_cooldown_seconds = 60,
      password_reset_expire_minutes = 60, require_verified_email = False,
      demo_data_enabled = False\<rparr>"

text \<open>The \<open>Field\<close> bounds, the literals, and the two field validators.\<close>

definition reject_wildcard_origin :: "str \<Rightarrow> bool" where
  "reject_wildcard_origin value \<longleftrightarrow> CHR ''*'' \<in> set value"

definition reject_placeholder_secret_key :: "str \<Rightarrow> bool" where
  "reject_placeholder_secret_key value \<longleftrightarrow> value = PLACEHOLDER_SECRET_KEY"

definition fields_ok :: "Settings \<Rightarrow> bool" where
  "fields_ok s \<longleftrightarrow>
     db_pool_size s > 0 \<and> db_max_overflow s > 0 \<and> db_pool_recycle s > 0
     \<and> length (secret_key s) \<ge> MIN_SECRET_KEY_LENGTH
     \<and> \<not> reject_placeholder_secret_key (secret_key s)
     \<and> jwt_algorithm s \<in> {''HS256'', ''HS384'', ''HS512''}
     \<and> environment s \<in> {''development'', ''staging'', ''production''}
     \<and> \<not> reject_wildcard_origin (cors_origins s)
     \<and> max_request_body_bytes s > 0
     \<and> log_format s \<in> {''json'', ''console''}
     \<and> jobs_startup_delay_seconds s \<ge> 0
     \<and> idempotency_retention_hours s > 0 \<and> idempotency_in_flight_timeout_seconds s > 0
     \<and> storage_backend s \<in> {''local''} \<and> max_attachment_bytes s > 0
     \<and> mail_backend s \<in> {''log'', ''smtp''}
     \<and> smtp_port s > 0 \<and> smtp_port s \<le> 65535
     \<and> email_verification_expire_hours s > 0 \<and> mail_resend_cooldown_seconds s \<ge> 0
     \<and> password_reset_expire_minutes s > 0"

definition refuse_an_upload_ceiling_the_body_limit_would_cut :: "Settings \<Rightarrow> bool" where
  "refuse_an_upload_ceiling_the_body_limit_would_cut s \<longleftrightarrow>
     max_attachment_bytes s > max_request_body_bytes s"

definition load_settings :: "Settings \<Rightarrow> Settings result" where
  "load_settings s =
     (if \<not> fields_ok s then Inl (ValueError ''settings'')
      else if refuse_an_upload_ceiling_the_body_limit_would_cut s
      then Inl (ValueError ''MAX_ATTACHMENT_BYTES is above MAX_REQUEST_BODY_BYTES'')
      else Inr s)"

text \<open>The properties computed from them.\<close>

definition comma_list :: "str \<Rightarrow> str list" where
  "comma_list raw = filter (\<lambda>w. w \<noteq> []) (map strip (split_on (CHR '','') raw))"

definition attachment_type_set :: "Settings \<Rightarrow> str set" where
  "attachment_type_set s = set (comma_list (attachment_content_types s))"

definition cors_origin_list :: "Settings \<Rightarrow> str list" where
  "cors_origin_list s = comma_list (cors_origins s)"

definition docs_are_enabled :: "Settings \<Rightarrow> bool" where
  "docs_are_enabled s =
     (case docs_enabled s of Some b \<Rightarrow> b | None \<Rightarrow> environment s \<noteq> ''production'')"

definition hsts_is_enabled :: "Settings \<Rightarrow> bool" where
  "hsts_is_enabled s =
     (case hsts_enabled s of Some b \<Rightarrow> b | None \<Rightarrow> environment s = ''production'')"

section \<open>Feature flags\<close>

datatype Feature = FEATURE_ITEMS | FEATURE_REQUEST_LOG | FEATURE_AUDIT_LOG

fun feature_value :: "Feature \<Rightarrow> str" where
  "feature_value FEATURE_ITEMS = ''items''"
| "feature_value FEATURE_REQUEST_LOG = ''request-log''"
| "feature_value FEATURE_AUDIT_LOG = ''audit-log''"

definition all_features :: "Feature list" where
  "all_features = [FEATURE_ITEMS, FEATURE_REQUEST_LOG, FEATURE_AUDIT_LOG]"

definition parse_features :: "str \<Rightarrow> str set" where
  "parse_features raw = set (comma_list raw)"

definition enabled_features :: "Settings \<Rightarrow> Feature set" where
  "enabled_features s = {f \<in> set all_features. feature_value f \<in> parse_features (feature_flags s)}"

definition is_enabled :: "Settings \<Rightarrow> Feature \<Rightarrow> bool" where
  "is_enabled s f \<longleftrightarrow> f \<in> enabled_features s"

definition inherited_features :: "str option list \<Rightarrow> Feature set \<Rightarrow> Feature set option" where
  "inherited_features raws ceiling =
     (let named = map parse_features (map the (filter (\<lambda>raw. raw \<noteq> None) raws))
      in if named = [] then None
         else (let wanted = \<Union> (set named) in Some {f \<in> ceiling. feature_value f \<in> wanted}))"

definition available_features :: "Settings \<Rightarrow> str list" where
  "available_features s =
     sort (map feature_value (filter (\<lambda>f. is_enabled s f) all_features))"

definition require_feature :: "Settings \<Rightarrow> Feature \<Rightarrow> unit result" where
  "require_feature s f =
     (if \<not> is_enabled s f then Inl (Domain (make_error NotFoundError ''Not Found'' None None))
      else Inr ())"

section \<open>Lemmas\<close>

lemma in_all_features [simp]: "f \<in> set all_features"
  by (cases f) (simp_all add: all_features_def)

lemma feature_value_inject [simp]: "feature_value f = feature_value g \<longleftrightarrow> f = g"
  by (cases f; cases g) simp_all

lemma is_enabled_iff: "is_enabled s f \<longleftrightarrow> feature_value f \<in> set (comma_list (feature_flags s))"
  by (simp add: is_enabled_def enabled_features_def parse_features_def)

lemma comma_list_clean:
  assumes "w \<in> set (comma_list raw)"
  shows "w \<noteq> [] \<and> strip w = w \<and> CHR '','' \<notin> set w"
proof -
  obtain v where v: "v \<in> set (split_on (CHR '','') raw)" "w = strip v" "w \<noteq> []"
    using assms by (auto simp: comma_list_def)
  have "CHR '','' \<notin> set v" using v(1) by (rule split_on_no_sep)
  then have "CHR '','' \<notin> set w" using v(2) set_strip_by by blast
  with v show ?thesis by simp
qed

lemma load_settings_Inr: "load_settings s = Inr t \<Longrightarrow> t = s \<and> fields_ok s \<and> max_attachment_bytes s \<le> max_request_body_bytes s"
  by (auto simp: load_settings_def refuse_an_upload_ceiling_the_body_limit_would_cut_def split: if_splits)

text \<open>
  A feature inherited from roles is one this deployment serves, and exactly one that some role's
  list names: an account never gains a feature the deployment has switched off, and no list at all
  is told apart from an empty one.
\<close>

theorem inherited_features_capped:
  "inherited_features raws (enabled_features s) =
     (if set raws \<subseteq> {None} then None
      else Some {f. is_enabled s f \<and> (\<exists>raw. Some raw \<in> set raws \<and> feature_value f \<in> set (comma_list raw))})"
proof (cases "set raws \<subseteq> {None}")
  case True
  then have "filter (\<lambda>raw. raw \<noteq> None) raws = []" by (auto simp: filter_empty_conv)
  with True show ?thesis by (simp add: inherited_features_def)
next
  case False
  let ?named = "filter (\<lambda>raw. raw \<noteq> None) raws"
  have ne: "?named \<noteq> []" using False by (auto simp: filter_empty_conv)
  have named: "set (map the ?named) = {raw. Some raw \<in> set raws}" by force
  have "inherited_features raws (enabled_features s) =
      Some {f \<in> enabled_features s. feature_value f \<in> \<Union> (parse_features ` set (map the ?named))}"
    using ne by (simp add: inherited_features_def Let_def image_image)
  then show ?thesis
    unfolding named using False by (auto simp: is_enabled_def parse_features_def)
qed

end
