(* ===== verification/Security.thy ===== *)
theory Security
  imports Config
begin

text \<open>
  \<open>app/core/security.py\<close>: password hashes, the digests that stored tokens are looked up by, and the
  signed tokens with their type and impersonator claims. The third-party functions are the fields of
  \<open>ext\<close>: \<open>pwdlib\<close>'s hash and verify (the salt that \<open>hash\<close> draws is an argument), the SHA-256 hex digest,
  and PyJWT's encode and decode. Clock readings, UUIDs and random tokens are arguments too.
\<close>

section \<open>The functions the program calls\<close>

type_synonym claims = "(str \<times> json) list"

record ext =
  ext_pw_hash :: "str \<Rightarrow> str \<Rightarrow> str"
  ext_pw_verify :: "str \<Rightarrow> str \<Rightarrow> bool"
  ext_sha256_hex :: "str \<Rightarrow> str"
  ext_jwt_encode :: "claims \<Rightarrow> str \<Rightarrow> str \<Rightarrow> str"
  ext_jwt_decode :: "str \<Rightarrow> str \<Rightarrow> str \<Rightarrow> time \<Rightarrow> claims option"

text \<open>\<open>payload.get(name)\<close>; a JSON null reads as \<open>None\<close>, like an absent claim.\<close>

definition claim :: "str \<Rightarrow> claims \<Rightarrow> json option" where
  "claim name payload =
     (case map_of payload name of Some JNull \<Rightarrow> None | Some v \<Rightarrow> Some v | None \<Rightarrow> None)"

section \<open>Python's \<open>str\<close> on a JSON value\<close>

definition hex_digit :: "nat \<Rightarrow> char" where
  "hex_digit n = (if n < 10 then char_of (48 + n) else char_of (87 + n))"

definition repr_char :: "char \<Rightarrow> char \<Rightarrow> str" where
  "repr_char quote c =
     (let n = of_char c :: nat in
      if c = quote \<or> n = 92 then [CHR 0x5C, c]
      else if n = 9 then [CHR 0x5C, CHR ''t'']
      else if n = 10 then [CHR 0x5C, CHR ''n'']
      else if n = 13 then [CHR 0x5C, CHR ''r'']
      else if is_printable c then [c]
      else [CHR 0x5C, CHR ''x'', hex_digit (n div 16), hex_digit (n mod 16)])"

definition repr_str :: "str \<Rightarrow> str" where
  "repr_str s =
     (let quote = (if CHR 0x27 \<in> set s \<and> CHR 0x22 \<notin> set s then CHR 0x22 else CHR 0x27)
      in quote # concat (map (repr_char quote) s) @ [quote])"

fun join_strs :: "str \<Rightarrow> str list \<Rightarrow> str" where
  "join_strs sep [] = []"
| "join_strs sep [w] = w"
| "join_strs sep (w # v # ws) = w @ sep @ join_strs sep (v # ws)"

fun py_repr :: "json \<Rightarrow> str" where
  "py_repr JNull = ''None''"
| "py_repr (JBool b) = (if b then ''True'' else ''False'')"
| "py_repr (JInt n) = show_int n"
| "py_repr (JFloat f) = f"
| "py_repr (JStr s) = repr_str s"
| "py_repr (JList vs) = ''['' @ join_strs '', '' (map py_repr vs) @ '']''"
| "py_repr (JObj kvs) =
     ''{'' @ join_strs '', '' (map (\<lambda>kv. repr_str (fst kv) @ '': '' @ py_repr (snd kv)) kvs) @ ''}''"

definition py_str :: "json \<Rightarrow> str" where
  "py_str v = (case v of JStr s \<Rightarrow> s | _ \<Rightarrow> py_repr v)"

section \<open>Passwords and digests\<close>

definition hash_password :: "ext \<Rightarrow> str \<Rightarrow> str \<Rightarrow> str" where
  "hash_password ext salt password = ext_pw_hash ext salt password"

definition verify_password :: "ext \<Rightarrow> str \<Rightarrow> str \<Rightarrow> bool" where
  "verify_password ext password hashed = ext_pw_verify ext password hashed"

definition hash_refresh_token :: "ext \<Rightarrow> str \<Rightarrow> str" where
  "hash_refresh_token ext token = ext_sha256_hex ext token"

definition hash_single_use_token :: "ext \<Rightarrow> str \<Rightarrow> str" where
  "hash_single_use_token ext token = ext_sha256_hex ext token"

section \<open>Signed tokens\<close>

datatype TokenType = ACCESS_TOKEN_TYPE | REFRESH_TOKEN_TYPE

fun token_type_value :: "TokenType \<Rightarrow> str" where
  "token_type_value ACCESS_TOKEN_TYPE = ''access''"
| "token_type_value REFRESH_TOKEN_TYPE = ''refresh''"

abbreviation INVALID_CREDENTIALS :: str where
  "INVALID_CREDENTIALS \<equiv> ''Invalid authentication credentials''"

abbreviation invalid_credentials :: "'a result" where
  "invalid_credentials \<equiv> raise_error AuthError INVALID_CREDENTIALS AUTH_INVALID_CREDENTIALS"

abbreviation IMPERSONATOR_CLAIM :: str where
  "IMPERSONATOR_CLAIM \<equiv> ''act''"

record AccessClaims =
  ac_subject :: str
  ac_impersonator :: "str option"
  ac_issued_at :: time

text \<open>\<open>_create_token\<close>; PyJWT stores a \<open>datetime\<close> claim as whole seconds since the epoch.\<close>

definition token_payload ::
  "time \<Rightarrow> str \<Rightarrow> str \<Rightarrow> TokenType \<Rightarrow> time \<Rightarrow> str option \<Rightarrow> claims" where
  "token_payload now jti subject typ lifetime impersonator =
     [(''sub'', JStr subject), (''typ'', JStr (token_type_value typ)), (''jti'', JStr jti),
      (''iat'', JInt (now div 1000000)), (''exp'', JInt ((now + lifetime) div 1000000))]
     @ (case impersonator of None \<Rightarrow> []
        | Some i \<Rightarrow> [(IMPERSONATOR_CLAIM, JObj [(''sub'', JStr i)])])"

definition create_token ::
  "ext \<Rightarrow> Settings \<Rightarrow> time \<Rightarrow> str \<Rightarrow> str \<Rightarrow> TokenType \<Rightarrow> time \<Rightarrow> str option \<Rightarrow> str" where
  "create_token ext s now jti subject typ lifetime impersonator =
     ext_jwt_encode ext (token_payload now jti subject typ lifetime impersonator)
       (secret_key s) (jwt_algorithm s)"

definition create_access_token :: "ext \<Rightarrow> Settings \<Rightarrow> time \<Rightarrow> str \<Rightarrow> str \<Rightarrow> str" where
  "create_access_token ext s now jti subject =
     create_token ext s now jti subject ACCESS_TOKEN_TYPE (minutes (access_token_expire_minutes s)) None"

definition create_refresh_token :: "ext \<Rightarrow> Settings \<Rightarrow> time \<Rightarrow> str \<Rightarrow> str \<Rightarrow> str" where
  "create_refresh_token ext s now jti subject =
     create_token ext s now jti subject REFRESH_TOKEN_TYPE (days (refresh_token_expire_days s)) None"

definition create_impersonation_token ::
  "ext \<Rightarrow> Settings \<Rightarrow> time \<Rightarrow> str \<Rightarrow> str \<Rightarrow> str \<Rightarrow> str" where
  "create_impersonation_token ext s now jti subject impersonator =
     create_token ext s now jti subject ACCESS_TOKEN_TYPE
       (minutes (impersonation_token_expire_minutes s)) (Some impersonator)"

definition decode_token :: "ext \<Rightarrow> Settings \<Rightarrow> time \<Rightarrow> str \<Rightarrow> TokenType \<Rightarrow> claims result" where
  "decode_token ext s now token expected =
     (case ext_jwt_decode ext token (secret_key s) (jwt_algorithm s) now of
        None \<Rightarrow> invalid_credentials
      | Some payload \<Rightarrow>
          if claim ''typ'' payload \<noteq> Some (JStr (token_type_value expected)) then invalid_credentials
          else if claim ''sub'' payload = None then invalid_credentials
          else Inr payload)"

text \<open>
  \<open>_issued_at\<close>: a Python \<open>bool\<close> is an \<open>int\<close>; \<open>fromtimestamp\<close> raises outside the years 1 to 9999.
\<close>

definition from_timestamp :: "int \<Rightarrow> time result" where
  "from_timestamp n =
     (if n < -62135596800 \<or> n > 253402300799 then Inl (ValueError ''year is out of range'')
      else Inr (n * 1000000))"

definition issued_at :: "claims \<Rightarrow> time result" where
  "issued_at payload =
     (case claim ''iat'' payload of
        Some (JInt n) \<Rightarrow> from_timestamp n
      | Some (JBool b) \<Rightarrow> from_timestamp (if b then 1 else 0)
      | _ \<Rightarrow> invalid_credentials)"

definition impersonator_of :: "claims \<Rightarrow> str option result" where
  "impersonator_of payload =
     (case claim IMPERSONATOR_CLAIM payload of
        None \<Rightarrow> Inr None
      | Some (JObj actor) \<Rightarrow>
          (case claim ''sub'' actor of None \<Rightarrow> invalid_credentials | Some v \<Rightarrow> Inr (Some (py_str v)))
      | Some _ \<Rightarrow> invalid_credentials)"

definition subject_of :: "claims \<Rightarrow> str" where
  "subject_of payload = (case map_of payload ''sub'' of Some v \<Rightarrow> py_str v | None \<Rightarrow> [])"

definition decode_access_token :: "ext \<Rightarrow> Settings \<Rightarrow> time \<Rightarrow> str \<Rightarrow> AccessClaims result" where
  "decode_access_token ext s now token =
     rbind (decode_token ext s now token ACCESS_TOKEN_TYPE) (\<lambda>payload.
     rbind (impersonator_of payload) (\<lambda>impersonator.
     rbind (issued_at payload) (\<lambda>issued.
       Inr \<lparr>ac_subject = subject_of payload, ac_impersonator = impersonator, ac_issued_at = issued\<rparr>)))"

definition decode_refresh_token :: "ext \<Rightarrow> Settings \<Rightarrow> time \<Rightarrow> str \<Rightarrow> str result" where
  "decode_refresh_token ext s now token =
     rbind (decode_token ext s now token REFRESH_TOKEN_TYPE) (\<lambda>payload.
       if claim IMPERSONATOR_CLAIM payload \<noteq> None then invalid_credentials
       else Inr (subject_of payload))"

section \<open>What the called functions promise\<close>

text \<open>
  What the documentation of the called functions promises, as far as the theorems rely on it.
  \<open>pwdlib\<close>: a password verifies against its own hash (\<open>pw_complete\<close>), and no other password does
  (\<open>pw_sound\<close>). PyJWT: decoding, with the key and algorithm it was signed with, a token that this
  program signed gives back its claims, unless it has expired or was issued in the future.
\<close>

definition pw_complete :: "ext \<Rightarrow> bool" where
  "pw_complete ext \<longleftrightarrow> (\<forall>salt p. ext_pw_verify ext p (ext_pw_hash ext salt p))"

definition pw_sound :: "ext \<Rightarrow> bool" where
  "pw_sound ext \<longleftrightarrow> (\<forall>salt p q. ext_pw_verify ext p (ext_pw_hash ext salt q) \<longrightarrow> p = q)"

definition claims_live :: "claims \<Rightarrow> time \<Rightarrow> bool" where
  "claims_live p now \<longleftrightarrow>
     (case (map_of p ''iat'', map_of p ''exp'') of
        (Some (JInt iat), Some (JInt exp)) \<Rightarrow> iat * 1000000 \<le> now \<and> now < exp * 1000000
      | _ \<Rightarrow> False)"

definition jwt_roundtrip :: "ext \<Rightarrow> bool" where
  "jwt_roundtrip ext \<longleftrightarrow> (\<forall>now0 jti sub typ life imp key alg now.
     let p = token_payload now0 jti sub typ life imp in
     ext_jwt_decode ext (ext_jwt_encode ext p key alg) key alg now =
       (if claims_live p now then Some p else None))"

section \<open>Lemmas\<close>

lemma claims_live_token_payload:
  "claims_live (token_payload now0 jti sub typ life imp) now \<longleftrightarrow>
   now0 div 1000000 * 1000000 \<le> now \<and> now < (now0 + life) div 1000000 * 1000000"
  by (simp add: claims_live_def token_payload_def)

lemma claim_token_payload [simp]:
  "claim ''typ'' (token_payload now jti sub typ life imp) = Some (JStr (token_type_value typ))"
  "claim ''sub'' (token_payload now jti sub typ life imp) = Some (JStr sub)"
  "claim ''iat'' (token_payload now jti sub typ life imp) = Some (JInt (now div 1000000))"
  "claim IMPERSONATOR_CLAIM (token_payload now jti sub typ life imp) =
     map_option (\<lambda>i. JObj [(''sub'', JStr i)]) imp"
  "subject_of (token_payload now jti sub typ life imp) = sub"
  by (simp_all add: claim_def token_payload_def subject_of_def py_str_def split: option.splits)

lemma token_type_value_inject [simp]: "token_type_value a = token_type_value b \<longleftrightarrow> a = b"
  by (cases a; cases b) simp_all

lemma decode_token_create_token:
  assumes "jwt_roundtrip ext"
  shows "decode_token ext s now (create_token ext s now0 jti sub typ life imp) expected =
    (if typ = expected \<and> now0 div 1000000 * 1000000 \<le> now \<and> now < (now0 + life) div 1000000 * 1000000
     then Inr (token_payload now0 jti sub typ life imp) else invalid_credentials)"
  using assms
  by (auto simp: decode_token_def create_token_def jwt_roundtrip_def Let_def claims_live_token_payload)

lemma claim_act_sub: "claim ''sub'' [(''sub'', JStr i)] = Some (JStr i)"
  by (simp add: claim_def)

lemma impersonator_of_token_payload [simp]:
  "impersonator_of (token_payload now jti sub typ life imp) = Inr imp"
  by (cases imp) (simp_all add: impersonator_of_def py_str_def claim_act_sub)

lemma issued_at_token_payload:
  assumes "datetime_range now"
  shows "issued_at (token_payload now jti sub typ life imp) = Inr (now div 1000000 * 1000000)"
proof -
  have "-62135596800 \<le> now div 1000000" "now div 1000000 \<le> 253402300799"
    using assms by (auto simp: datetime_range_def)
  then show ?thesis by (simp add: issued_at_def from_timestamp_def)
qed

lemma decode_access_token_create_token:
  assumes "jwt_roundtrip ext" and "datetime_range now0"
  shows "decode_access_token ext s now (create_token ext s now0 jti sub typ life imp) =
    (if typ = ACCESS_TOKEN_TYPE \<and> now0 div 1000000 * 1000000 \<le> now \<and> now < (now0 + life) div 1000000 * 1000000
     then Inr \<lparr>ac_subject = sub, ac_impersonator = imp, ac_issued_at = now0 div 1000000 * 1000000\<rparr>
     else invalid_credentials)"
  by (simp add: decode_access_token_def decode_token_create_token [OF assms(1)] issued_at_token_payload [OF assms(2)])

lemma decode_refresh_token_create_token:
  assumes "jwt_roundtrip ext"
  shows "decode_refresh_token ext s now (create_token ext s now0 jti sub typ life imp) =
    (if typ = REFRESH_TOKEN_TYPE \<and> imp = None \<and>
        now0 div 1000000 * 1000000 \<le> now \<and> now < (now0 + life) div 1000000 * 1000000
     then Inr sub else invalid_credentials)"
  by (auto simp: decode_refresh_token_def decode_token_create_token [OF assms])

section \<open>An instance of the called functions\<close>

text \<open>
  Transparent functions with the promised behaviour, for evaluating the definitions: a hash that
  shows the password, a digest that is its argument, and a token that lists its fields, each
  preceded by its length in unary.
\<close>

definition plain_str :: "str \<Rightarrow> str" where
  "plain_str s = replicate (length s) (CHR ''1'') @ CHR ''0'' # s"

definition unplain_str :: "str \<Rightarrow> str \<times> str" where
  "unplain_str s =
     (let n = length (takeWhile (\<lambda>c. c = CHR ''1'') s); rest = drop (Suc n) s
      in (take n rest, drop n rest))"

definition plain_int :: "int \<Rightarrow> str" where
  "plain_int n = plain_str ((if n < 0 then CHR ''-'' else CHR ''+'') # replicate (nat \<bar>n\<bar>) (CHR ''x''))"

definition unplain_int :: "str \<Rightarrow> int \<times> str" where
  "unplain_int s =
     (let (w, rest) = unplain_str s; n = int (length w) - 1
      in (if take 1 w = ''-'' then - n else n, rest))"

definition plain_claim_str :: "str \<Rightarrow> claims \<Rightarrow> str" where
  "plain_claim_str k p = (case map_of p k of Some (JStr v) \<Rightarrow> v | _ \<Rightarrow> [])"

definition plain_claim_int :: "str \<Rightarrow> claims \<Rightarrow> int" where
  "plain_claim_int k p = (case map_of p k of Some (JInt v) \<Rightarrow> v | _ \<Rightarrow> 0)"

definition plain_encode :: "claims \<Rightarrow> str \<Rightarrow> str \<Rightarrow> str" where
  "plain_encode p key alg =
     plain_str (plain_claim_str ''sub'' p) @ plain_str (plain_claim_str ''typ'' p)
     @ plain_str (plain_claim_str ''jti'' p)
     @ plain_int (plain_claim_int ''iat'' p) @ plain_int (plain_claim_int ''exp'' p)
     @ (case map_of p IMPERSONATOR_CLAIM of
          Some (JObj actor) \<Rightarrow> CHR ''1'' # plain_claim_str ''sub'' actor
        | _ \<Rightarrow> [])"

definition plain_decode :: "str \<Rightarrow> str \<Rightarrow> str \<Rightarrow> time \<Rightarrow> claims option" where
  "plain_decode token key alg now =
     (let (sub, t) = unplain_str token; (typ, t) = unplain_str t; (jti, t) = unplain_str t;
          (iat, t) = unplain_int t; (exp, t) = unplain_int t;
          p = [(''sub'', JStr sub), (''typ'', JStr typ), (''jti'', JStr jti), (''iat'', JInt iat),
               (''exp'', JInt exp)]
              @ (case t of [] \<Rightarrow> [] | c # i \<Rightarrow> [(IMPERSONATOR_CLAIM, JObj [(''sub'', JStr i)])])
      in if claims_live p now then Some p else None)"

definition plain_ext :: ext where
  "plain_ext = \<lparr>ext_pw_hash = (\<lambda>salt p. CHR ''#'' # p), ext_pw_verify = (\<lambda>p h. h = CHR ''#'' # p),
     ext_sha256_hex = (\<lambda>t. t), ext_jwt_encode = plain_encode, ext_jwt_decode = plain_decode\<rparr>"

definition sample_settings :: Settings where
  "sample_settings = default_settings ''url'' ''0123456789abcdef0123456789abcdef''"

lemma unplain_plain_str [simp]: "unplain_str (plain_str s @ r) = (s, r)"
proof -
  have "takeWhile (\<lambda>c. c = CHR ''1'') (replicate n (CHR ''1'') @ CHR ''0'' # t) = replicate n (CHR ''1'')" for n t
    by (induction n) simp_all
  then have "takeWhile (\<lambda>c. c = CHR ''1'') (plain_str s @ r) = replicate (length s) (CHR ''1'')"
    by (simp add: plain_str_def)
  then show ?thesis by (simp add: unplain_str_def plain_str_def)
qed

lemma unplain_plain_int [simp]: "unplain_int (plain_int n @ r) = (n, r)"
  by (simp add: unplain_int_def plain_int_def)

lemma unplain_plain_int_end [simp]: "unplain_int (plain_int n) = (n, [])"
  using unplain_plain_int [of n "[]"] by simp

lemma plain_decode_encode:
  "plain_decode (plain_encode (token_payload now0 jti sub typ life imp) key alg) key alg now =
   (if claims_live (token_payload now0 jti sub typ life imp) now
    then Some (token_payload now0 jti sub typ life imp) else None)"
  by (cases imp)
    (simp_all add: plain_decode_def plain_encode_def plain_claim_str_def plain_claim_int_def token_payload_def)

lemma plain_ext_simps [simp]:
  "ext_pw_hash plain_ext salt p = CHR ''#'' # p" "ext_pw_verify plain_ext p h \<longleftrightarrow> h = CHR ''#'' # p"
  "ext_sha256_hex plain_ext t = t"
  by (simp_all add: plain_ext_def)

lemma plain_ext_ok: "jwt_roundtrip plain_ext" "pw_complete plain_ext" "pw_sound plain_ext"
  by (simp_all add: jwt_roundtrip_def pw_complete_def pw_sound_def plain_ext_def plain_decode_encode Let_def)

section \<open>What tokens promise\<close>

text \<open>
  An access token is read back with its subject, its issue second and, when it is an
  impersonation token, the impersonator, at every moment from its issue until its lifetime has
  passed, and at no moment after that.
\<close>

theorem access_token_roundtrip:
  assumes "jwt_roundtrip ext" and "datetime_range now0" and "now0 \<le> now"
  shows "let whole = now0 div 1000000 * 1000000;
             access = create_access_token ext s now0 jti sub;
             acting = create_impersonation_token ext s now0 jti sub imp
    in (if now < whole + minutes (access_token_expire_minutes s)
        then decode_access_token ext s now access =
          Inr \<lparr>ac_subject = sub, ac_impersonator = None, ac_issued_at = whole\<rparr>
        else error_code_of (decode_access_token ext s now access) = Some AUTH_INVALID_CREDENTIALS) \<and>
       (if now < whole + minutes (impersonation_token_expire_minutes s)
        then decode_access_token ext s now acting =
          Inr \<lparr>ac_subject = sub, ac_impersonator = Some imp, ac_issued_at = whole\<rparr>
        else error_code_of (decode_access_token ext s now acting) = Some AUTH_INVALID_CREDENTIALS)"
proof -
  have "now0 div 1000000 * 1000000 \<le> now0" using pos_mod_sign [of 1000000 now0] by (simp add: minus_mod_eq_div_mult [symmetric])
  then have ok: "now0 div 1000000 * 1000000 \<le> now" using assms(3) by simp
  have "(now0 + minutes m) div 1000000 * 1000000 = now0 div 1000000 * 1000000 + minutes m" for m
  proof -
    have "(now0 + m * 60 * 1000000) div 1000000 = now0 div 1000000 + m * 60"
      using div_mult_self1 [of 1000000 now0 "m * 60"] by (simp add: add.commute)
    then show ?thesis by (simp add: distrib_right mult.assoc)
  qed
  then show ?thesis
    using ok by (simp add: create_access_token_def create_impersonation_token_def Let_def
        decode_access_token_create_token [OF assms(1,2)])
qed

theorem access_token_roundtrip_witness:
  "decode_access_token plain_ext sample_settings (seconds 60)
     (create_impersonation_token plain_ext sample_settings (seconds 1) ''j'' ''7'' ''1'') =
   Inr \<lparr>ac_subject = ''7'', ac_impersonator = Some ''1'', ac_issued_at = seconds 1\<rparr>"
  using access_token_roundtrip [OF plain_ext_ok(1), of "seconds 1" "seconds 60" sample_settings "''j''" "''7''" "''1''"]
  by (simp add: datetime_range_def default_settings_def sample_settings_def)

text \<open>
  Token types cannot be confused, whatever the clock says: an access or impersonation token is
  never accepted as a refresh token, a refresh token is never accepted as an access token, and each
  refusal is the same invalid-credentials error.
\<close>

theorem token_types_not_confused:
  assumes "jwt_roundtrip ext" and "datetime_range now0"
  shows "decode_refresh_token ext s now (create_access_token ext s now0 jti sub) = invalid_credentials \<and>
    decode_refresh_token ext s now (create_impersonation_token ext s now0 jti sub imp) = invalid_credentials \<and>
    decode_access_token ext s now (create_refresh_token ext s now0 jti sub) = invalid_credentials"
  by (simp add: create_access_token_def create_impersonation_token_def create_refresh_token_def
      decode_refresh_token_create_token [OF assms(1)] decode_access_token_create_token [OF assms])

theorem token_types_not_confused_witness:
  "decode_refresh_token plain_ext sample_settings 5
     (create_access_token plain_ext sample_settings 1 ''j'' ''7'') = invalid_credentials"
  using token_types_not_confused [OF plain_ext_ok(1), of 1]
  by (simp add: datetime_range_def)

end
