(* ===== verification/UserService.thy ===== *)
theory UserService
  imports UserRepo Items Security
begin

text \<open>
  \<open>app/schemas/user.py\<close> and \<open>app/services/user_service.py\<close>: what a registration or a profile update
  may contain, and the life of an account from registration to its closing. A service call that
  raises leaves the database as it was, because the session's transaction is rolled back; so a call
  is a function to \<open>'a result\<close>, and its \<open>Inl\<close> carries no database.
\<close>

section \<open>Schemas\<close>

abbreviation BCRYPT_MAX_PASSWORD_BYTES :: nat where
  "BCRYPT_MAX_PASSWORD_BYTES \<equiv> 72"

abbreviation MIN_PASSWORD_LENGTH :: nat where
  "MIN_PASSWORD_LENGTH \<equiv> 8"

abbreviation NAME_MAX_LENGTH :: nat where
  "NAME_MAX_LENGTH \<equiv> 120"

definition normalize_email :: "str \<Rightarrow> str" where
  "normalize_email value = lower (strip value)"

text \<open>\<open>len(value.encode())\<close>: a code point from 128 on takes two bytes of UTF-8.\<close>

definition utf8_length :: "str \<Rightarrow> nat" where
  "utf8_length s = sum_list (map (\<lambda>c. if (of_char c :: nat) < 128 then 1 else 2) s)"

definition reject_password_exceeding_bcrypt_input_limit :: "str \<Rightarrow> str result" where
  "reject_password_exceeding_bcrypt_input_limit value =
     (if utf8_length value > BCRYPT_MAX_PASSWORD_BYTES
      then Inl (ValueError ''password must be at most 72 bytes'') else Inr value)"

definition validate_password :: "str \<Rightarrow> str result" where
  "validate_password value =
     (if length value < MIN_PASSWORD_LENGTH then Inl (ValueError ''string_too_short'')
      else if length value > BCRYPT_MAX_PASSWORD_BYTES then Inl (ValueError ''string_too_long'')
      else reject_password_exceeding_bcrypt_input_limit value)"

definition validate_name :: "str \<Rightarrow> str result" where
  "validate_name value =
     (if length value > NAME_MAX_LENGTH then Inl (ValueError ''string_too_long'') else Inr value)"

record UserCreate =
  uc_email :: str
  uc_password :: str
  uc_name :: "str option"

record UserUpdate =
  uu_email :: "str field"
  uu_name :: "str option field"

text \<open>
  \<open>EmailStr\<close> is the argument \<open>email_str\<close>: the address as the email-validator package normalises it,
  or nothing when it refuses the string.
\<close>

definition validate_email :: "(str \<Rightarrow> str option) \<Rightarrow> str \<Rightarrow> str result" where
  "validate_email email_str value =
     (case email_str value of None \<Rightarrow> Inl (ValueError ''value_error'')
      | Some e \<Rightarrow> Inr (normalize_email e))"

definition validate_user_create ::
  "(str \<Rightarrow> str option) \<Rightarrow> str \<Rightarrow> str \<Rightarrow> str option \<Rightarrow> UserCreate result" where
  "validate_user_create email_str email password name =
     rbind (validate_email email_str email) (\<lambda>e.
     rbind (validate_password password) (\<lambda>p.
     rbind (case name of None \<Rightarrow> Inr None | Some n \<Rightarrow> map_sum id Some (validate_name n)) (\<lambda>n.
       Inr \<lparr>uc_email = e, uc_password = p, uc_name = n\<rparr>)))"

definition reject_a_blank_name :: "str option \<Rightarrow> str option result" where
  "reject_a_blank_name value =
     (case value of
        None \<Rightarrow> Inr None
      | Some v \<Rightarrow> if strip v = [] then Inl (ValueError ''name cannot be blank'') else Inr (Some (strip v)))"

definition validate_user_update ::
  "(str \<Rightarrow> str option) \<Rightarrow> str option field \<Rightarrow> str option field \<Rightarrow> UserUpdate result" where
  "validate_user_update email_str email name =
     rbind (case email of
              Unset \<Rightarrow> Inr Unset
            | Given None \<Rightarrow> Inl (ValueError ''email cannot be null'')
            | Given (Some e) \<Rightarrow> map_sum id Given (validate_email email_str e)) (\<lambda>e.
     rbind (case name of
              Unset \<Rightarrow> Inr Unset
            | Given None \<Rightarrow> Inr (Given None)
            | Given (Some n) \<Rightarrow>
                rbind (validate_name n) (\<lambda>n. map_sum id Given (reject_a_blank_name (Some n)))) (\<lambda>n.
       Inr \<lparr>uu_email = e, uu_name = n\<rparr>))"

section \<open>The service\<close>

abbreviation EMAIL_TAKEN :: str where
  "EMAIL_TAKEN \<equiv> ''Email already registered''"

abbreviation email_taken :: "'a result" where
  "email_taken \<equiv> raise_error ConflictError EMAIL_TAKEN USER_EMAIL_TAKEN"

text \<open>\<open>except IntegrityError as error: raise _as_conflict(error)\<close>.\<close>

fun as_conflict :: "'a result \<Rightarrow> 'a result" where
  "as_conflict (Inl (IntegrityError sqlstate)) =
     (if sqlstate = UNIQUE_VIOLATION then email_taken else Inl (IntegrityError sqlstate))"
| "as_conflict r = r"

definition role_named :: "str \<Rightarrow> database \<Rightarrow> Role result" where
  "role_named name d = or_not_found (role_get_by_name name d) ''Role not found'' ROLE_NOT_FOUND"

definition role_by_id :: "ident \<Rightarrow> database \<Rightarrow> Role result" where
  "role_by_id rid d = or_not_found (role_get rid d) ''Role not found'' ROLE_NOT_FOUND"

definition register :: "ext \<Rightarrow> str \<Rightarrow> UserCreate \<Rightarrow> database \<Rightarrow> (User \<times> database) result" where
  "register ext salt data d =
     (if user_get_by_email (uc_email data) d \<noteq> None then email_taken
      else (let first = \<not> user_exists_any d in
        rbind (role_named (if first then ADMIN_ROLE else USER_ROLE) d) (\<lambda>role.
          as_conflict (user_create
            (new_user (uc_email data) (uc_name data) (hash_password ext salt (uc_password data)) None [role])
            d))))"

definition service_get :: "ident \<Rightarrow> database \<Rightarrow> User result" where
  "service_get uid d = or_not_found (user_get uid d) ''User not found'' USER_NOT_FOUND"

definition service_update :: "User \<Rightarrow> UserUpdate \<Rightarrow> database \<Rightarrow> (User \<times> database) result" where
  "service_update user data d =
     rbind (case uu_email data of
              Given email \<Rightarrow>
                if email \<noteq> user_email user
                then (if user_get_by_email email d \<noteq> None then email_taken
                      else Inr (user\<lparr>user_email := email\<rparr>))
                else Inr user
            | Unset \<Rightarrow> Inr user) (\<lambda>user.
       as_conflict (user_save (user\<lparr>user_name := given (uu_name data) (user_name user)\<rparr>) d))"

definition add_role :: "ident \<Rightarrow> str \<Rightarrow> database \<Rightarrow> (User \<times> database) result" where
  "add_role uid name d =
     rbind (service_get uid d) (\<lambda>user.
     rbind (role_named name d) (\<lambda>role.
       if \<exists>held\<in>set (user_roles user). role_name held = role_name role then Inr (user, d)
       else user_save (user\<lparr>user_roles := user_roles user @ [role]\<rparr>) d))"

definition remove_role :: "User \<Rightarrow> ident \<Rightarrow> str \<Rightarrow> database \<Rightarrow> (User \<times> database) result" where
  "remove_role actor uid name d =
     (if user_id actor = uid \<and> name = ADMIN_ROLE
      then raise_error ForbiddenError ''You cannot drop your own superadmin role'' USER_SELF_ADMIN_ROLE
      else
        rbind (service_get uid d) (\<lambda>user.
        rbind (role_named name d) (\<lambda>role.
          if \<not> (\<exists>held\<in>set (user_roles user). role_name held = role_name role) then Inr (user, d)
          else user_save (user\<lparr>user_roles :=
                 filter (\<lambda>held. role_name held \<noteq> role_name role) (user_roles user)\<rparr>) d)))"

definition add_role_by_id :: "ident \<Rightarrow> ident \<Rightarrow> database \<Rightarrow> (User \<times> database) result" where
  "add_role_by_id uid rid d = rbind (role_by_id rid d) (\<lambda>role. add_role uid (role_name role) d)"

definition remove_role_by_id :: "User \<Rightarrow> ident \<Rightarrow> ident \<Rightarrow> database \<Rightarrow> (User \<times> database) result" where
  "remove_role_by_id actor uid rid d =
     rbind (role_by_id rid d) (\<lambda>role. remove_role actor uid (role_name role) d)"

definition service_list_all :: "int \<Rightarrow> int \<Rightarrow> database \<Rightarrow> User list \<times> int" where
  "service_list_all limit offset d = (user_list_all limit offset d, user_count_all d)"

text \<open>\<open>_close\<close>: what the account owns goes first, then the account.\<close>

definition close_account :: "time \<Rightarrow> User \<Rightarrow> database \<Rightarrow> database result" where
  "close_account now user d =
     rbind (item_soft_delete_for_owner now (user_id user) d) (user_soft_delete now user)"

definition deactivate :: "ext \<Rightarrow> time \<Rightarrow> User \<Rightarrow> str \<Rightarrow> database \<Rightarrow> database result" where
  "deactivate ext now user password d =
     (if \<not> verify_password ext password (user_hashed_password user)
      then raise_error ForbiddenError ''Password is incorrect'' USER_PASSWORD_INCORRECT
      else close_account now user d)"

definition remove_account :: "time \<Rightarrow> User \<Rightarrow> ident \<Rightarrow> database \<Rightarrow> database result" where
  "remove_account now actor uid d =
     rbind (service_get uid d) (\<lambda>target.
       if user_id target = user_id actor
       then raise_error ForbiddenError ''Close your own account from your profile'' USER_CLOSE_OWN_ACCOUNT
       else if \<not> outranks actor target
       then raise_error ForbiddenError ''Insufficient permissions'' AUTH_INSUFFICIENT_PERMISSIONS
       else close_account now target d)"

section \<open>Lemmas\<close>

lemma as_conflict_eq_Inr: "as_conflict r = Inr x \<longleftrightarrow> r = Inr x"
  by (cases r rule: as_conflict.cases) (auto split: if_splits)

lemma as_conflict_Inr [simp]: "as_conflict (Inr x) = Inr x"
  by (simp add: as_conflict_eq_Inr)

lemma service_get_eq_Inr: "service_get uid d = Inr u \<longleftrightarrow> user_get uid d = Some u"
  by (simp add: service_get_def or_not_found_eq_Inr)

lemma role_named_eq_Inr: "role_named n d = Inr r \<longleftrightarrow> role_get_by_name n d = Some r"
  by (simp add: role_named_def or_not_found_eq_Inr)

lemma normalize_email_idem: "normalize_email (normalize_email s) = normalize_email s"
  by (simp add: normalize_email_def strip_lower)

lemma new_user_simps [simp]:
  "user_email (new_user e n h v rs) = e" "user_name (new_user e n h v rs) = n"
  "user_hashed_password (new_user e n h v rs) = h" "user_email_verified_at (new_user e n h v rs) = v"
  "user_password_changed_at (new_user e n h v rs) = None" "user_roles (new_user e n h v rs) = rs"
  "user_is_active (new_user e n h v rs)"
  by (simp_all add: new_user_def user_is_active_def)

lemma assignable_simps [simp]:
  "assignable (u\<lparr>user_email := e\<rparr>) d = assignable u d"
  "assignable (u\<lparr>user_name := n\<rparr>) d = assignable u d"
  "assignable (u\<lparr>user_hashed_password := h\<rparr>) d = assignable u d"
  "assignable (u\<lparr>user_password_changed_at := t\<rparr>) d = assignable u d"
  "assignable (u\<lparr>user_email_verified_at := t\<rparr>) d = assignable u d"
  by (simp_all add: assignable_def)

lemma user_is_active_simps [simp]:
  "user_is_active (u\<lparr>user_email := e\<rparr>) = user_is_active u"
  "user_is_active (u\<lparr>user_name := n\<rparr>) = user_is_active u"
  "user_is_active (u\<lparr>user_hashed_password := h\<rparr>) = user_is_active u"
  "user_is_active (u\<lparr>user_password_changed_at := t\<rparr>) = user_is_active u"
  "user_is_active (u\<lparr>user_email_verified_at := t\<rparr>) = user_is_active u"
  by (simp_all add: user_is_active_def)

lemma user_is_active_roles [simp]: "user_is_active (u\<lparr>user_roles := rs\<rparr>) = user_is_active (u :: User)"
  by (simp add: user_is_active_def)

subsection \<open>Saving a loaded account\<close>

lemma saved_user:
  assumes "wf_accounts d" "user_get uid d = Some u" "assignable v d" "user_is_active v"
    and "user_id v = uid" "user_save v d = Inr (w, d')"
  shows "wf_accounts d' \<and> user_id w = uid \<and> account_fields w = account_fields v \<and>
    (\<forall>i. user_get i d' = (if i = uid then Some w else user_get i d))"
  using users.save_law [OF assms(1,3,4)] assms(2,5,6) by auto

lemma saved_items:
  assumes "wf_items d" "user_save v d = Inr (w, d')"
  shows "wf_items d' \<and> t_items d' = t_items d"
proof -
  have "user_id ` set (t_users d') = user_id ` set (t_users d)"
    using user_save_frame [OF assms(2)] by (metis list.set_map)
  with assms(1) user_save_frame [OF assms(2)] show ?thesis by (simp add: wf_items_def)
qed

subsection \<open>Registration\<close>

lemma user_get_seq_None: "wf_accounts d \<Longrightarrow> user_get (seqs d TUsers) d = None"
  by (auto simp: wf_accounts_def wf_users_def user_get_None_iff dest: keyed_fresh)

lemma assignable_new_user: "role_get_by_name n d = Some r \<Longrightarrow> assignable (new_user e m h v [r]) d"
  by (auto simp: assignable_def dest: role_get_by_name_SomeD)

lemma register_eq_Inr:
  "register ext salt data d = Inr (u, d') \<longleftrightarrow>
   user_get_by_email (uc_email data) d = None \<and>
   (\<exists>r. role_get_by_name (if t_users d = [] then ADMIN_ROLE else USER_ROLE) d = Some r \<and>
      user_create (new_user (uc_email data) (uc_name data) (hash_password ext salt (uc_password data)) None [r]) d
        = Inr (u, d'))"
  by (auto simp: register_def Let_def rbind_eq_Inr role_named_eq_Inr as_conflict_eq_Inr user_exists_any_def)

lemma register_succeeds:
  assumes "user_get_by_email (uc_email data) d = None"
    and "role_get_by_name (if t_users d = [] then ADMIN_ROLE else USER_ROLE) d = Some r"
    and "length (uc_email data) \<le> 255" "case uc_name data of None \<Rightarrow> True | Some n \<Rightarrow> length n \<le> 120"
  shows "\<exists>u d'. register ext salt data d = Inr (u, d')"
proof -
  let ?u = "new_user (uc_email data) (uc_name data) (hash_password ext salt (uc_password data)) None [r]"
  obtain u d' where "user_create ?u d = Inr (u, d')"
    using users.create_ok [of ?u d] assms(1,3,4) by (auto simp: user_too_long_def split: option.splits)
  then show ?thesis using assms(1,2) by (auto simp: register_eq_Inr)
qed

lemma register_refused:
  assumes "register ext salt data d = Inl e"
  shows "if user_get_by_email (uc_email data) d \<noteq> None then error_code_of (Inl e :: User result) = Some USER_EMAIL_TAKEN
    else if role_get_by_name (if t_users d = [] then ADMIN_ROLE else USER_ROLE) d = None
    then error_code_of (Inl e :: User result) = Some ROLE_NOT_FOUND
    else (length (uc_email data) > 255 \<or> (case uc_name data of None \<Rightarrow> False | Some n \<Rightarrow> length n > 120)) \<and> e = DataError STRING_TRUNCATION"
proof (cases "user_get_by_email (uc_email data) d = None")
  case True
  show ?thesis
  proof (cases "role_get_by_name (if t_users d = [] then ADMIN_ROLE else USER_ROLE) d")
    case None
    then show ?thesis
      using True assms by (auto simp: register_def Let_def role_named_def user_exists_any_def raise_error_def make_error_def error_code_of_def)
  next
    case (Some r)
    let ?u = "new_user (uc_email data) (uc_name data) (hash_password ext salt (uc_password data)) None [r]"
    have e: "as_conflict (user_create ?u d) = Inl e"
      using True Some assms by (simp add: register_def Let_def role_named_def user_exists_any_def)
    have "user_too_long ?u"
      using users.create_ok [of ?u d] True e by (cases "user_create ?u d") auto
    moreover from this have "user_create ?u d = Inl (DataError STRING_TRUNCATION)"
      by (simp add: user_create_def Let_def)
    ultimately show ?thesis
      using True Some e by (auto simp: user_too_long_def)
  qed
next
  case False
  then show ?thesis
    using assms by (auto simp: register_def raise_error_def make_error_def error_code_of_def)
qed

lemma register_law:
  assumes "wf_accounts d" "register ext salt data d = Inr (u, d')"
  shows "wf_accounts d'"
    and "\<exists>r. role_get_by_name (if t_users d = [] then ADMIN_ROLE else USER_ROLE) d = Some r \<and>
      account_fields u = account_fields (new_user (uc_email data) (uc_name data)
        (hash_password ext salt (uc_password data)) None [r])"
    and "user_get i d' = (if i = user_id u then Some u else user_get i d)"
    and "user_get_by_email e d' = (if e = uc_email data then Some u else user_get_by_email e d)"
    and "user_id u = seqs d TUsers" "t_items d' = t_items d" "t_users d \<noteq> [] \<or> t_users d' \<noteq> []"
proof -
  obtain r where r: "role_get_by_name (if t_users d = [] then ADMIN_ROLE else USER_ROLE) d = Some r"
    and c: "user_create (new_user (uc_email data) (uc_name data)
        (hash_password ext salt (uc_password data)) None [r]) d = Inr (u, d')"
    using assms(2) by (auto simp: register_eq_Inr)
  note a = assignable_new_user [OF r]
  note law = users.create_law [OF assms(1) a _ c, simplified new_user_simps, OF TrueI]
  show "wf_accounts d'" "user_get i d' = (if i = user_id u then Some u else user_get i d)"
    using law by auto
  show "\<exists>r. role_get_by_name (if t_users d = [] then ADMIN_ROLE else USER_ROLE) d = Some r \<and>
      account_fields u = account_fields (new_user (uc_email data) (uc_name data)
        (hash_password ext salt (uc_password data)) None [r])"
    using r law by blast
  show "user_get_by_email e d' = (if e = uc_email data then Some u else user_get_by_email e d)"
    using users.get_by_email_after_create [OF assms(1) a _ c, of e] by simp
  show "user_id u = seqs d TUsers" using user_create_get [OF assms(1) c] by blast
  show "t_items d' = t_items d" using user_create_frame [OF c] by blast
  show "t_users d \<noteq> [] \<or> t_users d' \<noteq> []" using c by (rule user_create_shape) simp
qed

lemma register_items:
  assumes "wf_items d" "register ext salt data d = Inr (u, d')"
  shows "wf_items d'"
proof -
  obtain r where "user_create r d = Inr (u, d')" using assms(2) by (auto simp: register_eq_Inr)
  then show ?thesis by (rule user_create_shape) (use assms(1) in \<open>auto simp: wf_items_def\<close>)
qed

text \<open>
  C14. The whole outcome of a registration. It is refused exactly in three cases, in this order: an open account has the
  address (the address-taken conflict); the role it would hand out, superadmin on a deployment that never had an
  account and user afterwards, does not exist (role not found); the address or the name does not fit its column (a data
  error). Otherwise the new account has the address, the name and the hash of the password that were
  sent and that role, is unverified, is what both lookups answer for it, and changes no other account.
\<close>

theorem register_outcome:
  assumes "wf_accounts d"
  shows "let role = role_get_by_name (if t_users d = [] then ADMIN_ROLE else USER_ROLE) d;
      too_long = (length (uc_email data) > 255 \<or> (case uc_name data of None \<Rightarrow> False | Some n \<Rightarrow> length n > 120))
    in case register ext salt data d of
      Inl e \<Rightarrow>
        if user_get_by_email (uc_email data) d \<noteq> None then error_code_of (Inl e :: User result) = Some USER_EMAIL_TAKEN
        else if role = None then error_code_of (Inl e :: User result) = Some ROLE_NOT_FOUND
        else too_long \<and> e = DataError STRING_TRUNCATION
    | Inr (u, d') \<Rightarrow> user_get_by_email (uc_email data) d = None \<and> \<not> too_long \<and> wf_accounts d' \<and>
        (\<exists>r. role = Some r \<and> account_fields u =
          (uc_email data, uc_name data, hash_password ext salt (uc_password data), None, None, {r})) \<and>
        user_get_by_email (uc_email data) d' = Some u \<and>
        user_get (user_id u) d = None \<and>
        (\<forall>i. user_get i d' = (if i = user_id u then Some u else user_get i d))"
proof (cases "register ext salt data d")
  case (Inl e)
  then show ?thesis
    using register_refused [OF Inl] by (simp add: Let_def)
next
  case (Inr a)
  obtain u d' where reg: "register ext salt data d = Inr (u, d')"
    using Inr by (cases a) simp
  note law = register_law [OF assms reg]
  have "user_get (user_id u) d = None"
    using law(5) user_get_seq_None [OF assms] by simp
  moreover have "user_get_by_email (uc_email data) d = None"
    using reg by (simp add: register_eq_Inr)
  moreover have "\<not> user_too_long u"
    using users.get_found [OF law(1), of "user_id u"] law(3) by simp
  ultimately show ?thesis
    unfolding reg sum.case prod.case using law(1,2,3,4)
    by (fastforce simp: Let_def account_fields_def user_too_long_def)
qed

text \<open>A deployment as \<open>seed_roles\<close> leaves it, before anyone registers.\<close>

definition seeded_db :: database where
  "seeded_db = seed_roles empty_db"

definition sample_data :: "str \<Rightarrow> UserCreate" where
  "sample_data email = \<lparr>uc_email = email, uc_password = ''password1'', uc_name = None\<rparr>"

lemma wf_seeded_db: "wf_accounts seeded_db" "wf_items seeded_db"
  by code_simp+

lemma seeded_roles:
  "map_option role_name (role_get_by_name ADMIN_ROLE seeded_db) = Some ADMIN_ROLE"
  "map_option role_name (role_get_by_name USER_ROLE seeded_db) = Some USER_ROLE"
  "t_users seeded_db = []"
  by code_simp+

theorem register_outcome_witness:
  "\<exists>u d'. register plain_ext ''s'' (sample_data ''a@b.co'') seeded_db = Inr (u, d') \<and> is_superuser u \<and>
     wf_accounts d' \<and> user_get_by_email ''a@b.co'' d' = Some u"
proof -
  obtain admin plain where r: "role_get_by_name ADMIN_ROLE seeded_db = Some admin"
    "role_get_by_name USER_ROLE seeded_db = Some plain" "role_name admin = ADMIN_ROLE"
    using seeded_roles by auto
  have none: "user_get_by_email ''a@b.co'' seeded_db = None"
    by (simp add: user_get_by_email_None_iff seeded_roles)
  from register_outcome [OF wf_seeded_db(1), of "sample_data ''a@b.co''" plain_ext "''s''"] none
  show ?thesis
    by (auto simp: Let_def sample_data_def seeded_roles is_superuser_def account_fields_def r
        split: sum.splits)
qed

subsection \<open>Closing an account\<close>

lemma user_lookups_items_frame [simp]:
  "user_get i (d\<lparr>t_items := is\<rparr>) = user_get i d"
  "user_get_by_email e (d\<lparr>t_items := is\<rparr>) = user_get_by_email e d"
  "wf_accounts (d\<lparr>t_items := is\<rparr>) = wf_accounts d"
proof -
  have "load_user (d\<lparr>t_items := is\<rparr>) = load_user d"
    by (rule ext) (simp add: load_user_def roles_of_def)
  then show "user_get i (d\<lparr>t_items := is\<rparr>) = user_get i d"
    "user_get_by_email e (d\<lparr>t_items := is\<rparr>) = user_get_by_email e d"
    by (simp_all add: user_get_def user_get_by_email_def)
  show "wf_accounts (d\<lparr>t_items := is\<rparr>) = wf_accounts d"
    by (simp add: wf_accounts_def wf_users_def wf_roles_def wf_links_def)
qed

lemma user_soft_delete_frame:
  assumes "user_soft_delete now u d = Inr d'"
  shows "t_items d' = t_items d" "wf_items d \<Longrightarrow> wf_items d'" "t_users d' \<noteq> [] \<longleftrightarrow> t_users d \<noteq> []"
    "t_refresh_tokens d' = t_refresh_tokens d" "t_roles d' = t_roles d" "map user_id (t_users d') = map user_id (t_users d)"
    "seqs d' = seqs d"
proof -
  obtain w where s: "user_save (user_mark_deleted now u) d = Inr (w, d')"
    using assms by (auto simp: user_soft_delete_def map_sum_eq_Inr)
  show "t_items d' = t_items d" "t_refresh_tokens d' = t_refresh_tokens d" "t_roles d' = t_roles d"
    "map user_id (t_users d') = map user_id (t_users d)" "seqs d' = seqs d"
    using user_save_frame [OF s] by simp_all
  then show "t_users d' \<noteq> [] \<longleftrightarrow> t_users d \<noteq> []" by (metis map_is_Nil_conv)
  show "wf_items d \<Longrightarrow> wf_items d'" using saved_items [OF _ s] by simp
qed

lemma retired_wf:
  assumes "wf_items d"
  shows "wf_items (d\<lparr>t_items := map (\<lambda>j. if item_owned_by o' j then item_retired now st j else j) (t_items d)\<rparr>)"
proof -
  have "keyed item_id (map (\<lambda>j. if item_owned_by o' j then item_retired now st j else j) (t_items d)) (seqs d TItems)"
    using wf_items_keyed [OF assms] by (subst keyed_map) simp_all
  with assms show ?thesis by (auto simp: wf_items_def)
qed

lemma retired_items_for_owner:
  "items_for_owner o2 (d\<lparr>t_items := map (\<lambda>j. if item_owned_by o1 j then item_retired now st j else j) (t_items d)\<rparr>) =
   (if o2 = o1 then [] else items_for_owner o2 d)"
proof -
  let ?f = "\<lambda>j. if item_owned_by o1 j then item_retired now st j else j"
  have "filter (item_owned_by o2) (map ?f (t_items d)) = (if o2 = o1 then [] else filter (item_owned_by o2) (t_items d))"
  proof (cases "o2 = o1")
    case True
    have "\<not> item_owned_by o1 (item_retired now st j)" for j by (simp add: item_owned_by_def)
    then have "filter (item_owned_by o1) (map ?f (t_items d)) = []" by (auto simp: filter_empty_conv)
    then show ?thesis unfolding True by simp
  next
    case False
    then have "filter (item_owned_by o2) (map ?f (t_items d)) = filter (item_owned_by o2) (t_items d)"
      by (intro filter_map_same) (auto simp: item_owned_by_def)
    with False show ?thesis by simp
  qed
  then show ?thesis by (simp add: items_for_owner_def)
qed

lemma close_account_law:
  assumes "wf_accounts d" "wf_items d" "user_get (user_id u) d = Some u"
  obtains d' where "close_account now u d = Inr d'" "wf_accounts d'" "wf_items d'"
    "\<And>i. user_get i d' = (if i = user_id u then None else user_get i d)"
    "\<And>e. user_get_by_email e d' = (if e = user_email u then None else user_get_by_email e d)"
    "\<And>i. items_for_owner i d' = (if i = user_id u then [] else items_for_owner i d)"
    "t_users d' \<noteq> [] \<longleftrightarrow> t_users d \<noteq> []" "t_roles d' = t_roles d" "t_refresh_tokens d' = t_refresh_tokens d"
    "seqs d' = seqs d" "map user_id (t_users d') = map user_id (t_users d)"
proof -
  let ?d = "d\<lparr>t_items := map (\<lambda>j. if item_owned_by (user_id u) j then item_retired now (tx_now d) j else j) (t_items d)\<rparr>"
  have items: "item_soft_delete_for_owner now (user_id u) d = Inr ?d"
    by (rule item_soft_delete_for_owner_eq [OF assms(2)])
  have pre: "wf_accounts ?d" "user_get (user_id u) ?d = Some u" using assms(1,3) by simp_all
  from users.soft_delete_law [OF pre] obtain d' where d': "user_soft_delete now u ?d = Inr d'"
    "wf_accounts d'" "\<And>i. user_get i d' = (if i = user_id u then None else user_get i ?d)" by blast
  note fr = user_soft_delete_frame [OF d'(1)]
  have "items_for_owner i d' = (if i = user_id u then [] else items_for_owner i d)" for i
    using fr(1) retired_items_for_owner [of i "user_id u" now "tx_now d" d] by (simp add: items_for_owner_def)
  moreover have "user_get_by_email e d' = (if e = user_email u then None else user_get_by_email e d)" for e
    using users.get_by_email_after_soft_delete(2) [OF pre d'(1), of e] by simp
  ultimately show ?thesis
    using that [of d'] d' fr items retired_wf [OF assms(2)] by (simp add: close_account_def)
qed

text \<open>The first account of a seeded deployment.\<close>

lemma sample_account:
  obtains u d plain where "register plain_ext ''s'' (sample_data ''a@b.co'') seeded_db = Inr (u, d)"
    "wf_accounts d" "wf_items d" "user_get (user_id u) d = Some u" "user_email u = ''a@b.co''" "is_superuser u"
    "role_get_by_name USER_ROLE d = Some plain" "user_hashed_password u = ''#password1''"
    "user_password_changed_at u = None" "user_email_verified_at u = None" "user_id u = 1"
    "t_refresh_tokens d = []" "t_single_use_tokens d = []" "t_users d \<noteq> []" "tx_now d = 0" "user_name u = None"
    "t_idempotency_keys d = []" "t_items d = []" "t_preferences d = []"
proof -
  obtain admin plain where r: "role_get_by_name ADMIN_ROLE seeded_db = Some admin"
    "role_get_by_name USER_ROLE seeded_db = Some plain" "role_name admin = ADMIN_ROLE"
    using seeded_roles by auto
  have none: "user_get_by_email (uc_email (sample_data ''a@b.co'')) seeded_db = None"
    by (simp add: user_get_by_email_None_iff seeded_roles)
  have role: "role_get_by_name (if t_users seeded_db = [] then ADMIN_ROLE else USER_ROLE) seeded_db = Some admin"
    using r(1) seeded_roles(3) by simp
  obtain u d where reg: "register plain_ext ''s'' (sample_data ''a@b.co'') seeded_db = Inr (u, d)"
    using register_succeeds [OF none role, of plain_ext "''s''"] by (auto simp: sample_data_def)
  note law = register_law [OF wf_seeded_db(1) reg]
  obtain w where c: "user_create w seeded_db = Inr (u, d)" using reg by (auto simp: register_eq_Inr)
  have sq: "seqs seeded_db TUsers = 1" "t_refresh_tokens seeded_db = []" "t_single_use_tokens seeded_db = []"
    "tx_now seeded_db = 0" "t_idempotency_keys seeded_db = []" "t_items seeded_db = []" "t_preferences seeded_db = []"
    by code_simp+
  have fields: "account_fields u = account_fields (new_user ''a@b.co'' None ''#password1'' None [admin])"
    using law(2) role by (auto simp: sample_data_def hash_password_def plain_ext_def)
  have "t_roles d = t_roles seeded_db" using user_create_frame [OF c] by blast
  then have "role_get_by_name USER_ROLE d = Some plain" using r(2) by (simp add: role_get_by_name_def)
  moreover have "is_superuser u" using fields r(3) by (simp add: is_superuser_def)
  ultimately show ?thesis
    using reg law(1,5,7) law(3) [of "user_id u"] register_items [OF wf_seeded_db(2) reg] fields
      user_create_frame [OF c] sq seeded_roles(3)
    by (intro that [of u d plain]) simp_all
qed

text \<open>
  C34. Closing an account always succeeds for an account that is there. Afterwards neither lookup
  finds it and it has no items; every other account and every other account's items are what they
  were; and the schema's constraints still hold.
\<close>

theorem close_account_outcome:
  assumes "wf_accounts d" and "wf_items d" and "user_get (user_id u) d = Some u"
  shows "\<exists>d'. close_account now u d = Inr d' \<and> wf_accounts d' \<and> wf_items d' \<and>
    user_get (user_id u) d' = None \<and> user_get_by_email (user_email u) d' = None \<and>
    items_for_owner (user_id u) d' = [] \<and>
    (\<forall>other. other \<noteq> user_id u \<longrightarrow>
       user_get other d' = user_get other d \<and> items_for_owner other d' = items_for_owner other d)"
  by (rule close_account_law [OF assms, of now]) auto

theorem close_account_outcome_witness:
  "\<exists>u d d'. register plain_ext ''s'' (sample_data ''a@b.co'') seeded_db = Inr (u, d) \<and>
     close_account 9 u d = Inr d' \<and> user_get (user_id u) d' = None \<and> wf_accounts d'"
proof -
  obtain u d where s: "register plain_ext ''s'' (sample_data ''a@b.co'') seeded_db = Inr (u, d)"
    "wf_accounts d" "wf_items d" "user_get (user_id u) d = Some u" by (rule sample_account)
  with close_account_outcome [OF s(2,3,4), of 9] show ?thesis by blast
qed

text \<open>
  A closed account's address can register again at once, and the account that takes it is a
  different one that starts with no items.
\<close>

theorem closed_address_starts_empty:
  assumes "wf_accounts d" and "wf_items d" and "user_get (user_id u) d = Some u"
    and "role_get_by_name USER_ROLE d = Some plain"
    and "close_account now u d = Inr d'" and "uc_email data = user_email u"
    and "case uc_name data of None \<Rightarrow> True | Some n \<Rightarrow> length n \<le> 120"
  shows "\<exists>v d''. register ext salt data d' = Inr (v, d'') \<and> user_email v = user_email u \<and>
    user_id v \<noteq> user_id u \<and> user_get (user_id v) d'' = Some v \<and> items_for_owner (user_id v) d'' = []"
proof -
  obtain d1 where d1: "close_account now u d = Inr d1" "wf_accounts d1" "wf_items d1"
    "user_get_by_email (user_email u) d1 = None" "t_users d1 \<noteq> []" "t_roles d1 = t_roles d"
    "seqs d1 = seqs d"
  proof (rule close_account_law [OF assms(1-3), of now])
    fix d1
    assume "close_account now u d = Inr d1" "wf_accounts d1" "wf_items d1" "t_roles d1 = t_roles d" "seqs d1 = seqs d"
      "t_users d1 \<noteq> [] \<longleftrightarrow> t_users d \<noteq> []"
      "\<And>e. user_get_by_email e d1 = (if e = user_email u then None else user_get_by_email e d)"
    moreover have "t_users d \<noteq> []" using assms(3) by (auto simp: user_get_def)
    ultimately show thesis by (intro that [of d1]) simp_all
  qed
  have d': "d' = d1" using d1(1) assms(5) by simp
  have role: "role_get_by_name (if t_users d1 = [] then ADMIN_ROLE else USER_ROLE) d1 = Some plain"
    using d1(5,6) assms(4) by (simp add: role_get_by_name_def)
  have free: "user_get_by_email (uc_email data) d1 = None" using d1(4) assms(6) by simp
  obtain v d'' where reg: "register ext salt data d1 = Inr (v, d'')"
    using register_succeeds [OF free role _ assms(7), of ext salt] users.get_found [OF assms(1,3)] assms(6)
    by (auto simp: user_too_long_def)
  note law = register_law [OF d1(2) reg]
  have new: "user_id v = seqs d TUsers" using law(5) d1(7) by simp
  moreover have "user_id u \<noteq> seqs d TUsers"
    using assms(3) user_get_seq_None [OF assms(1)] by auto
  moreover have "items_for_owner (user_id v) d'' = []"
  proof -
    have "seqs d1 TUsers \<notin> user_id ` set (t_users d1)"
      using d1(2) by (auto simp: wf_accounts_def wf_users_def dest: keyed_fresh)
    then have "i \<in> set (t_items d1) \<Longrightarrow> item_owner_id i \<noteq> seqs d1 TUsers" for i
      using d1(3) unfolding wf_items_def by metis
    then have "filter (item_owned_by (seqs d1 TUsers)) (t_items d1) = []"
      by (auto simp: filter_empty_conv item_owned_by_def)
    then show ?thesis using law(5,6) by (simp add: items_for_owner_def)
  qed
  moreover have "user_email v = user_email u" using law(2) assms(6) by (auto simp: account_fields_def)
  ultimately show ?thesis unfolding d' using reg law(3) [of "user_id v"] by auto
qed

theorem closed_address_starts_empty_witness:
  "\<exists>u d d' v d''. register plain_ext ''s'' (sample_data ''a@b.co'') seeded_db = Inr (u, d) \<and>
     close_account 9 u d = Inr d' \<and> register plain_ext ''s'' (sample_data ''a@b.co'') d' = Inr (v, d'') \<and>
     user_id v \<noteq> user_id u"
proof -
  obtain u d plain where s: "register plain_ext ''s'' (sample_data ''a@b.co'') seeded_db = Inr (u, d)"
    "wf_accounts d" "wf_items d" "user_get (user_id u) d = Some u" "role_get_by_name USER_ROLE d = Some plain"
    "user_email u = ''a@b.co''" by (rule sample_account)
  obtain d' where c: "close_account 9 u d = Inr d'" by (rule close_account_law [OF s(2-4), of 9])
  have "uc_email (sample_data ''a@b.co'') = user_email u" by (simp add: s(6) sample_data_def)
  from closed_address_starts_empty [OF s(2-5) c this, of plain_ext "''s''"] s(1) c show ?thesis
    by (auto simp: sample_data_def)
qed

subsection \<open>Profile and roles\<close>

text \<open>What a successful write of an existing account leaves, whichever operation it was.\<close>

definition writes_only :: "ident \<Rightarrow> User \<Rightarrow> database \<Rightarrow> database \<Rightarrow> bool" where
  "writes_only uid w d d' \<longleftrightarrow> wf_accounts d' \<and> t_items d' = t_items d \<and> user_id w = uid \<and>
     (\<forall>i. user_get i d' = (if i = uid then Some w else user_get i d))"

lemma saved_writes_only:
  assumes "wf_accounts d" "user_get uid d = Some u" "assignable v d" "user_is_active v"
    and "user_id v = uid" "user_save v d = Inr (w, d')"
  shows "writes_only uid w d d' \<and> account_fields w = account_fields v"
  using saved_user [OF assms] user_save_frame [OF assms(6)] by (simp add: writes_only_def)

lemma unchanged_writes_only:
  "wf_accounts d \<Longrightarrow> user_get uid d = Some u \<Longrightarrow> writes_only uid u d d"
  using users.get_found by (auto simp: writes_only_def)

lemma service_update_law:
  assumes "wf_accounts d" "user_get (user_id u) d = Some u" "service_update u data d = Inr (w, d')"
  shows "writes_only (user_id u) w d d' \<and>
    account_fields w = account_fields (u\<lparr>user_email := given (uu_email data) (user_email u),
      user_name := given (uu_name data) (user_name u)\<rparr>)"
proof -
  have u: "assignable u d" "user_is_active u" using users.get_found [OF assms(1,2)] by auto
  let ?v = "u\<lparr>user_email := given (uu_email data) (user_email u), user_name := given (uu_name data) (user_name u)\<rparr>"
  have "user_save ?v d = Inr (w, d')"
    using assms(3) by (cases "uu_email data")
      (auto simp: service_update_def as_conflict_eq_Inr rbind_eq_Inr split: if_splits)
  then show ?thesis using u by (intro saved_writes_only [OF assms(1,2)]) simp_all
qed

lemma add_role_law:
  assumes "wf_accounts d" "user_get uid d = Some u" "role_get_by_name name d = Some r"
    and "add_role uid name d = Inr (w, d')"
  shows "writes_only uid w d d' \<and> set (user_roles w) = insert r (set (user_roles u)) \<and>
    user_email w = user_email u"
proof -
  have u: "user_id u = uid" "assignable u d" "user_is_active u" using users.get_found [OF assms(1,2)] by auto
  have r: "r \<in> set (t_roles d)" "role_name r = name" using role_get_by_name_SomeD [OF assms(3)] by auto
  have uniq: "h \<in> set (user_roles u) \<Longrightarrow> role_name h = name \<Longrightarrow> h = r" for h
    using u(2) r assms(1) by (auto simp: assignable_def wf_accounts_def dest: wf_roles_name_unique)
  show ?thesis
  proof (cases "\<exists>h\<in>set (user_roles u). role_name h = name")
    case True
    then have "w = u \<and> d' = d" using assms r by (auto simp: add_role_def service_get_eq_Inr role_named_eq_Inr rbind_eq_Inr)
    moreover have "r \<in> set (user_roles u)" using True uniq by blast
    ultimately show ?thesis using unchanged_writes_only [OF assms(1,2)] by auto
  next
    case False
    let ?v = "u\<lparr>user_roles := user_roles u @ [r]\<rparr>"
    have "user_save ?v d = Inr (w, d')"
      using assms r False by (auto simp: add_role_def service_get_eq_Inr role_named_eq_Inr rbind_eq_Inr)
    moreover have "assignable ?v d"
      using u(2) r False assms(1) by (auto simp: assignable_def wf_accounts_def dest: wf_roles_id_unique)
    ultimately show ?thesis
      using saved_writes_only [OF assms(1,2), of ?v w d'] u by auto
  qed
qed

lemma remove_role_law:
  assumes "wf_accounts d" "user_get uid d = Some u" "remove_role actor uid name d = Inr (w, d')"
  shows "writes_only uid w d d' \<and> set (user_roles w) = {h \<in> set (user_roles u). role_name h \<noteq> name} \<and>
    user_email w = user_email u \<and> (user_id actor = uid \<longrightarrow> name \<noteq> ADMIN_ROLE)"
proof -
  have u: "user_id u = uid" "assignable u d" "user_is_active u" using users.get_found [OF assms(1,2)] by auto
  obtain r where r: "role_get_by_name name d = Some r" "role_name r = name" "user_id actor = uid \<longrightarrow> name \<noteq> ADMIN_ROLE"
    using assms(3) role_get_by_name_SomeD by (auto simp: remove_role_def rbind_eq_Inr role_named_eq_Inr split: if_splits)
  show ?thesis
  proof (cases "\<exists>h\<in>set (user_roles u). role_name h = name")
    case False
    then have "w = u \<and> d' = d" using assms r by (auto simp: remove_role_def service_get_eq_Inr role_named_eq_Inr rbind_eq_Inr split: if_splits)
    then show ?thesis using unchanged_writes_only [OF assms(1,2)] False r(3) by auto
  next
    case True
    let ?v = "u\<lparr>user_roles := filter (\<lambda>held. role_name held \<noteq> name) (user_roles u)\<rparr>"
    have "user_save ?v d = Inr (w, d')"
      using assms r True by (auto simp: remove_role_def service_get_eq_Inr role_named_eq_Inr rbind_eq_Inr split: if_splits)
    moreover have "assignable ?v d" using u(2) by (auto simp: assignable_def distinct_map_filter)
    ultimately show ?thesis
      using saved_writes_only [OF assms(1,2), of ?v w d'] u r(3) by auto
  qed
qed

text \<open>
  A successful profile update writes the address and the name that were sent and nothing else:
  the password, the roles and the verification of the account stay, so an account that was verified
  under its old address counts as verified under the new one. No other account changes.
\<close>

theorem profile_update_outcome:
  assumes "wf_accounts d" and "user_get (user_id u) d = Some u" and "service_update u data d = Inr (w, d')"
  shows "wf_accounts d' \<and>
    account_fields w = (given (uu_email data) (user_email u), given (uu_name data) (user_name u),
      user_hashed_password u, user_email_verified_at u, user_password_changed_at u, set (user_roles u)) \<and>
    (\<forall>i. user_get i d' = (if i = user_id u then Some w else user_get i d))"
  using service_update_law [OF assms] by (simp add: writes_only_def account_fields_def)

theorem profile_update_outcome_witness:
  "\<exists>u d w d'. register plain_ext ''s'' (sample_data ''a@b.co'') seeded_db = Inr (u, d) \<and>
     service_update u \<lparr>uu_email = Unset, uu_name = Given (Some ''Ann'')\<rparr> d = Inr (w, d') \<and>
     user_name w = Some ''Ann'' \<and> user_email w = ''a@b.co''"
proof -
  obtain u d where s: "register plain_ext ''s'' (sample_data ''a@b.co'') seeded_db = Inr (u, d)"
    "wf_accounts d" "user_get (user_id u) d = Some u" "user_email u = ''a@b.co''" by (rule sample_account)
  have a: "assignable u d" "user_is_active u" using users.get_found [OF s(2,3)] by auto
  let ?v = "u\<lparr>user_name := Some ''Ann''\<rparr>"
  obtain w d' where "user_save ?v d = Inr (w, d')"
    using users.save_ok [OF s(2), of ?v u] s(3,4) by (auto simp: user_too_long_def)
  then have "service_update u \<lparr>uu_email = Unset, uu_name = Given (Some ''Ann'')\<rparr> d = Inr (w, d')"
    by (simp add: service_update_def)
  with profile_update_outcome [OF s(2,3) this] s(1,4) show ?thesis by (auto simp: account_fields_def)
qed

end
