(* ===== verification/RoleService.thy ===== *)
theory RoleService
  imports UserService
begin

text \<open>
  \<open>app/schemas/role.py\<close> and \<open>app/services/role_service.py\<close>: roles as an administrator edits them,
  what an account may do according to them, and what no sequence of administrative operations can
  take away.
\<close>

section \<open>Schemas\<close>

abbreviation ROLE_NAME_LENGTH :: nat where
  "ROLE_NAME_LENGTH \<equiv> 50"

abbreviation ROLE_FEATURES_LENGTH :: nat where
  "ROLE_FEATURES_LENGTH \<equiv> 200"

record GrantWrite =
  gw_resource :: str
  gw_action :: str
  gw_scope :: Scope

record RoleWrite =
  rw_name :: str
  rw_grants :: "GrantWrite list"
  rw_features :: "str option"

definition trim_the_name :: "str \<Rightarrow> str result" where
  "trim_the_name value =
     (if strip value = [] then Inl (ValueError ''name cannot be blank'') else Inr (strip value))"

definition validate_role_write :: "RoleWrite \<Rightarrow> RoleWrite result" where
  "validate_role_write body =
     (if rw_name body = [] then Inl (ValueError ''string_too_short'')
      else if length (rw_name body) > ROLE_NAME_LENGTH then Inl (ValueError ''string_too_long'')
      else
        rbind (trim_the_name (rw_name body)) (\<lambda>name.
          if (case rw_features body of None \<Rightarrow> False | Some f \<Rightarrow> length f > ROLE_FEATURES_LENGTH)
          then Inl (ValueError ''string_too_long'')
          else Inr (body\<lparr>rw_name := name\<rparr>)))"

text \<open>\<open>flatten_a_role_permission\<close>: a grant as it is read, without the permission's identifier.\<close>

definition flatten_a_role_permission :: "RolePermission \<Rightarrow> str \<times> str \<times> Scope" where
  "flatten_a_role_permission g =
     (perm_resource (grant_permission g), perm_action (grant_permission g), grant_scope g)"

section \<open>The service\<close>

abbreviation NAME_TAKEN :: str where
  "NAME_TAKEN \<equiv> ''Role name already in use''"

definition BUILT_IN :: "str set" where
  "BUILT_IN = {USER_ROLE, ADMIN_ROLE}"

definition effective_grants :: "User \<Rightarrow> database \<Rightarrow> (str \<times> str \<times> Scope) list" where
  "effective_grants user d =
     (if is_superuser user
      then map (\<lambda>p. (perm_resource p, perm_action p, ScopeAll)) (permission_list_all d)
      else granted user)"

definition role_service_get :: "ident \<Rightarrow> database \<Rightarrow> Role result" where
  "role_service_get rid d = or_not_found (role_get rid d) ''Role not found'' ROLE_NOT_FOUND"

definition role_members :: "ident \<Rightarrow> database \<Rightarrow> User list result" where
  "role_members rid d =
     rbind (role_service_get rid d) (\<lambda>role. Inr (user_list_for_role (role_id role) d))"

fun role_grants_for :: "GrantWrite list \<Rightarrow> database \<Rightarrow> RolePermission list result" where
  "role_grants_for [] d = Inr []"
| "role_grants_for (wanted # rest) d =
     rbind (or_not_found (permission_get (gw_resource wanted) (gw_action wanted) d)
              ''Permission not found'' PERMISSION_NOT_FOUND) (\<lambda>permission.
     rbind (role_grants_for rest d) (\<lambda>grants.
       Inr (\<lparr>grant_permission = permission, grant_scope = gw_scope wanted\<rparr> # grants)))"

definition role_service_create :: "RoleWrite \<Rightarrow> database \<Rightarrow> (Role \<times> database) result" where
  "role_service_create data d =
     (if role_get_by_name (rw_name data) d \<noteq> None
      then raise_error ConflictError NAME_TAKEN ROLE_NAME_TAKEN
      else
        rbind (role_grants_for (rw_grants data) d) (\<lambda>grants.
          role_create \<lparr>role_id = 0, role_name = rw_name data, role_features = rw_features data,
            role_grants = grants, role_created_at = 0, role_updated_at = 0\<rparr> d))"

definition role_service_update :: "ident \<Rightarrow> RoleWrite \<Rightarrow> database \<Rightarrow> (Role \<times> database) result" where
  "role_service_update rid data d =
     rbind (role_service_get rid d) (\<lambda>role.
       if role_name role = ADMIN_ROLE
       then raise_error ForbiddenError ''The administrator role always holds everything'' ROLE_ADMIN_IMMUTABLE
       else if (case role_get_by_name (rw_name data) d of
                  None \<Rightarrow> False | Some taken \<Rightarrow> role_id taken \<noteq> role_id role)
       then raise_error ConflictError NAME_TAKEN ROLE_NAME_TAKEN
       else
         rbind (role_grants_for (rw_grants data) d) (\<lambda>grants.
           role_save (role\<lparr>role_name := rw_name data, role_features := rw_features data,
             role_grants := grants\<rparr>) d))"

definition role_service_delete :: "ident \<Rightarrow> database \<Rightarrow> database result" where
  "role_service_delete rid d =
     rbind (role_service_get rid d) (\<lambda>role.
       if role_name role \<in> BUILT_IN
       then raise_error ForbiddenError ''This role is part of the deployment'' ROLE_BUILT_IN
       else if user_count_for_role (role_id role) d > 0
       then raise_error ConflictError ''This role still has accounts'' ROLE_HAS_ACCOUNTS
       else Inr (role_delete role d))"

section \<open>Lemmas\<close>

lemma role_service_get_eq_Inr: "role_service_get rid d = Inr r \<longleftrightarrow> role_get rid d = Some r"
  by (simp add: role_service_get_def or_not_found_eq_Inr)

lemma role_checks_stamp [simp]:
  "role_too_long (r\<lparr>role_updated_at := t\<rparr>) = role_too_long r"
  "role_conflicts (r\<lparr>role_updated_at := t\<rparr>) d = role_conflicts r d"
  by (simp_all add: role_too_long_def role_conflicts_def)

lemma role_save_shape:
  assumes "role_save r d = Inr (r', d')"
  obtains old where "role_get (role_id r) d = Some old" "\<not> role_conflicts r d" "\<not> role_too_long r"
    "r' = r \<or> r' = r\<lparr>role_updated_at := tx_now d\<rparr>"
    "d' = d\<lparr>t_roles := update_where (\<lambda>x. role_id x = role_id r) (\<lambda>_. r') (t_roles d)\<rparr>"
  using assms by (auto simp: role_save_def Let_def split: option.splits if_splits)

lemma role_create_shape:
  assumes "role_create r d = Inr (r', d')"
  obtains "r' = r\<lparr>role_id := seqs d TRoles, role_created_at := tx_now d, role_updated_at := tx_now d\<rparr>"
    "\<not> role_conflicts r' d" "\<not> role_too_long r'" "d' = bump TRoles (d\<lparr>t_roles := t_roles d @ [r']\<rparr>)"
  using assms by (auto simp: role_create_def Let_def split: if_splits)

lemma role_create_wf:
  assumes "wf_accounts d" "role_create r d = Inr (r', d')"
  shows "wf_accounts d'"
  using assms(2)
proof (rule role_create_shape)
  assume r': "r' = r\<lparr>role_id := seqs d TRoles, role_created_at := tx_now d, role_updated_at := tx_now d\<rparr>"
    and ok: "\<not> role_conflicts r' d" "\<not> role_too_long r'" and d': "d' = bump TRoles (d\<lparr>t_roles := t_roles d @ [r']\<rparr>)"
  from assms(1) have w: "wf_users d" "wf_roles d" "wf_links d" by (simp_all add: wf_accounts_def)
  have fresh: "x \<in> set (t_roles d) \<Longrightarrow> role_id x \<noteq> role_id r'" for x
    using w(2) r' by (auto simp: wf_roles_def dest: keyed_fresh)
  have "wf_roles d'"
    using w(2) ok fresh r' by (auto simp: d' wf_roles_def keyed_append role_conflicts_def)
  moreover have "wf_users d'" "wf_links d'" using w(1,3) by (auto simp: d' wf_users_def wf_links_def)
  ultimately show ?thesis by (simp add: wf_accounts_def)
qed

lemma map_role_id_replace:
  "role_id r' = i \<Longrightarrow> map role_id (update_where (\<lambda>x. role_id x = i) (\<lambda>_. r') rs) = map role_id rs"
  by (auto simp: update_where_def)

lemma role_save_wf:
  assumes "wf_accounts d" "role_save r d = Inr (r', d')"
  shows "wf_accounts d'"
  using assms(2)
proof (rule role_save_shape)
  fix old
  assume old: "role_get (role_id r) d = Some old" and ok: "\<not> role_conflicts r d" "\<not> role_too_long r"
    and r': "r' = r \<or> r' = r\<lparr>role_updated_at := tx_now d\<rparr>"
    and d': "d' = d\<lparr>t_roles := update_where (\<lambda>x. role_id x = role_id r) (\<lambda>_. r') (t_roles d)\<rparr>"
  from assms(1) have w: "wf_users d" "wf_roles d" "wf_links d" by (simp_all add: wf_accounts_def)
  have id: "role_id r' = role_id r" "role_name r' = role_name r" "role_grants r' = role_grants r"
    using r' by auto
  have rows: "set (t_roles d') = {x \<in> set (t_roles d). role_id x \<noteq> role_id r} \<union> {r'}"
    using role_get_SomeD [OF old] by (auto simp: d' set_replace_row)
  have ids: "map role_id (t_roles d') = map role_id (t_roles d)"
    using map_role_id_replace [OF id(1)] by (simp add: d')
  have "old \<in> set (t_roles d)" "role_id old = role_id r" using role_get_SomeD [OF old] by auto
  then have "role_id r < seqs d TRoles" using w(2) by (auto simp: wf_roles_def keyed_def)
  then have "keyed role_id (t_roles d') (seqs d' TRoles)"
    using w(2) rows id(1) by (auto simp: wf_roles_def keyed_def ids) (auto simp: d')
  moreover have "distinct (map role_name (filter (\<lambda>_. True) (t_roles d')))"
    unfolding d' using w(2) ok id
    by (simp del: filter_True, intro map_filter_replace) (auto simp: wf_roles_def keyed_def role_conflicts_def)
  moreover have "\<forall>x\<in>set (t_roles d'). distinct (map (perm_id \<circ> grant_permission) (role_grants x)) \<and> \<not> role_too_long x"
    using w(2) ok id(3) rows r' by (auto simp: wf_roles_def role_conflicts_def role_too_long_def)
  ultimately have "wf_roles d'" by (simp add: wf_roles_def)
  moreover have "wf_users d'" using w(1) by (simp add: d' wf_users_def)
  moreover have "role_id ` set (t_roles d') = role_id ` set (t_roles d)" using ids by (metis list.set_map)
  then have "wf_links d'" using w(3) by (simp add: d' wf_links_def)
  ultimately show ?thesis by (simp add: wf_accounts_def)
qed

lemma role_delete_wf:
  assumes "wf_accounts d"
  shows "wf_accounts (role_delete r d)"
  using assms
  by (auto simp: wf_accounts_def role_delete_def wf_users_def wf_roles_def wf_links_def keyed_delete_where
      distinct_map_delete_where) (auto simp: delete_where_def)

section \<open>What an account may do\<close>

text \<open>
  \<open>GET /users/me/permissions\<close> tells an account exactly what the permission guard will let it do.
  For an account that is not a superuser, the listed triples are precisely the permissions with the
  scope the guard answers, one line per permission and in order; a superuser is listed every
  permission of the deployment with scope \<open>all\<close>, which is what the guard answers too.
\<close>

theorem effective_grants_match_guard:
  "let shown = effective_grants user d
   in (if is_superuser user
       then set shown = {(perm_resource p, perm_action p, ScopeAll) | p. p \<in> set (t_permissions d)}
       else set shown = {(r, a, s). scope_for user r a = Some s} \<and>
            sorted (map (\<lambda>(r, a, s). (r, a)) shown) \<and> distinct (map (\<lambda>(r, a, s). (r, a)) shown)) \<and>
      set shown \<subseteq> {(r, a, s). scope_for user r a = Some s}"
  using sorted_granted [of user]
  by (auto simp: Let_def effective_grants_def permission_list_all_def set_granted scope_for_def map_of_widest)

section \<open>What roles operations keep\<close>

lemma user_get_cong:
  assumes "t_users d' = t_users d"
    and "\<And>r. r \<in> set (t_users d) \<Longrightarrow> user_is_active r \<Longrightarrow> roles_of (user_id r) d' = roles_of (user_id r) d"
  shows "user_get i d' = user_get i d"
  using assms by (auto simp: user_get_def load_user_def dest!: find_row_SomeD intro!: option.map_cong)

lemma filter_delete_where: "filter Q (delete_where P xs) = filter (\<lambda>x. \<not> P x \<and> Q x) xs"
  by (simp add: delete_where_def conj_commute)

text \<open>
  Deleting a role never removes a built-in role and never takes anything from an account: when
  it succeeds, every account reads exactly as before, roles included, and the other roles stay.
\<close>

theorem role_delete_harmless:
  assumes "wf_accounts d" and "role_service_delete rid d = Inr d'"
  shows "\<exists>role. role_get rid d = Some role \<and> role_name role \<notin> {USER_ROLE, ADMIN_ROLE} \<and>
    wf_accounts d' \<and> role_get rid d' = None \<and>
    t_roles d' = filter (\<lambda>r. r \<noteq> role) (t_roles d) \<and> (\<forall>i. user_get i d' = user_get i d)"
proof -
  obtain role where role: "role_get rid d = Some role" "role_name role \<notin> BUILT_IN"
    "\<not> user_count_for_role (role_id role) d > 0" "d' = role_delete role d"
    using assms(2) by (auto simp: role_service_delete_def rbind_eq_Inr role_service_get_eq_Inr split: if_splits)
  have r: "role \<in> set (t_roles d)" "role_id role = rid" using role_get_SomeD [OF role(1)] by auto
  have same: "x \<in> set (t_roles d) \<Longrightarrow> role_id x = role_id role \<longleftrightarrow> x = role" for x
    using r assms(1) by (auto simp: wf_accounts_def dest: wf_roles_id_unique)
  have roles: "t_roles d' = filter (\<lambda>r. r \<noteq> role) (t_roles d)"
    using same by (auto simp: role(4) role_delete_def delete_where_def intro: filter_cong)
  have unlinked: "(user_id u, role_id role) \<notin> set (t_user_roles d)" if "u \<in> set (t_users d)" "user_is_active u" for u
    using role(3) that by (auto simp: user_count_for_role_def count_where_pos)
  have "user_get i d' = user_get i d" for i
  proof (rule user_get_cong)
    fix u assume u: "u \<in> set (t_users d)" "user_is_active u"
    have "filter (\<lambda>r. (user_id u, role_id r) \<in> set (t_user_roles d')) (t_roles d') =
        filter (\<lambda>r. (user_id u, role_id r) \<in> set (t_user_roles d)) (t_roles d)"
      using unlinked [OF u] by (auto simp: roles) (auto simp: role(4) role_delete_def same intro!: filter_cong)
    then show "roles_of (user_id u) d' = roles_of (user_id u) d" by (simp add: roles_of_def)
  qed (simp add: role(4) role_delete_def)
  moreover have "role_get rid d' = None"
    using same r by (auto simp: role_get_def find_row_None_iff roles)
  ultimately show ?thesis
    using role roles role_delete_wf [OF assms(1)] by (auto simp: BUILT_IN_def)
qed

text \<open>A seeded deployment with one more role.\<close>

definition extra_role :: RoleWrite where
  "extra_role = \<lparr>rw_name = ''editor'', rw_grants = [\<lparr>gw_resource = ITEMS, gw_action = READ, gw_scope = ScopeAll\<rparr>],
     rw_features = None\<rparr>"

definition extra_role_db :: database where
  "extra_role_db = (case role_service_create extra_role seeded_db of Inr (r, d) \<Rightarrow> d | Inl e \<Rightarrow> seeded_db)"

theorem role_delete_harmless_witness:
  "\<exists>d'. role_service_delete 3 extra_role_db = Inr d' \<and> wf_accounts d' \<and> role_get 3 d' = None"
proof -
  have wf: "wf_accounts extra_role_db" by code_simp
  have "\<not> isl (role_service_delete 3 extra_role_db)" by code_simp
  then obtain d' where d': "role_service_delete 3 extra_role_db = Inr d'" using not_isl_Inr by blast
  with role_delete_harmless [OF wf d'] show ?thesis by blast
qed

section \<open>Administration cannot lock itself out\<close>

text \<open>
  The operations that administrators perform on accounts and roles. \<open>superadmins\<close> are the active
  accounts that hold the administrator role.
\<close>

datatype admin_op =
    AddRole ident str | RemoveRole ident str | RemoveAccount time ident
  | CreateRole RoleWrite | UpdateRole ident RoleWrite | DeleteRole ident

fun run_admin_op :: "User \<Rightarrow> admin_op \<Rightarrow> database \<Rightarrow> database result" where
  "run_admin_op actor (AddRole uid name) d = map_sum id snd (add_role uid name d)"
| "run_admin_op actor (RemoveRole uid name) d = map_sum id snd (remove_role actor uid name d)"
| "run_admin_op actor (RemoveAccount now uid) d = remove_account now actor uid d"
| "run_admin_op actor (CreateRole data) d = map_sum id snd (role_service_create data d)"
| "run_admin_op actor (UpdateRole rid data) d = map_sum id snd (role_service_update rid data d)"
| "run_admin_op actor (DeleteRole rid) d = role_service_delete rid d"

definition superadmins :: "database \<Rightarrow> ident set" where
  "superadmins d = {i. \<exists>u. user_get i d = Some u \<and> is_superuser u}"

text \<open>
  A sequence of such operations, each requested by some account. A request by an account that is
  not a superadmin at that moment is not run here; a request that raises changes nothing.
\<close>

fun run_admin_ops :: "(ident \<times> admin_op) list \<Rightarrow> database \<Rightarrow> database" where
  "run_admin_ops [] d = d"
| "run_admin_ops ((aid, op) # rest) d =
     (case user_get aid d of
        None \<Rightarrow> run_admin_ops rest d
      | Some actor \<Rightarrow>
          if \<not> is_superuser actor then run_admin_ops rest d
          else (case run_admin_op actor op d of
                  Inl e \<Rightarrow> run_admin_ops rest d
                | Inr d' \<Rightarrow> run_admin_ops rest d'))"

lemma is_superuser_load:
  "is_superuser (load_user d r) \<longleftrightarrow>
   (\<exists>role\<in>set (t_roles d). (user_id r, role_id role) \<in> set (t_user_roles d) \<and> role_name role = ADMIN_ROLE)"
  by (auto simp: is_superuser_def set_roles_of)

lemma superadmins_iff:
  "wf_accounts d \<Longrightarrow> i \<in> superadmins d \<longleftrightarrow>
   (\<exists>r\<in>set (t_users d). user_id r = i \<and> user_is_active r \<and>
      (\<exists>role\<in>set (t_roles d). (i, role_id role) \<in> set (t_user_roles d) \<and> role_name role = ADMIN_ROLE))"
  by (auto simp: superadmins_def wf_accounts_def user_get_iff is_superuser_load)
    (metis is_superuser_load)

lemma superadmins_writes_only:
  assumes "writes_only uid w d d'" "aid \<in> superadmins d" "aid = uid \<Longrightarrow> is_superuser w"
  shows "aid \<in> superadmins d'"
  using assms by (auto simp: writes_only_def superadmins_def)

lemma superadmins_kept_roles:
  assumes "wf_accounts d" "wf_accounts d'" "aid \<in> superadmins d" "t_users d' = t_users d"
    and "\<And>role. role \<in> set (t_roles d) \<Longrightarrow> role_name role = ADMIN_ROLE \<Longrightarrow> role \<in> set (t_roles d') \<and>
      ((aid, role_id role) \<in> set (t_user_roles d) \<longrightarrow> (aid, role_id role) \<in> set (t_user_roles d'))"
  shows "aid \<in> superadmins d'"
  using assms by (auto simp: superadmins_iff)

lemma role_service_update_cases:
  assumes "role_service_update rid data d = Inr (r, d')"
  obtains role v where "role_get rid d = Some role" "role_name role \<noteq> ADMIN_ROLE" "role_id v = rid"
    "role_save v d = Inr (r, d')"
proof -
  from assms obtain role grants where "role_get rid d = Some role" "role_name role \<noteq> ADMIN_ROLE"
    "role_save (role\<lparr>role_name := rw_name data, role_features := rw_features data, role_grants := grants\<rparr>) d = Inr (r, d')"
    by (auto simp: role_service_update_def rbind_eq_Inr role_service_get_eq_Inr split: if_splits)
  then show ?thesis using role_get_SomeD [of rid d role] by (intro that) auto
qed

lemma role_service_create_cases:
  assumes "role_service_create data d = Inr (r, d')"
  obtains v where "role_create v d = Inr (r, d')"
  using assms by (auto simp: role_service_create_def rbind_eq_Inr split: if_splits)

lemma remove_account_cases:
  assumes "remove_account now actor uid d = Inr d'"
  obtains target where "user_get uid d = Some target" "user_id target \<noteq> user_id actor" "outranks actor target"
    "close_account now target d = Inr d'"
  using assms by (auto simp: remove_account_def rbind_eq_Inr service_get_eq_Inr split: if_splits)

text \<open>One operation by a superadmin: the constraints hold on, and the actor is still a superadmin.\<close>

definition admin_ok :: "database \<Rightarrow> bool" where
  "admin_ok d \<longleftrightarrow> wf_accounts d \<and> wf_items d"

lemma wf_items_same_users:
  "wf_items d \<Longrightarrow> t_items d' = t_items d \<Longrightarrow> seqs d' TItems = seqs d TItems \<Longrightarrow>
   user_id ` set (t_users d') = user_id ` set (t_users d) \<Longrightarrow> wf_items d'"
  by (simp add: wf_items_def)

lemma admin_role_op:
  assumes "admin_ok d" "aid \<in> superadmins d" "role_service_update rid data d = Inr (r, d')"
  shows "admin_ok d' \<and> aid \<in> superadmins d'"
  using assms(3)
proof (rule role_service_update_cases)
  fix role v
  assume role: "role_get rid d = Some role" "role_name role \<noteq> ADMIN_ROLE" "role_id v = rid"
    and save: "role_save v d = Inr (r, d')"
  have wf: "wf_accounts d" "wf_items d" using assms(1) by (simp_all add: admin_ok_def)
  have wf': "wf_accounts d'" by (rule role_save_wf [OF wf(1) save])
  from save have fr: "t_users d' = t_users d \<and> t_user_roles d' = t_user_roles d \<and> t_items d' = t_items d \<and>
      seqs d' = seqs d \<and> t_roles d' = update_where (\<lambda>x. role_id x = rid) (\<lambda>_. r) (t_roles d)"
    by (rule role_save_shape) (simp add: role(3))
  have "x \<in> set (t_roles d) \<Longrightarrow> role_name x = ADMIN_ROLE \<Longrightarrow> x \<in> set (t_roles d')" for x
    using role role_get_SomeD [OF role(1)] wf(1) fr
    by (auto simp: set_update_where wf_accounts_def dest: wf_roles_id_unique)
  then have "aid \<in> superadmins d'"
    using fr by (intro superadmins_kept_roles [OF wf(1) wf' assms(2)]) auto
  moreover have "wf_items d'" using wf(2) fr by (auto intro: wf_items_same_users)
  ultimately show ?thesis using wf' by (simp add: admin_ok_def)
qed

lemma admin_op_keeps_actor:
  assumes "admin_ok d" "user_get (user_id actor) d = Some actor" "is_superuser actor"
    and "run_admin_op actor op d = Inr d'"
  shows "admin_ok d' \<and> user_id actor \<in> superadmins d'"
proof -
  have wf: "wf_accounts d" "wf_items d" using assms(1) by (simp_all add: admin_ok_def)
  have sup: "user_id actor \<in> superadmins d" using assms(2,3) by (auto simp: superadmins_def)
  have admin: "\<exists>h\<in>set (user_roles actor). role_name h = ADMIN_ROLE" using assms(3) by (simp add: is_superuser_def)
  show ?thesis
  proof (cases op)
    case (AddRole uid name)
    then obtain w where a: "add_role uid name d = Inr (w, d')"
      using assms(4) by (auto simp: map_sum_eq_Inr)
    then obtain u r where ur: "user_get uid d = Some u" "role_get_by_name name d = Some r"
      by (auto simp: add_role_def rbind_eq_Inr service_get_eq_Inr role_named_eq_Inr)
    note law = add_role_law [OF wf(1) ur a]
    have "is_superuser w" if "user_id actor = uid"
      using law that ur(1) assms(2) admin by (auto simp: is_superuser_def)
    then have "user_id actor \<in> superadmins d'" using law sup by (auto intro: superadmins_writes_only)
    moreover have "wf_items d'"
      using a wf(2) saved_items by (auto simp: add_role_def rbind_eq_Inr split: if_splits)
    ultimately show ?thesis using law by (simp add: admin_ok_def writes_only_def)
  next
    case (RemoveRole uid name)
    then obtain w where a: "remove_role actor uid name d = Inr (w, d')"
      using assms(4) by (auto simp: map_sum_eq_Inr)
    then obtain u where ur: "user_get uid d = Some u"
      by (auto simp: remove_role_def rbind_eq_Inr service_get_eq_Inr split: if_splits)
    note law = remove_role_law [OF wf(1) ur a]
    have "is_superuser w" if "user_id actor = uid"
      using law that ur(1) assms(2) admin by (auto simp: is_superuser_def)
    then have "user_id actor \<in> superadmins d'" using law sup by (auto intro: superadmins_writes_only)
    moreover have "wf_items d'"
      using a wf(2) saved_items by (auto simp: remove_role_def rbind_eq_Inr split: if_splits)
    ultimately show ?thesis using law by (simp add: admin_ok_def writes_only_def)
  next
    case (RemoveAccount now uid)
    then have "remove_account now actor uid d = Inr d'" using assms(4) by simp
    then show ?thesis
    proof (rule remove_account_cases)
      fix target
      assume t: "user_get uid d = Some target" "user_id target \<noteq> user_id actor"
        and c: "close_account now target d = Inr d'"
      have "user_get (user_id target) d = Some target" using users.get_found [OF wf(1) t(1)] t(1) by simp
      then obtain "wf_accounts d'" "wf_items d'"
        "\<And>i. user_get i d' = (if i = user_id target then None else user_get i d)"
        using c by (auto intro: close_account_law [OF wf, of target now])
      then show ?thesis using t(2) assms(2,3) by (auto simp: admin_ok_def superadmins_def)
    qed
  next
    case (CreateRole data)
    then obtain r where "role_service_create data d = Inr (r, d')" using assms(4) by (auto simp: map_sum_eq_Inr)
    then show ?thesis
    proof (rule role_service_create_cases)
      fix v assume c: "role_create v d = Inr (r, d')"
      have wf': "wf_accounts d'" by (rule role_create_wf [OF wf(1) c])
      from c have fr: "t_users d' = t_users d" "t_user_roles d' = t_user_roles d" "t_roles d' = t_roles d @ [r]"
        "t_items d' = t_items d" "seqs d' TItems = seqs d TItems"
        by (auto elim: role_create_shape)
      then show ?thesis
        using superadmins_kept_roles [OF wf(1) wf' sup] wf' wf(2) wf_items_same_users [of d d']
        by (auto simp: admin_ok_def)
    qed
  next
    case (UpdateRole rid data)
    then show ?thesis using assms(4) admin_role_op [OF assms(1) sup] by (auto simp: map_sum_eq_Inr)
  next
    case (DeleteRole rid)
    then obtain role where role: "role_get rid d = Some role" "role_name role \<notin> BUILT_IN" "d' = role_delete role d"
      using assms(4) by (auto simp: role_service_delete_def rbind_eq_Inr role_service_get_eq_Inr split: if_splits)
    have wf': "wf_accounts d'" using role_delete_wf [OF wf(1)] role(3) by simp
    have "user_id actor \<in> superadmins d'"
      using role role_get_SomeD [OF role(1)]
      by (intro superadmins_kept_roles [OF wf(1) wf' sup])
        (auto simp: role_delete_def BUILT_IN_def dest: wf_roles_id_unique [OF wf_accountsD(2) [OF wf(1)]])
    then show ?thesis using wf' wf(2) wf_items_same_users [of d d'] by (simp add: admin_ok_def role(3) role_delete_def)
  qed
qed

text \<open>
  C3. Superadmins cannot administrate the deployment into a state with no superadmin: after any
  sequence of role assignments and removals, account removals and role edits that superadmins
  request, in any order and with any of them refused, there still is a superadmin, and the
  constraints of the schema hold.
\<close>

theorem superadmins_never_vanish:
  assumes "wf_accounts d" and "wf_items d" and "superadmins d \<noteq> {}"
  shows "superadmins (run_admin_ops ops d) \<noteq> {} \<and> wf_accounts (run_admin_ops ops d)"
proof -
  have "admin_ok d \<Longrightarrow> superadmins d \<noteq> {} \<Longrightarrow>
      admin_ok (run_admin_ops ops d) \<and> superadmins (run_admin_ops ops d) \<noteq> {}" for d
  proof (induction ops d rule: run_admin_ops.induct)
    case (2 aid op rest d)
    show ?case
    proof (cases "\<exists>actor d'. user_get aid d = Some actor \<and> is_superuser actor \<and> run_admin_op actor op d = Inr d'")
      case True
      then obtain actor d' where a: "user_get aid d = Some actor" "is_superuser actor" "run_admin_op actor op d = Inr d'"
        by blast
      have "user_id actor = aid" using users.get_found [OF _ a(1)] 2 by (auto simp: admin_ok_def)
      then have "admin_ok d'" "superadmins d' \<noteq> {}"
        using admin_op_keeps_actor [OF 2(5), of actor op d'] a by auto
      with 2(4) [OF a(1)] a show ?thesis by simp
    next
      case False
      with 2 show ?thesis by (auto split: option.splits sum.splits)
    qed
  qed simp
  then show ?thesis using assms by (simp add: admin_ok_def)
qed

theorem superadmins_never_vanish_witness:
  "\<exists>u d. register plain_ext ''s'' (sample_data ''a@b.co'') seeded_db = Inr (u, d) \<and>
     superadmins (run_admin_ops [(1, RemoveRole 1 ADMIN_ROLE), (1, RemoveAccount 3 1), (1, CreateRole extra_role)] d) \<noteq> {}"
proof -
  obtain u d where s: "register plain_ext ''s'' (sample_data ''a@b.co'') seeded_db = Inr (u, d)"
    "wf_accounts d" "wf_items d" "user_get (user_id u) d = Some u" "is_superuser u" by (rule sample_account)
  have "superadmins d \<noteq> {}" using s(4,5) by (auto simp: superadmins_def)
  with superadmins_never_vanish [OF s(2,3)] s(1) show ?thesis by blast
qed

section \<open>A deployment without its user role\<close>

text \<open>The operations that give a role a name, and the deployments that have accounts but no role named \<open>user\<close>.\<close>

fun names_role :: "str \<Rightarrow> admin_op \<Rightarrow> bool" where
  "names_role n (CreateRole data) \<longleftrightarrow> rw_name data = n"
| "names_role n (UpdateRole rid data) \<longleftrightarrow> rw_name data = n"
| "names_role n op \<longleftrightarrow> False"

definition without_user_role :: "database \<Rightarrow> bool" where
  "without_user_role d \<longleftrightarrow> t_users d \<noteq> [] \<and> (\<forall>x\<in>set (t_roles d). role_name x \<noteq> USER_ROLE)"

lemma saved_without_user_role:
  assumes "user_save v d = Inr (w, d')"
  shows "without_user_role d' = without_user_role d"
  using user_save_frame [OF assms] by (metis map_is_Nil_conv without_user_role_def)

lemma role_save_accepts:
  assumes "role_get (role_id r) d = Some old" "\<not> role_too_long r" "\<not> role_conflicts r d"
  shows "\<exists>r' d'. role_save r d = Inr (r', d')"
  using assms by (auto simp: role_save_def Let_def)

lemma role_save_names:
  assumes "role_save v d = Inr (r, d')"
  shows "t_users d' = t_users d \<and> (\<forall>x\<in>set (t_roles d'). x \<in> set (t_roles d) \<and> role_id x \<noteq> role_id v \<or> role_name x = role_name v)"
  using assms by (rule role_save_shape) (auto simp: set_update_where)

lemma op_without_user_role:
  assumes "admin_ok d" "run_admin_op actor op d = Inr d'" "without_user_role d" "\<not> names_role USER_ROLE op"
  shows "without_user_role d'"
proof (cases op)
  case (AddRole uid name)
  then show ?thesis
    using assms(2,3) saved_without_user_role by (auto simp: map_sum_eq_Inr add_role_def rbind_eq_Inr split: if_splits)
next
  case (RemoveRole uid name)
  then show ?thesis
    using assms(2,3) saved_without_user_role by (auto simp: map_sum_eq_Inr remove_role_def rbind_eq_Inr split: if_splits)
next
  case (RemoveAccount now uid)
  obtain target where t: "user_get uid d = Some target" "close_account now target d = Inr d'"
    using assms(2) RemoveAccount by (auto elim: remove_account_cases)
  have wf: "wf_accounts d" "wf_items d"
    using assms(1) by (simp_all add: admin_ok_def)
  have "user_get (user_id target) d = Some target"
    using users.get_found [OF wf(1) t(1)] t(1) by simp
  then show ?thesis
    by (rule close_account_law [OF wf, of target now]) (use assms(3) t(2) in \<open>simp add: without_user_role_def\<close>)
next
  case (CreateRole data)
  then obtain r grants where "role_create \<lparr>role_id = 0, role_name = rw_name data, role_features = rw_features data,
      role_grants = grants, role_created_at = 0, role_updated_at = 0\<rparr> d = Inr (r, d')"
    using assms(2) by (auto simp: map_sum_eq_Inr role_service_create_def rbind_eq_Inr split: if_splits)
  then show ?thesis
    by (rule role_create_shape) (use assms(3,4) CreateRole in \<open>auto simp: without_user_role_def\<close>)
next
  case (UpdateRole rid data)
  then obtain role r grants where "role_save (role\<lparr>role_name := rw_name data, role_features := rw_features data,
      role_grants := grants\<rparr>) d = Inr (r, d')"
    using assms(2) by (auto simp: map_sum_eq_Inr role_service_update_def rbind_eq_Inr split: if_splits)
  from role_save_names [OF this] show ?thesis
    using assms(3,4) UpdateRole by (auto simp: without_user_role_def)
next
  case (DeleteRole rid)
  then show ?thesis
    using assms(2,3) by (auto simp: role_service_delete_def rbind_eq_Inr role_delete_def without_user_role_def split: if_splits)
qed

lemma ops_without_user_role:
  assumes "admin_ok d" "without_user_role d" "\<forall>(aid, op)\<in>set ops. \<not> names_role USER_ROLE op"
  shows "without_user_role (run_admin_ops ops d)"
  using assms
proof (induction ops d rule: run_admin_ops.induct)
  case (2 aid op rest d)
  show ?case
  proof (cases "\<exists>actor d'. user_get aid d = Some actor \<and> is_superuser actor \<and> run_admin_op actor op d = Inr d'")
    case True
    then obtain actor d' where a: "user_get aid d = Some actor" "is_superuser actor" "run_admin_op actor op d = Inr d'"
      by blast
    have "user_id actor = aid"
      using users.get_found [OF _ a(1)] "2.prems"(1) by (auto simp: admin_ok_def)
    then have "admin_ok d'"
      using admin_op_keeps_actor [OF "2.prems"(1), of actor op d'] a by simp
    moreover have "without_user_role d'"
      using op_without_user_role [OF "2.prems"(1) a(3)] "2.prems"(2,3) by simp
    ultimately show ?thesis
      using "2.IH"(4) [OF a(1)] a "2.prems"(3) by simp
  next
    case False
    with 2 show ?thesis by (auto split: option.splits sum.splits)
  qed
qed simp

text \<open>
  C40. The role that registration hands out can be renamed: \<open>PUT /roles/{id}\<close> protects only the administrator role. On a
  deployment with accounts, a rename of the built-in \<open>user\<close> role is accepted whenever the new name is free and fits and
  the grants it lists exist, each once; and from then on, whatever administrative operations superadmins perform, every
  registration of a free address is refused with role-not-found, until one of them names a role \<open>user\<close> again.
\<close>

theorem renamed_user_role_stops_registration:
  assumes "wf_accounts d" and "wf_items d" and "role_get_by_name USER_ROLE d = Some plain" and "t_users d \<noteq> []"
    and "role_get_by_name (rw_name data) d = None" and "length (rw_name data) \<le> 50"
    and "case rw_features data of None \<Rightarrow> True | Some f \<Rightarrow> length f \<le> 200"
    and "role_grants_for (rw_grants data) d = Inr grants" and "distinct (map (perm_id \<circ> grant_permission) grants)"
  shows "\<exists>r d'. role_service_update (role_id plain) data d = Inr (r, d') \<and>
    (\<forall>ops new ext salt. (\<forall>(aid, op)\<in>set ops. \<not> names_role USER_ROLE op) \<and>
        user_get_by_email (uc_email new) (run_admin_ops ops d') = None \<longrightarrow>
      error_code_of (register ext salt new (run_admin_ops ops d')) = Some ROLE_NOT_FOUND)"
proof -
  have plain: "plain \<in> set (t_roles d)" "role_name plain = USER_ROLE"
    using role_get_by_name_SomeD [OF assms(3)] by auto
  then have get: "role_get (role_id plain) d = Some plain"
    using assms(1) by (simp add: wf_accounts_def role_get_iff)
  let ?v = "plain\<lparr>role_name := rw_name data, role_features := rw_features data, role_grants := grants\<rparr>"
  have "\<not> role_conflicts ?v d"
    using assms(5,9) by (auto simp: role_conflicts_def role_get_by_name_def find_row_None_iff)
  moreover have "\<not> role_too_long ?v"
    using assms(6,7) by (auto simp: role_too_long_def split: option.splits)
  ultimately obtain r d' where save: "role_save ?v d = Inr (r, d')"
    using role_save_accepts [of ?v d plain] get by auto
  have upd: "role_service_update (role_id plain) data d = Inr (r, d')"
    using save get plain(2) assms(5,8) by (simp add: role_service_update_def role_service_get_def)
  have ok: "admin_ok d'"
  proof -
    have "t_items d' = t_items d \<and> seqs d' = seqs d"
      using save by (rule role_save_shape) simp
    then show ?thesis
      using role_save_wf [OF assms(1) save] role_save_names [OF save] assms(2) wf_items_same_users [of d d']
      by (simp add: admin_ok_def)
  qed
  have "rw_name data \<noteq> USER_ROLE"
    using assms(3,5) by auto
  then have "role_name x \<noteq> USER_ROLE" if "x \<in> set (t_roles d')" for x
    using role_save_names [OF save] that plain wf_roles_name_unique [OF wf_accountsD(2) [OF assms(1)], of x plain] by auto
  then have "without_user_role d'"
    using role_save_names [OF save] assms(4) by (simp add: without_user_role_def)
  then have none: "without_user_role (run_admin_ops ops d')" if "\<forall>(aid, op)\<in>set ops. \<not> names_role USER_ROLE op" for ops
    using ops_without_user_role [OF ok _ that] by blast
  then have "role_get_by_name USER_ROLE (run_admin_ops ops d') = None \<and> t_users (run_admin_ops ops d') \<noteq> []"
    if "\<forall>(aid, op)\<in>set ops. \<not> names_role USER_ROLE op" for ops
    using none [OF that] by (auto simp: without_user_role_def role_get_by_name_def find_row_None_iff)
  then have "error_code_of (register ext salt new (run_admin_ops ops d')) = Some ROLE_NOT_FOUND"
    if "\<forall>(aid, op)\<in>set ops. \<not> names_role USER_ROLE op" "user_get_by_email (uc_email new) (run_admin_ops ops d') = None"
    for ops new ext salt
    using that by (simp add: register_def role_named_def user_exists_any_def Let_def raise_error_def make_error_def error_code_of_def)
  then show ?thesis
    using upd by blast
qed

definition renaming :: RoleWrite where
  "renaming = \<lparr>rw_name = ''member'', rw_grants = [], rw_features = None\<rparr>"

definition one_account_db :: database where
  "one_account_db = (case register plain_ext ''s'' (sample_data ''a@b.co'') seeded_db of Inr (u, d) \<Rightarrow> d | Inl e \<Rightarrow> seeded_db)"

theorem renamed_user_role_stops_registration_witness:
  "\<exists>r d'. role_service_update 1 renaming one_account_db = Inr (r, d') \<and>
     error_code_of (register plain_ext ''s'' (sample_data ''c@d.co'') (run_admin_ops [(1, CreateRole extra_role)] d')) = Some ROLE_NOT_FOUND"
proof -
  obtain u d plain where s: "register plain_ext ''s'' (sample_data ''a@b.co'') seeded_db = Inr (u, d)"
    "wf_accounts d" "wf_items d" "role_get_by_name USER_ROLE d = Some plain" "t_users d \<noteq> []" by (rule sample_account)
  have d: "one_account_db = d"
    by (simp add: one_account_db_def s(1))
  have facts: "role_get_by_name (rw_name renaming) one_account_db = None"
    "map_option role_id (role_get_by_name USER_ROLE one_account_db) = Some 1"
    by code_simp+
  then have "role_id plain = 1"
    using s(4) d by simp
  moreover have "distinct (map (perm_id \<circ> grant_permission) [])"
    by simp
  ultimately obtain r d' where "role_service_update 1 renaming d = Inr (r, d')"
    and later: "\<And>ops new ext salt. (\<forall>(aid, op)\<in>set ops. \<not> names_role USER_ROLE op) \<and>
        user_get_by_email (uc_email new) (run_admin_ops ops d') = None \<Longrightarrow>
      error_code_of (register ext salt new (run_admin_ops ops d')) = Some ROLE_NOT_FOUND"
    using renamed_user_role_stops_registration [OF s(2-5) facts(1) [unfolded d], of "[]"] by (auto simp: renaming_def)
  moreover have "\<forall>(aid, op)\<in>set [(1, CreateRole extra_role)]. \<not> names_role USER_ROLE op"
    by (simp add: extra_role_def)
  moreover have "case role_service_update 1 renaming one_account_db of Inl e \<Rightarrow> False
    | Inr (r, d') \<Rightarrow> user_get_by_email (uc_email (sample_data ''c@d.co'')) (run_admin_ops [(1, CreateRole extra_role)] d') = None"
    by code_simp
  ultimately show ?thesis
    using later [of "[(1, CreateRole extra_role)]" "sample_data ''c@d.co''" plain_ext "''s''"]
    unfolding d by (intro exI [of _ r] exI [of _ d']) simp
qed

end
