(* ===== verification/TokenRepos.thy ===== *)
theory TokenRepos
  imports Models
begin

text \<open>
  \<open>app/repositories/refresh_token_repo.py\<close> and \<open>app/repositories/single_use_token_repo.py\<close>: the two
  tables of stored tokens. Both are looked up by a digest, have an owner and an expiry, and are
  retired by stamping a column, never by forgetting the row; the locale \<open>token_store\<close> is that shared
  contract, and both repositories are interpretations of it.
\<close>

section \<open>Refresh tokens\<close>

definition rt_create :: "str \<Rightarrow> ident \<Rightarrow> time \<Rightarrow> database \<Rightarrow> database result" where
  "rt_create token_hash uid expires_at d =
     (if \<exists>t\<in>set (t_refresh_tokens d). rt_token_hash t = token_hash
      then Inl (IntegrityError UNIQUE_VIOLATION)
      else if uid \<notin> user_id ` set (t_users d) then Inl (IntegrityError FOREIGN_KEY_VIOLATION)
      else Inr (bump TRefreshTokens (d\<lparr>t_refresh_tokens := t_refresh_tokens d @
             [\<lparr>rt_id = seqs d TRefreshTokens, rt_token_hash = token_hash, rt_user_id = uid,
               rt_expires_at = expires_at, rt_revoked_at = None, rt_created_at = tx_now d\<rparr>]\<rparr>)))"

definition rt_live :: "str \<Rightarrow> time \<Rightarrow> RefreshToken \<Rightarrow> bool" where
  "rt_live token_hash now t \<longleftrightarrow>
     rt_token_hash t = token_hash \<and> rt_revoked_at t = None \<and> rt_expires_at t > now"

definition rt_get_active :: "str \<Rightarrow> time \<Rightarrow> database \<Rightarrow> RefreshToken option" where
  "rt_get_active token_hash now d = find_row (rt_live token_hash now) (t_refresh_tokens d)"

definition rt_stamp :: "time \<Rightarrow> RefreshToken \<Rightarrow> RefreshToken" where
  "rt_stamp now t = t\<lparr>rt_revoked_at := Some now\<rparr>"

definition rt_revoke :: "str \<Rightarrow> time \<Rightarrow> database \<Rightarrow> int \<times> database" where
  "rt_revoke token_hash now d =
     (let doomed = (\<lambda>t. rt_token_hash t = token_hash \<and> rt_revoked_at t = None)
      in (count_where doomed (t_refresh_tokens d),
          d\<lparr>t_refresh_tokens := update_where doomed (rt_stamp now) (t_refresh_tokens d)\<rparr>))"

definition rt_revoke_all_for_user :: "ident \<Rightarrow> time \<Rightarrow> database \<Rightarrow> int \<times> database" where
  "rt_revoke_all_for_user uid now d =
     (let doomed = (\<lambda>t. rt_user_id t = uid \<and> rt_revoked_at t = None)
      in (count_where doomed (t_refresh_tokens d),
          d\<lparr>t_refresh_tokens := update_where doomed (rt_stamp now) (t_refresh_tokens d)\<rparr>))"

definition rt_delete_expired :: "time \<Rightarrow> database \<Rightarrow> int \<times> database" where
  "rt_delete_expired now d =
     (count_where (\<lambda>t. rt_expires_at t \<le> now) (t_refresh_tokens d),
      d\<lparr>t_refresh_tokens := delete_where (\<lambda>t. rt_expires_at t \<le> now) (t_refresh_tokens d)\<rparr>)"

section \<open>Single-use tokens\<close>

definition sut_create :: "str \<Rightarrow> ident \<Rightarrow> TokenPurpose \<Rightarrow> time \<Rightarrow> database \<Rightarrow> database result" where
  "sut_create token_hash uid purpose expires_at d =
     (if \<exists>t\<in>set (t_single_use_tokens d). sut_token_hash t = token_hash
      then Inl (IntegrityError UNIQUE_VIOLATION)
      else if uid \<notin> user_id ` set (t_users d) then Inl (IntegrityError FOREIGN_KEY_VIOLATION)
      else Inr (bump TSingleUseTokens (d\<lparr>t_single_use_tokens := t_single_use_tokens d @
             [\<lparr>sut_id = seqs d TSingleUseTokens, sut_token_hash = token_hash, sut_user_id = uid,
               sut_purpose = purpose, sut_expires_at = expires_at, sut_used_at = None,
               sut_created_at = tx_now d\<rparr>]\<rparr>)))"

definition sut_live :: "str \<Rightarrow> TokenPurpose \<Rightarrow> time \<Rightarrow> SingleUseToken \<Rightarrow> bool" where
  "sut_live token_hash purpose now t \<longleftrightarrow>
     sut_token_hash t = token_hash \<and> sut_purpose t = purpose \<and> sut_used_at t = None \<and>
     sut_expires_at t > now"

definition sut_get_active :: "str \<Rightarrow> TokenPurpose \<Rightarrow> time \<Rightarrow> database \<Rightarrow> SingleUseToken option" where
  "sut_get_active token_hash purpose now d =
     find_row (sut_live token_hash purpose now) (t_single_use_tokens d)"

text \<open>\<open>ORDER BY created_at DESC, id DESC LIMIT 1\<close>.\<close>

definition sut_latest_for :: "ident \<Rightarrow> TokenPurpose \<Rightarrow> database \<Rightarrow> SingleUseToken option" where
  "sut_latest_for uid purpose d =
     (case rev (sort_key (\<lambda>t. (sut_created_at t, sut_id t))
              (filter (\<lambda>t. sut_user_id t = uid \<and> sut_purpose t = purpose) (t_single_use_tokens d))) of
        [] \<Rightarrow> None | t # ts \<Rightarrow> Some t)"

definition sut_stamp :: "time \<Rightarrow> SingleUseToken \<Rightarrow> SingleUseToken" where
  "sut_stamp now t = t\<lparr>sut_used_at := Some now\<rparr>"

definition sut_mark_used :: "SingleUseToken \<Rightarrow> time \<Rightarrow> database \<Rightarrow> database" where
  "sut_mark_used token now d =
     d\<lparr>t_single_use_tokens := update_where (\<lambda>t. sut_id t = sut_id token) (sut_stamp now)
         (t_single_use_tokens d)\<rparr>"

definition sut_revoke_all_for :: "ident \<Rightarrow> TokenPurpose \<Rightarrow> time \<Rightarrow> database \<Rightarrow> int \<times> database" where
  "sut_revoke_all_for uid purpose now d =
     (let doomed = (\<lambda>t. sut_user_id t = uid \<and> sut_purpose t = purpose \<and> sut_used_at t = None)
      in (count_where doomed (t_single_use_tokens d),
          d\<lparr>t_single_use_tokens := update_where doomed (sut_stamp now) (t_single_use_tokens d)\<rparr>))"

definition sut_delete_expired :: "time \<Rightarrow> database \<Rightarrow> int \<times> database" where
  "sut_delete_expired now d =
     (count_where (\<lambda>t. sut_expires_at t < now) (t_single_use_tokens d),
      d\<lparr>t_single_use_tokens := delete_where (\<lambda>t. sut_expires_at t < now) (t_single_use_tokens d)\<rparr>)"

section \<open>The shared contract\<close>

text \<open>
  \<open>find h now\<close> is the live token with digest \<open>h\<close>; \<open>known h\<close> says that the table has a row for it,
  live or not. A digest is never issued twice.
\<close>

locale token_store =
  fixes find :: "str \<Rightarrow> time \<Rightarrow> 's \<Rightarrow> 't option"
    and known :: "str \<Rightarrow> 's \<Rightarrow> bool"
    and owner :: "'t \<Rightarrow> ident"
    and issue :: "str \<Rightarrow> ident \<Rightarrow> time \<Rightarrow> 's \<Rightarrow> 's result"
    and spend :: "str \<Rightarrow> time \<Rightarrow> 's \<Rightarrow> 's"
    and retire_all :: "ident \<Rightarrow> time \<Rightarrow> 's \<Rightarrow> 's"
    and prune :: "time \<Rightarrow> 's \<Rightarrow> 's"
    and inv :: "'s \<Rightarrow> bool"
  assumes find_known: "find h now s = Some t \<Longrightarrow> known h s"
    and issue_law: "inv s \<Longrightarrow> issue h uid expires s = Inr s' \<Longrightarrow>
      inv s' \<and> \<not> known h s \<and> (\<forall>g. known g s' \<longleftrightarrow> known g s \<or> g = h) \<and>
      (\<forall>now. case find h now s' of None \<Rightarrow> expires \<le> now | Some t \<Rightarrow> now < expires \<and> owner t = uid) \<and>
      (\<forall>g now. g \<noteq> h \<longrightarrow> find g now s' = find g now s)"
    and spend_law: "inv s \<Longrightarrow> inv (spend h at s) \<and> (\<forall>g. known g (spend h at s) \<longleftrightarrow> known g s) \<and>
      (\<forall>g now. find g now (spend h at s) = (if g = h then None else find g now s))"
    and retire_all_law: "inv s \<Longrightarrow> inv (retire_all uid at s) \<and>
      (\<forall>g. known g (retire_all uid at s) \<longleftrightarrow> known g s) \<and>
      (\<forall>g now. find g now (retire_all uid at s) =
         (case find g now s of None \<Rightarrow> None | Some t \<Rightarrow> if owner t = uid then None else Some t))"
    and prune_law: "inv s \<Longrightarrow> inv (prune at s) \<and> (\<forall>g. known g (prune at s) \<longrightarrow> known g s) \<and>
      (\<forall>g now. at \<le> now \<longrightarrow> find g now (prune at s) = find g now s)"
begin

text \<open>A spent token is dead at every instant, and stays dead under every further operation.\<close>

definition dead :: "str \<Rightarrow> 's \<Rightarrow> bool" where
  "dead h s \<longleftrightarrow> known h s \<and> (\<forall>now. find h now s = None)"

lemma spend_dead: "inv s \<Longrightarrow> known h s \<Longrightarrow> dead h (spend h at s)"
  using spend_law [of s h at] by (simp add: dead_def)

lemma dead_stays:
  assumes "inv s" "dead h s"
  shows "issue g uid expires s = Inr s' \<Longrightarrow> dead h s'" "dead h (spend g at s)" "dead h (retire_all uid at s)"
proof -
  show "issue g uid expires s = Inr s' \<Longrightarrow> dead h s'"
    using issue_law [OF assms(1)] assms(2) by (metis dead_def)
  show "dead h (spend g at s)" using spend_law [OF assms(1)] assms(2) by (auto simp: dead_def)
  show "dead h (retire_all uid at s)" using retire_all_law [OF assms(1)] assms(2) by (auto simp: dead_def)
qed

lemma retire_all_none:
  "inv s \<Longrightarrow> find g now (retire_all uid at s) = Some t \<Longrightarrow> owner t \<noteq> uid"
  using retire_all_law [of s uid at] by (auto split: option.splits if_splits)

lemma issued_found:
  assumes "inv s" "issue h uid expires s = Inr s'" "now < expires"
  obtains t where "find h now s' = Some t" "owner t = uid"
proof -
  have "case find h now s' of None \<Rightarrow> expires \<le> now | Some t \<Rightarrow> now < expires \<and> owner t = uid"
    using issue_law [OF assms(1,2)] by blast
  with assms(3) that show ?thesis by (auto split: option.splits)
qed

text \<open>Issuing after retiring leaves the owner with that one live token.\<close>

lemma only_latest_live:
  assumes "inv s" "issue h uid expires (retire_all uid at s) = Inr s'"
    and "find g now s' = Some t" "owner t = uid"
  shows "g = h"
proof (rule ccontr)
  assume "g \<noteq> h"
  have i: "inv (retire_all uid at s)" using retire_all_law [OF assms(1)] by blast
  then have "find g now (retire_all uid at s) = Some t"
    using issue_law [OF i assms(2)] \<open>g \<noteq> h\<close> assms(3) by simp
  then show False using retire_all_none [OF assms(1)] assms(4) by blast
qed

end

section \<open>The two interpretations\<close>

definition rt_known :: "str \<Rightarrow> database \<Rightarrow> bool" where
  "rt_known h d \<longleftrightarrow> (\<exists>t\<in>set (t_refresh_tokens d). rt_token_hash t = h)"

definition sut_known :: "str \<Rightarrow> database \<Rightarrow> bool" where
  "sut_known h d \<longleftrightarrow> (\<exists>t\<in>set (t_single_use_tokens d). sut_token_hash t = h)"

definition sut_spend :: "str \<Rightarrow> time \<Rightarrow> database \<Rightarrow> database" where
  "sut_spend h now d =
     (case find_row (\<lambda>t. sut_token_hash t = h) (t_single_use_tokens d) of
        None \<Rightarrow> d | Some t \<Rightarrow> sut_mark_used t now d)"

lemma find_row_stamped:
  assumes "\<And>x. live x \<Longrightarrow> doomed x \<Longrightarrow> \<not> live (f x)" "\<And>x. \<not> live x \<Longrightarrow> \<not> live (f x)"
    and "\<And>x y. x \<in> set xs \<Longrightarrow> y \<in> set xs \<Longrightarrow> live x \<Longrightarrow> live y \<Longrightarrow> x = y" "distinct xs"
  shows "find_row live (update_where doomed f xs) =
    (case find_row live xs of None \<Rightarrow> None | Some x \<Rightarrow> if doomed x then None else Some x)"
  using assms(3,4)
proof (induction xs)
  case Nil
  then show ?case by (simp add: update_where_def)
next
  case (Cons x xs)
  have tail: "find_row live (update_where doomed f xs) =
      (case find_row live xs of None \<Rightarrow> None | Some x \<Rightarrow> if doomed x then None else Some x)"
    using Cons by simp
  show ?case
  proof (cases "live x")
    case True
    have "find_row live xs = None"
      using Cons.prems True by (auto simp: find_row_None_iff)
    then show ?thesis using True tail assms(1) by (simp add: update_where_def)
  next
    case False
    then show ?thesis using tail assms(2) by (simp add: update_where_def)
  qed
qed

lemma rt_live_stamp [simp]: "\<not> rt_live h now (rt_stamp at t)"
  by (simp add: rt_live_def rt_stamp_def)

lemma sut_live_stamp [simp]: "\<not> sut_live h p now (sut_stamp at t)"
  by (simp add: sut_live_def sut_stamp_def)

lemma rt_stamp_simps [simp]:
  "rt_id (rt_stamp at t) = rt_id t" "rt_token_hash (rt_stamp at t) = rt_token_hash t"
  "rt_user_id (rt_stamp at t) = rt_user_id t" "rt_expires_at (rt_stamp at t) = rt_expires_at t"
  by (simp_all add: rt_stamp_def)

lemma sut_stamp_simps [simp]:
  "sut_id (sut_stamp at t) = sut_id t" "sut_token_hash (sut_stamp at t) = sut_token_hash t"
  "sut_user_id (sut_stamp at t) = sut_user_id t" "sut_purpose (sut_stamp at t) = sut_purpose t"
  by (simp_all add: sut_stamp_def)

lemma rt_find_stamped:
  assumes "wf_refresh_tokens d"
  shows "find_row (rt_live h now) (update_where doomed (rt_stamp at) (t_refresh_tokens d)) =
    (case rt_get_active h now d of None \<Rightarrow> None | Some t \<Rightarrow> if doomed t then None else Some t)"
proof -
  have "distinct (t_refresh_tokens d)" using assms by (simp add: wf_refresh_tokens_def keyed_def distinct_map)
  moreover have "x = y" if "x \<in> set (t_refresh_tokens d)" "y \<in> set (t_refresh_tokens d)"
      "rt_live h now x" "rt_live h now y" for x y
    using assms that by (auto simp: wf_refresh_tokens_def rt_live_def dest: distinct_key_eq)
  ultimately show ?thesis unfolding rt_get_active_def by (intro find_row_stamped) auto
qed

lemma sut_find_stamped:
  assumes "wf_single_use_tokens d"
  shows "find_row (sut_live h p now) (update_where doomed (sut_stamp at) (t_single_use_tokens d)) =
    (case sut_get_active h p now d of None \<Rightarrow> None | Some t \<Rightarrow> if doomed t then None else Some t)"
proof -
  have "distinct (t_single_use_tokens d)" using assms by (simp add: wf_single_use_tokens_def keyed_def distinct_map)
  moreover have "x = y" if "x \<in> set (t_single_use_tokens d)" "y \<in> set (t_single_use_tokens d)"
      "sut_live h p now x" "sut_live h p now y" for x y
    using assms that by (auto simp: wf_single_use_tokens_def sut_live_def dest: distinct_key_eq)
  ultimately show ?thesis unfolding sut_get_active_def by (intro find_row_stamped) auto
qed

lemma wf_rt_stamped:
  "wf_refresh_tokens d \<Longrightarrow> wf_refresh_tokens (d\<lparr>t_refresh_tokens := update_where doomed (rt_stamp at) (t_refresh_tokens d)\<rparr>)"
  by (auto simp: wf_refresh_tokens_def keyed_update_where map_update_where set_update_where)

lemma wf_sut_stamped:
  "wf_single_use_tokens d \<Longrightarrow>
   wf_single_use_tokens (d\<lparr>t_single_use_tokens := update_where doomed (sut_stamp at) (t_single_use_tokens d)\<rparr>)"
  by (auto simp: wf_single_use_tokens_def keyed_update_where map_update_where set_update_where)

lemma rt_known_stamped [simp]:
  "rt_known g (d\<lparr>t_refresh_tokens := update_where doomed (rt_stamp at) (t_refresh_tokens d)\<rparr>) = rt_known g d"
proof -
  have "rt_known g d \<longleftrightarrow> g \<in> set (map rt_token_hash (t_refresh_tokens d))" for d by (auto simp: rt_known_def)
  then show ?thesis by (simp add: map_update_where del: set_map)
qed

lemma sut_known_stamped [simp]:
  "sut_known g (d\<lparr>t_single_use_tokens := update_where doomed (sut_stamp at) (t_single_use_tokens d)\<rparr>) = sut_known g d"
proof -
  have "sut_known g d \<longleftrightarrow> g \<in> set (map sut_token_hash (t_single_use_tokens d))" for d by (auto simp: sut_known_def)
  then show ?thesis by (simp add: map_update_where del: set_map)
qed

lemma find_row_pruned:
  assumes "\<And>x. doomed x \<Longrightarrow> \<not> live x"
  shows "find_row live (delete_where doomed xs) = find_row live xs"
  using assms by (induction xs) (auto simp: delete_where_def)

lemma rt_get_active_hash: "rt_get_active h now d = Some t \<Longrightarrow> t \<in> set (t_refresh_tokens d) \<and> rt_live h now t"
  by (auto simp: rt_get_active_def dest: find_row_SomeD)

lemma sut_get_active_hash: "sut_get_active h p now d = Some t \<Longrightarrow> t \<in> set (t_single_use_tokens d) \<and> sut_live h p now t"
  by (auto simp: sut_get_active_def dest: find_row_SomeD)

lemma rt_create_shape:
  assumes "rt_create h uid ex d = Inr d'"
  obtains t where "rt_token_hash t = h" "rt_user_id t = uid" "rt_expires_at t = ex" "rt_revoked_at t = None"
    "rt_id t = seqs d TRefreshTokens" "\<not> rt_known h d" "uid \<in> user_id ` set (t_users d)"
    "d' = bump TRefreshTokens (d\<lparr>t_refresh_tokens := t_refresh_tokens d @ [t]\<rparr>)"
proof -
  let ?t = "\<lparr>rt_id = seqs d TRefreshTokens, rt_token_hash = h, rt_user_id = uid,
               rt_expires_at = ex, rt_revoked_at = None, rt_created_at = tx_now d\<rparr>"
  show ?thesis using assms
    by (intro that [of ?t]) (auto simp: rt_create_def rt_known_def split: if_splits)
qed

lemma sut_create_shape:
  assumes "sut_create h uid p ex d = Inr d'"
  obtains t where "sut_token_hash t = h" "sut_user_id t = uid" "sut_expires_at t = ex" "sut_used_at t = None"
    "sut_purpose t = p" "sut_created_at t = tx_now d"
    "sut_id t = seqs d TSingleUseTokens" "\<not> sut_known h d" "uid \<in> user_id ` set (t_users d)"
    "d' = bump TSingleUseTokens (d\<lparr>t_single_use_tokens := t_single_use_tokens d @ [t]\<rparr>)"
proof -
  let ?t = "\<lparr>sut_id = seqs d TSingleUseTokens, sut_token_hash = h, sut_user_id = uid, sut_purpose = p,
               sut_expires_at = ex, sut_used_at = None, sut_created_at = tx_now d\<rparr>"
  show ?thesis using assms
    by (intro that [of ?t]) (auto simp: sut_create_def sut_known_def split: if_splits)
qed

interpretation refresh_store: token_store rt_get_active rt_known rt_user_id rt_create
  "\<lambda>h now d. snd (rt_revoke h now d)" "\<lambda>uid now d. snd (rt_revoke_all_for_user uid now d)"
  "\<lambda>now d. snd (rt_delete_expired now d)" wf_refresh_tokens
proof unfold_locales
  fix h now d t
  assume "rt_get_active h now d = Some t"
  then show "rt_known h d" by (auto simp: rt_known_def rt_live_def dest!: rt_get_active_hash)
next
  fix d h uid ex d'
  assume wf: "wf_refresh_tokens d" and "rt_create h uid ex d = Inr d'"
  from this(2) show "wf_refresh_tokens d' \<and> \<not> rt_known h d \<and> (\<forall>g. rt_known g d' \<longleftrightarrow> rt_known g d \<or> g = h) \<and>
      (\<forall>now. case rt_get_active h now d' of None \<Rightarrow> ex \<le> now | Some t \<Rightarrow> now < ex \<and> rt_user_id t = uid) \<and>
      (\<forall>g now. g \<noteq> h \<longrightarrow> rt_get_active g now d' = rt_get_active g now d)"
  proof (rule rt_create_shape)
    fix t
    assume t: "rt_token_hash t = h" "rt_user_id t = uid" "rt_expires_at t = ex" "rt_revoked_at t = None"
      "rt_id t = seqs d TRefreshTokens" "\<not> rt_known h d" "uid \<in> user_id ` set (t_users d)"
      and d': "d' = bump TRefreshTokens (d\<lparr>t_refresh_tokens := t_refresh_tokens d @ [t]\<rparr>)"
    have none: "rt_get_active h now d = None" for now
      using t(6) by (auto simp: rt_get_active_def find_row_None_iff rt_live_def rt_known_def)
    have "wf_refresh_tokens d'"
      using wf t by (auto simp: d' wf_refresh_tokens_def keyed_append rt_known_def)
    moreover have "rt_get_active g now d' = (case rt_get_active g now d of None \<Rightarrow>
        if rt_live g now t then Some t else None | Some x \<Rightarrow> Some x)" for g now
      by (simp add: d' rt_get_active_def find_row_append split: option.split)
    ultimately show ?thesis
      using t none by (auto simp: rt_known_def d' rt_live_def split: option.splits)
  qed
next
  fix d h at
  assume wf: "wf_refresh_tokens d"
  have "rt_get_active g now (snd (rt_revoke h at d)) = (if g = h then None else rt_get_active g now d)" for g now
    using rt_find_stamped [OF wf, of g now "\<lambda>t. rt_token_hash t = h \<and> rt_revoked_at t = None" at]
      rt_get_active_hash [of g now d]
    by (auto simp: rt_revoke_def Let_def rt_get_active_def [of _ _ "d\<lparr>t_refresh_tokens := _\<rparr>"] rt_live_def split: option.splits)
  then show "wf_refresh_tokens (snd (rt_revoke h at d)) \<and> (\<forall>g. rt_known g (snd (rt_revoke h at d)) \<longleftrightarrow> rt_known g d) \<and>
      (\<forall>g now. rt_get_active g now (snd (rt_revoke h at d)) = (if g = h then None else rt_get_active g now d))"
    using wf_rt_stamped [OF wf] by (simp add: rt_revoke_def Let_def)
next
  fix d uid at
  assume wf: "wf_refresh_tokens d"
  have "rt_get_active g now (snd (rt_revoke_all_for_user uid at d)) =
      (case rt_get_active g now d of None \<Rightarrow> None | Some t \<Rightarrow> if rt_user_id t = uid then None else Some t)" for g now
    using rt_find_stamped [OF wf, of g now "\<lambda>t. rt_user_id t = uid \<and> rt_revoked_at t = None" at]
      rt_get_active_hash [of g now d]
    by (auto simp: rt_revoke_all_for_user_def Let_def rt_get_active_def [of _ _ "d\<lparr>t_refresh_tokens := _\<rparr>"] rt_live_def split: option.splits)
  then show "wf_refresh_tokens (snd (rt_revoke_all_for_user uid at d)) \<and>
      (\<forall>g. rt_known g (snd (rt_revoke_all_for_user uid at d)) \<longleftrightarrow> rt_known g d) \<and>
      (\<forall>g now. rt_get_active g now (snd (rt_revoke_all_for_user uid at d)) =
        (case rt_get_active g now d of None \<Rightarrow> None | Some t \<Rightarrow> if rt_user_id t = uid then None else Some t))"
    using wf_rt_stamped [OF wf] by (simp add: rt_revoke_all_for_user_def Let_def)
next
  fix d at
  assume wf: "wf_refresh_tokens d"
  have "wf_refresh_tokens (snd (rt_delete_expired at d))"
    using wf by (auto simp: rt_delete_expired_def wf_refresh_tokens_def keyed_delete_where distinct_map_delete_where)
  moreover have "at \<le> now \<Longrightarrow> rt_get_active g now (snd (rt_delete_expired at d)) = rt_get_active g now d" for g now
    unfolding rt_delete_expired_def rt_get_active_def by (simp, intro find_row_pruned) (auto simp: rt_live_def)
  ultimately show "wf_refresh_tokens (snd (rt_delete_expired at d)) \<and>
      (\<forall>g. rt_known g (snd (rt_delete_expired at d)) \<longrightarrow> rt_known g d) \<and>
      (\<forall>g now. at \<le> now \<longrightarrow> rt_get_active g now (snd (rt_delete_expired at d)) = rt_get_active g now d)"
    by (auto simp: rt_delete_expired_def rt_known_def)
qed

lemma sut_spend_eq:
  assumes "wf_single_use_tokens d"
  shows "sut_spend h at d = d\<lparr>t_single_use_tokens :=
    update_where (\<lambda>t. sut_token_hash t = h) (sut_stamp at) (t_single_use_tokens d)\<rparr>"
proof (cases "find_row (\<lambda>t. sut_token_hash t = h) (t_single_use_tokens d)")
  case None
  then have "update_where (\<lambda>t. sut_token_hash t = h) (sut_stamp at) (t_single_use_tokens d) = t_single_use_tokens d"
    by (intro update_where_id) (simp add: find_row_None_iff)
  then show ?thesis using None by (simp add: sut_spend_def)
next
  case (Some t)
  then have t: "t \<in> set (t_single_use_tokens d)" "sut_token_hash t = h" by (auto dest: find_row_SomeD)
  have "sut_id x = sut_id t \<longleftrightarrow> sut_token_hash x = h" if "x \<in> set (t_single_use_tokens d)" for x
  proof
    assume "sut_id x = sut_id t"
    then have "x = t" using assms that t(1) by (auto simp: wf_single_use_tokens_def dest: keyed_unique)
    then show "sut_token_hash x = h" using t(2) by simp
  next
    assume "sut_token_hash x = h"
    then have "x = t" using assms that t by (auto simp: wf_single_use_tokens_def dest: distinct_key_eq)
    then show "sut_id x = sut_id t" by simp
  qed
  then have "update_where (\<lambda>x. sut_id x = sut_id t) (sut_stamp at) (t_single_use_tokens d) =
      update_where (\<lambda>x. sut_token_hash x = h) (sut_stamp at) (t_single_use_tokens d)"
    by (auto simp: update_where_def)
  then show ?thesis using Some by (simp add: sut_spend_def sut_mark_used_def)
qed

interpretation single_use_store: token_store "\<lambda>h. sut_get_active h p" sut_known sut_user_id "\<lambda>h uid. sut_create h uid p"
  sut_spend "\<lambda>uid now d. snd (sut_revoke_all_for uid p now d)"
  "\<lambda>now d. snd (sut_delete_expired now d)" wf_single_use_tokens for p
proof unfold_locales
  fix h now d t
  assume "sut_get_active h p now d = Some t"
  then show "sut_known h d" by (auto simp: sut_known_def sut_live_def dest!: sut_get_active_hash)
next
  fix d h uid ex d'
  assume wf: "wf_single_use_tokens d" and "sut_create h uid p ex d = Inr d'"
  from this(2) show "wf_single_use_tokens d' \<and> \<not> sut_known h d \<and> (\<forall>g. sut_known g d' \<longleftrightarrow> sut_known g d \<or> g = h) \<and>
      (\<forall>now. case sut_get_active h p now d' of None \<Rightarrow> ex \<le> now | Some t \<Rightarrow> now < ex \<and> sut_user_id t = uid) \<and>
      (\<forall>g now. g \<noteq> h \<longrightarrow> sut_get_active g p now d' = sut_get_active g p now d)"
  proof (rule sut_create_shape)
    fix t
    assume t: "sut_token_hash t = h" "sut_user_id t = uid" "sut_expires_at t = ex" "sut_used_at t = None"
      "sut_purpose t = p" "sut_id t = seqs d TSingleUseTokens" "\<not> sut_known h d" "uid \<in> user_id ` set (t_users d)"
      and d': "d' = bump TSingleUseTokens (d\<lparr>t_single_use_tokens := t_single_use_tokens d @ [t]\<rparr>)"
    have none: "sut_get_active h p now d = None" for now
      using t(7) by (auto simp: sut_get_active_def find_row_None_iff sut_live_def sut_known_def)
    have "wf_single_use_tokens d'"
      using wf t by (auto simp: d' wf_single_use_tokens_def keyed_append sut_known_def)
    moreover have "sut_get_active g p now d' = (case sut_get_active g p now d of None \<Rightarrow>
        if sut_live g p now t then Some t else None | Some x \<Rightarrow> Some x)" for g now
      by (simp add: d' sut_get_active_def find_row_append split: option.split)
    ultimately show ?thesis
      using t none by (auto simp: sut_known_def d' sut_live_def split: option.splits)
  qed
next
  fix d h at
  assume wf: "wf_single_use_tokens d"
  have "sut_get_active g p now (sut_spend h at d) = (if g = h then None else sut_get_active g p now d)" for g now
    using sut_find_stamped [OF wf, of g p now "\<lambda>t. sut_token_hash t = h" at] sut_get_active_hash [of g p now d]
    by (auto simp: sut_spend_eq [OF wf] sut_get_active_def [of _ _ _ "d\<lparr>t_single_use_tokens := _\<rparr>"] sut_live_def
        split: option.splits)
  then show "wf_single_use_tokens (sut_spend h at d) \<and> (\<forall>g. sut_known g (sut_spend h at d) \<longleftrightarrow> sut_known g d) \<and>
      (\<forall>g now. sut_get_active g p now (sut_spend h at d) = (if g = h then None else sut_get_active g p now d))"
    using wf_sut_stamped [OF wf] by (simp add: sut_spend_eq [OF wf])
next
  fix d uid at
  assume wf: "wf_single_use_tokens d"
  have "sut_get_active g p now (snd (sut_revoke_all_for uid p at d)) =
      (case sut_get_active g p now d of None \<Rightarrow> None | Some t \<Rightarrow> if sut_user_id t = uid then None else Some t)" for g now
    using sut_find_stamped [OF wf, of g p now "\<lambda>t. sut_user_id t = uid \<and> sut_purpose t = p \<and> sut_used_at t = None" at]
      sut_get_active_hash [of g p now d]
    by (auto simp: sut_revoke_all_for_def Let_def sut_get_active_def [of _ _ _ "d\<lparr>t_single_use_tokens := _\<rparr>"] sut_live_def
        split: option.splits)
  then show "wf_single_use_tokens (snd (sut_revoke_all_for uid p at d)) \<and>
      (\<forall>g. sut_known g (snd (sut_revoke_all_for uid p at d)) \<longleftrightarrow> sut_known g d) \<and>
      (\<forall>g now. sut_get_active g p now (snd (sut_revoke_all_for uid p at d)) =
        (case sut_get_active g p now d of None \<Rightarrow> None | Some t \<Rightarrow> if sut_user_id t = uid then None else Some t))"
    using wf_sut_stamped [OF wf] by (simp add: sut_revoke_all_for_def Let_def)
next
  fix d at
  assume wf: "wf_single_use_tokens d"
  have "wf_single_use_tokens (snd (sut_delete_expired at d))"
    using wf by (auto simp: sut_delete_expired_def wf_single_use_tokens_def keyed_delete_where distinct_map_delete_where)
  moreover have "at \<le> now \<Longrightarrow> sut_get_active g p now (snd (sut_delete_expired at d)) = sut_get_active g p now d" for g now
    unfolding sut_delete_expired_def sut_get_active_def by (simp, intro find_row_pruned) (auto simp: sut_live_def)
  ultimately show "wf_single_use_tokens (snd (sut_delete_expired at d)) \<and>
      (\<forall>g. sut_known g (snd (sut_delete_expired at d)) \<longrightarrow> sut_known g d) \<and>
      (\<forall>g now. at \<le> now \<longrightarrow> sut_get_active g p now (snd (sut_delete_expired at d)) = sut_get_active g p now d)"
    by (auto simp: sut_delete_expired_def sut_known_def)
qed

end
