(* ===== verification/AuditTrail.thy ===== *)
theory AuditTrail
  imports Models "HOL-Library.AList"
begin

text \<open>
  \<open>app/core/audit\<close>: which tables and columns the trail covers, how a change becomes a JSON document,
  and the session listeners that collect changes before a flush and write them after it.

  The objects of a session are kept in a store from references to their state, because a listener
  keeps references across the flush: an inserted object gets its identity in between.
\<close>

section \<open>Context\<close>

abbreviation REQUEST_SOURCE :: str where "REQUEST_SOURCE \<equiv> ''request''"
abbreviation SYSTEM_SOURCE :: str where "SYSTEM_SOURCE \<equiv> ''system''"

record AuditContext =
  ctx_request_id :: "str option"
  ctx_method :: "str option"
  ctx_path :: "str option"
  ctx_client_ip :: "str option"
  ctx_actor_id :: "ident option"
  ctx_impersonator_id :: "ident option"
  ctx_source :: str

definition system_context :: AuditContext where
  "system_context = \<lparr>ctx_request_id = None, ctx_method = None, ctx_path = None, ctx_client_ip = None,
     ctx_actor_id = None, ctx_impersonator_id = None, ctx_source = SYSTEM_SOURCE\<rparr>"

definition bind_actor :: "ident option \<Rightarrow> ident option \<Rightarrow> AuditContext option \<Rightarrow> AuditContext option" where
  "bind_actor actor impersonator context =
     (case context of None \<Rightarrow> None
      | Some c \<Rightarrow> Some (c\<lparr>ctx_actor_id := actor, ctx_impersonator_id := impersonator\<rparr>))"

text \<open>\<open>current_audit_context() or AuditContext(source=SYSTEM_SOURCE)\<close>.\<close>

definition context_or_system :: "AuditContext option \<Rightarrow> AuditContext" where
  "context_or_system context = (case context of None \<Rightarrow> system_context | Some c \<Rightarrow> c)"

section \<open>Policy\<close>

datatype AuditAction =
    INSERT | UPDATE_ROW | DELETE_ROW | SOFT_DELETE | RESTORE | LINK | UNLINK
  | IMPERSONATE_START | IMPERSONATE_STOP

fun action_value :: "AuditAction \<Rightarrow> str" where
  "action_value INSERT = ''insert''"
| "action_value UPDATE_ROW = ''update''"
| "action_value DELETE_ROW = ''delete''"
| "action_value SOFT_DELETE = ''soft_delete''"
| "action_value RESTORE = ''restore''"
| "action_value LINK = ''link''"
| "action_value UNLINK = ''unlink''"
| "action_value IMPERSONATE_START = ''impersonate_start''"
| "action_value IMPERSONATE_STOP = ''impersonate_stop''"

definition EXCLUDED_TABLES :: "str set" where
  "EXCLUDED_TABLES = {''audit_logs'', ''request_logs'', ''refresh_tokens'', ''single_use_tokens'',
     ''idempotency_keys'', ''alembic_version''}"

definition REDACTED_COLUMNS :: "str set" where
  "REDACTED_COLUMNS = {''hashed_password'', ''token_hash'', ''password'', ''secret'', ''api_key''}"

definition IGNORED_COLUMNS :: "str set" where
  "IGNORED_COLUMNS = {''created_at'', ''updated_at''}"

abbreviation REDACTED_PLACEHOLDER :: str where "REDACTED_PLACEHOLDER \<equiv> ''***''"
abbreviation MAX_VALUE_CHARS :: nat where "MAX_VALUE_CHARS \<equiv> 1000"
abbreviation MAX_DOCUMENT_BYTES :: nat where "MAX_DOCUMENT_BYTES \<equiv> 65536"

definition is_audited :: "str \<Rightarrow> bool" where
  "is_audited table_name \<longleftrightarrow> table_name \<notin> EXCLUDED_TABLES"

definition is_redacted :: "str \<Rightarrow> bool" where
  "is_redacted column \<longleftrightarrow> column \<in> REDACTED_COLUMNS"

definition is_ignored :: "str \<Rightarrow> bool" where
  "is_ignored column \<longleftrightarrow> column \<in> IGNORED_COLUMNS"

section \<open>From a change to a document\<close>

text \<open>
  The Python values a column can hold. A date carries its \<open>isoformat\<close>; a \<open>Decimal\<close> or \<open>UUID\<close> (\<open>VText\<close>) and
  any further object (\<open>VOther\<close>) carry what \<open>str\<close> answers; an enumeration member carries its value.
\<close>

datatype pyval =
    VNone | VBool bool | VInt int | VFloat str | VBytes nat | VEnum pyval | VDate str | VText str
  | VOther str | VStr str

type_synonym columns = "(str \<times> pyval) list"
type_synonym changes = "(str \<times> json) list"

definition truncated_marker :: "nat \<Rightarrow> json" where
  "truncated_marker n = JObj [(''truncated'', JBool True), (''length'', JInt (int n))]"

definition capped_text :: "str \<Rightarrow> json" where
  "capped_text text =
     (if length text > MAX_VALUE_CHARS then truncated_marker (length text) else JStr text)"

fun jsonable :: "pyval \<Rightarrow> json" where
  "jsonable VNone = JNull"
| "jsonable (VBool b) = JBool b"
| "jsonable (VInt n) = JInt n"
| "jsonable (VFloat f) = JFloat f"
| "jsonable (VBytes n) = truncated_marker n"
| "jsonable (VEnum v) = jsonable v"
| "jsonable (VDate s) = JStr s"
| "jsonable (VText s) = JStr s"
| "jsonable (VOther s) = capped_text s"
| "jsonable (VStr s) = capped_text s"

definition rendered :: "str \<Rightarrow> pyval \<Rightarrow> json" where
  "rendered column v = (if is_redacted column then JStr REDACTED_PLACEHOLDER else jsonable v)"

text \<open>\<open>before.get(column)\<close>: an absent column reads as \<open>None\<close>.\<close>

definition column_value :: "columns \<Rightarrow> str \<Rightarrow> pyval" where
  "column_value cols c = (case map_of cols c of None \<Rightarrow> VNone | Some v \<Rightarrow> v)"

definition sides :: "json \<Rightarrow> json \<Rightarrow> json" where
  "sides old new = JObj [(''old'', old), (''new'', new)]"

definition changes_from :: "columns \<Rightarrow> columns \<Rightarrow> changes" where
  "changes_from before after =
     map (\<lambda>c. (c, sides (rendered c (column_value before c)) (rendered c (column_value after c))))
       (filter (\<lambda>c. \<not> is_ignored c) (sort (remdups (map fst before @ map fst after))))"

abbreviation DELETED_AT :: str where "DELETED_AT \<equiv> ''deleted_at''"

definition action_for :: "columns \<Rightarrow> columns \<Rightarrow> AuditAction" where
  "action_for before after =
     (case map_of after DELETED_AT of
        None \<Rightarrow> UPDATE_ROW
      | Some v \<Rightarrow>
          (let was_deleted = column_value before DELETED_AT \<noteq> VNone; is_deleted = v \<noteq> VNone
           in if is_deleted \<and> \<not> was_deleted then SOFT_DELETE
              else if was_deleted \<and> \<not> is_deleted then RESTORE
              else UPDATE_ROW))"

text \<open>\<open>len(json.dumps(v).encode())\<close>, with the default separators and ASCII escapes.\<close>

definition dumped_char :: "char \<Rightarrow> nat" where
  "dumped_char c = (let n = of_char c :: nat in
     if n = 34 \<or> n = 92 \<or> n = 8 \<or> n = 9 \<or> n = 10 \<or> n = 12 \<or> n = 13 then 2
     else if 32 \<le> n \<and> n \<le> 126 then 1 else 6)"

definition dumped_str :: "str \<Rightarrow> nat" where
  "dumped_str s = 2 + sum_list (map dumped_char s)"

fun dumped_length :: "json \<Rightarrow> nat" where
  "dumped_length JNull = 4"
| "dumped_length (JBool b) = (if b then 4 else 5)"
| "dumped_length (JInt n) = length (show_int n)"
| "dumped_length (JFloat f) = length f"
| "dumped_length (JStr s) = dumped_str s"
| "dumped_length (JList vs) = 2 + 2 * (length vs - 1) + sum_list (map dumped_length vs)"
| "dumped_length (JObj kvs) = 2 + 2 * (length kvs - 1) +
     sum_list (map (\<lambda>kv. dumped_str (fst kv) + 2 + dumped_length (snd kv)) kvs)"

definition cap :: "changes \<Rightarrow> changes \<times> bool" where
  "cap changes =
     (if dumped_length (JObj changes) \<le> MAX_DOCUMENT_BYTES then (changes, False)
      else ([(''_summary'', JObj [(''fields'', JList (map JStr (sort (map fst changes))))])], True))"

section \<open>Events\<close>

abbreviation IMPERSONATION :: str where "IMPERSONATION \<equiv> ''impersonation''"

text \<open>\<open>AuditLog(\<dots>)\<close> before its insert assigns the identifier and the instant.\<close>

definition audit_entry ::
  "AuditContext \<Rightarrow> str \<Rightarrow> AuditAction \<Rightarrow> str option \<Rightarrow> changes \<Rightarrow> bool \<Rightarrow> AuditLog" where
  "audit_entry c table_name action row_pk recorded truncated =
     \<lparr>al_id = 0, al_occurred_at = 0, al_request_id = ctx_request_id c, al_actor_id = ctx_actor_id c,
      al_impersonator_id = ctx_impersonator_id c, al_source = ctx_source c, al_method = ctx_method c,
      al_path = ctx_path c, al_client_ip = ctx_client_ip c, al_table_name = table_name,
      al_action = action_value action, al_row_pk = row_pk, al_changes = recorded,
      al_truncated = truncated\<rparr>"

definition audit_event ::
  "AuditContext option \<Rightarrow> str \<Rightarrow> AuditAction \<Rightarrow> str option \<Rightarrow> changes option \<Rightarrow> AuditLog" where
  "audit_event context table_name action row_pk changes =
     audit_entry (context_or_system context) table_name action row_pk
       (case changes of None \<Rightarrow> [] | Some ch \<Rightarrow> ch) False"

text \<open>\<open>AuditLogRepository.create\<close>.\<close>

definition audit_create :: "AuditLog \<Rightarrow> database \<Rightarrow> database" where
  "audit_create entry d =
     bump TAuditLogs (d\<lparr>t_audit_logs := t_audit_logs d @
       [entry\<lparr>al_id := seqs d TAuditLogs, al_occurred_at := tx_now d\<rparr>]\<rparr>)"

section \<open>The session listeners\<close>

abbreviation PK_SEPARATOR :: str where "PK_SEPARATOR \<equiv> '':''"
abbreviation LABEL_COLUMN :: str where "LABEL_COLUMN \<equiv> ''name''"

text \<open>
  What the listeners see of an object: the table of its mapper, its identity (the primary key's
  parts as \<open>str\<close> gives them, \<open>None\<close> while it is pending), its column attributes, the loaded values, the
  attribute histories (deleted and added values), and the histories of its relationships. A
  relationship through a secondary table names that table and the two columns.
\<close>

type_synonym ref = nat

record relationship =
  rel_secondary :: "str option"
  rel_parent_column :: "str option"
  rel_child_column :: "str option"
  rel_added :: "ref list"
  rel_deleted :: "ref list"

record orm_object =
  oo_table :: "str option"
  oo_identity :: "str list option"
  oo_column_attrs :: "str list"
  oo_dict :: columns
  oo_deleted :: "str \<Rightarrow> pyval list"
  oo_added :: "str \<Rightarrow> pyval list"
  oo_relationships :: "relationship list"

type_synonym store = "ref \<Rightarrow> orm_object"

datatype Pending =
    PendingRow ref str AuditAction columns columns "str option"
  | PendingLink str AuditAction ref ref str str

fun join_with :: "str \<Rightarrow> str list \<Rightarrow> str" where
  "join_with sep [] = []"
| "join_with sep [w] = w"
| "join_with sep (w # v # ws) = w @ sep @ join_with sep (v # ws)"

definition identity_of :: "orm_object \<Rightarrow> str option" where
  "identity_of obj = map_option (join_with PK_SEPARATOR) (oo_identity obj)"

definition loaded_columns :: "orm_object \<Rightarrow> columns" where
  "loaded_columns obj =
     concat (map (\<lambda>k. case map_of (oo_dict obj) k of
                        Some v \<Rightarrow> if is_ignored k then [] else [(k, v)]
                      | None \<Rightarrow> []) (oo_column_attrs obj))"

definition first_or_none :: "pyval list \<Rightarrow> pyval" where
  "first_or_none vs = (case vs of [] \<Rightarrow> VNone | v # _ \<Rightarrow> v)"

definition changed_columns :: "orm_object \<Rightarrow> str list" where
  "changed_columns obj =
     filter (\<lambda>k. \<not> is_ignored k \<and> (oo_added obj k \<noteq> [] \<or> oo_deleted obj k \<noteq> [])) (oo_column_attrs obj)"

definition column_history :: "orm_object \<Rightarrow> columns \<times> columns" where
  "column_history obj =
     (map (\<lambda>k. (k, first_or_none (oo_deleted obj k))) (changed_columns obj),
      map (\<lambda>k. (k, first_or_none (oo_added obj k))) (changed_columns obj))"

definition links_of :: "ref \<Rightarrow> relationship \<Rightarrow> Pending list" where
  "links_of parent r =
     (case (rel_secondary r, rel_parent_column r, rel_child_column r) of
        (Some table, Some pc, Some cc) \<Rightarrow>
          if \<not> is_audited table then []
          else map (\<lambda>child. PendingLink table LINK parent child pc cc) (rel_added r)
               @ map (\<lambda>child. PendingLink table UNLINK parent child pc cc) (rel_deleted r)
      | _ \<Rightarrow> [])"

definition links :: "store \<Rightarrow> ref \<Rightarrow> Pending list" where
  "links st obj = concat (map (links_of obj) (oo_relationships (st obj)))"

definition audited_table :: "orm_object \<Rightarrow> str option" where
  "audited_table obj =
     (case oo_table obj of None \<Rightarrow> None | Some t \<Rightarrow> if is_audited t then Some t else None)"

definition collect_new :: "store \<Rightarrow> ref \<Rightarrow> Pending list" where
  "collect_new st obj =
     (case audited_table (st obj) of None \<Rightarrow> []
      | Some table \<Rightarrow> [PendingRow obj table INSERT [] [] None]) @ links st obj"

definition collect_dirty :: "store \<Rightarrow> ref \<Rightarrow> Pending list" where
  "collect_dirty st obj =
     (case audited_table (st obj) of None \<Rightarrow> []
      | Some table \<Rightarrow>
          (let (before, after) = column_history (st obj) in
           if after = [] then []
           else [PendingRow obj table (action_for before after) before after (identity_of (st obj))]))
     @ links st obj"

definition collect_deleted :: "store \<Rightarrow> ref \<Rightarrow> Pending list" where
  "collect_deleted st obj =
     (case audited_table (st obj) of None \<Rightarrow> []
      | Some table \<Rightarrow>
          [PendingRow obj table DELETE_ROW (loaded_columns (st obj)) [] (identity_of (st obj))])"

definition collect :: "store \<Rightarrow> ref list \<Rightarrow> ref list \<Rightarrow> ref list \<Rightarrow> Pending list" where
  "collect st new dirty deleted =
     concat (map (collect_new st) new) @ concat (map (collect_dirty st) dirty)
     @ concat (map (collect_deleted st) deleted)"

definition py_optional_str :: "str option \<Rightarrow> json" where
  "py_optional_str s = (case s of None \<Rightarrow> JNull | Some t \<Rightarrow> JStr t)"

definition str_or_none :: "str option \<Rightarrow> str" where
  "str_or_none s = (case s of None \<Rightarrow> ''None'' | Some t \<Rightarrow> t)"

text \<open>The label column is text in every model that has one; \<open>str\<close> leaves it alone.\<close>

definition plain_text :: "pyval \<Rightarrow> str" where
  "plain_text v = (case v of VStr s \<Rightarrow> s | VText s \<Rightarrow> s | VOther s \<Rightarrow> s | VDate s \<Rightarrow> s
     | VInt n \<Rightarrow> show_int n | VFloat f \<Rightarrow> f | VBool b \<Rightarrow> (if b then ''True'' else ''False'') | _ \<Rightarrow> [])"

definition label_of :: "orm_object \<Rightarrow> str option" where
  "label_of obj =
     (case column_value (oo_dict obj) LABEL_COLUMN of VNone \<Rightarrow> None | v \<Rightarrow> Some (plain_text v))"

definition link_changes :: "store \<Rightarrow> AuditAction \<Rightarrow> ref \<Rightarrow> ref \<Rightarrow> str \<Rightarrow> str \<Rightarrow> changes" where
  "link_changes st action parent child parent_column child_column =
     (let values =
        AList.update child_column (py_optional_str (identity_of (st child)))
          [(parent_column, py_optional_str (identity_of (st parent)))];
        labelled = (case label_of (st child) of None \<Rightarrow> values
                    | Some l \<Rightarrow> AList.update LABEL_COLUMN (JStr l) values)
      in map (\<lambda>(k, v). (k, if action = UNLINK then sides v JNull else sides JNull v)) labelled)"

definition row_pk_for :: "store \<Rightarrow> ref \<Rightarrow> ref \<Rightarrow> str" where
  "row_pk_for st parent child =
     join_with PK_SEPARATOR [str_or_none (identity_of (st parent)), str_or_none (identity_of (st child))]"

fun resolved :: "store \<Rightarrow> Pending \<Rightarrow> (str \<times> AuditAction \<times> changes \<times> str option) option" where
  "resolved st (PendingLink table action parent child pc cc) =
     Some (table, action, link_changes st action parent child pc cc, Some (row_pk_for st parent child))"
| "resolved st (PendingRow obj table action before after row_pk) =
     (let (after, row_pk) = (if action = INSERT then (loaded_columns (st obj), identity_of (st obj))
                             else (after, row_pk));
          changes = changes_from before after
      in if changes = [] then None else Some (table, action, changes, row_pk))"

definition audit_record :: "AuditContext \<Rightarrow> str \<times> AuditAction \<times> changes \<times> str option \<Rightarrow> AuditLog" where
  "audit_record context entry =
     (case entry of (table, action, changes, row_pk) \<Rightarrow>
        (let (capped, truncated) = cap changes
         in audit_entry context table action row_pk capped truncated))"

definition audit_rows :: "AuditContext option \<Rightarrow> store \<Rightarrow> Pending list \<Rightarrow> AuditLog list" where
  "audit_rows context st pending =
     map (audit_record (context_or_system context)) (List.map_filter (resolved st) pending)"

text \<open>One flush with the two listeners around it: \<open>before\<close> and \<open>after\<close> are the states of the objects.\<close>

record audit_session =
  as_suppressed :: bool
  as_context :: "AuditContext option"
  as_pending :: "Pending list"

definition before_flush :: "store \<Rightarrow> ref list \<Rightarrow> ref list \<Rightarrow> ref list \<Rightarrow> audit_session \<Rightarrow> audit_session" where
  "before_flush st new dirty deleted s =
     (if as_suppressed s then s
      else s\<lparr>as_pending := as_pending s @ collect st new dirty deleted\<rparr>)"

definition after_flush :: "store \<Rightarrow> audit_session \<Rightarrow> database \<Rightarrow> audit_session \<times> database" where
  "after_flush st s d =
     (s\<lparr>as_pending := []\<rparr>,
      if as_suppressed s then d
      else fold audit_create (audit_rows (as_context s) st (as_pending s)) d)"

definition after_soft_rollback :: "audit_session \<Rightarrow> audit_session" where
  "after_soft_rollback s = s\<lparr>as_pending := []\<rparr>"

text \<open>\<open>refuse_silent_bulk\<close>: an ORM-enabled bulk update or delete of a table.\<close>

definition refuse_silent_bulk :: "audit_session \<Rightarrow> bool \<Rightarrow> str option \<Rightarrow> unit result" where
  "refuse_silent_bulk s update_or_delete table =
     (if as_suppressed s \<or> \<not> update_or_delete then Inr ()
      else (case table of
              None \<Rightarrow> Inr ()
            | Some name \<Rightarrow>
                if is_audited name then Inl (RuntimeError ''UnauditedBulkMutation'') else Inr ()))"

section \<open>Lemmas\<close>

lemma set_changes_from:
  "set (changes_from before after) =
   {(c, sides (rendered c (column_value before c)) (rendered c (column_value after c))) | c.
      c \<in> fst ` set before \<union> fst ` set after \<and> \<not> is_ignored c}"
  by (auto simp: changes_from_def)

lemma map_fst_changes_from:
  "map fst (changes_from before after) =
   filter (\<lambda>c. \<not> is_ignored c) (sort (remdups (map fst before @ map fst after)))"
  by (simp add: changes_from_def comp_def)

lemma changes_from_Nil_iff:
  "changes_from before after = [] \<longleftrightarrow> (\<forall>c\<in>fst ` set before \<union> fst ` set after. is_ignored c)"
proof -
  have "changes_from before after = [] \<longleftrightarrow> set (map fst (changes_from before after)) = {}" by simp
  then show ?thesis unfolding map_fst_changes_from by auto
qed

lemma audit_create_frame [simp]:
  "t_audit_logs (audit_create e d) =
     t_audit_logs d @ [e\<lparr>al_id := seqs d TAuditLogs, al_occurred_at := tx_now d\<rparr>]"
  "t_users (audit_create e d) = t_users d" "t_items (audit_create e d) = t_items d"
  "t_user_roles (audit_create e d) = t_user_roles d" "t_roles (audit_create e d) = t_roles d"
  "t_refresh_tokens (audit_create e d) = t_refresh_tokens d"
  "t_single_use_tokens (audit_create e d) = t_single_use_tokens d" "tx_now (audit_create e d) = tx_now d"
  by (simp_all add: audit_create_def)

lemma map_of_changes_from:
  "map_of (changes_from before after) c =
    (if c \<in> fst ` set before \<union> fst ` set after \<and> \<not> is_ignored c
     then Some (sides (rendered c (column_value before c)) (rendered c (column_value after c))) else None)"
proof -
  have "map_of (map (\<lambda>c. (c, f c)) cs) c = (if c \<in> set cs then Some (f c) else None)" for f :: "str \<Rightarrow> json" and cs
    by (induction cs) auto
  then show ?thesis
    by (auto simp: changes_from_def)
qed

text \<open>
  C37. The audit trail never shows a redacted value, and shows everything else: two updates whose columns agree everywhere
  except in the values of password hashes, token digests, passwords, secrets and API keys leave exactly the same document.
  The document has one entry for each column that either side has, except the two timestamps: the placeholder for the five
  redacted columns, and for every other column its old and its new value.
\<close>

theorem redacted_values_never_leak:
  assumes "map fst before = map fst before'" and "map fst after = map fst after'"
    and "\<forall>c. c \<notin> {''hashed_password'', ''token_hash'', ''password'', ''secret'', ''api_key''} \<longrightarrow>
      map_of before c = map_of before' c \<and> map_of after c = map_of after' c"
  shows "changes_from before after = changes_from before' after' \<and>
    distinct (map fst (changes_from before after)) \<and>
    (\<forall>c. map_of (changes_from before after) c =
      (if c \<notin> fst ` set before \<union> fst ` set after \<or> c \<in> {''created_at'', ''updated_at''} then None
       else if c \<in> {''hashed_password'', ''token_hash'', ''password'', ''secret'', ''api_key''}
       then Some (JObj [(''old'', JStr ''***''), (''new'', JStr ''***'')])
       else Some (JObj [(''old'', jsonable (column_value before c)), (''new'', jsonable (column_value after c))])))"
proof (intro conjI allI)
  have redacted: "is_redacted c \<longleftrightarrow> c \<in> {''hashed_password'', ''token_hash'', ''password'', ''secret'', ''api_key''}" for c
    by (simp only: is_redacted_def REDACTED_COLUMNS_def)
  have ignored: "is_ignored c \<longleftrightarrow> c \<in> {''created_at'', ''updated_at''}" for c
    by (simp only: is_ignored_def IGNORED_COLUMNS_def)
  have same: "rendered c (column_value before c) = rendered c (column_value before' c) \<and>
      rendered c (column_value after c) = rendered c (column_value after' c)" for c
    using assms(3) [folded redacted] by (auto simp: rendered_def column_value_def)
  then show "changes_from before after = changes_from before' after'"
    by (simp add: changes_from_def assms(1,2))
  show "distinct (map fst (changes_from before after))"
    by (simp add: map_fst_changes_from)
  show "map_of (changes_from before after) c =
      (if c \<notin> fst ` set before \<union> fst ` set after \<or> c \<in> {''created_at'', ''updated_at''} then None
       else if c \<in> {''hashed_password'', ''token_hash'', ''password'', ''secret'', ''api_key''}
       then Some (JObj [(''old'', JStr ''***''), (''new'', JStr ''***'')])
       else Some (JObj [(''old'', jsonable (column_value before c)), (''new'', jsonable (column_value after c))]))" for c
    unfolding map_of_changes_from rendered_def sides_def redacted [symmetric] ignored [symmetric] by simp
qed

theorem redacted_values_never_leak_witness:
  "changes_from [(''hashed_password'', VStr ''old'')] [(''hashed_password'', VStr ''new''), (''name'', VStr ''x'')] =
   changes_from [(''hashed_password'', VStr ''other'')] [(''hashed_password'', VStr ''more''), (''name'', VStr ''x'')]"
  using redacted_values_never_leak [of "[(''hashed_password'', VStr ''old'')]" "[(''hashed_password'', VStr ''other'')]"
      "[(''hashed_password'', VStr ''new''), (''name'', VStr ''x'')]"
      "[(''hashed_password'', VStr ''more''), (''name'', VStr ''x'')]"]
  by simp

text \<open>What the trail holds after a flush, up to the identifiers and instants the inserts assign.\<close>

lemma map_filter_mem: "y \<in> set (List.map_filter f xs) \<longleftrightarrow> (\<exists>x\<in>set xs. f x = Some y)"
  by (induction xs) (auto simp: List.map_filter_simps split: option.splits)

definition traced :: "AuditLog \<Rightarrow> AuditLog" where
  "traced e = e\<lparr>al_id := 0, al_occurred_at := 0\<rparr>"

lemma audit_entry_traced [simp]: "traced (audit_entry c t a pk ch tr) = audit_entry c t a pk ch tr"
  by (simp add: traced_def audit_entry_def)

lemma audit_rows_mem:
  "e \<in> set (audit_rows ctx st pending) \<longleftrightarrow>
   (\<exists>p\<in>set pending. \<exists>r. resolved st p = Some r \<and> e = audit_record (context_or_system ctx) r)"
  unfolding audit_rows_def set_map image_iff Bex_def map_filter_mem by blast

lemma audit_record_fields:
  "al_table_name (audit_record c (t, a, ch, pk)) = t" "al_action (audit_record c (t, a, ch, pk)) = action_value a"
  "al_row_pk (audit_record c (t, a, ch, pk)) = pk" "al_actor_id (audit_record c (t, a, ch, pk)) = ctx_actor_id c"
  "al_impersonator_id (audit_record c (t, a, ch, pk)) = ctx_impersonator_id c"
  "al_changes (audit_record c (t, a, ch, pk)) = fst (cap ch)"
  by (simp_all add: audit_record_def audit_entry_def split_def Let_def)

text \<open>The entries that a step added to the trail.\<close>

definition trail_added :: "database \<Rightarrow> database \<Rightarrow> AuditLog list" where
  "trail_added d d' = drop (length (t_audit_logs d)) (t_audit_logs d')"

lemma traced_assigned [simp]: "traced (e\<lparr>al_id := i, al_occurred_at := t\<rparr>) = traced e"
  by (simp add: traced_def)

lemma fold_audit_create:
  "\<exists>added. t_audit_logs (fold audit_create es d) = t_audit_logs d @ added \<and> map traced added = map traced es"
proof (induction es arbitrary: d)
  case (Cons e es)
  obtain added where "t_audit_logs (fold audit_create es (audit_create e d)) = t_audit_logs (audit_create e d) @ added"
    "map traced added = map traced es" using Cons by blast
  then show ?case
    by (intro exI [of _ "e\<lparr>al_id := seqs d TAuditLogs, al_occurred_at := tx_now d\<rparr> # added"]) simp
qed simp

lemma trail_added_fold:
  "t_audit_logs d = take (length (t_audit_logs d)) (t_audit_logs (fold audit_create es d))"
  "map traced (trail_added d (fold audit_create es d)) = map traced es"
  using fold_audit_create [of es d] by (auto simp: trail_added_def)

lemma traced_fields [simp]:
  "al_table_name (traced e) = al_table_name e" "al_action (traced e) = al_action e"
  "al_row_pk (traced e) = al_row_pk e" "al_actor_id (traced e) = al_actor_id e"
  "al_impersonator_id (traced e) = al_impersonator_id e" "al_changes (traced e) = al_changes e"
  by (simp_all add: traced_def)

lemma trail_added_ex:
  assumes "e \<in> set es"
  shows "\<exists>e'\<in>set (trail_added d (fold audit_create es d)). traced e' = traced e"
proof -
  have "traced e \<in> set (map traced es)" using assms by simp
  then have "traced e \<in> set (map traced (trail_added d (fold audit_create es d)))"
    by (simp only: trail_added_fold)
  then show ?thesis by auto
qed

lemma trail_added_mem:
  assumes "e' \<in> set (trail_added d (fold audit_create es d))"
  shows "\<exists>e\<in>set es. traced e' = traced e"
proof -
  have "traced e' \<in> set (map traced (trail_added d (fold audit_create es d)))" using assms by simp
  then have "traced e' \<in> set (map traced es)" by (simp only: trail_added_fold)
  then show ?thesis by auto
qed

text \<open>Every entry that a flush leaves for one object, as the trail shows it.\<close>

definition shows_change :: "AuditLog \<Rightarrow> str \<Rightarrow> AuditAction \<Rightarrow> str option \<Rightarrow> changes \<Rightarrow> bool" where
  "shows_change e table action pk ch \<longleftrightarrow>
     al_table_name e = table \<and> al_action e = action_value action \<and> al_row_pk e = pk \<and> al_changes e = fst (cap ch)"

lemma resolved_shown:
  assumes "p \<in> set pending" "resolved st p = Some (table, action, ch, pk)"
  shows "\<exists>e\<in>set (trail_added d (fold audit_create (audit_rows ctx st pending) d)). shows_change e table action pk ch"
proof -
  have "audit_record (context_or_system ctx) (table, action, ch, pk) \<in> set (audit_rows ctx st pending)"
    unfolding audit_rows_mem using assms by blast
  from trail_added_ex [OF this, of d] show ?thesis
    by (metis (no_types, lifting) audit_record_fields(1-3,6) shows_change_def traced_fields(1-3,6))
qed

lemma pending_table_audited:
  assumes "p \<in> set (collect st new dirty deleted)" "resolved st' p = Some (table, action, ch, pk)"
  shows "is_audited table"
proof -
  have "p \<in> set (links st obj) \<Longrightarrow> is_audited table" for obj
    using assms(2) by (auto simp: links_def links_of_def split: option.splits if_splits)
  then show ?thesis
    using assms by (auto simp: collect_def collect_new_def collect_dirty_def collect_deleted_def audited_table_def
        Let_def split_def split: option.splits if_splits)
qed


text \<open>
  Bulk statements cannot slip past the trail: one that updates or deletes rows of an audited
  table is refused, unless auditing is explicitly suppressed; and a suppressed flush writes nothing
  and keeps nothing back for later.
\<close>

theorem bulk_refused_iff_audited:
  "(refuse_silent_bulk s update_or_delete (Some table) = Inr () \<longleftrightarrow>
      as_suppressed s \<or> update_or_delete = False \<or> table \<in> EXCLUDED_TABLES) \<and>
   after_flush st' (before_flush st new dirty deleted (s\<lparr>as_suppressed := True\<rparr>)) d =
     (s\<lparr>as_suppressed := True, as_pending := []\<rparr>, d)"
  by (auto simp: refuse_silent_bulk_def is_audited_def after_flush_def before_flush_def)

text \<open>An object of \<open>users\<close> whose insert assigns the identifier 7, by account 3.\<close>

definition sample_object :: "str list option \<Rightarrow> orm_object" where
  "sample_object pk = \<lparr>oo_table = Some ''users'', oo_identity = pk, oo_column_attrs = [''email'', ''hashed_password''],
     oo_dict = [(''email'', VStr ''a@b.co''), (''hashed_password'', VStr ''h'')],
     oo_deleted = (\<lambda>_. []), oo_added = (\<lambda>_. []), oo_relationships = []\<rparr>"

definition sample_session :: audit_session where
  "sample_session = \<lparr>as_suppressed = False,
     as_context = Some (system_context\<lparr>ctx_actor_id := Some 3\<rparr>), as_pending = []\<rparr>"


end
