(* ===== verification/AuthService.thy ===== *)
theory AuthService
  imports UserService TokenRepos AuditTrail
begin

text \<open>
  \<open>app/services/auth_service.py\<close>: signing in, refreshing and ending sessions, changing the password,
  and impersonation. Every reading of the clock is an argument, in the order the code reads it; so
  are the UUIDs of new tokens and the salt of a new password hash.
\<close>

section \<open>The service\<close>

record TokenPair =
  tp_access_token :: str
  tp_refresh_token :: str

text \<open>
  What \<open>_issue\<close> draws from the clock and the random source: the issue time and UUID of each token,
  and the time that the stored expiry counts from.
\<close>

record issue_draw =
  id_access_at :: time
  id_access_jti :: str
  id_refresh_at :: time
  id_refresh_jti :: str
  id_stored_at :: time

definition issue_pair ::
  "ext \<Rightarrow> Settings \<Rightarrow> issue_draw \<Rightarrow> User \<Rightarrow> database \<Rightarrow> (TokenPair \<times> database) result" where
  "issue_pair ext s draw user d =
     (let pair = \<lparr>tp_access_token = create_access_token ext s (id_access_at draw) (id_access_jti draw)
                    (show_int (user_id user)),
                  tp_refresh_token = create_refresh_token ext s (id_refresh_at draw) (id_refresh_jti draw)
                    (show_int (user_id user))\<rparr>
      in rbind (rt_create (hash_refresh_token ext (tp_refresh_token pair)) (user_id user)
                 (id_stored_at draw + days (refresh_token_expire_days s)) d)
           (\<lambda>d'. Inr (pair, d')))"

text \<open>
  \<open>authenticate\<close>; \<open>absent_hash\<close> is the hash that \<open>_hash_for_absent_user\<close> computes once per process, so
  that an unknown address costs a verification too.
\<close>

definition authenticate ::
  "ext \<Rightarrow> Settings \<Rightarrow> str \<Rightarrow> issue_draw \<Rightarrow> str \<Rightarrow> str \<Rightarrow> database \<Rightarrow> (TokenPair \<times> database) result" where
  "authenticate ext s absent_hash draw email password d =
     (let user = user_get_by_email (normalize_email email) d;
          hashed = (case user of Some u \<Rightarrow> user_hashed_password u | None \<Rightarrow> absent_hash);
          password_matches = verify_password ext password hashed
      in case user of
           None \<Rightarrow> raise_error AuthError ''Incorrect email or password'' AUTH_BAD_LOGIN
         | Some u \<Rightarrow>
             if \<not> password_matches
             then raise_error AuthError ''Incorrect email or password'' AUTH_BAD_LOGIN
             else if require_verified_email s \<and> user_email_verified_at u = None
             then raise_error AuthError ''Confirm your email address before signing in'' AUTH_EMAIL_NOT_VERIFIED
             else issue_pair ext s draw u d)"

definition refresh ::
  "ext \<Rightarrow> Settings \<Rightarrow> time \<Rightarrow> time \<Rightarrow> time \<Rightarrow> str \<Rightarrow> str \<Rightarrow> database \<Rightarrow> TokenPair result" where
  "refresh ext s decode_at lookup_at issue_at jti refresh_token d =
     rbind (decode_refresh_token ext s decode_at refresh_token) (\<lambda>subject.
       (case py_int subject of
          None \<Rightarrow> invalid_credentials
        | Some uid \<Rightarrow>
            (case rt_get_active (hash_refresh_token ext refresh_token) lookup_at d of
               None \<Rightarrow> invalid_credentials
             | Some stored \<Rightarrow>
                 if rt_user_id stored \<noteq> uid then invalid_credentials
                 else (case user_get uid d of
                         None \<Rightarrow> invalid_credentials
                       | Some user \<Rightarrow>
                           Inr \<lparr>tp_access_token = create_access_token ext s issue_at jti (show_int (user_id user)),
                                tp_refresh_token = refresh_token\<rparr>))))"

text \<open>\<open>_record\<close>: the \<open>side\<close> overrides one of the two entries of the target.\<close>

definition record_impersonation ::
  "AuditContext option \<Rightarrow> AuditAction \<Rightarrow> User \<Rightarrow> (str \<times> json) list \<Rightarrow> database \<Rightarrow> database" where
  "record_impersonation context action target side d =
     audit_create (audit_event context IMPERSONATION action (Some (show_int (user_id target)))
       (Some [(''target'', JObj (fold (\<lambda>(k, v) dict. AList.update k v dict) side
          [(''old'', JNull), (''new'', JInt (user_id target))]))])) d"

definition impersonate ::
  "ext \<Rightarrow> Settings \<Rightarrow> AuditContext option \<Rightarrow> time \<Rightarrow> str \<Rightarrow> User \<Rightarrow> User \<Rightarrow> database \<Rightarrow>
   ((str \<times> int) \<times> database) result" where
  "impersonate ext s context now jti actor target d =
     (if user_id target = user_id actor
      then raise_error ForbiddenError ''An account cannot impersonate itself'' AUTH_IMPERSONATION_SELF
      else if \<not> may_impersonate actor target
      then raise_error ForbiddenError ''Insufficient permissions'' AUTH_INSUFFICIENT_PERMISSIONS
      else Inr ((create_impersonation_token ext s now jti (show_int (user_id target)) (show_int (user_id actor)),
                 impersonation_token_expire_minutes s * 60),
                record_impersonation context IMPERSONATE_START target [(''old'', JNull)] d))"

definition stop_impersonating :: "AuditContext option \<Rightarrow> User \<Rightarrow> database \<Rightarrow> database" where
  "stop_impersonating context target d =
     record_impersonation context IMPERSONATE_STOP target [(''new'', JNull)] d"

definition logout :: "ext \<Rightarrow> time \<Rightarrow> str \<Rightarrow> database \<Rightarrow> database" where
  "logout ext now refresh_token d = snd (rt_revoke (hash_refresh_token ext refresh_token) now d)"

definition revoke_sessions :: "time \<Rightarrow> User \<Rightarrow> database \<Rightarrow> int \<times> database" where
  "revoke_sessions now user d = rt_revoke_all_for_user (user_id user) now d"

record PasswordChange =
  pc_current_password :: str
  pc_new_password :: str

definition reject_reusing_the_current_password :: "PasswordChange \<Rightarrow> PasswordChange result" where
  "reject_reusing_the_current_password data =
     (if pc_current_password data = pc_new_password data
      then Inl (ValueError ''new_password must differ from current_password'') else Inr data)"

definition change_password ::
  "ext \<Rightarrow> str \<Rightarrow> time \<Rightarrow> time \<Rightarrow> User \<Rightarrow> PasswordChange \<Rightarrow> database \<Rightarrow> database result" where
  "change_password ext salt changed_at revoked_at user data d =
     (if \<not> verify_password ext (pc_current_password data) (user_hashed_password user)
      then raise_error ForbiddenError ''Current password is incorrect'' AUTH_CURRENT_PASSWORD_INCORRECT
      else
        rbind (user_save (user\<lparr>user_hashed_password := hash_password ext salt (pc_new_password data),
                            user_password_changed_at := Some changed_at\<rparr>) d) (\<lambda>(saved, d').
          Inr (snd (revoke_sessions revoked_at saved d'))))"

section \<open>Lemmas\<close>

text \<open>The tables that the authentication reads, and what keeps them well formed.\<close>

definition wf_sessions :: "database \<Rightarrow> bool" where
  "wf_sessions d \<longleftrightarrow> wf_accounts d \<and> wf_refresh_tokens d"

lemma user_get_same_tables:
  "t_users d' = t_users d \<Longrightarrow> t_roles d' = t_roles d \<Longrightarrow> t_user_roles d' = t_user_roles d \<Longrightarrow>
   user_get i d' = user_get i d"
  by (simp add: user_get_def load_user_def [abs_def] roles_of_def)

lemma user_get_by_email_same_tables:
  "t_users d' = t_users d \<Longrightarrow> t_roles d' = t_roles d \<Longrightarrow> t_user_roles d' = t_user_roles d \<Longrightarrow>
   user_get_by_email e d' = user_get_by_email e d"
  by (simp add: user_get_by_email_def load_user_def [abs_def] roles_of_def)

lemma wf_accounts_same_tables:
  "wf_accounts d \<Longrightarrow> t_users d' = t_users d \<Longrightarrow> t_roles d' = t_roles d \<Longrightarrow> t_user_roles d' = t_user_roles d \<Longrightarrow>
   seqs d' TUsers = seqs d TUsers \<Longrightarrow> seqs d' TRoles = seqs d TRoles \<Longrightarrow> wf_accounts d'"
  by (simp add: wf_accounts_def wf_users_def wf_roles_def wf_links_def)

lemma rt_create_frame:
  assumes "rt_create h uid ex d = Inr d'"
  shows "t_users d' = t_users d \<and> t_roles d' = t_roles d \<and> t_user_roles d' = t_user_roles d \<and>
    t_items d' = t_items d \<and> t_single_use_tokens d' = t_single_use_tokens d \<and>
    seqs d' TUsers = seqs d TUsers \<and> seqs d' TRoles = seqs d TRoles \<and> tx_now d' = tx_now d"
  using assms by (rule rt_create_shape) simp

lemma rt_revoke_all_frame [simp]:
  "t_users (snd (rt_revoke_all_for_user uid now d)) = t_users d"
  "t_roles (snd (rt_revoke_all_for_user uid now d)) = t_roles d"
  "t_user_roles (snd (rt_revoke_all_for_user uid now d)) = t_user_roles d"
  "t_single_use_tokens (snd (rt_revoke_all_for_user uid now d)) = t_single_use_tokens d"
  "seqs (snd (rt_revoke_all_for_user uid now d)) = seqs d"
  by (simp_all add: rt_revoke_all_for_user_def Let_def)

lemma wf_refresh_tokens_after_save:
  assumes "wf_refresh_tokens d" "user_save u d = Inr (u', d')"
  shows "wf_refresh_tokens d'"
proof -
  have "user_id ` set (t_users d') = user_id ` set (t_users d)"
    using user_save_frame [OF assms(2)] by (metis list.set_map)
  then show ?thesis using assms(1) user_save_frame [OF assms(2)] by (simp add: wf_refresh_tokens_def)
qed

lemma authenticate_eq_Inr:
  "authenticate ext s absent draw email password d = Inr (pair, d') \<longleftrightarrow>
   (\<exists>u. user_get_by_email (normalize_email email) d = Some u \<and>
      verify_password ext password (user_hashed_password u) \<and>
      (require_verified_email s \<longrightarrow> user_email_verified_at u \<noteq> None) \<and>
      issue_pair ext s draw u d = Inr (pair, d'))"
  by (auto simp: authenticate_def Let_def split: option.splits if_splits)

lemma issue_pair_cases:
  assumes "issue_pair ext s draw u d = Inr (pair, d')"
  obtains "tp_refresh_token pair =
      create_refresh_token ext s (id_refresh_at draw) (id_refresh_jti draw) (show_int (user_id u))"
    "tp_access_token pair =
      create_access_token ext s (id_access_at draw) (id_access_jti draw) (show_int (user_id u))"
    "rt_create (hash_refresh_token ext (tp_refresh_token pair)) (user_id u)
       (id_stored_at draw + days (refresh_token_expire_days s)) d = Inr d'"
  using assms by (auto simp: issue_pair_def Let_def rbind_eq_Inr)

text \<open>\<open>refresh\<close> succeeds exactly for a decodable token with a live row of its own active account.\<close>

lemma refresh_eq_Inr:
  "refresh ext s t1 t2 t3 jti token d = Inr pair \<longleftrightarrow>
   (\<exists>subject uid stored user. decode_refresh_token ext s t1 token = Inr subject \<and> py_int subject = Some uid \<and>
      rt_get_active (hash_refresh_token ext token) t2 d = Some stored \<and> rt_user_id stored = uid \<and>
      user_get uid d = Some user \<and>
      pair = \<lparr>tp_access_token = create_access_token ext s t3 jti (show_int (user_id user)), tp_refresh_token = token\<rparr>)"
proof (cases "decode_refresh_token ext s t1 token")
  case (Inl e)
  then show ?thesis by (simp add: refresh_def)
next
  case sub: (Inr subject)
  show ?thesis
  proof (cases "py_int subject")
    case None
    with sub show ?thesis by (simp add: refresh_def)
  next
    case uid: (Some uid)
    show ?thesis
      using sub uid
      by (cases "rt_get_active (hash_refresh_token ext token) t2 d"; cases "user_get uid d") (auto simp: refresh_def)
  qed
qed

text \<open>A token without a live row of the account it names is refused as invalid credentials.\<close>

lemma refresh_refused:
  assumes "decode_refresh_token ext s t1 token = Inr subject" "py_int subject = Some uid"
    and "\<And>stored. rt_get_active (hash_refresh_token ext token) t2 d = Some stored \<Longrightarrow> rt_user_id stored = uid \<Longrightarrow>
      user_get uid d = None"
  shows "refresh ext s t1 t2 t3 jti token d = invalid_credentials"
  using assms by (auto simp: refresh_def split: option.splits)

lemma decode_fresh_refresh_token:
  assumes "jwt_roundtrip ext" and "now0 \<le> now" and "now < now0 div 1000000 * 1000000 + days (refresh_token_expire_days s)"
  shows "decode_refresh_token ext s now (create_refresh_token ext s now0 jti subject) = Inr subject"
proof -
  have "now0 div 1000000 * 1000000 \<le> now0"
    using pos_mod_sign [of 1000000 now0] by (simp add: minus_mod_eq_div_mult [symmetric])
  moreover have "(now0 + days m) div 1000000 * 1000000 = now0 div 1000000 * 1000000 + days m" for m
    using div_mult_self1 [of 1000000 now0 "m * 86400"] by (simp add: add.commute distrib_right mult.assoc)
  ultimately show ?thesis
    using assms by (simp add: create_refresh_token_def decode_refresh_token_create_token [OF assms(1)])
qed

section \<open>Sample sessions\<close>

definition sample_draw :: issue_draw where
  "sample_draw = \<lparr>id_access_at = 0, id_access_jti = ''j1'', id_refresh_at = 0, id_refresh_jti = ''j2'', id_stored_at = 0\<rparr>"

text \<open>The first account of a seeded deployment signs in.\<close>

lemma sample_login:
  obtains u d pair d' where "register plain_ext ''s'' (sample_data ''a@b.co'') seeded_db = Inr (u, d)"
    "wf_sessions d" "user_get_by_email (normalize_email ''a@b.co'') d = Some u" "user_get (user_id u) d = Some u"
    "user_id u = 1" "user_hashed_password u = ''#password1''" "is_superuser u"
    "authenticate plain_ext sample_settings ''x'' sample_draw ''a@b.co'' ''password1'' d = Inr (pair, d')"
proof -
  obtain u d where s: "register plain_ext ''s'' (sample_data ''a@b.co'') seeded_db = Inr (u, d)" "wf_accounts d"
    "user_get (user_id u) d = Some u" "user_email u = ''a@b.co''" "user_id u = 1" "user_hashed_password u = ''#password1''"
    "t_refresh_tokens d = []" "is_superuser u" by (rule sample_account)
  have e: "normalize_email ''a@b.co'' = ''a@b.co''" by code_simp
  have g: "user_get_by_email (normalize_email ''a@b.co'') d = Some u"
    unfolding e using users.get_by_email_iff [OF s(2)] s(3,4) by blast
  have "1 \<in> user_id ` set (t_users d)" using s(3,5) by (auto simp: user_get_def dest!: find_row_SomeD)
  then obtain pair d' where "issue_pair plain_ext sample_settings sample_draw u d = Inr (pair, d')"
    using s(5,7) by (auto simp: issue_pair_def rt_create_def Let_def)
  then have "authenticate plain_ext sample_settings ''x'' sample_draw ''a@b.co'' ''password1'' d = Inr (pair, d')"
    using g s(6) by (auto simp: authenticate_eq_Inr verify_password_def sample_settings_def default_settings_def)
  moreover have "wf_sessions d" using s(2,7) by (simp add: wf_sessions_def wf_refresh_tokens_def keyed_def)
  ultimately show ?thesis using that s g by blast
qed

section \<open>What sessions promise\<close>

text \<open>
  A failed login does not say why: an unknown address, a closed account and a wrong password all
  get the very same error, and a login that passes the password check for an existing account never
  gets it.
\<close>

theorem login_failures_indistinguishable:
  "authenticate ext s absent draw email password d =
     (case user_get_by_email (normalize_email email) d of
        None \<Rightarrow> raise_error AuthError ''Incorrect email or password'' AUTH_BAD_LOGIN
      | Some u \<Rightarrow>
          if ext_pw_verify ext password (user_hashed_password u) = False
          then raise_error AuthError ''Incorrect email or password'' AUTH_BAD_LOGIN
          else if require_verified_email s \<and> user_email_verified_at u = None
          then raise_error AuthError ''Confirm your email address before signing in'' AUTH_EMAIL_NOT_VERIFIED
          else issue_pair ext s draw u d) \<and>
   (error_code_of (authenticate ext s absent draw email password d) = Some AUTH_BAD_LOGIN \<longleftrightarrow>
     (case user_get_by_email (normalize_email email) d of
        None \<Rightarrow> True | Some u \<Rightarrow> ext_pw_verify ext password (user_hashed_password u) = False))"
proof -
  have "error_code_of (issue_pair ext s draw u d) = None" for u
    by (auto simp: issue_pair_def Let_def rt_create_def error_code_of_def rbind_def)
  then show ?thesis
    by (auto simp: authenticate_def verify_password_def Let_def split: option.split)
qed

text \<open>
  A session lives until its refresh token expires: after a login, the refresh token answers a new
  access token for the same account at any moment up to its lifetime from the issue second, and the
  refresh token itself is handed back unchanged. The login changes no account.
\<close>

theorem refresh_after_login:
  assumes "jwt_roundtrip ext" and "wf_sessions d"
    and "authenticate ext s absent draw email password d = Inr (pair, d')"
    and "user_get_by_email (normalize_email email) d = Some u" and "db_int (user_id u)"
    and "id_refresh_at draw \<le> decode_at" and "id_refresh_at draw \<le> id_stored_at draw"
    and "decode_at < id_refresh_at draw div 1000000 * 1000000 + days (refresh_token_expire_days s)"
    and "lookup_at < id_stored_at draw + days (refresh_token_expire_days s)"
  shows "wf_sessions d' \<and> (\<forall>i. user_get i d' = user_get i d) \<and>
    refresh ext s decode_at lookup_at issue_at jti (tp_refresh_token pair) d' =
      Inr \<lparr>tp_access_token = create_access_token ext s issue_at jti (show_int (user_id u)),
           tp_refresh_token = tp_refresh_token pair\<rparr>"
proof -
  have wf: "wf_accounts d" "wf_refresh_tokens d" using assms(2) by (simp_all add: wf_sessions_def)
  have "issue_pair ext s draw u d = Inr (pair, d')" using assms(3,4) by (auto simp: authenticate_eq_Inr)
  then show ?thesis
  proof (rule issue_pair_cases)
    assume rt: "tp_refresh_token pair =
        create_refresh_token ext s (id_refresh_at draw) (id_refresh_jti draw) (show_int (user_id u))"
      and c: "rt_create (hash_refresh_token ext (tp_refresh_token pair)) (user_id u)
       (id_stored_at draw + days (refresh_token_expire_days s)) d = Inr d'"
    note fr = rt_create_frame [OF c]
    have same: "user_get i d' = user_get i d" for i using fr by (intro user_get_same_tables) simp_all
    have "wf_accounts d'" using wf_accounts_same_tables [OF wf(1)] fr by simp
    moreover have "wf_refresh_tokens d'" using refresh_store.issue_law [OF wf(2) c] by blast
    moreover obtain t where "rt_get_active (hash_refresh_token ext (tp_refresh_token pair)) lookup_at d' = Some t"
      "rt_user_id t = user_id u" by (rule refresh_store.issued_found [OF wf(2) c assms(9)])
    moreover have "decode_refresh_token ext s decode_at (tp_refresh_token pair) = Inr (show_int (user_id u))"
      unfolding rt by (rule decode_fresh_refresh_token [OF assms(1,6,8)])
    moreover have "user_get (user_id u) d' = Some u"
      using users.get_by_email_iff [OF wf(1)] assms(4) same by metis
    ultimately show ?thesis
      unfolding wf_sessions_def refresh_eq_Inr using same py_int_show_int [OF assms(5)] by blast
  qed
qed

theorem refresh_after_login_witness:
  "\<exists>u d pair d'. register plain_ext ''s'' (sample_data ''a@b.co'') seeded_db = Inr (u, d) \<and>
     authenticate plain_ext sample_settings ''x'' sample_draw ''a@b.co'' ''password1'' d = Inr (pair, d') \<and>
     refresh plain_ext sample_settings (days 6) (days 6) (days 6) ''j3'' (tp_refresh_token pair) d' =
       Inr \<lparr>tp_access_token = create_access_token plain_ext sample_settings (days 6) ''j3'' (show_int 1),
            tp_refresh_token = tp_refresh_token pair\<rparr>"
proof -
  obtain u d pair d' where s: "register plain_ext ''s'' (sample_data ''a@b.co'') seeded_db = Inr (u, d)"
    "wf_sessions d" "user_get_by_email (normalize_email ''a@b.co'') d = Some u" "user_id u = 1"
    "authenticate plain_ext sample_settings ''x'' sample_draw ''a@b.co'' ''password1'' d = Inr (pair, d')"
    by (rule sample_login)
  have "db_int (user_id u)" using s(4) by simp
  from refresh_after_login [OF plain_ext_ok(1) s(2,5,3) this, of "days 6" "days 6" "days 6" "''j3''"] s
  show ?thesis by (auto simp: sample_draw_def sample_settings_def default_settings_def)
qed

text \<open>
  Signing out ends that session for good and no other: the refresh token is refused at every later
  moment, and what any other stored token answers is unchanged.
\<close>

theorem logout_ends_session:
  assumes "wf_sessions d"
  shows "wf_sessions (logout ext now token d) \<and>
    (\<forall>t1 t2 t3 jti pair. refresh ext s t1 t2 t3 jti token (logout ext now token d) \<noteq> Inr pair) \<and>
    (\<forall>t1 t2 t3 jti other. hash_refresh_token ext other \<noteq> hash_refresh_token ext token \<longrightarrow>
       refresh ext s t1 t2 t3 jti other (logout ext now token d) = refresh ext s t1 t2 t3 jti other d)"
proof -
  have wf: "wf_accounts d" "wf_refresh_tokens d" using assms by (simp_all add: wf_sessions_def)
  note law = refresh_store.spend_law [OF wf(2), of "hash_refresh_token ext token" now]
  have fr: "t_users (logout ext now token d) = t_users d" "t_roles (logout ext now token d) = t_roles d"
    "t_user_roles (logout ext now token d) = t_user_roles d" "seqs (logout ext now token d) = seqs d"
    by (simp_all add: logout_def rt_revoke_def Let_def)
  have get: "user_get i (logout ext now token d) = user_get i d" for i
    using fr by (intro user_get_same_tables) simp_all
  have "wf_sessions (logout ext now token d)"
    using law wf_accounts_same_tables [OF wf(1)] fr by (simp add: wf_sessions_def logout_def)
  moreover have "refresh ext s t1 t2 t3 jti token (logout ext now token d) \<noteq> Inr pair" for t1 t2 t3 jti pair
    using law by (auto simp: refresh_eq_Inr logout_def)
  moreover have "refresh ext s t1 t2 t3 jti other (logout ext now token d) = refresh ext s t1 t2 t3 jti other d"
    if "hash_refresh_token ext other \<noteq> hash_refresh_token ext token" for t1 t2 t3 jti other
  proof -
    have find: "rt_get_active (hash_refresh_token ext other) t2 (logout ext now token d) =
        rt_get_active (hash_refresh_token ext other) t2 d"
      using law that by (simp add: logout_def)
    show ?thesis unfolding refresh_def get find by (rule refl)
  qed
  ultimately show ?thesis by blast
qed

theorem logout_ends_session_witness:
  "\<exists>u d pair d'. register plain_ext ''s'' (sample_data ''a@b.co'') seeded_db = Inr (u, d) \<and> wf_sessions d \<and>
     authenticate plain_ext sample_settings ''x'' sample_draw ''a@b.co'' ''password1'' d = Inr (pair, d') \<and>
     (\<forall>t1 t2 t3 jti p. refresh plain_ext sample_settings t1 t2 t3 jti (tp_refresh_token pair)
        (logout plain_ext 5 (tp_refresh_token pair) d) \<noteq> Inr p)"
proof -
  obtain u d pair d' where s: "register plain_ext ''s'' (sample_data ''a@b.co'') seeded_db = Inr (u, d)"
    "wf_sessions d"
    "authenticate plain_ext sample_settings ''x'' sample_draw ''a@b.co'' ''password1'' d = Inr (pair, d')"
    by (rule sample_login)
  with logout_ends_session [OF s(2), of plain_ext 5 "tp_refresh_token pair" sample_settings] show ?thesis by blast
qed

text \<open>
  C33. Changing the password ends every session the account has: it needs the current password, and
  afterwards the stored hash is that of the new password, stamped with the moment of the change, no
  refresh token that names the account is accepted at any moment, other accounts' tokens and data
  are untouched, and the address keeps its account.
\<close>

theorem password_change_ends_sessions:
  assumes "wf_sessions d" and "user_get (user_id u) d = Some u"
    and "change_password ext salt changed_at revoked_at u data d = Inr d'"
  shows "ext_pw_verify ext (pc_current_password data) (user_hashed_password u) \<and> wf_sessions d' \<and>
    (\<exists>w. user_get (user_id u) d' = Some w \<and> user_email w = user_email u \<and>
       user_hashed_password w = ext_pw_hash ext salt (pc_new_password data) \<and>
       user_password_changed_at w = Some changed_at \<and> set (user_roles w) = set (user_roles u)) \<and>
    (\<forall>i. i \<noteq> user_id u \<longrightarrow> user_get i d' = user_get i d) \<and>
    (\<forall>t1 t2 t3 jti token subject. decode_refresh_token ext s t1 token = Inr subject \<and>
       py_int subject = Some (user_id u) \<longrightarrow> refresh ext s t1 t2 t3 jti token d' = invalid_credentials) \<and>
    (\<forall>h t2 stored. rt_user_id stored \<noteq> user_id u \<longrightarrow>
       (rt_get_active h t2 d' = Some stored \<longleftrightarrow> rt_get_active h t2 d = Some stored))"
proof -
  have wf: "wf_accounts d" "wf_refresh_tokens d" using assms(1) by (simp_all add: wf_sessions_def)
  have u: "assignable u d" "user_is_active u" using users.get_found [OF wf(1) assms(2)] by auto
  let ?v = "u\<lparr>user_hashed_password := hash_password ext salt (pc_new_password data),
      user_password_changed_at := Some changed_at\<rparr>"
  obtain w d1 where ok: "verify_password ext (pc_current_password data) (user_hashed_password u)"
    and save: "user_save ?v d = Inr (w, d1)" and d': "d' = snd (rt_revoke_all_for_user (user_id w) revoked_at d1)"
    using assms(3) by (auto simp: change_password_def revoke_sessions_def rbind_eq_Inr split: if_splits)
  have saved: "wf_accounts d1" "user_id w = user_id u" "account_fields w = account_fields ?v"
    "\<And>i. user_get i d1 = (if i = user_id u then Some w else user_get i d)"
    using saved_user [OF wf(1) assms(2), of ?v w d1] u save by auto
  have wf1: "wf_refresh_tokens d1" by (rule wf_refresh_tokens_after_save [OF wf(2) save])
  have same_tokens: "rt_get_active h t d1 = rt_get_active h t d" for h t
    using user_save_frame [OF save] by (simp add: rt_get_active_def)
  note law = refresh_store.retire_all_law [OF wf1, of "user_id u" revoked_at]
  have get: "user_get i d' = user_get i d1" for i
    unfolding d' by (intro user_get_same_tables) simp_all
  have find: "rt_get_active h t d' = (case rt_get_active h t d of None \<Rightarrow> None
      | Some x \<Rightarrow> if rt_user_id x = user_id u then None else Some x)" for h t
    unfolding d' saved(2) using law same_tokens by simp
  have "wf_sessions d'"
    unfolding wf_sessions_def using wf_accounts_same_tables [OF saved(1), of d'] law by (simp add: d' saved(2))
  moreover have "refresh ext s t1 t2 t3 jti token d' = invalid_credentials"
    if "decode_refresh_token ext s t1 token = Inr subject" "py_int subject = Some (user_id u)" for t1 t2 t3 jti token subject
    using that by (rule refresh_refused) (auto simp: find split: option.splits if_splits)
  moreover have "rt_get_active h t2 d' = Some stored \<longleftrightarrow> rt_get_active h t2 d = Some stored"
    if "rt_user_id stored \<noteq> user_id u" for h t2 stored
    using that by (auto simp: find split: option.splits)
  ultimately show ?thesis
    using ok saved(3) by (auto simp: get saved(4) verify_password_def hash_password_def)
qed

theorem password_change_ends_sessions_witness:
  "\<exists>u d d' w. register plain_ext ''s'' (sample_data ''a@b.co'') seeded_db = Inr (u, d) \<and>
     change_password plain_ext ''t'' 9 9 u \<lparr>pc_current_password = ''password1'', pc_new_password = ''password2''\<rparr> d = Inr d' \<and>
     user_get 1 d' = Some w \<and> user_hashed_password w = ''#password2'' \<and> user_password_changed_at w = Some 9"
proof -
  obtain u d pair d1 where s: "register plain_ext ''s'' (sample_data ''a@b.co'') seeded_db = Inr (u, d)"
    "wf_sessions d" "user_get (user_id u) d = Some u" "user_id u = 1" "user_hashed_password u = ''#password1''"
    by (rule sample_login)
  let ?v = "u\<lparr>user_hashed_password := ''#password2'', user_password_changed_at := Some 9\<rparr>"
  obtain w d2 where "user_save ?v d = Inr (w, d2)"
    using users.save_ok [of d ?v u] users.get_found [of d "user_id u" u] s(2,3) by (auto simp: wf_sessions_def)
  then obtain d' where c: "change_password plain_ext ''t'' 9 9 u
      \<lparr>pc_current_password = ''password1'', pc_new_password = ''password2''\<rparr> d = Inr d'"
    using s(5) by (auto simp: change_password_def verify_password_def hash_password_def)
  from password_change_ends_sessions [OF s(2,3) c, of sample_settings]
  obtain w where "user_get (user_id u) d' = Some w" "user_hashed_password w = ''#password2''"
    "user_password_changed_at w = Some 9" by auto
  with s(1,4) c show ?thesis by auto
qed

text \<open>
  Impersonation is granted only to an account that holds the permission, never on itself, and
  never on a superadmin by someone who is not one; the grant's token names both accounts, and the
  start is on the audit trail with the target's identifier.
\<close>

theorem impersonation_guarded:
  assumes "jwt_roundtrip ext" and "datetime_range now" and "now \<le> later"
    and "later < now div 1000000 * 1000000 + minutes (impersonation_token_expire_minutes s)"
    and "impersonate ext s context now jti actor target d = Inr ((token, expires_in), d')"
  shows "user_id target \<noteq> user_id actor \<and> scope_for actor USERS IMPERSONATE \<noteq> None \<and>
    (is_superuser target \<longrightarrow> is_superuser actor) \<and>
    expires_in * 1000000 = minutes (impersonation_token_expire_minutes s) \<and>
    decode_access_token ext s later token = Inr \<lparr>ac_subject = show_int (user_id target),
      ac_impersonator = Some (show_int (user_id actor)), ac_issued_at = now div 1000000 * 1000000\<rparr> \<and>
    (\<exists>e. trail_added d d' = [e] \<and> al_action e = ''impersonate_start'' \<and>
       al_row_pk e = Some (show_int (user_id target)) \<and>
       al_actor_id e = ctx_actor_id (context_or_system context))"
proof -
  have g: "user_id target \<noteq> user_id actor" "may_impersonate actor target"
    "token = create_impersonation_token ext s now jti (show_int (user_id target)) (show_int (user_id actor))"
    "expires_in = impersonation_token_expire_minutes s * 60"
    "d' = record_impersonation context IMPERSONATE_START target [(''old'', JNull)] d"
    using assms(5) by (auto simp: impersonate_def split: if_splits)
  have "now div 1000000 * 1000000 \<le> now"
    using pos_mod_sign [of 1000000 now] by (simp add: minus_mod_eq_div_mult [symmetric])
  moreover have "(now + minutes m) div 1000000 * 1000000 = now div 1000000 * 1000000 + minutes m" for m
    using div_mult_self1 [of 1000000 now "m * 60"] by (simp add: add.commute distrib_right mult.assoc)
  ultimately have "decode_access_token ext s later token = Inr \<lparr>ac_subject = show_int (user_id target),
      ac_impersonator = Some (show_int (user_id actor)), ac_issued_at = now div 1000000 * 1000000\<rparr>"
    using assms(3,4) unfolding g(3) create_impersonation_token_def
    by (simp add: decode_access_token_create_token [OF assms(1,2)])
  then show ?thesis
    using g(1,2,4,5)
    by (auto simp: may_impersonate_def outranks_def record_impersonation_def trail_added_def audit_event_def audit_entry_def
        split: if_splits)
qed

theorem impersonation_guarded_witness:
  "\<exists>u d target token d'. register plain_ext ''s'' (sample_data ''a@b.co'') seeded_db = Inr (u, d) \<and> user_id target = 2 \<and>
     impersonate plain_ext sample_settings None (seconds 1) ''j'' u target d = Inr ((token, 1800), d') \<and>
     decode_access_token plain_ext sample_settings (seconds 60) token = Inr \<lparr>ac_subject = show_int 2,
       ac_impersonator = Some (show_int 1), ac_issued_at = seconds 1\<rparr>"
proof -
  obtain u d where s: "register plain_ext ''s'' (sample_data ''a@b.co'') seeded_db = Inr (u, d)"
    "user_id u = 1" "is_superuser u" by (rule sample_account)
  let ?t = "(new_user ''c@d.co'' None ''h'' None [])\<lparr>user_id := 2\<rparr>"
  obtain token d' where i: "impersonate plain_ext sample_settings None (seconds 1) ''j'' u ?t d = Inr ((token, 1800), d')"
    using s(2,3) by (auto simp: impersonate_def may_impersonate_def scope_for_def outranks_def sample_settings_def default_settings_def)
  from impersonation_guarded [OF plain_ext_ok(1) _ _ _ i, of "seconds 60"] s i show ?thesis
    by (intro exI [of _ u] exI [of _ d] exI [of _ ?t]) (auto simp: datetime_range_def sample_settings_def default_settings_def)
qed

end
