(* ===== verification/SingleUse.thy ===== *)
theory SingleUse
  imports AuthService
begin

text \<open>
  \<open>app/services/single_use_tokens.py\<close>, \<open>app/services/password_reset_service.py\<close> and
  \<open>app/services/email_verification_service.py\<close>: links that work once. A service call answers the mail
  it hands to the mailer, if any; the random token and the clock readings are arguments.
\<close>

section \<open>Issuing and redeeming\<close>

definition issued_within :: "SingleUseToken \<Rightarrow> time \<Rightarrow> time \<Rightarrow> bool" where
  "issued_within token now cooldown \<longleftrightarrow> now - sut_created_at token < cooldown"

definition sent_recently :: "ident \<Rightarrow> TokenPurpose \<Rightarrow> time \<Rightarrow> time \<Rightarrow> database \<Rightarrow> bool" where
  "sent_recently uid purpose cooldown now d \<longleftrightarrow>
     (if cooldown = 0 then False
      else (case sut_latest_for uid purpose d of
              None \<Rightarrow> False | Some latest \<Rightarrow> issued_within latest now cooldown))"

definition issue_token ::
  "ext \<Rightarrow> TokenPurpose \<Rightarrow> time \<Rightarrow> time \<Rightarrow> str \<Rightarrow> ident \<Rightarrow> time \<Rightarrow> database \<Rightarrow>
   ((str \<times> time) option \<times> database) result" where
  "issue_token ext purpose lifetime cooldown token uid now d =
     (if sent_recently uid purpose cooldown now d then Inr (None, d)
      else
        (let d1 = snd (sut_revoke_all_for uid purpose now d); expires_at = now + lifetime
         in rbind (sut_create (hash_single_use_token ext token) uid purpose expires_at d1) (\<lambda>d2.
              Inr (Some (token, expires_at), d2))))"

definition active_token :: "ext \<Rightarrow> TokenPurpose \<Rightarrow> str \<Rightarrow> time \<Rightarrow> database \<Rightarrow> SingleUseToken option" where
  "active_token ext purpose token now d =
     sut_get_active (hash_single_use_token ext token) purpose now d"

definition redeem :: "ext \<Rightarrow> TokenPurpose \<Rightarrow> str \<Rightarrow> time \<Rightarrow> database \<Rightarrow> (SingleUseToken \<times> User) option" where
  "redeem ext purpose token now d =
     (case active_token ext purpose token now d of
        None \<Rightarrow> None
      | Some stored \<Rightarrow>
          (case user_get (sut_user_id stored) d of None \<Rightarrow> None | Some user \<Rightarrow> Some (stored, user)))"

section \<open>The two services\<close>

datatype mail_kind = VerifyEmail | ResetPassword

text \<open>What \<open>AccountMailer\<close> is asked to send: to whom, which link, and until when it works.\<close>

record mail_request =
  mr_kind :: mail_kind
  mr_user :: User
  mr_token :: str
  mr_expires_at :: time

definition reset_request ::
  "ext \<Rightarrow> Settings \<Rightarrow> str \<Rightarrow> str \<Rightarrow> time \<Rightarrow> database \<Rightarrow> (mail_request option \<times> database) result" where
  "reset_request ext s token email now d =
     (case user_get_by_email (normalize_email email) d of
        None \<Rightarrow> Inr (None, d)
      | Some user \<Rightarrow>
          rbind (issue_token ext PASSWORD_RESET (minutes (password_reset_expire_minutes s))
                   (seconds (mail_resend_cooldown_seconds s)) token (user_id user) now d) (\<lambda>(issued, d').
            Inr (map_option (\<lambda>(t, e). \<lparr>mr_kind = ResetPassword, mr_user = user, mr_token = t, mr_expires_at = e\<rparr>) issued,
                 d')))"

definition reset_confirm :: "ext \<Rightarrow> str \<Rightarrow> time \<Rightarrow> str \<Rightarrow> str \<Rightarrow> database \<Rightarrow> database result" where
  "reset_confirm ext salt now token new_password d =
     (case redeem ext PASSWORD_RESET token now d of
        None \<Rightarrow> raise_error AuthError ''This reset link is no longer valid'' AUTH_INVALID_TOKEN
      | Some (stored, user) \<Rightarrow>
          rbind (user_save (user\<lparr>user_hashed_password := hash_password ext salt new_password,
                              user_password_changed_at := Some now\<rparr>) d) (\<lambda>(saved, d1).
            let d2 = sut_mark_used stored now d1;
                d3 = snd (sut_revoke_all_for (user_id saved) PASSWORD_RESET now d2);
                d4 = snd (rt_revoke_all_for_user (user_id saved) now d3)
            in Inr d4))"

definition verification_request ::
  "ext \<Rightarrow> Settings \<Rightarrow> str \<Rightarrow> User \<Rightarrow> time \<Rightarrow> database \<Rightarrow> (mail_request option \<times> database) result" where
  "verification_request ext s token user now d =
     (if user_email_verified_at user \<noteq> None then Inr (None, d)
      else
        rbind (issue_token ext EMAIL_VERIFICATION (hours (email_verification_expire_hours s))
                 (seconds (mail_resend_cooldown_seconds s)) token (user_id user) now d) (\<lambda>(issued, d').
          Inr (map_option (\<lambda>(t, e). \<lparr>mr_kind = VerifyEmail, mr_user = user, mr_token = t, mr_expires_at = e\<rparr>) issued,
               d')))"

definition verification_confirm :: "ext \<Rightarrow> time \<Rightarrow> str \<Rightarrow> database \<Rightarrow> (User \<times> database) result" where
  "verification_confirm ext now token d =
     (case redeem ext EMAIL_VERIFICATION token now d of
        None \<Rightarrow> raise_error AuthError ''This confirmation link is no longer valid'' AUTH_INVALID_TOKEN
      | Some (stored, user) \<Rightarrow>
          (let d1 = sut_mark_used stored now d in
           if user_email_verified_at user = None
           then user_save (user\<lparr>user_email_verified_at := Some now\<rparr>) d1
           else Inr (user, d1)))"

section \<open>Lemmas\<close>

definition wf_tokens :: "database \<Rightarrow> bool" where
  "wf_tokens d \<longleftrightarrow> wf_sessions d \<and> wf_single_use_tokens d"

lemma wf_tokensD:
  "wf_tokens d \<Longrightarrow> wf_accounts d" "wf_tokens d \<Longrightarrow> wf_refresh_tokens d" "wf_tokens d \<Longrightarrow> wf_single_use_tokens d"
  by (simp_all add: wf_tokens_def wf_sessions_def)

lemma wf_single_use_tokens_after_save:
  assumes "wf_single_use_tokens d" "user_save u d = Inr (u', d')"
  shows "wf_single_use_tokens d'"
proof -
  have "user_id ` set (t_users d') = user_id ` set (t_users d)"
    using user_save_frame [OF assms(2)] by (metis list.set_map)
  then show ?thesis using assms(1) user_save_frame [OF assms(2)] by (simp add: wf_single_use_tokens_def)
qed

lemma sut_revoke_all_frame [simp]:
  "t_users (snd (sut_revoke_all_for uid p now d)) = t_users d"
  "t_roles (snd (sut_revoke_all_for uid p now d)) = t_roles d"
  "t_user_roles (snd (sut_revoke_all_for uid p now d)) = t_user_roles d"
  "t_refresh_tokens (snd (sut_revoke_all_for uid p now d)) = t_refresh_tokens d"
  "seqs (snd (sut_revoke_all_for uid p now d)) = seqs d"
  "tx_now (snd (sut_revoke_all_for uid p now d)) = tx_now d"
  by (simp_all add: sut_revoke_all_for_def Let_def)

lemma sut_mark_used_frame [simp]:
  "t_users (sut_mark_used t now d) = t_users d" "t_roles (sut_mark_used t now d) = t_roles d"
  "t_user_roles (sut_mark_used t now d) = t_user_roles d" "seqs (sut_mark_used t now d) = seqs d"
  "t_refresh_tokens (sut_mark_used t now d) = t_refresh_tokens d"
  by (simp_all add: sut_mark_used_def)

text \<open>Marking the row that a lookup answered is spending its digest.\<close>

lemma sut_mark_used_spend:
  assumes "wf_single_use_tokens d" "sut_get_active h p now d = Some t"
  shows "sut_mark_used t at d = sut_spend h at d"
proof -
  have t: "t \<in> set (t_single_use_tokens d)" "sut_token_hash t = h"
    using sut_get_active_hash [OF assms(2)] by (auto simp: sut_live_def)
  have "find_row (\<lambda>x. sut_token_hash x = sut_token_hash t) (t_single_use_tokens d) = Some t"
    using assms(1) t(1) by (intro find_row_key) (auto simp: wf_single_use_tokens_def)
  then show ?thesis using t(2) by (simp add: sut_spend_def)
qed

lemma redeem_None_iff:
  "redeem ext p token now d = None \<longleftrightarrow>
   (\<forall>t. active_token ext p token now d = Some t \<longrightarrow> user_get (sut_user_id t) d = None)"
  by (auto simp: redeem_def split: option.splits)

lemma redeem_Some_iff:
  "redeem ext p token now d = Some (t, u) \<longleftrightarrow>
   active_token ext p token now d = Some t \<and> user_get (sut_user_id t) d = Some u"
  by (auto simp: redeem_def split: option.splits)

lemma issue_token_cases:
  assumes "issue_token ext p life cd token uid now d = Inr (issued, d')"
  obtains (recent) "sent_recently uid p cd now d" "issued = None" "d' = d"
  | (sent) "\<not> sent_recently uid p cd now d" "issued = Some (token, now + life)"
      "sut_create (hash_single_use_token ext token) uid p (now + life) (snd (sut_revoke_all_for uid p now d)) = Inr d'"
  using assms by (auto simp: issue_token_def Let_def rbind_eq_Inr split: if_splits)

lemma wf_sessions_same_tables:
  assumes "wf_sessions d" "t_users d' = t_users d" "t_roles d' = t_roles d" "t_user_roles d' = t_user_roles d"
    "seqs d' TUsers = seqs d TUsers" "seqs d' TRoles = seqs d TRoles"
    "t_refresh_tokens d' = t_refresh_tokens d" "seqs d' TRefreshTokens = seqs d TRefreshTokens"
  shows "wf_sessions d'"
  using assms wf_accounts_same_tables [of d d'] by (simp add: wf_sessions_def wf_refresh_tokens_def)

lemma sut_create_frame:
  assumes "sut_create h uid p ex d = Inr d'"
  shows "t_users d' = t_users d \<and> t_roles d' = t_roles d \<and> t_user_roles d' = t_user_roles d \<and>
    t_refresh_tokens d' = t_refresh_tokens d \<and> seqs d' TUsers = seqs d TUsers \<and> seqs d' TRoles = seqs d TRoles \<and>
    seqs d' TRefreshTokens = seqs d TRefreshTokens"
  using assms by (rule sut_create_shape) simp

text \<open>A link that was issued is live for its account until it expires, and no account has changed.\<close>

lemma issue_token_live:
  assumes "wf_tokens d" and "issue_token ext p life cd token uid now d = Inr (Some (t, e), d')"
  shows "t = token" and "e = now + life" and "user_get i d' = user_get i d"
    and "at < e \<Longrightarrow> map_option sut_user_id (active_token ext p token at d') = Some uid"
    and "e \<le> at \<Longrightarrow> active_token ext p token at d' = None"
proof -
  have sent: "t = token" "e = now + life"
    "sut_create (hash_single_use_token ext token) uid p (now + life) (snd (sut_revoke_all_for uid p now d)) = Inr d'"
    using assms(2) by (auto elim: issue_token_cases)
  then show "t = token" "e = now + life" by simp_all
  show "user_get i d' = user_get i d"
    using sut_create_frame [OF sent(3)] by (intro user_get_same_tables) simp_all
  have "wf_single_use_tokens (snd (sut_revoke_all_for uid p now d))"
    using single_use_store.retire_all_law [OF wf_tokensD(3) [OF assms(1)], of uid p now] by blast
  note iss = single_use_store.issue_law [OF this sent(3)]
  have "case active_token ext p token at d' of None \<Rightarrow> now + life \<le> at | Some t \<Rightarrow> at < now + life \<and> sut_user_id t = uid"
    using iss unfolding active_token_def by blast
  then show "at < e \<Longrightarrow> map_option sut_user_id (active_token ext p token at d') = Some uid"
    "e \<le> at \<Longrightarrow> active_token ext p token at d' = None" using sent(2) by (auto split: option.splits)
qed

text \<open>A token of one purpose is invisible to the other: what is stored decides.\<close>

lemma active_token_row:
  "active_token ext p token now d = Some t \<Longrightarrow>
   t \<in> set (t_single_use_tokens d) \<and> sut_live (hash_single_use_token ext token) p now t"
  unfolding active_token_def by (rule sut_get_active_hash)

lemma purposes_separate:
  assumes "wf_single_use_tokens d" "active_token ext p token now d = Some t" "q \<noteq> p"
  shows "active_token ext q token later d = None"
proof (rule ccontr)
  assume "active_token ext q token later d \<noteq> None"
  then obtain t' where "active_token ext q token later d = Some t'" by blast
  then have t': "t' \<in> set (t_single_use_tokens d)" "sut_live (hash_single_use_token ext token) q later t'"
    using active_token_row by blast+
  have t: "t \<in> set (t_single_use_tokens d)" "sut_live (hash_single_use_token ext token) p now t"
    using active_token_row assms(2) by blast+
  have "t = t'"
    using assms(1) t t' by (auto simp: wf_single_use_tokens_def sut_live_def dest: distinct_key_eq)
  with t t' assms(3) show False by (simp add: sut_live_def)
qed

text \<open>The first account of a seeded deployment, with a confirmation link and a reset link.\<close>

definition sample_links_db :: database where
  "sample_links_db =
     (case rbind (register plain_ext ''s'' (sample_data ''a@b.co'') seeded_db) (\<lambda>(u, d).
           rbind (verification_request plain_ext sample_settings ''vtok'' u 0 d) (\<lambda>(m, d).
           rbind (reset_request plain_ext sample_settings ''rtok'' ''a@b.co'' 0 d) (\<lambda>(m, d). Inr d))) of
        Inr d \<Rightarrow> d | Inl e \<Rightarrow> empty_db)"

lemma sample_links:
  "wf_tokens sample_links_db" "\<not> isl (reset_confirm plain_ext ''t'' 5 ''rtok'' ''password2'' sample_links_db)"
  "map_option sut_user_id (active_token plain_ext PASSWORD_RESET ''rtok'' 5 sample_links_db) = Some 1"
  "map_option sut_user_id (active_token plain_ext EMAIL_VERIFICATION ''vtok'' 5 sample_links_db) = Some 1"
  "map_option user_email (user_get 1 sample_links_db) = Some ''a@b.co''"
  "\<not> isl (verification_confirm plain_ext 5 ''vtok'' sample_links_db)"
  by code_simp+

section \<open>What links promise\<close>

text \<open>
  Asking for a link: within the cool-down nothing is sent and nothing changes. Otherwise the new
  link works for the account until its lifetime has passed, every older link of that account for
  the same purpose is dead from that moment on, and neither the links of other accounts nor the
  other purpose are touched.
\<close>

theorem issued_link_is_the_only_one:
  assumes "wf_tokens d" and "issue_token ext p life cd token uid now d = Inr (issued, d')"
  shows "wf_tokens d' \<and> (\<forall>i. user_get i d' = user_get i d) \<and>
    (case issued of
       None \<Rightarrow> d' = d \<and> sent_recently uid p cd now d
     | Some (t, expires_at) \<Rightarrow> t = token \<and> expires_at = now + life \<and>
         (\<forall>at. at < expires_at \<longrightarrow> map_option sut_user_id (active_token ext p token at d') = Some uid) \<and>
         (\<forall>at. at \<ge> expires_at \<longrightarrow> active_token ext p token at d' = None) \<and>
         (\<forall>h at x. sut_get_active h p at d' = Some x \<and> sut_user_id x = uid \<longrightarrow> h = hash_single_use_token ext token) \<and>
         (\<forall>h q at x. sut_user_id x \<noteq> uid \<or> q \<noteq> p \<longrightarrow>
            sut_get_active h q at d = Some x \<longrightarrow> sut_get_active h q at d' = Some x))"
  using assms(2)
proof (cases rule: issue_token_cases)
  case recent
  then show ?thesis using assms(1) by simp
next
  case sent
  let ?h = "hash_single_use_token ext token" and ?d = "snd (sut_revoke_all_for uid p now d)"
  note wf = wf_tokensD [OF assms(1)]
  note ret = single_use_store.retire_all_law [OF wf(3), of uid p now]
  have wf1: "wf_single_use_tokens ?d" using ret by blast
  note iss = single_use_store.issue_law [OF wf1 sent(3)]
  have get: "user_get i d' = user_get i d" for i
    using sut_create_frame [OF sent(3)] by (intro user_get_same_tables) simp_all
  have "wf_sessions d'"
  proof (rule wf_sessions_same_tables)
    show "wf_sessions d" using assms(1) by (simp add: wf_tokens_def)
  qed (use sut_create_frame [OF sent(3)] in simp_all)
  then have "wf_tokens d'" using iss by (simp add: wf_tokens_def)
  moreover have "at < now + life \<Longrightarrow> map_option sut_user_id (active_token ext p token at d') = Some uid"
    "at \<ge> now + life \<Longrightarrow> active_token ext p token at d' = None" for at
    using issue_token_live(4,5) [of d ext p life cd token uid now token "now + life"] assms sent(2) by simp_all
  moreover have "sut_get_active h p at d' = Some x \<Longrightarrow> sut_user_id x = uid \<Longrightarrow> h = ?h" for h at x
    by (rule single_use_store.only_latest_live [OF wf(3) sent(3)])
  moreover have "sut_get_active h q at d' = Some x"
    if other: "sut_user_id x \<noteq> uid \<or> q \<noteq> p" and before: "sut_get_active h q at d = Some x" for h q at x
  proof -
    let ?doomed = "\<lambda>t. sut_user_id t = uid \<and> sut_purpose t = p \<and> sut_used_at t = None"
    have "sut_purpose x = q" using sut_get_active_hash [OF before] by (simp add: sut_live_def)
    then have kept: "sut_get_active h q at ?d = Some x"
      using sut_find_stamped [OF wf(3), of h q at ?doomed now] other before
      by (auto simp: sut_revoke_all_for_def Let_def sut_get_active_def [of _ _ _ "d\<lparr>t_single_use_tokens := _\<rparr>"])
    from sent(3) show ?thesis
      by (rule sut_create_shape) (use kept in \<open>simp add: sut_get_active_def find_row_append\<close>)
  qed
  ultimately show ?thesis using get sent(2) by auto
qed

theorem issued_link_is_the_only_one_witness:
  "\<exists>d'. issue_token plain_ext PASSWORD_RESET (minutes 60) 0 ''new'' 1 7 sample_links_db = Inr (Some (''new'', 7 + minutes 60), d') \<and>
     wf_tokens d' \<and> map_option sut_user_id (active_token plain_ext PASSWORD_RESET ''new'' 8 d') = Some 1"
proof -
  have "\<not> isl (issue_token plain_ext PASSWORD_RESET (minutes 60) 0 ''new'' 1 7 sample_links_db)" by code_simp
  then obtain issued d' where i: "issue_token plain_ext PASSWORD_RESET (minutes 60) 0 ''new'' 1 7 sample_links_db = Inr (issued, d')"
    using not_isl_Inr by (metis surj_pair)
  then have "issued = Some (''new'', 7 + minutes 60)"
    by (cases rule: issue_token_cases) (simp_all add: sent_recently_def)
  with issued_link_is_the_only_one [OF sample_links(1) i] i show ?thesis by simp
qed

lemma reset_confirm_cases:
  assumes "wf_tokens d" "reset_confirm ext salt now token pw d = Inr d'"
  obtains stored user w d1 where "active_token ext PASSWORD_RESET token now d = Some stored"
    "user_get (sut_user_id stored) d = Some user" "user_id user = sut_user_id stored"
    "user_save (user\<lparr>user_hashed_password := hash_password ext salt pw, user_password_changed_at := Some now\<rparr>) d = Inr (w, d1)"
    "user_id w = user_id user" "wf_accounts d1"
    "account_fields w = account_fields (user\<lparr>user_hashed_password := hash_password ext salt pw,
       user_password_changed_at := Some now\<rparr>)"
    "\<And>i. user_get i d1 = (if i = user_id user then Some w else user_get i d)"
    "d' = snd (rt_revoke_all_for_user (user_id user) now
       (snd (sut_revoke_all_for (user_id user) PASSWORD_RESET now (sut_mark_used stored now d1))))"
proof -
  obtain stored user where r: "redeem ext PASSWORD_RESET token now d = Some (stored, user)"
    using assms(2) by (auto simp: reset_confirm_def split: option.splits)
  then have a: "active_token ext PASSWORD_RESET token now d = Some stored" "user_get (sut_user_id stored) d = Some user"
    by (simp_all add: redeem_Some_iff)
  note wf = wf_tokensD [OF assms(1)]
  have u: "user_id user = sut_user_id stored" "assignable user d" "user_is_active user"
    using users.get_found [OF wf(1) a(2)] by auto
  let ?v = "user\<lparr>user_hashed_password := hash_password ext salt pw, user_password_changed_at := Some now\<rparr>"
  obtain w d1 where save: "user_save ?v d = Inr (w, d1)"
    and d': "d' = snd (rt_revoke_all_for_user (user_id w) now
       (snd (sut_revoke_all_for (user_id w) PASSWORD_RESET now (sut_mark_used stored now d1))))"
    using assms(2) r by (auto simp: reset_confirm_def rbind_eq_Inr Let_def)
  have g: "user_get (user_id user) d = Some user" using a(2) u(1) by simp
  note saved = saved_user [OF wf(1) g, of ?v w d1]
  show ?thesis using a u save d' saved by (intro that [of stored user w d1]) simp_all
qed

text \<open>The whole effect of a confirmed reset.\<close>

lemma reset_confirm_law:
  assumes "wf_tokens d" "reset_confirm ext salt now token pw d = Inr d'"
  obtains stored w where "active_token ext PASSWORD_RESET token now d = Some stored" "wf_tokens d'"
    "user_get (sut_user_id stored) d' = Some w" "user_hashed_password w = hash_password ext salt pw"
    "user_password_changed_at w = Some now"
    "\<And>user. user_get (sut_user_id stored) d = Some user \<Longrightarrow> user_email w = user_email user \<and> set (user_roles w) = set (user_roles user)
       \<and> user_email_verified_at w = user_email_verified_at user"
    "\<And>i. i \<noteq> sut_user_id stored \<Longrightarrow> user_get i d' = user_get i d"
    "\<And>at. active_token ext PASSWORD_RESET token at d' = None"
    "\<And>h at x. sut_get_active h PASSWORD_RESET at d' = Some x \<Longrightarrow> sut_user_id x \<noteq> sut_user_id stored"
    "\<And>h at x. rt_get_active h at d' = Some x \<Longrightarrow> rt_user_id x \<noteq> sut_user_id stored"
  using assms
proof (rule reset_confirm_cases)
  fix stored user w d1
  assume a: "active_token ext PASSWORD_RESET token now d = Some stored" "user_get (sut_user_id stored) d = Some user"
    "user_id user = sut_user_id stored"
    and save: "user_save (user\<lparr>user_hashed_password := hash_password ext salt pw, user_password_changed_at := Some now\<rparr>) d = Inr (w, d1)"
    and w: "user_id w = user_id user" "wf_accounts d1"
    "account_fields w = account_fields (user\<lparr>user_hashed_password := hash_password ext salt pw, user_password_changed_at := Some now\<rparr>)"
    "\<And>i. user_get i d1 = (if i = user_id user then Some w else user_get i d)"
    and d': "d' = snd (rt_revoke_all_for_user (user_id user) now
       (snd (sut_revoke_all_for (user_id user) PASSWORD_RESET now (sut_mark_used stored now d1))))"
  let ?h = "hash_single_use_token ext token" and ?uid = "sut_user_id stored"
  note wf = wf_tokensD [OF assms(1)]
  have wf1: "wf_refresh_tokens d1" "wf_single_use_tokens d1"
    using wf_refresh_tokens_after_save [OF wf(2) save] wf_single_use_tokens_after_save [OF wf(3) save] .
  have act1: "sut_get_active ?h PASSWORD_RESET now d1 = Some stored"
    using a(1) user_save_frame [OF save] by (simp add: active_token_def sut_get_active_def)
  define d2 where "d2 = sut_spend ?h now d1"
  have d2: "sut_mark_used stored now d1 = d2" unfolding d2_def by (rule sut_mark_used_spend [OF wf1(2) act1])
  note sp = single_use_store.spend_law [OF wf1(2), of ?h now, folded d2_def]
  have wf2: "wf_single_use_tokens d2" using sp by blast
  note ret = single_use_store.retire_all_law [OF wf2, of "user_id user" PASSWORD_RESET now]
  define d3 where "d3 = snd (sut_revoke_all_for (user_id user) PASSWORD_RESET now d2)"
  have d'3: "d' = snd (rt_revoke_all_for_user (user_id user) now d3)" using d' d2 by (simp add: d3_def)
  have fr3: "t_refresh_tokens d3 = t_refresh_tokens d1" "seqs d3 = seqs d1" "t_users d3 = t_users d1"
    "t_roles d3 = t_roles d1" "t_user_roles d3 = t_user_roles d1"
    by (simp_all add: d3_def d2 [symmetric])
  have wf3: "wf_refresh_tokens d3" using wf1(1) fr3 by (simp add: wf_refresh_tokens_def)
  note ret' = refresh_store.retire_all_law [OF wf3, of "user_id user" now, folded d'3]
  have get: "user_get i d' = user_get i d1" for i
    unfolding d'3 using fr3 by (intro user_get_same_tables) simp_all
  have sut: "sut_get_active h p at d' = sut_get_active h p at d3" for h p at
    by (simp add: d'3 sut_get_active_def)
  have "wf_accounts d'"
    unfolding d'3 using fr3 by (intro wf_accounts_same_tables [OF w(2)]) simp_all
  moreover have "wf_single_use_tokens d'"
    using ret unfolding d3_def [symmetric] by (simp add: d'3 wf_single_use_tokens_def)
  ultimately have "wf_tokens d'" using ret' by (simp add: wf_tokens_def wf_sessions_def)
  moreover have "active_token ext PASSWORD_RESET token at d' = None" for at
    unfolding active_token_def sut d3_def using ret sp by simp
  moreover have "sut_get_active h PASSWORD_RESET at d' = Some x \<Longrightarrow> sut_user_id x \<noteq> ?uid" for h at x
    unfolding sut d3_def using single_use_store.retire_all_none [OF wf2] a(3) by metis
  moreover have "rt_get_active h at d' = Some x \<Longrightarrow> rt_user_id x \<noteq> ?uid" for h at x
    unfolding d'3 using refresh_store.retire_all_none [OF wf3] a(3) by metis
  moreover have "user_get ?uid d' = Some w" using w(4) a(3) by (simp add: get)
  moreover have "i \<noteq> ?uid \<Longrightarrow> user_get i d' = user_get i d" for i using w(4) a(3) by (simp add: get)
  ultimately show ?thesis
    using that [of stored w] a w(3) by auto
qed

text \<open>
  C12. A reset link works once, and takes over the account it was issued for completely. A reset that succeeds used the
  token's own row: an unused, unexpired reset token with the digest of the link. With \<open>uid\<close> the owner of that row, the
  same link is refused at every moment afterwards, so is every other reset link of \<open>uid\<close> and every refresh token it had;
  the new password is the stored one of \<open>uid\<close>, whose address and roles stay, and no other account changes.
\<close>

theorem reset_link_works_once:
  assumes "wf_tokens d" and "reset_confirm ext salt now token pw d = Inr d'"
  shows "\<exists>stored uid. stored \<in> set (t_single_use_tokens d) \<and> sut_token_hash stored = ext_sha256_hex ext token \<and>
    sut_purpose stored = PASSWORD_RESET \<and> sut_used_at stored = None \<and> now < sut_expires_at stored \<and>
    uid = sut_user_id stored \<and> wf_tokens d' \<and>
    (\<forall>salt' now' pw'. error_code_of (reset_confirm ext salt' now' token pw' d') = Some AUTH_INVALID_TOKEN) \<and>
    (\<forall>h at x. sut_get_active h PASSWORD_RESET at d' = Some x \<longrightarrow> sut_user_id x \<noteq> uid) \<and>
    (\<forall>t1 t2 t3 jti rt subject s. decode_refresh_token ext s t1 rt = Inr subject \<and> py_int subject = Some uid \<longrightarrow>
       refresh ext s t1 t2 t3 jti rt d' = invalid_credentials) \<and>
    (\<exists>u w. user_get uid d = Some u \<and> user_get uid d' = Some w \<and> user_email w = user_email u \<and>
       set (user_roles w) = set (user_roles u) \<and>
       user_hashed_password w = ext_pw_hash ext salt pw \<and> user_password_changed_at w = Some now) \<and>
    (\<forall>i. i \<noteq> uid \<longrightarrow> user_get i d' = user_get i d)"
  using assms
proof (rule reset_confirm_law)
  fix stored w
  assume law: "active_token ext PASSWORD_RESET token now d = Some stored" "wf_tokens d'"
    "user_get (sut_user_id stored) d' = Some w" "user_hashed_password w = hash_password ext salt pw"
    "user_password_changed_at w = Some now"
    "\<And>user. user_get (sut_user_id stored) d = Some user \<Longrightarrow> user_email w = user_email user \<and>
       set (user_roles w) = set (user_roles user) \<and> user_email_verified_at w = user_email_verified_at user"
    "\<And>i. i \<noteq> sut_user_id stored \<Longrightarrow> user_get i d' = user_get i d"
    "\<And>at. active_token ext PASSWORD_RESET token at d' = None"
    "\<And>h at x. sut_get_active h PASSWORD_RESET at d' = Some x \<Longrightarrow> sut_user_id x \<noteq> sut_user_id stored"
    "\<And>h at x. rt_get_active h at d' = Some x \<Longrightarrow> rt_user_id x \<noteq> sut_user_id stored"
  obtain u where u: "user_get (sut_user_id stored) d = Some u"
    using assms(2) law(1) by (auto simp: reset_confirm_def redeem_def split: option.splits)
  have row: "stored \<in> set (t_single_use_tokens d) \<and> sut_token_hash stored = ext_sha256_hex ext token \<and>
      sut_purpose stored = PASSWORD_RESET \<and> sut_used_at stored = None \<and> now < sut_expires_at stored"
    using find_row_SomeD [OF law(1) [unfolded active_token_def sut_get_active_def]]
    by (simp add: sut_live_def hash_single_use_token_def)
  have "error_code_of (reset_confirm ext salt' now' token pw' d') = Some AUTH_INVALID_TOKEN" for salt' now' pw'
    using law(8) by (simp add: reset_confirm_def redeem_def)
  moreover have "refresh ext s t1 t2 t3 jti rt d' = invalid_credentials"
    if "decode_refresh_token ext s t1 rt = Inr subject" "py_int subject = Some (sut_user_id stored)"
    for t1 t2 t3 jti rt subject s
    using that by (rule refresh_refused) (use law(10) in blast)
  ultimately show ?thesis
    using law(2-7,9) u row
    by (intro exI [of _ stored] exI [of _ "sut_user_id stored"] conjI) (auto simp: hash_password_def)
qed

theorem reset_link_works_once_witness:
  "\<exists>d'. reset_confirm plain_ext ''t'' 5 ''rtok'' ''password2'' sample_links_db = Inr d' \<and> wf_tokens d' \<and>
     error_code_of (reset_confirm plain_ext ''t'' 6 ''rtok'' ''password3'' d') = Some AUTH_INVALID_TOKEN"
proof -
  obtain d' where c: "reset_confirm plain_ext ''t'' 5 ''rtok'' ''password2'' sample_links_db = Inr d'"
    using not_isl_Inr [OF sample_links(2)] by blast
  with reset_link_works_once [OF sample_links(1) c] show ?thesis by blast
qed

text \<open>
  After a confirmed reset the account signs in with the new password and with no other.
\<close>

theorem login_after_reset:
  assumes "wf_tokens d" and "pw_complete ext" and "pw_sound ext"
    and "reset_confirm ext salt now token pw d = Inr d'"
    and "active_token ext PASSWORD_RESET token now d = Some stored" and "user_get (sut_user_id stored) d = Some u"
    and "normalize_email email = user_email u" and "require_verified_email s = False"
  shows "(\<forall>attempt. attempt \<noteq> pw \<longrightarrow>
      error_code_of (authenticate ext s absent draw email attempt d') = Some AUTH_BAD_LOGIN) \<and>
    (\<exists>w. user_id w = user_id u \<and> authenticate ext s absent draw email pw d' = issue_pair ext s draw w d')"
  using assms(1,4)
proof (rule reset_confirm_law)
  fix stored' w
  assume law: "active_token ext PASSWORD_RESET token now d = Some stored'" "wf_tokens d'"
    "user_get (sut_user_id stored') d' = Some w" "user_hashed_password w = hash_password ext salt pw"
    "\<And>user. user_get (sut_user_id stored') d = Some user \<Longrightarrow> user_email w = user_email user \<and>
       set (user_roles w) = set (user_roles user) \<and> user_email_verified_at w = user_email_verified_at user"
  have st: "stored' = stored" using law(1) assms(5) by simp
  have ids: "user_id u = sut_user_id stored" "user_id w = sut_user_id stored"
    using users.get_found [OF wf_tokensD(1) [OF assms(1)] assms(6)]
      users.get_found [OF wf_tokensD(1) [OF law(2)] law(3)] st by auto
  have found: "user_get_by_email (normalize_email email) d' = Some w"
    unfolding users.get_by_email_iff [OF wf_tokensD(1) [OF law(2)]] using law(3,5) assms(6,7) ids st by simp
  have "error_code_of (authenticate ext s absent draw email attempt d') = Some AUTH_BAD_LOGIN" if "attempt \<noteq> pw" for attempt
  proof -
    have "\<not> verify_password ext attempt (user_hashed_password w)"
      using that assms(3) by (auto simp: verify_password_def law(4) hash_password_def pw_sound_def)
    then show ?thesis by (simp add: authenticate_def found Let_def)
  qed
  moreover have "authenticate ext s absent draw email pw d' = issue_pair ext s draw w d'"
    using assms(2,8) by (simp add: authenticate_def found verify_password_def law(4) hash_password_def pw_complete_def)
  ultimately show ?thesis using ids by auto
qed

theorem login_after_reset_witness:
  "\<exists>d' w. reset_confirm plain_ext ''t'' 5 ''rtok'' ''password2'' sample_links_db = Inr d' \<and> user_id w = 1 \<and>
     authenticate plain_ext sample_settings ''x'' sample_draw ''A@b.co'' ''password2'' d' = issue_pair plain_ext sample_settings sample_draw w d' \<and>
     error_code_of (authenticate plain_ext sample_settings ''x'' sample_draw ''A@b.co'' ''password1'' d') = Some AUTH_BAD_LOGIN"
proof -
  obtain d' where c: "reset_confirm plain_ext ''t'' 5 ''rtok'' ''password2'' sample_links_db = Inr d'"
    using not_isl_Inr [OF sample_links(2)] by blast
  obtain stored u where st: "active_token plain_ext PASSWORD_RESET ''rtok'' 5 sample_links_db = Some stored"
    "sut_user_id stored = 1" "user_get (sut_user_id stored) sample_links_db = Some u" "user_email u = ''a@b.co''"
    using sample_links(3,5) by auto
  have e: "normalize_email ''A@b.co'' = user_email u" unfolding st(4) by code_simp
  have "user_id u = 1" using users.get_found [OF wf_tokensD(1) [OF sample_links(1)] st(3)] st(2) by simp
  moreover have "require_verified_email sample_settings = False" by (simp add: sample_settings_def default_settings_def)
  ultimately show ?thesis
    using login_after_reset [OF sample_links(1) plain_ext_ok(2,3) c st(1,3) e, of sample_settings "''x''" sample_draw] c
    by auto
qed

text \<open>
  Purposes do not mix: while a confirmation link is live it can never reset a password, and a reset
  link can never confirm an address; both are refused like any dead link.
\<close>

theorem link_purposes_separate:
  assumes "wf_tokens d"
  shows "(active_token ext EMAIL_VERIFICATION token now d \<noteq> None \<longrightarrow>
      error_code_of (reset_confirm ext salt later token pw d) = Some AUTH_INVALID_TOKEN) \<and>
    (active_token ext PASSWORD_RESET token now d \<noteq> None \<longrightarrow>
      error_code_of (verification_confirm ext later token d) = Some AUTH_INVALID_TOKEN)"
  using purposes_separate [OF wf_tokensD(3) [OF assms], of ext EMAIL_VERIFICATION token now _ PASSWORD_RESET later]
    purposes_separate [OF wf_tokensD(3) [OF assms], of ext PASSWORD_RESET token now _ EMAIL_VERIFICATION later]
  by (auto simp: reset_confirm_def verification_confirm_def redeem_def)

theorem link_purposes_separate_witness:
  "active_token plain_ext EMAIL_VERIFICATION ''vtok'' 5 sample_links_db \<noteq> None \<and>
   error_code_of (reset_confirm plain_ext ''t'' 5 ''vtok'' ''password2'' sample_links_db) = Some AUTH_INVALID_TOKEN"
  using link_purposes_separate [OF sample_links(1), of plain_ext "''vtok''" 5 "''t''" 5 "''password2''"] sample_links(4)
  by auto

text \<open>
  Confirming an address: the link verifies the account it was issued for at that moment, once, keeps
  an earlier verification as it was, and leaves everything else about every account alone; used
  again, it is refused.
\<close>

theorem verification_link_works_once:
  assumes "wf_tokens d" and "verification_confirm ext now token d = Inr (w, d')"
  shows "\<exists>u. user_get (user_id w) d = Some u \<and> wf_tokens d' \<and> user_get (user_id w) d' = Some w \<and>
    account_fields w = account_fields (u\<lparr>user_email_verified_at :=
      (case user_email_verified_at u of None \<Rightarrow> Some now | Some t \<Rightarrow> Some t)\<rparr>) \<and>
    (\<forall>i. i \<noteq> user_id w \<longrightarrow> user_get i d' = user_get i d) \<and>
    (\<forall>later. error_code_of (verification_confirm ext later token d') = Some AUTH_INVALID_TOKEN)"
proof -
  note wf = wf_tokensD [OF assms(1)]
  let ?h = "hash_single_use_token ext token"
  obtain stored u where a: "active_token ext EMAIL_VERIFICATION token now d = Some stored" "user_get (sut_user_id stored) d = Some u"
    and r: "redeem ext EMAIL_VERIFICATION token now d = Some (stored, u)"
    using assms(2) by (auto simp: verification_confirm_def redeem_def split: option.splits)
  have u: "user_id u = sut_user_id stored" "assignable u d" "user_is_active u"
    using users.get_found [OF wf(1) a(2)] by auto
  define d1 where "d1 = sut_spend ?h now d"
  have d1: "sut_mark_used stored now d = d1"
    unfolding d1_def using a(1) by (intro sut_mark_used_spend [OF wf(3)]) (simp add: active_token_def)
  note sp = single_use_store.spend_law [OF wf(3), of ?h now, folded d1_def]
  have fr: "t_users d1 = t_users d" "t_roles d1 = t_roles d" "t_user_roles d1 = t_user_roles d" "seqs d1 = seqs d"
    "t_refresh_tokens d1 = t_refresh_tokens d" by (simp_all add: d1 [symmetric])
  have get1: "user_get i d1 = user_get i d" for i using fr by (intro user_get_same_tables) simp_all
  have wf1: "wf_sessions d1"
  proof (rule wf_sessions_same_tables)
    show "wf_sessions d" using assms(1) by (simp add: wf_tokens_def)
  qed (simp_all add: fr)
  then have wfa1: "wf_accounts d1" "wf_refresh_tokens d1" by (simp_all add: wf_sessions_def)
  have dead: "error_code_of (verification_confirm ext later token d2) = Some AUTH_INVALID_TOKEN"
    if "t_single_use_tokens d2 = t_single_use_tokens d1" for d2 later
  proof -
    have "sut_get_active ?h EMAIL_VERIFICATION later d2 = sut_get_active ?h EMAIL_VERIFICATION later d1"
      using that by (simp add: sut_get_active_def)
    then show ?thesis using sp by (simp add: verification_confirm_def redeem_def active_token_def)
  qed
  show ?thesis
  proof (cases "user_email_verified_at u")
    case (Some t)
    then have "w = u" "d' = d1" using assms(2) r d1 by (auto simp: verification_confirm_def Let_def)
    then show ?thesis
      using a(2) u(1) get1 wf1 sp dead Some by (auto simp: wf_tokens_def)
  next
    case None
    let ?v = "u\<lparr>user_email_verified_at := Some now\<rparr>"
    have save: "user_save ?v d1 = Inr (w, d')"
      using None assms(2) r d1 by (simp add: verification_confirm_def Let_def)
    have g: "user_get (user_id u) d1 = Some u" using a(2) u(1) get1 by simp
    have asg: "assignable ?v d1" using u(2) fr by (simp add: assignable_def)
    note saved = saved_user [OF wfa1(1) g asg _ _ save]
    have "wf_tokens d'"
      using saved u wf_refresh_tokens_after_save [OF wfa1(2) save] wf_single_use_tokens_after_save [OF _ save] sp
      by (simp add: wf_tokens_def wf_sessions_def)
    then show ?thesis
      using saved u a(2) get1 None dead user_save_frame [OF save] by auto
  qed
qed

theorem verification_link_works_once_witness:
  "\<exists>w d'. verification_confirm plain_ext 5 ''vtok'' sample_links_db = Inr (w, d') \<and> wf_tokens d' \<and>
     error_code_of (verification_confirm plain_ext 6 ''vtok'' d') = Some AUTH_INVALID_TOKEN"
proof -
  obtain w d' where c: "verification_confirm plain_ext 5 ''vtok'' sample_links_db = Inr (w, d')"
    using not_isl_Inr [OF sample_links(6)] by (metis surj_pair)
  with verification_link_works_once [OF sample_links(1) c] show ?thesis by blast
qed

end
