(* ===== verification/Deps.thy ===== *)
theory Deps
  imports AuthService
begin

text \<open>
  The guards of \<open>app/api/deps.py\<close>: who is calling, on whose behalf, and whether the call is allowed.
\<close>

section \<open>The caller\<close>

record Actor =
  actor_user :: User
  actor_impersonator :: "User option"

definition actor_impersonator_id :: "Actor \<Rightarrow> ident option" where
  "actor_impersonator_id a = map_option user_id (actor_impersonator a)"

text \<open>\<open>changed.replace(microsecond=0) > issued_at\<close>.\<close>

definition password_moved_after :: "User \<Rightarrow> time \<Rightarrow> bool" where
  "password_moved_after user issued \<longleftrightarrow>
     (case user_password_changed_at user of
        None \<Rightarrow> False | Some changed \<Rightarrow> changed div 1000000 * 1000000 > issued)"

definition load_subject :: "str \<Rightarrow> time \<Rightarrow> database \<Rightarrow> User result" where
  "load_subject subject issued d =
     (case py_int subject of
        None \<Rightarrow> invalid_credentials
      | Some uid \<Rightarrow>
          (case user_get uid d of
             None \<Rightarrow> invalid_credentials
           | Some user \<Rightarrow>
               if password_moved_after user issued then invalid_credentials else Inr user))"

text \<open>\<open>get_actor\<close>, with the audit context of the request, which it binds to the caller.\<close>

definition get_actor ::
  "ext \<Rightarrow> Settings \<Rightarrow> time \<Rightarrow> str \<Rightarrow> AuditContext option \<Rightarrow> database \<Rightarrow> (Actor \<times> AuditContext option) result" where
  "get_actor ext s now token context d =
     rbind (decode_access_token ext s now token) (\<lambda>claims.
     rbind (load_subject (ac_subject claims) (ac_issued_at claims) d) (\<lambda>user.
     rbind (case ac_impersonator claims of
              None \<Rightarrow> Inr None
            | Some sub \<Rightarrow> map_sum id Some (load_subject sub (ac_issued_at claims) d)) (\<lambda>impersonator.
       if (case impersonator of None \<Rightarrow> False | Some i \<Rightarrow> \<not> may_impersonate i user)
       then raise_error ForbiddenError ''Impersonation is no longer allowed'' AUTH_IMPERSONATION_REVOKED
       else
         (let actor = \<lparr>actor_user = user, actor_impersonator = impersonator\<rparr>
          in Inr (actor, bind_actor (Some (user_id user)) (actor_impersonator_id actor) context)))))"

definition forbid_impersonation :: "Actor \<Rightarrow> unit result" where
  "forbid_impersonation actor =
     (if actor_impersonator actor \<noteq> None
      then raise_error ForbiddenError ''Not allowed while impersonating'' AUTH_IMPERSONATION_BLOCKED
      else Inr ())"

definition require_permission :: "str \<Rightarrow> str \<Rightarrow> Actor \<Rightarrow> Scope result" where
  "require_permission resource action actor =
     (if actor_impersonator actor \<noteq> None \<and> (resource, action) \<in> BLOCKED_WHILE_IMPERSONATING
      then raise_error ForbiddenError ''Not allowed while impersonating'' AUTH_IMPERSONATION_BLOCKED
      else (case scope_for (actor_user actor) resource action of
              None \<Rightarrow> raise_error ForbiddenError ''Insufficient permissions'' AUTH_INSUFFICIENT_PERMISSIONS
            | Some scope \<Rightarrow> Inr scope))"

section \<open>Lemmas\<close>

lemma load_subject_show:
  "db_int uid \<Longrightarrow> load_subject (show_int uid) issued d =
   (case user_get uid d of None \<Rightarrow> invalid_credentials
    | Some user \<Rightarrow> if password_moved_after user issued then invalid_credentials else Inr user)"
  by (simp add: load_subject_def py_int_show_int)

lemma whole_second_le: "(t :: int) div 1000000 * 1000000 \<le> t"
  using pos_mod_sign [of 1000000 t] by (simp add: minus_mod_eq_div_mult [symmetric])

lemma whole_second_add_minutes:
  "(t + minutes m) div 1000000 * 1000000 = t div 1000000 * 1000000 + minutes m"
  using div_mult_self1 [of 1000000 t "m * 60"] by (simp add: add.commute distrib_right mult.assoc)

lemma decode_issued_access:
  assumes "jwt_roundtrip ext" "datetime_range t0" "t0 \<le> now"
    and "now < t0 div 1000000 * 1000000 + minutes (access_token_expire_minutes s)"
  shows "decode_access_token ext s now (create_access_token ext s t0 jti sub) =
    Inr \<lparr>ac_subject = sub, ac_impersonator = None, ac_issued_at = t0 div 1000000 * 1000000\<rparr>"
  using assms whole_second_le [of t0]
  by (simp add: create_access_token_def decode_access_token_create_token [OF assms(1,2)] whole_second_add_minutes)

lemma decode_issued_impersonation:
  assumes "jwt_roundtrip ext" "datetime_range t0" "t0 \<le> now"
    and "now < t0 div 1000000 * 1000000 + minutes (impersonation_token_expire_minutes s)"
  shows "decode_access_token ext s now (create_impersonation_token ext s t0 jti sub imp) =
    Inr \<lparr>ac_subject = sub, ac_impersonator = Some imp, ac_issued_at = t0 div 1000000 * 1000000\<rparr>"
  using assms whole_second_le [of t0]
  by (simp add: create_impersonation_token_def decode_access_token_create_token [OF assms(1,2)] whole_second_add_minutes)

text \<open>A whole second is after an instant exactly when it is after the instant's whole second.\<close>

lemma whole_second_less: "(c :: int) div 1000000 * 1000000 > t div 1000000 * 1000000 \<longleftrightarrow> c div 1000000 > t div 1000000"
  by simp

section \<open>What the guards promise\<close>

text \<open>
  C13. An access token is good exactly as long as its account: while the token has not expired, a
  request with it is accepted, as that account and nobody else, if the account is still open and
  its password has not changed in a later second than the token's issue; otherwise it is refused
  as invalid credentials. The audit context is bound to the account.
\<close>

theorem access_token_follows_account:
  assumes "jwt_roundtrip ext" and "datetime_range t0" and "t0 \<le> now" and "db_int uid"
    and "now < t0 div 1000000 * 1000000 + minutes (access_token_expire_minutes s)"
  shows "get_actor ext s now (create_access_token ext s t0 jti (show_int uid)) context d =
    (case user_get uid d of
       None \<Rightarrow> raise_error AuthError ''Invalid authentication credentials'' AUTH_INVALID_CREDENTIALS
     | Some u \<Rightarrow>
         if (case user_password_changed_at u of None \<Rightarrow> False | Some c \<Rightarrow> c div 1000000 > t0 div 1000000)
         then raise_error AuthError ''Invalid authentication credentials'' AUTH_INVALID_CREDENTIALS
         else Inr (\<lparr>actor_user = u, actor_impersonator = None\<rparr>, bind_actor (Some (user_id u)) None context))"
  using decode_issued_access [OF assms(1-3,5)]
  by (auto simp: get_actor_def load_subject_show [OF assms(4)] password_moved_after_def actor_impersonator_id_def
      whole_second_less split: option.splits)


text \<open>
  The permission guard lets a call through exactly with the scope that the account's grants give,
  and an impersonated call never changes roles, accounts or feature flags and never impersonates
  further, whatever the impersonated account may do.
\<close>

theorem permission_guard_exact:
  "(\<exists>scope. require_permission resource action actor = Inr scope) =
     (scope_for (actor_user actor) resource action \<noteq> None \<and>
      (resource, action) \<notin> (if actor_impersonator actor = None then {} else
         {(''roles'', ''create''), (''roles'', ''update''), (''roles'', ''delete''), (''users'', ''update''),
          (''users'', ''delete''), (''users'', ''impersonate''), (''feature_flags'', ''update'')})) \<and>
   (case require_permission resource action actor of
      Inr scope \<Rightarrow> scope_for (actor_user actor) resource action = Some scope
    | Inl e \<Rightarrow> error_code_of (Inl e :: Scope result) \<in> {Some AUTH_IMPERSONATION_BLOCKED, Some AUTH_INSUFFICIENT_PERMISSIONS})"
  by (cases "scope_for (actor_user actor) resource action")
    (auto simp: require_permission_def BLOCKED_WHILE_IMPERSONATING_def raise_error_def make_error_def error_code_of_def)

theorem access_token_follows_account_witness:
  "\<exists>u d. register plain_ext ''s'' (sample_data ''a@b.co'') seeded_db = Inr (u, d) \<and>
     get_actor plain_ext sample_settings (seconds 9) (create_access_token plain_ext sample_settings (seconds 1) ''j'' (show_int 1)) None d =
       Inr (\<lparr>actor_user = u, actor_impersonator = None\<rparr>, None)"
proof -
  obtain u d where s: "register plain_ext ''s'' (sample_data ''a@b.co'') seeded_db = Inr (u, d)"
    "user_get (user_id u) d = Some u" "user_password_changed_at u = None" "user_id u = 1" by (rule sample_account)
  from access_token_follows_account [OF plain_ext_ok(1), of "seconds 1" "seconds 9" 1 sample_settings "''j''" None d] s
  show ?thesis by (auto simp: datetime_range_def sample_settings_def default_settings_def bind_actor_def)
qed


end
