(* ===== verification/Bytes.thy ===== *)
theory Bytes
  imports PyStr
begin

text \<open>
  The encodings of the standard library that the program uses: UTF-8 (\<open>str.encode\<close>, \<open>bytes.decode\<close>)
  and the URL-safe base64 alphabet (\<open>base64.urlsafe_b64encode\<close>, \<open>base64.urlsafe_b64decode\<close>, which
  skips foreign characters and stops at the padding). A byte string is a list of characters below 256.
\<close>

section \<open>UTF-8\<close>

definition utf8_char :: "char \<Rightarrow> str" where
  "utf8_char c = (let n = of_char c :: nat in
     if n < 128 then [c] else [char_of (192 + n div 64), char_of (128 + n mod 64)])"

definition utf8_encode :: "str \<Rightarrow> str" where
  "utf8_encode s = concat (map utf8_char s)"

definition cont :: "char \<Rightarrow> bool" where
  "cont c \<longleftrightarrow> (let n = of_char c :: nat in 128 \<le> n \<and> n < 192)"

definition between :: "nat \<Rightarrow> nat \<Rightarrow> char \<Rightarrow> bool" where
  "between lo hi c \<longleftrightarrow> (let n = of_char c :: nat in lo \<le> n \<and> n \<le> hi)"

text \<open>Whether \<open>bytes.decode()\<close> accepts a byte string (strict UTF-8, no surrogates, no overlong forms).\<close>

fun utf8_valid :: "str \<Rightarrow> bool" where
  "utf8_valid [] = True"
| "utf8_valid (a # rest) =
     (if between 0 127 a then utf8_valid rest
      else (case rest of
              [] \<Rightarrow> False
            | b # rest2 \<Rightarrow>
                if between 194 223 a then cont b \<and> utf8_valid rest2
                else (case rest2 of
                        [] \<Rightarrow> False
                      | c # rest3 \<Rightarrow>
                          if between 224 239 a
                          then cont b \<and> cont c \<and> (of_char a = (224::nat) \<longrightarrow> between 160 191 b)
                               \<and> (of_char a = (237::nat) \<longrightarrow> between 128 159 b) \<and> utf8_valid rest3
                          else (case rest3 of
                                  [] \<Rightarrow> False
                                | e # rest4 \<Rightarrow>
                                    between 240 244 a \<and> cont b \<and> cont c \<and> cont e
                                    \<and> (of_char a = (240::nat) \<longrightarrow> between 144 191 b)
                                    \<and> (of_char a = (244::nat) \<longrightarrow> between 128 143 b) \<and> utf8_valid rest4))))"

text \<open>
  \<open>bytes.decode()\<close> into text. A text with a code point above 255 has no representation in the
  model and reads as a failure.
\<close>

fun utf8_decode :: "str \<Rightarrow> str option" where
  "utf8_decode [] = Some []"
| "utf8_decode [a] = (if between 0 127 a then Some [a] else None)"
| "utf8_decode (a # b # rest) =
     (if between 0 127 a then map_option (Cons a) (utf8_decode (b # rest))
      else if between 194 195 a \<and> cont b
      then map_option (Cons (char_of ((of_char a - 192) * 64 + (of_char b - 128) :: nat))) (utf8_decode rest)
      else None)"

section \<open>Percent-encoding\<close>

text \<open>\<open>urllib.parse.quote(s, safe="")\<close>.\<close>

definition hex_upper :: "nat \<Rightarrow> char" where
  "hex_upper n = (if n < 10 then char_of (48 + n) else char_of (55 + n))"

definition unreserved :: "char \<Rightarrow> bool" where
  "unreserved c \<longleftrightarrow> between 65 90 c \<or> between 97 122 c \<or> between 48 57 c \<or> c \<in> {CHR ''_'', CHR ''.'', CHR ''-'', CHR ''~''}"

definition percent_encode :: "str \<Rightarrow> str" where
  "percent_encode s = concat (map (\<lambda>b. if unreserved b then [b]
     else [CHR ''%'', hex_upper (of_char b div 16), hex_upper (of_char b mod 16)]) (utf8_encode s))"

section \<open>Base64\<close>

definition b64_char :: "nat \<Rightarrow> char" where
  "b64_char v =
     (if v < 26 then char_of (65 + v) else if v < 52 then char_of (97 + (v - 26))
      else if v < 62 then char_of (48 + (v - 52)) else if v = 62 then CHR ''-'' else CHR ''_'')"

text \<open>The decoder maps \<open>-\<close> and \<open>_\<close> to \<open>+\<close> and \<open>/\<close> first, so it knows all four.\<close>

definition b64_val :: "char \<Rightarrow> nat option" where
  "b64_val c = (let n = of_char c :: nat in
     if 65 \<le> n \<and> n \<le> 90 then Some (n - 65) else if 97 \<le> n \<and> n \<le> 122 then Some (n - 71)
     else if 48 \<le> n \<and> n \<le> 57 then Some (n + 4) else if c = CHR ''-'' \<or> c = CHR ''+'' then Some 62
     else if c = CHR ''_'' \<or> c = CHR ''/'' then Some 63 else None)"

abbreviation b64_pad :: char where
  "b64_pad \<equiv> CHR ''=''"

fun b64_encode :: "str \<Rightarrow> str" where
  "b64_encode [] = []"
| "b64_encode [a] = (let n = of_char a :: nat in
     [b64_char (n div 4), b64_char (n mod 4 * 16), b64_pad, b64_pad])"
| "b64_encode [a, b] = (let n = of_char a :: nat; m = of_char b in
     [b64_char (n div 4), b64_char (n mod 4 * 16 + m div 16), b64_char (m mod 16 * 4), b64_pad])"
| "b64_encode (a # b # c # rest) = (let n = of_char a :: nat; m = of_char b; k = of_char c in
     b64_char (n div 4) # b64_char (n mod 4 * 16 + m div 16) # b64_char (m mod 16 * 4 + k div 64) #
     b64_char (k mod 64) # b64_encode rest)"

text \<open>
  \<open>binascii.a2b_base64\<close>, not strict: the position in the group of four, the bits left over and the
  pads seen since the last data character. \<open>None\<close> is \<open>binascii.Error\<close>.
\<close>

fun b64_scan :: "nat \<Rightarrow> nat \<Rightarrow> nat \<Rightarrow> str \<Rightarrow> str option" where
  "b64_scan q left pads [] = (if q = 0 then Some [] else None)"
| "b64_scan q left pads (ch # rest) =
     (if ch = b64_pad
      then (if 2 \<le> q \<and> 4 \<le> q + Suc pads then Some []
            else b64_scan q left (if 2 \<le> q then Suc pads else pads) rest)
      else (case b64_val ch of
              None \<Rightarrow> b64_scan q left pads rest
            | Some v \<Rightarrow>
                if q = 0 then b64_scan 1 v 0 rest
                else if q = 1
                then map_option (Cons (char_of (left * 4 + v div 16))) (b64_scan 2 (v mod 16) 0 rest)
                else if q = 2
                then map_option (Cons (char_of (left * 16 + v div 4))) (b64_scan 3 (v mod 4) 0 rest)
                else map_option (Cons (char_of (left * 64 + v))) (b64_scan 0 0 0 rest)))"

abbreviation b64_decode :: "str \<Rightarrow> str option" where
  "b64_decode \<equiv> b64_scan 0 0 0"

section \<open>Round trips\<close>

lemma of_char_less_256 [simp]: "(of_char c :: nat) < 256"
  by (metis nat_of_char_less_256)

lemma utf8_decode_ascii: "between 0 127 a \<Longrightarrow> utf8_decode (a # s) = map_option (Cons a) (utf8_decode s)"
  by (cases s) simp_all

lemma utf8_decode_encode: "utf8_decode (utf8_encode s) = Some s"
proof (induction s)
  case Nil
  show ?case by (simp add: utf8_encode_def)
next
  case (Cons c s)
  let ?n = "of_char c :: nat"
  show ?case
  proof (cases "?n < 128")
    case True
    then have "utf8_encode (c # s) = c # utf8_encode s" by (simp add: utf8_encode_def utf8_char_def)
    moreover have "between 0 127 c" using True by (simp add: between_def)
    ultimately show ?thesis using Cons by (simp add: utf8_decode_ascii)
  next
    case False
    have n: "?n div 64 < 4" using of_char_less_256 [of c] by (simp add: less_mult_imp_div_less)
    have lead: "(of_char (char_of (192 + ?n div 64)) :: nat) = 192 + ?n div 64" using n by simp
    have tail: "(of_char (char_of (128 + ?n mod 64)) :: nat) = 128 + ?n mod 64"
      using mod_less_divisor [of 64 ?n] by simp
    have two: "2 \<le> ?n div 64" using False by simp
    have "utf8_encode (c # s) = char_of (192 + ?n div 64) # char_of (128 + ?n mod 64) # utf8_encode s"
      using False by (simp add: utf8_encode_def utf8_char_def Let_def)
    then show ?thesis
      using Cons n two mod_less_divisor [of 64 ?n]
      by (simp add: between_def cont_def lead tail)
  qed
qed

lemma b64_val_char: "v < 64 \<Longrightarrow> b64_val (b64_char v) = Some v"
  by (auto simp: b64_val_def b64_char_def Let_def)

lemma b64_val_pad [simp]: "b64_val b64_pad = None"
  by (simp add: b64_val_def)

lemma b64_char_not_pad: "v < 64 \<Longrightarrow> b64_char v \<noteq> b64_pad"
  using b64_val_char [of v] b64_val_pad by (metis option.distinct(1))

lemma b64_decode_encode: "b64_scan 0 l p (b64_encode s) = Some s"
proof (induction s arbitrary: l p rule: b64_encode.induct)
  case (2 a)
  have n: "(of_char a :: nat) div 4 < 64" using of_char_less_256 [of a] by (simp add: less_mult_imp_div_less)
  show ?case using n by (simp add: b64_val_char b64_char_not_pad Let_def)
next
  case (3 a b)
  let ?n = "of_char a :: nat" and ?m = "of_char b :: nat"
  have n: "?n div 4 < 64" using of_char_less_256 [of a] by (simp add: less_mult_imp_div_less)
  have m: "?m div 16 < 16" using of_char_less_256 [of b] by (simp add: less_mult_imp_div_less)
  have v: "?n mod 4 * 16 + ?m div 16 < 64" using m mod_less_divisor [of 4 ?n] by linarith
  have w: "?m mod 16 * 4 < 64" using mod_less_divisor [of 16 ?m] by linarith
  have "(?n mod 4 * 16 + ?m div 16) div 16 = ?n mod 4" "(?n mod 4 * 16 + ?m div 16) mod 16 = ?m div 16"
    using m by simp_all
  then show ?case using n v w by (simp add: b64_val_char b64_char_not_pad Let_def)
next
  case (4 a b c rest)
  let ?n = "of_char a :: nat" and ?m = "of_char b :: nat" and ?k = "of_char c :: nat"
  have n: "?n div 4 < 64" using of_char_less_256 [of a] by (simp add: less_mult_imp_div_less)
  have m: "?m div 16 < 16" using of_char_less_256 [of b] by (simp add: less_mult_imp_div_less)
  have k: "?k div 64 < 4" using of_char_less_256 [of c] by (simp add: less_mult_imp_div_less)
  have v: "?n mod 4 * 16 + ?m div 16 < 64" using m mod_less_divisor [of 4 ?n] by linarith
  have w: "?m mod 16 * 4 + ?k div 64 < 64" using k mod_less_divisor [of 16 ?m] by linarith
  have "(?n mod 4 * 16 + ?m div 16) div 16 = ?n mod 4" "(?n mod 4 * 16 + ?m div 16) mod 16 = ?m div 16"
    "(?m mod 16 * 4 + ?k div 64) div 4 = ?m mod 16" "(?m mod 16 * 4 + ?k div 64) mod 4 = ?k div 64"
    using m k by simp_all
  then show ?case using n v w 4 by (simp add: b64_val_char b64_char_not_pad Let_def)
qed simp

lemma percent_encode_chars: "c \<in> set (percent_encode s) \<Longrightarrow> between 33 126 c \<and> c \<noteq> CHR 0x22"
proof -
  assume "c \<in> set (percent_encode s)"
  then obtain b where "c \<in> set (if unreserved b then [b]
      else [CHR ''%'', hex_upper (of_char b div 16), hex_upper (of_char b mod 16)])"
    unfolding percent_encode_def set_concat set_map by blast
  moreover have "(of_char b :: nat) div 16 < 16" using of_char_less_256 [of b] by (simp add: less_mult_imp_div_less)
  moreover have "between 33 126 (hex_upper n) \<and> hex_upper n \<noteq> CHR 0x22" if "n < 16" for n
  proof -
    have "(of_char (hex_upper n) :: nat) = (if n < 10 then 48 + n else 55 + n)" using that by (simp add: hex_upper_def)
    then have "33 \<le> (of_char (hex_upper n) :: nat)" "(of_char (hex_upper n) :: nat) \<le> 126" "(of_char (hex_upper n) :: nat) \<noteq> 34"
      using that by simp_all
    then show ?thesis by (auto simp: between_def Let_def)
  qed
  ultimately show ?thesis by (auto simp: unreserved_def between_def Let_def split: if_splits)
qed

end
