(* ===== verification/Idempotency.thy ===== *)
theory Idempotency
  imports Security Bytes
begin

text \<open>
  \<open>app/repositories/idempotency_repo.py\<close>, \<open>app/services/idempotency_service.py\<close>,
  \<open>app/api/idempotency_store.py\<close> and \<open>app/core/http/idempotency.py\<close>: a write that carries an
  \<open>Idempotency-Key\<close> runs once; a repetition gets the recorded response. Request and response bodies
  are byte strings (characters below 256); \<open>response_body\<close> holds the bytes that the text column
  encodes.
\<close>

section \<open>The repository\<close>

abbreviation PATH_LENGTH :: nat where
  "PATH_LENGTH \<equiv> 255"

definition idem_is :: "ident \<Rightarrow> str \<Rightarrow> IdempotencyKey \<Rightarrow> bool" where
  "idem_is uid key e \<longleftrightarrow> ik_user_id e = uid \<and> ik_key e = key"

definition idem_get :: "ident \<Rightarrow> str \<Rightarrow> database \<Rightarrow> IdempotencyKey option" where
  "idem_get uid key d = find_row (idem_is uid key) (t_idempotency_keys d)"

text \<open>
  \<open>claim\<close>: the insert in a savepoint. A unique violation is the answer \<open>None\<close> (the savepoint is rolled
  back), any other database error is raised.
\<close>

definition idem_claim ::
  "ident \<Rightarrow> str \<Rightarrow> str \<Rightarrow> str \<Rightarrow> str \<Rightarrow> database \<Rightarrow> database option result" where
  "idem_claim uid key method path request_hash d =
     (if length path > PATH_LENGTH then Inl (DataError STRING_TRUNCATION)
      else if idem_get uid key d \<noteq> None then Inr None
      else Inr (Some (bump TIdempotencyKeys (d\<lparr>t_idempotency_keys := t_idempotency_keys d @
             [\<lparr>ik_id = seqs d TIdempotencyKeys, ik_key = key, ik_user_id = uid, ik_method = method,
               ik_path = path, ik_request_hash = request_hash, ik_status_code = None,
               ik_response_body = None, ik_content_type = None, ik_completed_at = None,
               ik_created_at = tx_now d\<rparr>]\<rparr>))))"

definition idem_write :: "IdempotencyKey \<Rightarrow> (IdempotencyKey \<Rightarrow> IdempotencyKey) \<Rightarrow> database \<Rightarrow> database" where
  "idem_write entry f d =
     d\<lparr>t_idempotency_keys := update_where (\<lambda>e. ik_id e = ik_id entry) f (t_idempotency_keys d)\<rparr>"

definition idem_restart :: "IdempotencyKey \<Rightarrow> str \<Rightarrow> time \<Rightarrow> database \<Rightarrow> database" where
  "idem_restart entry request_hash now d =
     idem_write entry (\<lambda>e. e\<lparr>ik_request_hash := request_hash, ik_created_at := now, ik_status_code := None,
       ik_response_body := None, ik_content_type := None, ik_completed_at := None\<rparr>) d"

definition idem_complete ::
  "IdempotencyKey \<Rightarrow> int \<Rightarrow> str \<Rightarrow> str option \<Rightarrow> time \<Rightarrow> database \<Rightarrow> database" where
  "idem_complete entry status_code body content_type completed_at d =
     idem_write entry (\<lambda>e. e\<lparr>ik_status_code := Some status_code, ik_response_body := Some body,
       ik_content_type := content_type, ik_completed_at := Some completed_at\<rparr>) d"

definition idem_release :: "IdempotencyKey \<Rightarrow> database \<Rightarrow> database" where
  "idem_release entry d =
     d\<lparr>t_idempotency_keys := delete_where (\<lambda>e. ik_id e = ik_id entry) (t_idempotency_keys d)\<rparr>"

section \<open>The service\<close>

record StoredResponse =
  sr_status_code :: int
  sr_body :: str
  sr_content_type :: "str option"

record Attempt =
  at_user_id :: ident
  at_key :: str
  at_method :: str
  at_path :: str
  at_body :: str

datatype Claim = FRESH | REPLAY StoredResponse | MISMATCH | IN_FLIGHT

definition fingerprint :: "ext \<Rightarrow> Attempt \<Rightarrow> str" where
  "fingerprint ext a =
     ext_sha256_hex ext (utf8_encode (at_method a) @ [CHR 0x00] @ utf8_encode (at_path a) @ [CHR 0x00] @ at_body a)"

definition abandoned :: "time \<Rightarrow> time \<Rightarrow> IdempotencyKey \<Rightarrow> bool" where
  "abandoned timeout now entry \<longleftrightarrow> now - ik_created_at entry > timeout"

definition running_entry :: "IdempotencyKey \<Rightarrow> bool" where
  "running_entry entry \<longleftrightarrow> ik_completed_at entry = None \<or> ik_status_code entry = None"

definition resolve_claim :: "time \<Rightarrow> time \<Rightarrow> time \<Rightarrow> IdempotencyKey \<Rightarrow> str \<Rightarrow> database \<Rightarrow> Claim \<times> database" where
  "resolve_claim timeout now restart_at entry request_hash d =
     (if running_entry entry \<and> abandoned timeout now entry
      then (FRESH, idem_restart entry request_hash restart_at d)
      else if ik_request_hash entry \<noteq> request_hash then (MISMATCH, d)
      else if running_entry entry then (IN_FLIGHT, d)
      else (case ik_status_code entry of
              None \<Rightarrow> (IN_FLIGHT, d)
            | Some status \<Rightarrow>
                (REPLAY \<lparr>sr_status_code = status,
                   sr_body = (case ik_response_body entry of None \<Rightarrow> [] | Some b \<Rightarrow> b),
                   sr_content_type = ik_content_type entry\<rparr>, d)))"

text \<open>\<open>claim\<close> against one database, with no other transaction committing in between.\<close>

definition idem_service_claim ::
  "ext \<Rightarrow> time \<Rightarrow> time \<Rightarrow> time \<Rightarrow> Attempt \<Rightarrow> database \<Rightarrow> (Claim \<times> database) result" where
  "idem_service_claim ext timeout now restart_at a d =
     (let request_hash = fingerprint ext a in
      case idem_get (at_user_id a) (at_key a) d of
        Some existing \<Rightarrow> Inr (resolve_claim timeout now restart_at existing request_hash d)
      | None \<Rightarrow>
          rbind (idem_claim (at_user_id a) (at_key a) (at_method a) (at_path a) request_hash d) (\<lambda>claimed.
            (case claimed of
               Some d' \<Rightarrow> Inr (FRESH, d')
             | None \<Rightarrow>
                 (case idem_get (at_user_id a) (at_key a) d of
                    None \<Rightarrow> Inr (IN_FLIGHT, d)
                  | Some raced \<Rightarrow> Inr (resolve_claim timeout now restart_at raced request_hash d)))))"

definition idem_service_complete :: "ident \<Rightarrow> str \<Rightarrow> StoredResponse \<Rightarrow> time \<Rightarrow> database \<Rightarrow> database" where
  "idem_service_complete uid key response now d =
     (case idem_get uid key d of
        None \<Rightarrow> d
      | Some entry \<Rightarrow>
          idem_complete entry (sr_status_code response) (sr_body response) (sr_content_type response) now d)"

definition idem_service_release :: "ident \<Rightarrow> str \<Rightarrow> database \<Rightarrow> database" where
  "idem_service_release uid key d =
     (case idem_get uid key d of None \<Rightarrow> d | Some entry \<Rightarrow> idem_release entry d)"

section \<open>The middleware\<close>

abbreviation MAX_KEY_LENGTH :: nat where "MAX_KEY_LENGTH \<equiv> 255"
abbreviation MAX_STORED_BODY_BYTES :: nat where "MAX_STORED_BODY_BYTES \<equiv> 65536"
abbreviation JSON_CONTENT_TYPE :: str where "JSON_CONTENT_TYPE \<equiv> ''application/json''"
abbreviation BEARER_PREFIX :: str where "BEARER_PREFIX \<equiv> ''bearer ''"

definition IDEMPOTENT_METHODS :: "str set" where
  "IDEMPOTENT_METHODS = {''POST'', ''PATCH'', ''PUT'', ''DELETE''}"

text \<open>\<open>string.printable\<close> without white space: the characters from 33 to 126.\<close>

definition is_valid_key :: "str \<Rightarrow> bool" where
  "is_valid_key key \<longleftrightarrow> 0 < length key \<and> length key \<le> MAX_KEY_LENGTH \<and>
     (\<forall>c\<in>set key. between 33 126 c)"

definition caller_of :: "ext \<Rightarrow> Settings \<Rightarrow> time \<Rightarrow> str option \<Rightarrow> ident option result" where
  "caller_of ext s now authorization =
     (let header = (case authorization of None \<Rightarrow> [] | Some h \<Rightarrow> h) in
      if \<not> startswith BEARER_PREFIX (lower header) then Inr None
      else (case decode_access_token ext s now (strip (drop (length BEARER_PREFIX) header)) of
              Inl (Domain e) \<Rightarrow> Inr None
            | Inl e \<Rightarrow> Inl e
            | Inr claims \<Rightarrow>
                if ac_impersonator claims \<noteq> None then Inr None
                else Inr (py_int (ac_subject claims))))"

text \<open>
  A request as the middleware sees it. Reading the body is a result: the body limit may raise
  \<open>PayloadTooLargeError\<close> while it streams.
\<close>

record http_request =
  hr_is_http :: bool
  hr_method :: str
  hr_path :: str
  hr_idempotency_key :: "str option"
  hr_authorization :: "str option"
  hr_body :: "str result"

datatype verdict =
    PassThrough
  | Refuse int str ErrorCode
  | Replay StoredResponse
  | RunOnce Attempt

definition idem_intercept ::
  "ext \<Rightarrow> Settings \<Rightarrow> time \<Rightarrow> time \<Rightarrow> http_request \<Rightarrow> database \<Rightarrow> (verdict \<times> database) result" where
  "idem_intercept ext s now restart_at r d =
     (if \<not> hr_is_http r \<or> \<not> idempotency_enabled s then Inr (PassThrough, d)
      else (case hr_idempotency_key r of
        None \<Rightarrow> Inr (PassThrough, d)
      | Some key \<Rightarrow>
          if hr_method r \<notin> IDEMPOTENT_METHODS then Inr (PassThrough, d)
          else if \<not> is_valid_key key
          then Inr (Refuse 400 ''Idempotency-Key must be 1 to 255 printable characters'' IDEMPOTENCY_INVALID_KEY, d)
          else
            rbind (caller_of ext s now (hr_authorization r)) (\<lambda>caller.
              (case caller of
                 None \<Rightarrow> Inr (PassThrough, d)
               | Some uid \<Rightarrow>
                   (case hr_body r of
                      Inl (Domain e) \<Rightarrow>
                        if err_class e = PayloadTooLargeError
                        then Inr (Refuse 413 ''Request body too large'' PAYLOAD_TOO_LARGE, d)
                        else Inl (Domain e)
                    | Inl e \<Rightarrow> Inl e
                    | Inr body \<Rightarrow>
                        (let a = \<lparr>at_user_id = uid, at_key = key, at_method = hr_method r,
                                  at_path = hr_path r, at_body = body\<rparr> in
                         rbind (idem_service_claim ext (seconds (idempotency_in_flight_timeout_seconds s))
                                  now restart_at a d) (\<lambda>(claim, d').
                           Inr (case claim of
                                  REPLAY stored \<Rightarrow> Replay stored
                                | MISMATCH \<Rightarrow> Refuse 409
                                    ''This Idempotency-Key was already used with a different request''
                                    IDEMPOTENCY_BODY_MISMATCH
                                | IN_FLIGHT \<Rightarrow> Refuse 409
                                    ''A request with this Idempotency-Key is still running''
                                    IDEMPOTENCY_IN_FLIGHT
                                | FRESH \<Rightarrow> RunOnce a, d'))))))))"

text \<open>What \<open>_CapturedResponse\<close> holds when the application has returned.\<close>

record captured =
  cp_status_code :: int
  cp_content_type :: "str option"
  cp_body :: str

definition storable :: "captured \<Rightarrow> bool" where
  "storable c \<longleftrightarrow>
     (if \<not> (200 \<le> cp_status_code c \<and> cp_status_code c < 300) then False
      else if length (cp_body c) > MAX_STORED_BODY_BYTES then False
      else if cp_body c = [] then True
      else startswith JSON_CONTENT_TYPE (case cp_content_type c of None \<Rightarrow> [] | Some t \<Rightarrow> t))"

text \<open>
  \<open>_run\<close>, \<open>_remember\<close> and \<open>_forget\<close>, after the application returned (\<open>Some\<close>) or raised (\<open>None\<close>). A body that
  does not decode, or a content type too long for its column, fails the record; the failure is
  logged and the claim stays open.
\<close>

definition idem_finish :: "Attempt \<Rightarrow> captured option \<Rightarrow> time \<Rightarrow> database \<Rightarrow> database" where
  "idem_finish a outcome now d =
     (case outcome of
        None \<Rightarrow> idem_service_release (at_user_id a) (at_key a) d
      | Some c \<Rightarrow>
          if \<not> storable c then idem_service_release (at_user_id a) (at_key a) d
          else if \<not> utf8_valid (cp_body c) then d
          else if (case cp_content_type c of None \<Rightarrow> False | Some t \<Rightarrow> length t > 100) then d
          else idem_service_complete (at_user_id a) (at_key a)
                 \<lparr>sr_status_code = cp_status_code c, sr_body = cp_body c, sr_content_type = cp_content_type c\<rparr>
                 now d)"

section \<open>What a key stands for\<close>

text \<open>
  The contract of the store, without rows: a key of a caller is unused, open since some moment for a
  request with some fingerprint, or it holds a response. \<open>key_claim\<close> is the whole decision.
\<close>

datatype key_state = Unused | Open str time | Stored str StoredResponse

definition entry_response :: "IdempotencyKey \<Rightarrow> StoredResponse" where
  "entry_response e = \<lparr>sr_status_code = the (ik_status_code e),
     sr_body = (case ik_response_body e of None \<Rightarrow> [] | Some b \<Rightarrow> b), sr_content_type = ik_content_type e\<rparr>"

definition entry_state :: "IdempotencyKey \<Rightarrow> key_state" where
  "entry_state e = (if running_entry e then Open (ik_request_hash e) (ik_created_at e)
     else Stored (ik_request_hash e) (entry_response e))"

definition key_view :: "database \<Rightarrow> ident \<times> str \<Rightarrow> key_state" where
  "key_view d k = (case idem_get (fst k) (snd k) d of None \<Rightarrow> Unused | Some e \<Rightarrow> entry_state e)"

fun key_claim :: "time \<Rightarrow> time \<Rightarrow> str \<Rightarrow> key_state \<Rightarrow> Claim" where
  "key_claim timeout now h Unused = FRESH"
| "key_claim timeout now h (Open g t) =
     (if now - t > timeout then FRESH else if g \<noteq> h then MISMATCH else IN_FLIGHT)"
| "key_claim timeout now h (Stored g r) = (if g \<noteq> h then MISMATCH else REPLAY r)"

definition attempt_key :: "Attempt \<Rightarrow> ident \<times> str" where
  "attempt_key a = (at_user_id a, at_key a)"

definition wf_idempotency :: "database \<Rightarrow> bool" where
  "wf_idempotency d \<longleftrightarrow> keyed ik_id (t_idempotency_keys d) (seqs d TIdempotencyKeys)
     \<and> distinct (map (\<lambda>e. (ik_user_id e, ik_key e)) (t_idempotency_keys d))"

section \<open>Lemmas\<close>

lemma idem_is_iff: "idem_is uid key e \<longleftrightarrow> (ik_user_id e, ik_key e) = (uid, key)"
  by (simp add: idem_is_def)

lemma idem_get_SomeD:
  "idem_get uid key d = Some e \<Longrightarrow> e \<in> set (t_idempotency_keys d) \<and> ik_user_id e = uid \<and> ik_key e = key"
  by (auto simp: idem_get_def idem_is_def dest: find_row_SomeD)

text \<open>A row write through a looked-up entry changes the view of that entry's key and of no other.\<close>

lemma idem_get_write:
  assumes "wf_idempotency d" and "idem_get uid key d = Some e"
    and keep: "\<And>x. ik_user_id (f x) = ik_user_id x \<and> ik_key (f x) = ik_key x"
  shows "idem_get u k (idem_write e f d) =
    (if (u, k) = (uid, key) then Some (f e) else idem_get u k d)"
proof -
  have e: "e \<in> set (t_idempotency_keys d)" "ik_user_id e = uid" "ik_key e = key"
    using idem_get_SomeD [OF assms(2)] by auto
  have *: "idem_get u k (idem_write e f d) =
      map_option (\<lambda>x. if ik_id x = ik_id e then f x else x) (idem_get u k d)"
    unfolding idem_get_def idem_write_def
    using find_row_update_where [of "\<lambda>x. ik_id x = ik_id e" "idem_is u k" f] keep by (simp add: idem_is_def)
  show ?thesis
  proof (cases "(u, k) = (uid, key)")
    case True
    then show ?thesis using * assms(2) by simp
  next
    case False
    have "ik_id x \<noteq> ik_id e" if "idem_get u k d = Some x" for x
    proof
      assume "ik_id x = ik_id e"
      then have "x = e" using keyed_unique e(1) idem_get_SomeD [OF that] assms(1)
        unfolding wf_idempotency_def by metis
      then show False using idem_get_SomeD [OF that] e False by simp
    qed
    then show ?thesis using * False by (cases "idem_get u k d") auto
  qed
qed

lemma wf_idem_write:
  assumes "wf_idempotency d"
    and "\<And>x. ik_id (f x) = ik_id x \<and> ik_user_id (f x) = ik_user_id x \<and> ik_key (f x) = ik_key x"
  shows "wf_idempotency (idem_write e f d)"
  using assms by (simp add: wf_idempotency_def idem_write_def keyed_update_where map_update_where)

lemma idem_get_release:
  assumes "wf_idempotency d" and "idem_get uid key d = Some e"
  shows "idem_get u k (idem_release e d) = (if (u, k) = (uid, key) then None else idem_get u k d)"
proof -
  have e: "e \<in> set (t_idempotency_keys d)" "ik_user_id e = uid" "ik_key e = key"
    using idem_get_SomeD [OF assms(2)] by auto
  have same: "ik_id x = ik_id e \<longleftrightarrow> idem_is uid key x" if "x \<in> set (t_idempotency_keys d)" for x
    using assms(1) e that keyed_unique [of ik_id "t_idempotency_keys d" _ x e]
      distinct_key_eq [of "\<lambda>e. (ik_user_id e, ik_key e)" "t_idempotency_keys d" x e]
    unfolding wf_idempotency_def idem_is_iff by auto
  have "delete_where (\<lambda>x. ik_id x = ik_id e) (t_idempotency_keys d) =
      delete_where (idem_is uid key) (t_idempotency_keys d)"
    unfolding delete_where_def using same by (intro filter_cong) auto
  then have "idem_get u k (idem_release e d) =
      find_row (idem_is u k) (delete_where (idem_is uid key) (t_idempotency_keys d))"
    by (simp add: idem_get_def idem_release_def)
  also have "\<dots> = (if (u, k) = (uid, key) then None else idem_get u k d)"
    unfolding idem_get_def by (auto simp: find_row_delete_same idem_is_def intro!: find_row_delete_where)
  finally show ?thesis .
qed

lemma wf_idem_release: "wf_idempotency d \<Longrightarrow> wf_idempotency (idem_release e d)"
  by (simp add: wf_idempotency_def idem_release_def keyed_delete_where distinct_map_delete_where)

lemma idem_claim_cases:
  "idem_claim uid key m p h d = Inr r \<longleftrightarrow> length p \<le> 255 \<and>
     r = (if idem_get uid key d \<noteq> None then None else Some (bump TIdempotencyKeys (d\<lparr>t_idempotency_keys :=
       t_idempotency_keys d @ [\<lparr>ik_id = seqs d TIdempotencyKeys, ik_key = key, ik_user_id = uid, ik_method = m,
         ik_path = p, ik_request_hash = h, ik_status_code = None, ik_response_body = None,
         ik_content_type = None, ik_completed_at = None, ik_created_at = tx_now d\<rparr>]\<rparr>)))"
  by (auto simp: idem_claim_def)

lemma idem_claim_insert:
  assumes "wf_idempotency d" and "idem_claim uid key m p h d = Inr (Some d')"
  shows "wf_idempotency d'"
    and "key_view d' k = (if k = (uid, key) then Open h (tx_now d) else key_view d k)"
    and "key_view d (uid, key) = Unused"
proof -
  from assms(2) have none: "idem_get uid key d = None"
    and d': "d' = bump TIdempotencyKeys (d\<lparr>t_idempotency_keys :=
       t_idempotency_keys d @ [\<lparr>ik_id = seqs d TIdempotencyKeys, ik_key = key, ik_user_id = uid, ik_method = m,
         ik_path = p, ik_request_hash = h, ik_status_code = None, ik_response_body = None,
         ik_content_type = None, ik_completed_at = None, ik_created_at = tx_now d\<rparr>]\<rparr>)"
    by (auto simp: idem_claim_cases split: if_splits)
  have "(uid, key) \<notin> (\<lambda>e. (ik_user_id e, ik_key e)) ` set (t_idempotency_keys d)"
    using none by (auto simp: idem_get_def find_row_None_iff idem_is_def)
  then show "wf_idempotency d'"
    using assms(1) by (auto simp: d' wf_idempotency_def intro: keyed_append)
  show "key_view d (uid, key) = Unused" by (simp add: key_view_def none)
  show "key_view d' k = (if k = (uid, key) then Open h (tx_now d) else key_view d k)"
    using none by (cases k) (auto simp: d' key_view_def idem_get_def find_row_append idem_is_def
        entry_state_def running_entry_def split: option.split)
qed

lemma key_view_write:
  assumes "wf_idempotency d" and "idem_get uid key d = Some e"
    and "\<And>x. ik_user_id (f x) = ik_user_id x \<and> ik_key (f x) = ik_key x"
  shows "key_view (idem_write e f d) k = (if k = (uid, key) then entry_state (f e) else key_view d k)"
  using idem_get_write [OF assms, of "fst k" "snd k"] by (cases k) (simp add: key_view_def)

lemma resolve_claim_spec:
  assumes "wf_idempotency d" and "idem_get uid key d = Some e"
  shows "fst (resolve_claim timeout now at e h d) = key_claim timeout now h (key_view d (uid, key))"
    and "wf_idempotency (snd (resolve_claim timeout now at e h d))"
    and "key_view (snd (resolve_claim timeout now at e h d)) k =
      (if k = (uid, key) \<and> fst (resolve_claim timeout now at e h d) = FRESH then Open h at else key_view d k)"
proof -
  have view: "key_view d (uid, key) = entry_state e" using assms(2) by (simp add: key_view_def)
  show "fst (resolve_claim timeout now at e h d) = key_claim timeout now h (key_view d (uid, key))"
    unfolding view by (auto simp: resolve_claim_def entry_state_def entry_response_def running_entry_def
        abandoned_def split: option.split)
  show "wf_idempotency (snd (resolve_claim timeout now at e h d))"
    using assms(1) by (auto simp: resolve_claim_def idem_restart_def intro!: wf_idem_write split: option.split)
  show "key_view (snd (resolve_claim timeout now at e h d)) k =
      (if k = (uid, key) \<and> fst (resolve_claim timeout now at e h d) = FRESH then Open h at else key_view d k)"
    using key_view_write [OF assms, of "\<lambda>e. e\<lparr>ik_request_hash := h, ik_created_at := at, ik_status_code := None,
       ik_response_body := None, ik_content_type := None, ik_completed_at := None\<rparr>"]
    by (auto simp: resolve_claim_def idem_restart_def entry_state_def running_entry_def split: option.split)
qed

lemma idem_service_claim_spec:
  assumes "wf_idempotency d" and "idem_service_claim ext timeout now at a d = Inr (c, d')"
  shows "wf_idempotency d'"
    and "c = key_claim timeout now (fingerprint ext a) (key_view d (attempt_key a))"
    and "key_view d' k = (if k = attempt_key a \<and> c = FRESH
      then Open (fingerprint ext a) (if key_view d k = Unused then tx_now d else at) else key_view d k)"
    and "c \<noteq> FRESH \<Longrightarrow> d' = d"
proof -
  have main: "wf_idempotency d' \<and> c = key_claim timeout now (fingerprint ext a) (key_view d (attempt_key a)) \<and>
    key_view d' k = (if k = attempt_key a \<and> c = FRESH
      then Open (fingerprint ext a) (if key_view d k = Unused then tx_now d else at) else key_view d k) \<and>
    (c \<noteq> FRESH \<longrightarrow> d' = d)"
  proof (cases "idem_get (at_user_id a) (at_key a) d")
    case None
    then have none: "key_view d (attempt_key a) = Unused" by (simp add: key_view_def attempt_key_def)
    obtain r where r: "idem_claim (at_user_id a) (at_key a) (at_method a) (at_path a) (fingerprint ext a) d = Inr r"
      using assms(2) None by (auto simp: idem_service_claim_def Let_def elim: rbindE)
    then have "r \<noteq> None" using None by (auto simp: idem_claim_cases)
    then have "c = FRESH" "r = Some d'" using assms(2) None r by (auto simp: idem_service_claim_def Let_def)
    then show ?thesis
      using idem_claim_insert [OF assms(1)] r none by (simp add: attempt_key_def)
  next
    case (Some e)
    then have res: "(c, d') = resolve_claim timeout now at e (fingerprint ext a) d"
      using assms(2) by (simp add: idem_service_claim_def Let_def)
    have used: "key_view d (attempt_key a) \<noteq> Unused"
      using Some by (simp add: key_view_def attempt_key_def entry_state_def)
    have "c \<noteq> FRESH \<longrightarrow> d' = d"
      using res by (auto simp: resolve_claim_def split: if_splits option.splits)
    then show ?thesis
      using resolve_claim_spec [OF assms(1) Some, of timeout now at "fingerprint ext a"] used
      unfolding res [symmetric] by (auto simp: attempt_key_def)
  qed
  from main show "wf_idempotency d'" by blast
  from main show "c = key_claim timeout now (fingerprint ext a) (key_view d (attempt_key a))" by blast
  from main show "key_view d' k = (if k = attempt_key a \<and> c = FRESH
      then Open (fingerprint ext a) (if key_view d k = Unused then tx_now d else at) else key_view d k)" by blast
  from main show "c \<noteq> FRESH \<Longrightarrow> d' = d" by blast
qed

lemma idem_service_claim_total:
  assumes "length (at_path a) \<le> 255 \<or> key_view d (attempt_key a) \<noteq> Unused"
  shows "\<exists>r. idem_service_claim ext timeout now at a d = Inr r"
  using assms by (cases "idem_get (at_user_id a) (at_key a) d")
    (auto simp: idem_service_claim_def Let_def idem_claim_def key_view_def attempt_key_def)

fun key_complete :: "StoredResponse \<Rightarrow> key_state \<Rightarrow> key_state" where
  "key_complete r Unused = Unused"
| "key_complete r (Open h t) = Stored h r"
| "key_complete r (Stored h q) = Stored h r"

lemma idem_service_complete_spec:
  assumes "wf_idempotency d"
  shows "wf_idempotency (idem_service_complete uid key r now d)"
    and "key_view (idem_service_complete uid key r now d) k =
      (if k = (uid, key) then key_complete r (key_view d k) else key_view d k)"
proof -
  show "wf_idempotency (idem_service_complete uid key r now d)"
    using assms by (auto simp: idem_service_complete_def idem_complete_def intro!: wf_idem_write split: option.split)
  show "key_view (idem_service_complete uid key r now d) k =
      (if k = (uid, key) then key_complete r (key_view d k) else key_view d k)"
  proof (cases "idem_get uid key d")
    case None
    then show ?thesis by (simp add: idem_service_complete_def key_view_def)
  next
    case (Some e)
    show ?thesis
      using key_view_write [OF assms Some, of "\<lambda>e. e\<lparr>ik_status_code := Some (sr_status_code r),
          ik_response_body := Some (sr_body r), ik_content_type := sr_content_type r, ik_completed_at := Some now\<rparr>" k] Some
      by (auto simp: idem_service_complete_def idem_complete_def entry_state_def running_entry_def
          entry_response_def key_view_def)
  qed
qed

lemma idem_service_release_spec:
  assumes "wf_idempotency d"
  shows "wf_idempotency (idem_service_release uid key d)"
    and "key_view (idem_service_release uid key d) k = (if k = (uid, key) then Unused else key_view d k)"
proof -
  show "wf_idempotency (idem_service_release uid key d)"
    using assms by (simp add: idem_service_release_def wf_idem_release split: option.split)
  show "key_view (idem_service_release uid key d) k = (if k = (uid, key) then Unused else key_view d k)"
    using idem_get_release [OF assms, of uid key _ "fst k" "snd k"]
    by (cases k) (auto simp: idem_service_release_def key_view_def split: option.splits)
qed

section \<open>The store protocol\<close>

text \<open>
  \<open>IdempotencyStore\<close>, the protocol that the middleware calls, as a locale over the abstract key
  states; \<open>hash\<close> is the fingerprint, \<open>began\<close> the start of the transaction. Its lemmas are what the middleware relies on.
\<close>

locale idempotency_store =
  fixes view :: "'s \<Rightarrow> ident \<times> str \<Rightarrow> key_state"
    and claim :: "time \<Rightarrow> time \<Rightarrow> Attempt \<Rightarrow> 's \<Rightarrow> (Claim \<times> 's) result"
    and complete :: "ident \<Rightarrow> str \<Rightarrow> StoredResponse \<Rightarrow> time \<Rightarrow> 's \<Rightarrow> 's"
    and release :: "ident \<Rightarrow> str \<Rightarrow> 's \<Rightarrow> 's"
    and hash :: "Attempt \<Rightarrow> str"
    and timeout :: time
    and began :: "'s \<Rightarrow> time"
    and inv :: "'s \<Rightarrow> bool"
  assumes claim_law: "inv s \<Longrightarrow> claim now at a s = Inr (c, s') \<Longrightarrow>
      inv s' \<and> c = key_claim timeout now (hash a) (view s (attempt_key a)) \<and> (c \<noteq> FRESH \<longrightarrow> s' = s) \<and>
      (c = FRESH \<longrightarrow> view s' = (view s)(attempt_key a := Open (hash a)
        (if view s (attempt_key a) = Unused then began s else at)))"
    and claim_answers: "view s (attempt_key a) \<noteq> Unused \<or> length (at_path a) \<le> 255 \<Longrightarrow>
      \<exists>r. claim now at a s = Inr r"
    and complete_law: "inv s \<Longrightarrow> inv (complete uid key r now s) \<and>
      view (complete uid key r now s) = (view s)((uid, key) := key_complete r (view s (uid, key)))"
    and release_law: "inv s \<Longrightarrow> inv (release uid key s) \<and> view (release uid key s) = (view s)((uid, key) := Unused)"
begin

lemma fresh_opens:
  assumes "inv s" and "claim now at a s = Inr (FRESH, s')"
  obtains t where "inv s'" and "view s' = (view s)(attempt_key a := Open (hash a) t)"
  using claim_law [OF assms] by blast

text \<open>A key that holds a response answers every later claim, and is not changed by it.\<close>

lemma stored_answers:
  assumes "inv s" and "view s (attempt_key a) = Stored h r"
  shows "claim now at a s = Inr (if hash a = h then REPLAY r else MISMATCH, s)"
proof -
  obtain c s' where c: "claim now at a s = Inr (c, s')"
    using claim_answers [of s a now at] assms(2) by (metis key_state.distinct(3) surj_pair)
  then show ?thesis using claim_law [OF assms(1) c] assms(2) by (auto split: if_splits)
qed

lemma replay_after_complete:
  assumes "inv s" and "view s (attempt_key a) = Open (hash a) t" and "attempt_key b = attempt_key a"
  shows "claim now at b (complete (at_user_id a) (at_key a) r done s) =
    Inr (if hash b = hash a then REPLAY r else MISMATCH, complete (at_user_id a) (at_key a) r done s)"
  using complete_law [OF assms(1), of "at_user_id a" "at_key a" r "done"] assms(2,3)
  by (intro stored_answers) (auto simp: attempt_key_def)

lemma fresh_after_release:
  assumes "inv s" and "attempt_key b = attempt_key a" and "length (at_path b) \<le> 255"
  shows "\<exists>s'. claim now at b (release (at_user_id a) (at_key a) s) = Inr (FRESH, s')"
proof -
  let ?s = "release (at_user_id a) (at_key a) s"
  have *: "inv ?s" "view ?s (attempt_key b) = Unused"
    using release_law [OF assms(1), of "at_user_id a" "at_key a"] assms(2) by (auto simp: attempt_key_def)
  obtain c s' where "claim now at b ?s = Inr (c, s')" using claim_answers assms(3) by (metis surj_pair)
  then show ?thesis using claim_law [OF *(1)] *(2) by fastforce
qed

text \<open>While the first request runs, within the time it is given, nobody else gets to run.\<close>

lemma no_second_runner:
  assumes "inv s" and "view s (attempt_key a) = Open h t" and "now - t \<le> timeout"
  shows "claim now at a s = Inr (if hash a = h then IN_FLIGHT else MISMATCH, s)"
proof -
  obtain c s' where c: "claim now at a s = Inr (c, s')"
    using claim_answers [of s a now at] assms(2) by (metis key_state.distinct(1) surj_pair)
  then show ?thesis using claim_law [OF assms(1) c] assms(2,3) by (auto split: if_splits)
qed

end

interpretation idem: idempotency_store key_view "idem_service_claim ext timeout" idem_service_complete
    idem_service_release "fingerprint ext" timeout tx_now wf_idempotency for ext timeout
proof
  fix s s' :: database and now at a c
  assume s: "wf_idempotency s" and c: "idem_service_claim ext timeout now at a s = Inr (c, s')"
  note spec = idem_service_claim_spec [OF s c]
  have "c = FRESH \<Longrightarrow> key_view s' = (key_view s)(attempt_key a :=
      Open (fingerprint ext a) (if key_view s (attempt_key a) = Unused then tx_now s else at))"
    using spec(3) by (auto simp: fun_eq_iff)
  then show "wf_idempotency s' \<and> c = key_claim timeout now (fingerprint ext a) (key_view s (attempt_key a)) \<and>
      (c \<noteq> FRESH \<longrightarrow> s' = s) \<and>
      (c = FRESH \<longrightarrow> key_view s' = (key_view s)(attempt_key a := Open (fingerprint ext a)
        (if key_view s (attempt_key a) = Unused then tx_now s else at)))"
    using spec(1,2,4) by blast
next
  show "wf_idempotency s \<Longrightarrow> wf_idempotency (idem_service_complete uid key r now s) \<and>
      key_view (idem_service_complete uid key r now s) =
      (key_view s)((uid, key) := key_complete r (key_view s (uid, key)))" for s uid key r now
    using idem_service_complete_spec by (simp add: fun_eq_iff)
next
  show "wf_idempotency s \<Longrightarrow> wf_idempotency (idem_service_release uid key s) \<and>
      key_view (idem_service_release uid key s) = (key_view s)((uid, key) := Unused)" for s uid key
    using idem_service_release_spec by (simp add: fun_eq_iff)
qed (blast intro: idem_service_claim_total)

section \<open>What the middleware promises\<close>

definition recordable :: "captured \<Rightarrow> bool" where
  "recordable c \<longleftrightarrow> storable c \<and> utf8_valid (cp_body c) \<and>
     (case cp_content_type c of None \<Rightarrow> True | Some t \<Rightarrow> length t \<le> 100)"

definition captured_response :: "captured \<Rightarrow> StoredResponse" where
  "captured_response c =
     \<lparr>sr_status_code = cp_status_code c, sr_body = cp_body c, sr_content_type = cp_content_type c\<rparr>"

text \<open>The requests that reach the store, and with which attempt.\<close>

definition keyed_attempt :: "ext \<Rightarrow> Settings \<Rightarrow> time \<Rightarrow> http_request \<Rightarrow> Attempt \<Rightarrow> bool" where
  "keyed_attempt ext s now r a \<longleftrightarrow> hr_is_http r \<and> idempotency_enabled s \<and>
     hr_idempotency_key r = Some (at_key a) \<and> hr_method r = at_method a \<and> hr_method r \<in> IDEMPOTENT_METHODS \<and>
     is_valid_key (at_key a) \<and> caller_of ext s now (hr_authorization r) = Inr (Some (at_user_id a)) \<and>
     hr_path r = at_path a \<and> hr_body r = Inr (at_body a)"

definition claim_verdict :: "Attempt \<Rightarrow> Claim \<Rightarrow> verdict" where
  "claim_verdict a c = (case c of
      REPLAY stored \<Rightarrow> Replay stored
    | MISMATCH \<Rightarrow> Refuse 409 ''This Idempotency-Key was already used with a different request''
        IDEMPOTENCY_BODY_MISMATCH
    | IN_FLIGHT \<Rightarrow> Refuse 409 ''A request with this Idempotency-Key is still running'' IDEMPOTENCY_IN_FLIGHT
    | FRESH \<Rightarrow> RunOnce a)"

abbreviation in_flight_timeout :: "Settings \<Rightarrow> time" where
  "in_flight_timeout s \<equiv> seconds (idempotency_in_flight_timeout_seconds s)"

lemma idem_intercept_keyed:
  assumes "keyed_attempt ext s now r a"
  shows "idem_intercept ext s now at r d =
    rbind (idem_service_claim ext (in_flight_timeout s) now at a d) (\<lambda>(c, d'). Inr (claim_verdict a c, d'))"
  using assms unfolding keyed_attempt_def
  by (cases a) (auto simp: idem_intercept_def Let_def claim_verdict_def)

lemma idem_finish_recorded:
  "recordable c \<Longrightarrow> idem_finish a (Some c) now d =
     idem_service_complete (at_user_id a) (at_key a) (captured_response c) now d"
  by (auto simp: idem_finish_def recordable_def captured_response_def split: option.splits)

lemma idem_finish_released:
  "(\<And>c. outcome = Some c \<Longrightarrow> \<not> storable c) \<Longrightarrow>
     idem_finish a outcome now d = idem_service_release (at_user_id a) (at_key a) d"
  by (auto simp: idem_finish_def split: option.split)

lemma keyed_attempt_rerun:
  assumes "wf_idempotency d" and "keyed_attempt ext s now r a"
    and "idem_intercept ext s now at r d = Inr (RunOnce a, d1)"
  obtains t where "wf_idempotency d1" and "key_view d1 (attempt_key a) = Open (fingerprint ext a) t"
proof -
  from assms(2,3) obtain c where c: "idem_service_claim ext (in_flight_timeout s) now at a d = Inr (c, d1)"
    and "claim_verdict a c = RunOnce a"
    by (auto simp: idem_intercept_keyed elim!: rbindE split: prod.splits)
  then have "c = FRESH" by (cases c) (auto simp: claim_verdict_def)
  then show ?thesis using idem.fresh_opens [OF assms(1)] c that by (metis fun_upd_same)
qed

lemma same_idempotency_rows:
  assumes "t_idempotency_keys d' = t_idempotency_keys d" and "seqs d' TIdempotencyKeys = seqs d TIdempotencyKeys"
  shows "wf_idempotency d' = wf_idempotency d" and "key_view d' = key_view d"
  using assms by (auto simp: wf_idempotency_def key_view_def idem_get_def fun_eq_iff)

text \<open>
  C11. The store implements its contract. Forget the rows and keep, for each key of a caller, whether it
  is unused, open for a request since some instant, or answered: then claiming a key decides exactly as the
  contract does and opens that key alone, from the start of the transaction when it was unused and from the
  instant of the takeover when an abandoned claim is taken over, completing it records the answer for that key alone, unless it is
  unused, and releasing it makes that key alone unused again, whatever else the table holds.
\<close>

theorem store_refines_contract:
  assumes "wf_idempotency d"
  shows "(\<forall>now at a c d'. idem_service_claim ext timeout now at a d = Inr (c, d') \<longrightarrow> wf_idempotency d' \<and>
      c = key_claim timeout now (fingerprint ext a) (key_view d (attempt_key a)) \<and>
      (if c = FRESH then key_view d' = (key_view d)(attempt_key a := Open (fingerprint ext a)
         (if key_view d (attempt_key a) = Unused then tx_now d else at)) else d' = d)) \<and>
    (\<forall>uid key r now. wf_idempotency (idem_service_complete uid key r now d) \<and>
      key_view (idem_service_complete uid key r now d) =
        (key_view d)((uid, key) := (case key_view d (uid, key) of Open h t \<Rightarrow> Stored h r | Stored h old \<Rightarrow> Stored h r | Unused \<Rightarrow> Unused))) \<and>
    (\<forall>uid key. wf_idempotency (idem_service_release uid key d) \<and>
      key_view (idem_service_release uid key d) = (key_view d)((uid, key) := Unused))"
proof -
  have "(case k of Open h t \<Rightarrow> Stored h r | Stored h old \<Rightarrow> Stored h r | Unused \<Rightarrow> Unused) = key_complete r k" for k r
    by (cases k) simp_all
  then show ?thesis
    using idem.claim_law [OF assms] idem.complete_law [OF assms] idem.release_law [OF assms] by auto
qed

text \<open>
  C32. A request that carries an idempotency key and is let through runs to an answer; whatever it did
  to the other tables, the next request with that key of the same caller is decided by what became of
  it. After a recorded answer, the same request gets exactly that answer and a different one is refused
  as a mismatch, and neither runs; after an exception or an answer that is not kept (an error, an
  oversized or a non-JSON body), the request runs again.
\<close>

theorem repeated_request_decided:
  assumes "wf_idempotency d" and "keyed_attempt ext s now r a"
    and "idem_intercept ext s now at r d = Inr (RunOnce a, d1)"
    and "t_idempotency_keys d2 = t_idempotency_keys d1" and "seqs d2 TIdempotencyKeys = seqs d1 TIdempotencyKeys"
    and "keyed_attempt ext s now' r' b" and "attempt_key b = attempt_key a" and "length (at_path b) \<le> 255"
  shows "(recordable c \<longrightarrow> idem_intercept ext s now' at' r' (idem_finish a (Some c) done d2) =
      Inr (if fingerprint ext b = fingerprint ext a then Replay (captured_response c)
           else Refuse 409 ''This Idempotency-Key was already used with a different request''
             IDEMPOTENCY_BODY_MISMATCH, idem_finish a (Some c) done d2)) \<and>
    (\<forall>outcome. (case outcome of None \<Rightarrow> True | Some c \<Rightarrow> \<not> storable c) \<longrightarrow>
      (\<exists>d3. idem_intercept ext s now' at' r' (idem_finish a outcome done d2) = Inr (RunOnce b, d3)))"
proof -
  obtain t where "wf_idempotency d2" "key_view d2 (attempt_key a) = Open (fingerprint ext a) t"
    using keyed_attempt_rerun [OF assms(1-3)] same_idempotency_rows [OF assms(4,5)] by metis
  note opened = this
  have "\<exists>d3. idem_intercept ext s now' at' r' (idem_finish a outcome done d2) = Inr (RunOnce b, d3)"
    if "case outcome of None \<Rightarrow> True | Some c \<Rightarrow> \<not> storable c" for outcome
  proof -
    have "idem_finish a outcome done d2 = idem_service_release (at_user_id a) (at_key a) d2"
      using that by (intro idem_finish_released) auto
    moreover obtain d3 where "idem_service_claim ext (in_flight_timeout s) now' at' b
        (idem_service_release (at_user_id a) (at_key a) d2) = Inr (FRESH, d3)"
      using idem.fresh_after_release [OF opened(1) assms(7,8)] by blast
    ultimately show ?thesis by (simp add: idem_intercept_keyed [OF assms(6)] claim_verdict_def)
  qed
  then show ?thesis
    by (simp add: idem_intercept_keyed [OF assms(6)] idem_finish_recorded
        idem.replay_after_complete [OF opened assms(7)] claim_verdict_def)
qed

definition sample_post :: "str \<Rightarrow> http_request" where
  "sample_post body = \<lparr>hr_is_http = True, hr_method = ''POST'', hr_path = ''/v1/items'',
     hr_idempotency_key = Some ''k1'',
     hr_authorization = Some (''Bearer '' @ create_access_token plain_ext sample_settings 1 ''j'' ''7''),
     hr_body = Inr body\<rparr>"

definition sample_attempt :: "str \<Rightarrow> Attempt" where
  "sample_attempt body = \<lparr>at_user_id = 7, at_key = ''k1'', at_method = ''POST'', at_path = ''/v1/items'', at_body = body\<rparr>"

definition sample_answer :: captured where
  "sample_answer = \<lparr>cp_status_code = 201, cp_content_type = Some ''application/json'', cp_body = ''{}''\<rparr>"

lemma sample_recordable: "recordable sample_answer"
  by (simp add: recordable_def storable_def sample_answer_def startswith_def between_def)

lemma plain_int_last: "plain_int v \<noteq> [] \<and> \<not> is_space (last (plain_int v))"
  by (auto simp: plain_int_def plain_str_def last_replicate is_space_def)

lemma plain_token_shape:
  assumes "plain_claim_str ''sub'' p = c # cs" and "map_of p IMPERSONATOR_CLAIM = None"
  shows "\<exists>u v. plain_encode p key alg = CHR ''1'' # (u @ plain_int v)"
proof -
  have "plain_encode p key alg = CHR ''1'' # ((tl (plain_str (c # cs)) @ plain_str (plain_claim_str ''typ'' p)
      @ plain_str (plain_claim_str ''jti'' p) @ plain_int (plain_claim_int ''iat'' p))
      @ plain_int (plain_claim_int ''exp'' p))"
    unfolding plain_encode_def assms by (simp add: plain_str_def)
  then show ?thesis by blast
qed

lemma sample_caller:
  "caller_of plain_ext sample_settings (seconds 2)
     (Some (''Bearer '' @ create_access_token plain_ext sample_settings 1 ''j'' ''7'')) = Inr (Some 7)"
proof -
  let ?t = "create_access_token plain_ext sample_settings 1 ''j'' ''7''"
  have "\<exists>u v. ?t = CHR ''1'' # (u @ plain_int v)"
    unfolding create_access_token_def create_token_def plain_ext_def ext.select_convs
    by (rule plain_token_shape) (simp_all add: token_payload_def plain_claim_str_def)
  then have strip: "strip ?t = ?t"
    using plain_int_last by (intro strip_by_id) (auto simp: is_space_def)
  have "decode_access_token plain_ext sample_settings (seconds 2) ?t =
      Inr \<lparr>ac_subject = ''7'', ac_impersonator = None, ac_issued_at = 0\<rparr>"
    unfolding create_access_token_def using plain_ext_ok(1)
    by (subst decode_access_token_create_token)
      (simp_all add: datetime_range_def sample_settings_def default_settings_def)
  moreover have "py_int ''7'' = Some 7" by code_simp
  moreover have "startswith BEARER_PREFIX (lower (''Bearer '' @ t))" for t
  proof -
    have "lower ''Bearer '' = BEARER_PREFIX" by code_simp
    then show ?thesis unfolding map_append by (simp add: startswith_def del: list.map)
  qed
  moreover have "drop (length BEARER_PREFIX) (''Bearer '' @ t) = t" for t by simp
  ultimately show ?thesis
    by (simp add: caller_of_def strip Let_def del: append.simps list.map list.size drop.simps)
qed

lemma sample_keyed: "keyed_attempt plain_ext sample_settings (seconds 2) (sample_post ''x'') (sample_attempt ''x'')"
proof -
  have "''POST'' \<in> IDEMPOTENT_METHODS" "is_valid_key ''k1''" "idempotency_enabled sample_settings"
    by (simp_all add: IDEMPOTENT_METHODS_def is_valid_key_def between_def sample_settings_def default_settings_def)
  then show ?thesis
    using sample_caller by (simp add: keyed_attempt_def sample_post_def sample_attempt_def)
qed

lemma empty_idempotency: "wf_idempotency empty_db" "key_view empty_db = (\<lambda>k. Unused)"
  by (simp_all add: wf_idempotency_def keyed_def key_view_def idem_get_def empty_db_def fun_eq_iff)

theorem store_refines_contract_witness:
  "\<exists>d1. idem_service_claim plain_ext (seconds 60) (seconds 2) (seconds 2) (sample_attempt ''x'') empty_db = Inr (FRESH, d1) \<and>
     key_view d1 (7, ''k1'') = Open (fingerprint plain_ext (sample_attempt ''x'')) (tx_now empty_db)"
proof -
  have "length (at_path (sample_attempt ''x'')) \<le> 255" by (simp add: sample_attempt_def)
  then obtain c d1 where c: "idem_service_claim plain_ext (seconds 60) (seconds 2) (seconds 2) (sample_attempt ''x'') empty_db = Inr (c, d1)"
    using idem_service_claim_total by (metis surj_pair)
  have key: "attempt_key (sample_attempt ''x'') = (7, ''k1'')" by (simp add: attempt_key_def sample_attempt_def)
  from store_refines_contract [OF empty_idempotency(1), of plain_ext "seconds 60"] c
  have "c = key_claim (seconds 60) (seconds 2) (fingerprint plain_ext (sample_attempt ''x'')) (key_view empty_db (7, ''k1'')) \<and>
      (if c = FRESH then key_view d1 = (key_view empty_db)((7, ''k1'') := Open (fingerprint plain_ext (sample_attempt ''x''))
        (if key_view empty_db (7, ''k1'') = Unused then tx_now empty_db else seconds 2)) else d1 = empty_db)"
    unfolding key [symmetric] by blast
  then show ?thesis using c by (auto simp: empty_idempotency)
qed

lemma sample_runs:
  "\<exists>d1. idem_intercept plain_ext sample_settings (seconds 2) at (sample_post ''x'') empty_db =
     Inr (RunOnce (sample_attempt ''x''), d1)"
proof -
  have "length (at_path (sample_attempt ''x'')) \<le> 255" by (simp add: sample_attempt_def)
  then obtain c d1 where c: "idem_service_claim plain_ext (in_flight_timeout sample_settings) (seconds 2) at
      (sample_attempt ''x'') empty_db = Inr (c, d1)"
    using idem_service_claim_total by (metis surj_pair)
  moreover from this have "c = FRESH"
    using idem.claim_law [OF empty_idempotency(1) c] by (simp add: empty_idempotency)
  ultimately show ?thesis using idem_intercept_keyed [OF sample_keyed] by (auto simp: claim_verdict_def)
qed

theorem repeated_request_decided_witness:
  "\<exists>d1. idem_intercept plain_ext sample_settings (seconds 2) (seconds 2) (sample_post ''x'') empty_db =
       Inr (RunOnce (sample_attempt ''x''), d1) \<and>
     idem_intercept plain_ext sample_settings (seconds 2) (seconds 2) (sample_post ''x'')
       (idem_finish (sample_attempt ''x'') (Some sample_answer) (seconds 2) d1) =
     Inr (Replay (captured_response sample_answer),
       idem_finish (sample_attempt ''x'') (Some sample_answer) (seconds 2) d1)"
proof -
  obtain d1 where run: "idem_intercept plain_ext sample_settings (seconds 2) (seconds 2) (sample_post ''x'') empty_db =
       Inr (RunOnce (sample_attempt ''x''), d1)"
    using sample_runs by blast
  note sample_recordable
  moreover have "length (at_path (sample_attempt ''x'')) \<le> 255" by (simp add: sample_attempt_def)
  ultimately show ?thesis
    using repeated_request_decided [OF empty_idempotency(1) sample_keyed run refl refl sample_keyed refl,
        of sample_answer "seconds 2" "seconds 2"] run by simp
qed

section \<open>Requests that overlap\<close>

text \<open>
  The requests of several workers, interleaved at the granularity of the database: the lookup, the
  insert (which waits for a conflicting one and then fails), the restart of an abandoned claim, the
  application, and the record of its outcome are steps of their own. \<open>Crashed\<close> is a worker that dies
  while it runs. A step \<open>other\<close> stands for everything else that happens to the database. The
  requests are numbered; \<open>att i\<close> is what request \<open>i\<close> asks for.
\<close>

datatype phase =
    Idle | Missed | Abandoned IdempotencyKey | Running | Answered Claim | Failed | Finished captured | Crashed

record schedule =
  sch_db :: database
  sch_now :: time
  sch_phase :: "nat \<Rightarrow> phase"
  sch_taken_over :: bool

definition set_phase :: "nat \<Rightarrow> phase \<Rightarrow> schedule \<Rightarrow> schedule" where
  "set_phase i p st = st\<lparr>sch_phase := (sch_phase st)(i := p)\<rparr>"

definition on_entry :: "ext \<Rightarrow> time \<Rightarrow> Attempt \<Rightarrow> schedule \<Rightarrow> IdempotencyKey \<Rightarrow> phase" where
  "on_entry ext timeout a st e =
     (if running_entry e \<and> abandoned timeout (sch_now st) e then Abandoned e
      else Answered (fst (resolve_claim timeout (sch_now st) (sch_now st) e (fingerprint ext a) (sch_db st))))"

inductive idem_step :: "ext \<Rightarrow> time \<Rightarrow> (nat \<Rightarrow> Attempt) \<Rightarrow> schedule \<Rightarrow> schedule \<Rightarrow> bool"
  for ext timeout att where
  lookup_miss: "sch_phase st i = Idle \<Longrightarrow> idem_get (at_user_id (att i)) (at_key (att i)) (sch_db st) = None \<Longrightarrow>
     idem_step ext timeout att st (set_phase i Missed st)"
| lookup_hit: "sch_phase st i = Idle \<Longrightarrow> idem_get (at_user_id (att i)) (at_key (att i)) (sch_db st) = Some e \<Longrightarrow>
     idem_step ext timeout att st (set_phase i (on_entry ext timeout (att i) st e) st)"
| insert_ok: "sch_phase st i = Missed \<Longrightarrow>
     idem_claim (at_user_id (att i)) (at_key (att i)) (at_method (att i)) (at_path (att i))
       (fingerprint ext (att i)) ((sch_db st)\<lparr>tx_now := sch_now st\<rparr>) = Inr (Some d') \<Longrightarrow>
     idem_step ext timeout att st (set_phase i Running (st\<lparr>sch_db := d'\<rparr>))"
| insert_conflict: "sch_phase st i = Missed \<Longrightarrow>
     idem_claim (at_user_id (att i)) (at_key (att i)) (at_method (att i)) (at_path (att i))
       (fingerprint ext (att i)) ((sch_db st)\<lparr>tx_now := sch_now st\<rparr>) = Inr None \<Longrightarrow>
     idem_get (at_user_id (att i)) (at_key (att i)) (sch_db st) = Some e \<Longrightarrow>
     idem_step ext timeout att st (set_phase i (on_entry ext timeout (att i) st e) st)"
| insert_error: "sch_phase st i = Missed \<Longrightarrow>
     idem_claim (at_user_id (att i)) (at_key (att i)) (at_method (att i)) (at_path (att i))
       (fingerprint ext (att i)) ((sch_db st)\<lparr>tx_now := sch_now st\<rparr>) = Inl err \<Longrightarrow>
     idem_step ext timeout att st (set_phase i Failed st)"
| restart: "sch_phase st i = Abandoned e \<Longrightarrow>
     idem_step ext timeout att st (set_phase i Running (st\<lparr>
       sch_db := idem_restart e (fingerprint ext (att i)) (sch_now st) (sch_db st), sch_taken_over := True\<rparr>))"
| finish: "sch_phase st i = Running \<Longrightarrow>
     idem_step ext timeout att st (set_phase i (Finished c)
       (st\<lparr>sch_db := idem_finish (att i) (Some c) (sch_now st) (sch_db st)\<rparr>))"
| raised: "sch_phase st i = Running \<Longrightarrow>
     idem_step ext timeout att st (set_phase i Failed
       (st\<lparr>sch_db := idem_finish (att i) None (sch_now st) (sch_db st)\<rparr>))"
| crash: "sch_phase st i = Running \<Longrightarrow> idem_step ext timeout att st (set_phase i Crashed st)"
| tick: "0 \<le> n \<Longrightarrow> idem_step ext timeout att st (st\<lparr>sch_now := sch_now st + n\<rparr>)"
| other: "t_idempotency_keys d' = t_idempotency_keys (sch_db st) \<Longrightarrow>
     seqs d' TIdempotencyKeys = seqs (sch_db st) TIdempotencyKeys \<Longrightarrow>
     idem_step ext timeout att st (st\<lparr>sch_db := d'\<rparr>)"

definition idem_start :: "schedule \<Rightarrow> bool" where
  "idem_start st \<longleftrightarrow> t_idempotency_keys (sch_db st) = [] \<and> (\<forall>i. sch_phase st i = Idle) \<and> \<not> sch_taken_over st"

inductive idem_reachable :: "ext \<Rightarrow> time \<Rightarrow> (nat \<Rightarrow> Attempt) \<Rightarrow> schedule \<Rightarrow> bool"
  for ext timeout att where
  start: "idem_start st \<Longrightarrow> idem_reachable ext timeout att st"
| step: "idem_reachable ext timeout att st \<Longrightarrow> idem_step ext timeout att st st' \<Longrightarrow>
     idem_reachable ext timeout att st'"

text \<open>
  How the phases of the requests and the key states belong together while no claim has been taken
  over: a running request holds its key open, a recorded answer is what the key stores, and a stored
  or replayed response is the recorded answer of a request with the same key and fingerprint.
\<close>

definition recorded :: "(nat \<Rightarrow> phase) \<Rightarrow> nat \<Rightarrow> captured \<Rightarrow> bool" where
  "recorded phase i c \<longleftrightarrow> phase i = Finished c \<and> recordable c"

definition coherent ::
  "ext \<Rightarrow> (nat \<Rightarrow> Attempt) \<Rightarrow> (ident \<times> str \<Rightarrow> key_state) \<Rightarrow> (nat \<Rightarrow> phase) \<Rightarrow> bool" where
  "coherent ext att view phase \<longleftrightarrow>
     (\<forall>i. phase i = Running \<longrightarrow> (\<exists>t. view (attempt_key (att i)) = Open (fingerprint ext (att i)) t)) \<and>
     (\<forall>i j. phase i = Running \<longrightarrow> phase j = Running \<longrightarrow> attempt_key (att i) = attempt_key (att j) \<longrightarrow> i = j) \<and>
     (\<forall>i c. recorded phase i c \<longrightarrow>
        view (attempt_key (att i)) = Stored (fingerprint ext (att i)) (captured_response c)) \<and>
     (\<forall>i j c c'. recorded phase i c \<longrightarrow> recorded phase j c' \<longrightarrow>
        attempt_key (att i) = attempt_key (att j) \<longrightarrow> i = j) \<and>
     (\<forall>k h r. view k = Stored h r \<longrightarrow> (\<exists>j c. recorded phase j c \<and> attempt_key (att j) = k \<and>
        fingerprint ext (att j) = h \<and> captured_response c = r)) \<and>
     (\<forall>i r. phase i = Answered (REPLAY r) \<longrightarrow> (\<exists>j c. recorded phase j c \<and>
        attempt_key (att j) = attempt_key (att i) \<and> fingerprint ext (att j) = fingerprint ext (att i) \<and>
        captured_response c = r))"

lemma coherentD:
  assumes "coherent ext att view phase"
  shows "phase i = Running \<Longrightarrow> \<exists>t. view (attempt_key (att i)) = Open (fingerprint ext (att i)) t"
    and "phase i = Running \<Longrightarrow> phase j = Running \<Longrightarrow> attempt_key (att i) = attempt_key (att j) \<Longrightarrow> i = j"
    and "recorded phase i c \<Longrightarrow>
      view (attempt_key (att i)) = Stored (fingerprint ext (att i)) (captured_response c)"
    and "recorded phase i c \<Longrightarrow> recorded phase j c' \<Longrightarrow> attempt_key (att i) = attempt_key (att j) \<Longrightarrow> i = j"
    and "view k = Stored h r \<Longrightarrow> \<exists>j c. recorded phase j c \<and> attempt_key (att j) = k \<and>
      fingerprint ext (att j) = h \<and> captured_response c = r"
    and "phase i = Answered (REPLAY r) \<Longrightarrow> \<exists>j c. recorded phase j c \<and>
      attempt_key (att j) = attempt_key (att i) \<and> fingerprint ext (att j) = fingerprint ext (att i) \<and>
      captured_response c = r"
  using assms unfolding coherent_def by blast+

lemma recorded_upd:
  "recorded (phase(i := p)) j c \<longleftrightarrow> (if j = i then p = Finished c \<and> recordable c else recorded phase j c)"
  by (simp add: recorded_def)

text \<open>A request that does not hold a key moves to a phase that does not either.\<close>

lemma coherent_move:
  assumes "coherent ext att view phase" and "\<And>c. phase i \<noteq> Finished c"
    and "p \<noteq> Running" and "\<And>c. p \<noteq> Finished c"
    and "\<And>r. p = Answered (REPLAY r) \<Longrightarrow> view (attempt_key (att i)) = Stored (fingerprint ext (att i)) r"
  shows "coherent ext att view (phase(i := p))"
proof -
  have same: "recorded (phase(i := p)) j c \<longleftrightarrow> recorded phase j c" for j c
    using assms(2,4) by (auto simp: recorded_def)
  note D = coherentD [OF assms(1)]
  show ?thesis
    unfolding coherent_def same
    using D(1-4) D(5) D(6) assms(3,5) by (auto simp: D(5))
qed

lemma coherent_open:
  assumes "coherent ext att view phase" and "view (attempt_key (att i)) = Unused" and "phase i = Missed"
  shows "coherent ext att (view(attempt_key (att i) := Open (fingerprint ext (att i)) t)) (phase(i := Running))"
proof -
  have same: "recorded (phase(i := Running)) j c \<longleftrightarrow> recorded phase j c" for j c
    using assms(3) by (auto simp: recorded_def)
  note D = coherentD [OF assms(1)]
  have "attempt_key (att j) \<noteq> attempt_key (att i)" if "phase j = Running" for j
    using D(1) [OF that] assms(2) by auto
  moreover have "attempt_key (att j) \<noteq> attempt_key (att i)" if "recorded phase j c" for j c
    using D(3) [OF that] assms(2) by auto
  ultimately show ?thesis
    unfolding coherent_def same using D(1-4) D(5) D(6) by (auto split: if_splits) blast
qed

text \<open>The request that holds a key lets go of it: the key is freed, or it stores the answer.\<close>

lemma coherent_close:
  assumes "coherent ext att view phase" and "phase i = Running"
    and "p \<noteq> Running" and "\<And>r. p \<noteq> Answered r"
    and "if (\<exists>c. p = Finished c \<and> recordable c)
      then \<exists>c. p = Finished c \<and> k = Stored (fingerprint ext (att i)) (captured_response c)
      else \<forall>h r. k \<noteq> Stored h r"
  shows "coherent ext att (view(attempt_key (att i) := k)) (phase(i := p))"
proof -
  note D = coherentD [OF assms(1)]
  obtain t where t: "view (attempt_key (att i)) = Open (fingerprint ext (att i)) t" using D(1) assms(2) by blast
  have run: "attempt_key (att j) \<noteq> attempt_key (att i)" if "phase j = Running" "j \<noteq> i" for j
    using D(2) [OF that(1) assms(2)] that(2) by blast
  have rec: "attempt_key (att j) \<noteq> attempt_key (att i)" if "recorded phase j c" for j c
    using D(3) [OF that] t by auto
  have mono: "recorded (phase(i := p)) j c" if "recorded phase j c" for j c
    using that assms(2) by (auto simp: recorded_def)
  show ?thesis
    unfolding coherent_def
  proof (intro conjI allI impI)
    fix key h r assume "(view(attempt_key (att i) := k)) key = Stored h r"
    then show "\<exists>j c. recorded (phase(i := p)) j c \<and> attempt_key (att j) = key \<and>
        fingerprint ext (att j) = h \<and> captured_response c = r"
      using D(5) [of key h r] mono assms(5) by (fastforce simp: recorded_upd split: if_splits)
  next
    fix j r assume "(phase(i := p)) j = Answered (REPLAY r)"
    then show "\<exists>l c. recorded (phase(i := p)) l c \<and> attempt_key (att l) = attempt_key (att j) \<and>
        fingerprint ext (att l) = fingerprint ext (att j) \<and> captured_response c = r"
      using D(6) [of j r] mono assms(4) by (fastforce split: if_splits)
  qed (use assms(3,5) run rec D(1-4) in \<open>auto simp: recorded_upd split: if_splits\<close>)
qed

lemma on_entry_not_holding [simp]:
  "on_entry ext timeout a st e \<noteq> Running" "on_entry ext timeout a st e \<noteq> Finished c"
  by (simp_all add: on_entry_def)

lemma on_entry_replay:
  assumes "idem_get (at_user_id a) (at_key a) (sch_db st) = Some e"
    and "on_entry ext timeout a st e = Answered (REPLAY r)"
  shows "key_view (sch_db st) (attempt_key a) = Stored (fingerprint ext a) r"
proof -
  have "key_view (sch_db st) (attempt_key a) = entry_state e"
    using assms(1) by (simp add: key_view_def attempt_key_def)
  with assms(2) show ?thesis
    by (auto simp: on_entry_def resolve_claim_def entry_state_def entry_response_def running_entry_def
        split: if_splits option.splits)
qed

lemma idem_finish_view:
  assumes "wf_idempotency d"
  shows "wf_idempotency (idem_finish a outcome now d)"
    and "\<exists>k. key_view (idem_finish a outcome now d) = (key_view d)(attempt_key a := k) \<and>
      (if (\<exists>c. outcome = Some c \<and> recordable c)
       then k = key_complete (captured_response (the outcome)) (key_view d (attempt_key a))
       else k = Unused \<or> k = key_view d (attempt_key a))"
proof -
  have "idem_finish a (Some c) now d = d" if "storable c" "\<not> recordable c" for c
    using that by (auto simp: idem_finish_def recordable_def split: option.splits)
  moreover have "\<not> recordable c" if "\<not> storable c" for c
    using that by (simp add: recordable_def)
  ultimately consider (rec) c where "outcome = Some c" "recordable c"
    | (rel) "\<nexists>c. outcome = Some c \<and> recordable c"
        "idem_finish a outcome now d = idem_service_release (at_user_id a) (at_key a) d"
    | (keep) "\<nexists>c. outcome = Some c \<and> recordable c" "idem_finish a outcome now d = d"
    using idem_finish_released [of outcome a now d] by (metis option.sel)
  then have "wf_idempotency (idem_finish a outcome now d) \<and>
    (\<exists>k. key_view (idem_finish a outcome now d) = (key_view d)(attempt_key a := k) \<and>
      (if (\<exists>c. outcome = Some c \<and> recordable c)
       then k = key_complete (captured_response (the outcome)) (key_view d (attempt_key a))
       else k = Unused \<or> k = key_view d (attempt_key a)))"
  proof cases
    case rec
    then show ?thesis
      using idem.complete_law [OF assms, of "at_user_id a" "at_key a" "captured_response c" now]
      by (auto simp: idem_finish_recorded attempt_key_def)
  next
    case rel
    then show ?thesis using idem.release_law [OF assms, of "at_user_id a" "at_key a"] by (auto simp: attempt_key_def)
  next
    case keep
    then show ?thesis using assms by (auto intro!: exI [of _ "key_view d (attempt_key a)"])
  qed
  then show "wf_idempotency (idem_finish a outcome now d)"
    and "\<exists>k. key_view (idem_finish a outcome now d) = (key_view d)(attempt_key a := k) \<and>
      (if (\<exists>c. outcome = Some c \<and> recordable c)
       then k = key_complete (captured_response (the outcome)) (key_view d (attempt_key a))
       else k = Unused \<or> k = key_view d (attempt_key a))"
    by blast+
qed

abbreviation idem_inv :: "ext \<Rightarrow> (nat \<Rightarrow> Attempt) \<Rightarrow> schedule \<Rightarrow> bool" where
  "idem_inv ext att st \<equiv> wf_idempotency (sch_db st) \<and> coherent ext att (key_view (sch_db st)) (sch_phase st)"

lemma finish_step:
  assumes "idem_inv ext att st" and "sch_phase st i = Running" and "p \<noteq> Running" and "\<And>r. p \<noteq> Answered r"
    and "\<And>c. p = Finished c \<longleftrightarrow> outcome = Some c"
  shows "idem_inv ext att (set_phase i p (st\<lparr>sch_db := idem_finish (att i) outcome now (sch_db st)\<rparr>))"
proof -
  from assms(1,2) obtain t where t: "key_view (sch_db st) (attempt_key (att i)) = Open (fingerprint ext (att i)) t"
    using coherentD(1) by blast
  obtain k where k: "key_view (idem_finish (att i) outcome now (sch_db st)) =
      (key_view (sch_db st))(attempt_key (att i) := k)"
    "if (\<exists>c. outcome = Some c \<and> recordable c)
     then k = key_complete (captured_response (the outcome)) (key_view (sch_db st) (attempt_key (att i)))
     else k = Unused \<or> k = key_view (sch_db st) (attempt_key (att i))"
    using idem_finish_view(2) assms(1) by blast
  have "coherent ext att ((key_view (sch_db st))(attempt_key (att i) := k)) ((sch_phase st)(i := p))"
    using assms t k(2) by (intro coherent_close) (auto split: if_splits)
  then show ?thesis using assms(1) idem_finish_view(1) by (simp add: set_phase_def k(1))
qed

lemma insert_step:
  assumes "idem_inv ext att st" and "sch_phase st i = Missed"
    and "idem_claim (at_user_id (att i)) (at_key (att i)) (at_method (att i)) (at_path (att i))
       (fingerprint ext (att i)) ((sch_db st)\<lparr>tx_now := sch_now st\<rparr>) = Inr (Some d')"
  shows "idem_inv ext att (set_phase i Running (st\<lparr>sch_db := d'\<rparr>))"
proof -
  let ?d = "(sch_db st)\<lparr>tx_now := sch_now st\<rparr>"
  have same: "wf_idempotency ?d = wf_idempotency (sch_db st)" "key_view ?d = key_view (sch_db st)"
    by (rule same_idempotency_rows; simp)+
  with assms(1) have wf: "wf_idempotency ?d" by simp
  note ins = idem_claim_insert [OF wf assms(3)]
  have "key_view d' = (key_view (sch_db st))(attempt_key (att i) := Open (fingerprint ext (att i)) (sch_now st))"
    using ins(2) same(2) by (auto simp: fun_eq_iff attempt_key_def)
  moreover have "key_view (sch_db st) (attempt_key (att i)) = Unused"
    using ins(3) same(2) by (simp add: attempt_key_def)
  ultimately show ?thesis using assms(1,2) ins(1) by (simp add: set_phase_def coherent_open)
qed

lemma move_step:
  assumes "idem_inv ext att st" and "\<And>c. sch_phase st i \<noteq> Finished c" and "p \<noteq> Running" and "\<And>c. p \<noteq> Finished c"
    and "\<And>r. p = Answered (REPLAY r) \<Longrightarrow>
      key_view (sch_db st) (attempt_key (att i)) = Stored (fingerprint ext (att i)) r"
  shows "idem_inv ext att (set_phase i p st)"
  using assms coherent_move [of ext att "key_view (sch_db st)" "sch_phase st" i p] by (simp add: set_phase_def)

lemma idem_step_inv:
  assumes "idem_step ext timeout att st st'" and "idem_inv ext att st" and "\<not> sch_taken_over st'"
  shows "idem_inv ext att st'"
  using assms
proof (induction rule: idem_step.induct)
  case (lookup_hit st i e)
  then show ?case by (intro move_step) (auto intro: on_entry_replay)
next
  case (insert_conflict st i e)
  then show ?case by (intro move_step) (auto intro: on_entry_replay)
next
  case (insert_ok st i d')
  from insert_step [OF insert_ok(3,1,2)] show ?case .
next
  case (lookup_miss st i)
  then show ?case by (intro move_step) auto
next
  case (insert_error st i err)
  then show ?case by (intro move_step) auto
next
  case (crash st i)
  then show ?case by (intro move_step) auto
next
  case (finish st i c)
  then show ?case by (intro finish_step) auto
next
  case (raised st i)
  then show ?case by (intro finish_step) auto
next
  case (other d' st)
  then show ?case using same_idempotency_rows [of d' "sch_db st"] by simp
qed (simp_all add: set_phase_def)

lemma takeover_stays: "idem_step ext timeout att st st' \<Longrightarrow> sch_taken_over st \<Longrightarrow> sch_taken_over st'"
  by (induction rule: idem_step.induct) (simp_all add: set_phase_def)

lemma idem_reachable_inv:
  "idem_reachable ext timeout att st \<Longrightarrow> \<not> sch_taken_over st \<Longrightarrow> idem_inv ext att st"
proof (induction rule: idem_reachable.induct)
  case (start st)
  then have "key_view (sch_db st) = (\<lambda>k. Unused)" "wf_idempotency (sch_db st)"
    by (simp_all add: idem_start_def key_view_def idem_get_def fun_eq_iff wf_idempotency_def keyed_def)
  with start show ?case by (simp add: idem_start_def coherent_def recorded_def)
next
  case (step st st')
  then show ?case using idem_step_inv takeover_stays by metis
qed

text \<open>
  C5. However lookups, inserts, runs and records of concurrent requests interleave, and whichever
  workers die: as long as no abandoned claim has been taken over, at most one request with a given
  caller and key is running or has a recorded answer, and every replayed response is the recorded
  answer of a request with the same caller, key and fingerprint.
\<close>

theorem keyed_requests_run_once:
  assumes "idem_reachable ext timeout att st" and "\<not> sch_taken_over st"
    and "attempt_key (att i) = attempt_key (att j)"
    and "sch_phase st i = Running \<or> (\<exists>c. sch_phase st i = Finished c \<and> recordable c)"
    and "sch_phase st j = Running \<or> (\<exists>c. sch_phase st j = Finished c \<and> recordable c) \<or>
      sch_phase st j = Answered (REPLAY r)"
  shows "if sch_phase st j = Answered (REPLAY r)
    then sch_phase st i \<noteq> Running \<and> fingerprint ext (att i) = fingerprint ext (att j) \<and>
      (\<exists>c. sch_phase st i = Finished c \<and> captured_response c = r)
    else i = j"
proof -
  from idem_reachable_inv [OF assms(1,2)] have "coherent ext att (key_view (sch_db st)) (sch_phase st)" by blast
  note D = coherentD [OF this]
  have excl: False if "sch_phase st a = Running" "recorded (sch_phase st) b c" "attempt_key (att a) = attempt_key (att b)" for a b c
    using D(1) [OF that(1)] D(3) [OF that(2)] that(3) by simp
  show ?thesis
  proof (cases "sch_phase st j = Answered (REPLAY r)")
    case True
    then obtain l c where l: "recorded (sch_phase st) l c" "attempt_key (att l) = attempt_key (att j)"
      "fingerprint ext (att l) = fingerprint ext (att j)" "captured_response c = r"
      using D(6) by blast
    then have "sch_phase st i \<noteq> Running" using excl assms(3) by metis
    with assms(4) obtain c' where i: "recorded (sch_phase st) i c'" by (auto simp: recorded_def)
    then have "l = i" using D(4) l(1,2) assms(3) by metis
    then show ?thesis using True l i by (auto simp: recorded_def)
  next
    case False
    then show ?thesis using assms(3-5) excl D(2,4) unfolding recorded_def by metis
  qed
qed

subsection \<open>Schedules\<close>

text \<open>Whole visits of a request, in terms of key states, for exhibiting schedules.\<close>

lemma visit_unused:
  assumes "idem_reachable ext timeout att st" and "sch_phase st i = Idle" and "wf_idempotency (sch_db st)"
    and "key_view (sch_db st) (attempt_key (att i)) = Unused" and "length (at_path (att i)) \<le> 255"
  shows "\<exists>d'. idem_reachable ext timeout att (set_phase i Running (st\<lparr>sch_db := d'\<rparr>)) \<and> wf_idempotency d' \<and>
    key_view d' = (key_view (sch_db st))(attempt_key (att i) := Open (fingerprint ext (att i)) (sch_now st))"
proof -
  let ?d = "(sch_db st)\<lparr>tx_now := sch_now st\<rparr>"
  have none: "idem_get (at_user_id (att i)) (at_key (att i)) (sch_db st) = None"
    using assms(4) by (auto simp: key_view_def attempt_key_def entry_state_def split: option.splits if_splits)
  then have "idem_get (at_user_id (att i)) (at_key (att i)) ?d = None" by (simp add: idem_get_def)
  then obtain d' where d': "idem_claim (at_user_id (att i)) (at_key (att i)) (at_method (att i)) (at_path (att i))
      (fingerprint ext (att i)) ?d = Inr (Some d')"
    using assms(5) by (simp add: idem_claim_def)
  have same: "wf_idempotency ?d" "key_view ?d = key_view (sch_db st)"
    using same_idempotency_rows [of ?d "sch_db st"] assms(3) by simp_all
  have "idem_reachable ext timeout att (set_phase i Missed st)"
    using assms(1) lookup_miss [of st i att, OF assms(2) none] by (rule idem_reachable.step)
  then have "idem_reachable ext timeout att (set_phase i Running ((set_phase i Missed st)\<lparr>sch_db := d'\<rparr>))"
    by (rule idem_reachable.step) (rule insert_ok, simp_all add: set_phase_def d')
  moreover have "set_phase i Running ((set_phase i Missed st)\<lparr>sch_db := d'\<rparr>) =
      set_phase i Running (st\<lparr>sch_db := d'\<rparr>)"
    by (simp add: set_phase_def)
  moreover have "key_view d' = (key_view (sch_db st))(attempt_key (att i) := Open (fingerprint ext (att i)) (sch_now st))"
    using idem_claim_insert(2) [OF same(1) d'] same(2) by (auto simp: fun_eq_iff attempt_key_def)
  ultimately show ?thesis using idem_claim_insert(1) [OF same(1) d'] by auto
qed

lemma visit_stored:
  assumes "idem_reachable ext timeout att st" and "sch_phase st i = Idle"
    and "key_view (sch_db st) (attempt_key (att i)) = Stored (fingerprint ext (att i)) r"
  shows "idem_reachable ext timeout att (set_phase i (Answered (REPLAY r)) st)"
proof -
  from assms(3) obtain e where e: "idem_get (at_user_id (att i)) (at_key (att i)) (sch_db st) = Some e"
    and es: "entry_state e = Stored (fingerprint ext (att i)) r"
    by (auto simp: key_view_def attempt_key_def split: option.splits)
  have "on_entry ext timeout (att i) st e = Answered (REPLAY r)"
    using es by (auto simp: on_entry_def entry_state_def entry_response_def resolve_claim_def running_entry_def
        split: if_splits)
  then show ?thesis using idem_reachable.step [OF assms(1) lookup_hit [of st i att, OF assms(2) e]] by simp
qed

lemma visit_abandoned:
  assumes "idem_reachable ext timeout att st" and "sch_phase st i = Idle" and "wf_idempotency (sch_db st)"
    and "key_view (sch_db st) (attempt_key (att i)) = Open h t" and "sch_now st - t > timeout"
  shows "\<exists>d'. idem_reachable ext timeout att (set_phase i Running (st\<lparr>sch_db := d', sch_taken_over := True\<rparr>)) \<and>
    wf_idempotency d' \<and>
    key_view d' = (key_view (sch_db st))(attempt_key (att i) := Open (fingerprint ext (att i)) (sch_now st))"
proof -
  from assms(4) obtain e where e: "idem_get (at_user_id (att i)) (at_key (att i)) (sch_db st) = Some e"
    and es: "running_entry e" "ik_created_at e = t"
    by (auto simp: key_view_def attempt_key_def entry_state_def split: option.splits if_splits)
  let ?d = "idem_restart e (fingerprint ext (att i)) (sch_now st) (sch_db st)"
  have ab: "abandoned timeout (sch_now st) e" using es assms(5) by (simp add: abandoned_def)
  then have "on_entry ext timeout (att i) st e = Abandoned e" using es by (simp add: on_entry_def)
  then have "idem_reachable ext timeout att (set_phase i (Abandoned e) st)"
    using idem_reachable.step [OF assms(1) lookup_hit [of st i att, OF assms(2) e]] by simp
  from idem_reachable.step [OF this idem_step.restart, of i e]
  have "idem_reachable ext timeout att (set_phase i Running (st\<lparr>sch_db := ?d, sch_taken_over := True\<rparr>))"
    by (simp add: set_phase_def)
  moreover have "resolve_claim timeout (sch_now st) (sch_now st) e (fingerprint ext (att i)) (sch_db st) = (FRESH, ?d)"
    using es ab by (simp add: resolve_claim_def)
  then have "wf_idempotency ?d" "key_view ?d = (key_view (sch_db st))(attempt_key (att i) := Open (fingerprint ext (att i)) (sch_now st))"
    using resolve_claim_spec(2,3) [OF assms(3) e, of timeout "sch_now st" "sch_now st" "fingerprint ext (att i)"]
    by (auto simp: attempt_key_def fun_eq_iff)
  ultimately show ?thesis by blast
qed

lemma visit_record:
  assumes "idem_reachable ext timeout att st" and "sch_phase st i = Running" and "wf_idempotency (sch_db st)"
    and "recordable c"
  shows "\<exists>d'. idem_reachable ext timeout att (set_phase i (Finished c) (st\<lparr>sch_db := d'\<rparr>)) \<and> wf_idempotency d' \<and>
    key_view d' = (key_view (sch_db st))(attempt_key (att i) :=
      key_complete (captured_response c) (key_view (sch_db st) (attempt_key (att i))))"
  using idem_reachable.step [OF assms(1) finish [OF assms(2)]] idem_finish_view [OF assms(3), of "att i" "Some c"] assms(4)
  by fastforce

definition idle_schedule :: schedule where
  "idle_schedule = \<lparr>sch_db = empty_db, sch_now = 0, sch_phase = (\<lambda>i. Idle), sch_taken_over = False\<rparr>"

lemma idle_start: "idem_reachable ext timeout att idle_schedule"
  by (rule idem_reachable.start) (simp add: idem_start_def idle_schedule_def empty_db_def)

lemma sample_attempt_simps [simp]:
  "attempt_key (sample_attempt b) = (7, ''k1'')" "length (at_path (sample_attempt b)) \<le> 255"
  by (simp_all add: attempt_key_def sample_attempt_def)

lemma sample_fingerprint: "fingerprint plain_ext (sample_attempt b) = fingerprint plain_ext (sample_attempt c) \<longleftrightarrow> b = c"
  by (simp add: fingerprint_def sample_attempt_def)

text \<open>A request that opens an unused key, from the idle state.\<close>

lemma sample_first_run:
  assumes "att 0 = sample_attempt b"
  obtains d where "idem_reachable ext timeout att (set_phase 0 Running (idle_schedule\<lparr>sch_db := d\<rparr>))"
    and "wf_idempotency d" and "key_view d = (\<lambda>k. Unused)((7, ''k1'') := Open (fingerprint ext (sample_attempt b)) 0)"
proof -
  have "sch_phase idle_schedule 0 = Idle" "sch_db idle_schedule = empty_db" "sch_now idle_schedule = 0"
    by (simp_all add: idle_schedule_def)
  then show ?thesis
    using visit_unused [OF idle_start, of 0 att ext timeout] that empty_idempotency assms by auto
qed

theorem keyed_requests_run_once_witness:
  "\<exists>st. idem_reachable plain_ext (seconds 60) (\<lambda>i. sample_attempt ''x'') st \<and> \<not> sch_taken_over st \<and>
     sch_phase st 1 = Answered (REPLAY (captured_response sample_answer)) \<and> sch_phase st 0 \<noteq> Running"
proof -
  let ?att = "\<lambda>i::nat. sample_attempt ''x''" and ?T = "seconds 60"
  obtain d where run: "idem_reachable plain_ext ?T ?att (set_phase 0 Running (idle_schedule\<lparr>sch_db := d\<rparr>))"
    and d: "wf_idempotency d" "key_view d = (\<lambda>k. Unused)((7, ''k1'') := Open (fingerprint plain_ext (sample_attempt ''x'')) 0)"
    by (rule sample_first_run [of ?att]) auto
  let ?st = "set_phase 0 Running (idle_schedule\<lparr>sch_db := d\<rparr>)"
  have st: "sch_phase ?st 0 = Running" "sch_db ?st = d" by (simp_all add: set_phase_def)
  obtain d2 where fin: "idem_reachable plain_ext ?T ?att (set_phase 0 (Finished sample_answer) (?st\<lparr>sch_db := d2\<rparr>))"
    and d2: "key_view d2 (7, ''k1'') = Stored (fingerprint plain_ext (sample_attempt ''x'')) (captured_response sample_answer)"
    using visit_record [OF run st(1) _ sample_recordable] d st(2) by auto
  let ?st2 = "set_phase 0 (Finished sample_answer) (?st\<lparr>sch_db := d2\<rparr>)"
  let ?st3 = "set_phase 1 (Answered (REPLAY (captured_response sample_answer))) ?st2"
  have "sch_phase ?st2 1 = Idle" "sch_db ?st2 = d2" by (simp_all add: set_phase_def idle_schedule_def)
  then have reach: "idem_reachable plain_ext ?T ?att ?st3" using visit_stored [OF fin, of 1] d2 by simp
  moreover have fresh: "\<not> sch_taken_over ?st3" by (simp add: set_phase_def idle_schedule_def)
  moreover have "sch_phase ?st3 0 = Finished sample_answer"
    "sch_phase ?st3 1 = Answered (REPLAY (captured_response sample_answer))"
    by (simp_all add: set_phase_def)
  ultimately show ?thesis
    using keyed_requests_run_once [OF reach fresh, of 0 1 "captured_response sample_answer"] sample_recordable by auto
qed

text \<open>
  The condition on takeovers is needed. When a request outlives the time it is given, a second
  request with another body takes its key over; the first one then records its answer under the
  second one's fingerprint, while the second still runs, and a repetition of the second request is
  answered with the response to the first.
\<close>

theorem takeover_replays_wrong_response:
  "\<exists>att st. idem_reachable plain_ext (seconds 60) att st \<and>
     attempt_key (att 0) = attempt_key (att 1) \<and> att 2 = att 1 \<and>
     fingerprint plain_ext (att 0) \<noteq> fingerprint plain_ext (att 1) \<and>
     sch_phase st 0 = Finished sample_answer \<and> sch_phase st 1 = Running \<and>
     sch_phase st 2 = Answered (REPLAY (captured_response sample_answer))"
proof -
  let ?att = "\<lambda>i::nat. if i = 0 then sample_attempt ''x'' else sample_attempt ''y''" and ?T = "seconds 60"
  let ?y = "fingerprint plain_ext (sample_attempt ''y'')"
  obtain d where run: "idem_reachable plain_ext ?T ?att (set_phase 0 Running (idle_schedule\<lparr>sch_db := d\<rparr>))"
    and d: "wf_idempotency d" "key_view d = (\<lambda>k. Unused)((7, ''k1'') := Open (fingerprint plain_ext (sample_attempt ''x'')) 0)"
    by (rule sample_first_run [of ?att "''x''" plain_ext ?T]) simp_all
  define s1 where "s1 = (set_phase 0 Running (idle_schedule\<lparr>sch_db := d\<rparr>))\<lparr>sch_now := seconds 61\<rparr>"
  have s1: "sch_db s1 = d" "sch_now s1 = seconds 61" "sch_phase s1 0 = Running" "sch_phase s1 1 = Idle" "sch_phase s1 2 = Idle"
    by (simp_all add: s1_def set_phase_def idle_schedule_def)
  have r1: "idem_reachable plain_ext ?T ?att s1"
    using idem_reachable.step [OF run tick [of "seconds 61"]] by (simp add: s1_def set_phase_def idle_schedule_def)
  obtain d2 where r2: "idem_reachable plain_ext ?T ?att (set_phase 1 Running (s1\<lparr>sch_db := d2, sch_taken_over := True\<rparr>))"
    and d2: "wf_idempotency d2" "key_view d2 (7, ''k1'') = Open ?y (seconds 61)"
    using visit_abandoned [OF r1, of 1] s1 d by auto
  define s2 where "s2 = set_phase 1 Running (s1\<lparr>sch_db := d2, sch_taken_over := True\<rparr>)"
  have s2: "sch_db s2 = d2" "sch_phase s2 0 = Running" "sch_phase s2 1 = Running" "sch_phase s2 2 = Idle"
    using s1 by (simp_all add: s2_def set_phase_def)
  obtain d3 where r3: "idem_reachable plain_ext ?T ?att (set_phase 0 (Finished sample_answer) (s2\<lparr>sch_db := d3\<rparr>))"
    and d3: "key_view d3 (7, ''k1'') = Stored ?y (captured_response sample_answer)"
    using visit_record [OF r2 [folded s2_def] s2(2) _ sample_recordable] s2(1) d2 by auto
  define s3 where "s3 = set_phase 0 (Finished sample_answer) (s2\<lparr>sch_db := d3\<rparr>)"
  have s3: "sch_db s3 = d3" "sch_phase s3 0 = Finished sample_answer" "sch_phase s3 1 = Running" "sch_phase s3 2 = Idle"
    using s2 by (simp_all add: s3_def set_phase_def)
  have "idem_reachable plain_ext ?T ?att (set_phase 2 (Answered (REPLAY (captured_response sample_answer))) s3)"
    using visit_stored [OF r3 [folded s3_def] s3(4)] d3 s3(1) by simp
  then show ?thesis
    using s3 sample_fingerprint by (intro exI [of _ ?att] exI [of _ "set_phase 2 (Answered (REPLAY (captured_response sample_answer))) s3"])
      (simp add: set_phase_def)
qed

end
