(* ===== verification/IsoTime.thy ===== *)
theory IsoTime
  imports PyStr
begin

text \<open>
  The text of an instant, as \<open>datetime.isoformat\<close> writes it for an aware value in UTC, and
  \<open>datetime.fromisoformat\<close>: the proleptic Gregorian calendar, counted in days from 0001-01-01. On the
  text that \<open>isoformat\<close> writes, \<open>fromisoformat\<close> is its inverse; on every other text (the many
  further forms of ISO 8601 that CPython accepts) it is a parameter.
\<close>

section \<open>The calendar\<close>

definition is_leap :: "int \<Rightarrow> bool" where
  "is_leap y \<longleftrightarrow> y mod 4 = 0 \<and> (y mod 100 \<noteq> 0 \<or> y mod 400 = 0)"

definition year_length :: "int \<Rightarrow> int" where
  "year_length y = (if is_leap y then 366 else 365)"

definition days_before_year :: "int \<Rightarrow> int" where
  "days_before_year y = (y - 1) * 365 + (y - 1) div 4 - (y - 1) div 100 + (y - 1) div 400"

definition month_lengths :: "int \<Rightarrow> int list" where
  "month_lengths y = [31, if is_leap y then 29 else 28, 31, 30, 31, 30, 31, 31, 30, 31, 30, 31]"

text \<open>From a year and a count of days from its first day: the year of that day and its place in it.\<close>

function year_of :: "int \<Rightarrow> int \<Rightarrow> int \<times> int" where
  "year_of y n = (if n < year_length y then (y, n) else year_of (y + 1) (n - year_length y))"
  by auto
termination
  by (relation "measure (\<lambda>(y, n). nat n)") (auto simp: year_length_def split: if_splits)

declare year_of.simps [simp del]

fun month_of :: "int \<Rightarrow> int list \<Rightarrow> int \<Rightarrow> int \<times> int" where
  "month_of m [] n = (m, n)"
| "month_of m (l # ls) n = (if n < l then (m, n) else month_of (m + 1) ls (n - l))"

definition days_before_month :: "int \<Rightarrow> int \<Rightarrow> int" where
  "days_before_month y m = sum_list (take (nat (m - 1)) (month_lengths y))"

text \<open>The day of the epoch, 1970-01-01, counted from 0001-01-01.\<close>

abbreviation epoch_day :: int where
  "epoch_day \<equiv> 719162"

abbreviation day_length :: int where
  "day_length \<equiv> 86400000000"

section \<open>Text\<close>

primrec pad :: "nat \<Rightarrow> nat \<Rightarrow> str" where
  "pad 0 n = []"
| "pad (Suc k) n = pad k (n div 10) @ [digit_char (n mod 10)]"

definition read_digits :: "str \<Rightarrow> nat" where
  "read_digits s = foldl (\<lambda>a c. a * 10 + digit_val c) 0 s"

definition iso_date :: "int \<Rightarrow> str" where
  "iso_date day =
     (let (y, n) = year_of 1 day; (m, d) = month_of 1 (month_lengths y) n
      in pad 4 (nat y) @ ''-'' @ pad 2 (nat m) @ ''-'' @ pad 2 (nat (d + 1)))"

definition iso_clock :: "int \<Rightarrow> str" where
  "iso_clock us =
     pad 2 (nat (us div 3600000000)) @ '':'' @ pad 2 (nat (us div 60000000 mod 60)) @ '':''
     @ pad 2 (nat (us div 1000000 mod 60))
     @ (if us mod 1000000 = 0 then [] else CHR ''.'' # pad 6 (nat (us mod 1000000)))"

definition isoformat :: "time \<Rightarrow> str" where
  "isoformat t = iso_date (t div day_length + epoch_day) @ ''T'' @ iso_clock (t mod day_length) @ ''+00:00''"

definition read_date :: "str \<Rightarrow> int" where
  "read_date s =
     (let y = int (read_digits (take 4 s)); m = int (read_digits (take 2 (drop 5 s)));
          d = int (read_digits (take 2 (drop 8 s)))
      in days_before_year y + days_before_month y m + d - 1)"

definition read_clock :: "str \<Rightarrow> int" where
  "read_clock s =
     (let h = int (read_digits (take 2 s)); m = int (read_digits (take 2 (drop 3 s)));
          sec = int (read_digits (take 2 (drop 6 s)));
          us = (if take 1 (drop 8 s) = ''.'' then int (read_digits (take 6 (drop 9 s))) else 0)
      in h * 3600000000 + m * 60000000 + sec * 1000000 + us)"

definition read_instant :: "str \<Rightarrow> time" where
  "read_instant s = (read_date (take 10 s) - epoch_day) * day_length + read_clock (drop 11 s)"

definition fromisoformat :: "(str \<Rightarrow> moment option) \<Rightarrow> str \<Rightarrow> moment option" where
  "fromisoformat other s =
     (let t = read_instant s in
      if datetime_range t \<and> isoformat t = s then Some (Aware t) else other s)"

section \<open>Lemmas\<close>

lemma length_pad [simp]: "length (pad k n) = k"
  by (induction k arbitrary: n) simp_all

lemma read_digits_pad: "read_digits (pad k n) = n mod 10 ^ k"
proof (induction k arbitrary: n)
  case 0
  show ?case by (simp add: read_digits_def)
next
  case (Suc k)
  have "read_digits (pad (Suc k) n) = read_digits (pad k (n div 10)) * 10 + n mod 10"
    by (simp add: read_digits_def)
  also have "\<dots> = (n div 10) mod 10 ^ k * 10 + n mod 10" by (simp add: Suc)
  also have "\<dots> = n mod 10 ^ Suc k" by (simp add: mod_mult2_eq)
  finally show ?case .
qed

lemma div_step:
  fixes k p :: int
  assumes "0 < k"
  shows "(p + 1) div k = p div k + (if (p + 1) mod k = 0 then 1 else 0)"
proof -
  have p: "p = k * (p div k) + p mod k" by simp
  have r: "0 \<le> p mod k" "p mod k < k" using assms by simp_all
  show ?thesis
  proof (cases "p mod k + 1 = k")
    case True
    have "k * (p div k + 1) = k * (p div k) + k" by (simp add: distrib_left)
    then have *: "p + 1 = k * (p div k + 1) + 0" using p True by linarith
    show ?thesis using int_div_pos_eq [OF * _ assms] int_mod_pos_eq [OF * _ assms] by simp
  next
    case False
    then have *: "p + 1 = k * (p div k) + (p mod k + 1)" "p mod k + 1 < k" using p r by simp_all
    show ?thesis using int_div_pos_eq [OF *(1) _ *(2)] int_mod_pos_eq [OF *(1) _ *(2)] r by simp
  qed
qed

lemma days_before_year_step: "days_before_year (y + 1) = days_before_year y + year_length y"
proof -
  have mods: "y mod 100 = 0 \<Longrightarrow> y mod 4 = 0" "y mod 400 = 0 \<Longrightarrow> y mod 100 = 0"
    unfolding mod_eq_0_iff_dvd using dvd_trans [of 4 100 y] dvd_trans [of 100 400 y] by simp_all
  have gen: "x * 365 + b4 - b100 + b400 = (x - 1) * 365 + a4 - a100 + a400 + (if P \<and> (\<not> Q \<or> R) then 366 else 365)"
    if "b4 = a4 + (if P then 1 else 0)" "b100 = a100 + (if Q then 1 else 0)" "b400 = a400 + (if R then 1 else 0)"
      "Q \<Longrightarrow> P" "R \<Longrightarrow> Q" for x a4 a100 a400 b4 b100 b400 :: int and P Q R
    using that by (cases P; cases Q; cases R) simp_all
  have step: "y div k = (y - 1) div k + (if y mod k = 0 then 1 else 0)" if "0 < k" for k
    using div_step [OF that, of "y - 1"] by (simp only: diff_add_cancel)
  show ?thesis
    unfolding days_before_year_def year_length_def is_leap_def add_diff_cancel_right'
    by (rule gen [OF step step step]) (simp, simp, simp, erule mods, erule mods)
qed

lemma year_of_spec:
  "0 \<le> n \<Longrightarrow> year_of y n = (y', n') \<Longrightarrow>
   days_before_year y + n = days_before_year y' + n' \<and> 0 \<le> n' \<and> n' < year_length y' \<and> y \<le> y'"
proof (induction y n arbitrary: y' n' rule: year_of.induct)
  case (1 y n)
  show ?case
  proof (cases "n < year_length y")
    case True
    then show ?thesis using 1 by (simp add: year_of.simps [of y n])
  next
    case False
    then have "year_of (y + 1) (n - year_length y) = (y', n')" using 1 by (simp add: year_of.simps [of y n])
    with 1 False show ?thesis using days_before_year_step [of y] by fastforce
  qed
qed

lemma month_of_spec:
  "0 \<le> n \<Longrightarrow> n < sum_list ls \<Longrightarrow> (\<forall>l\<in>set ls. l \<le> 31) \<Longrightarrow> month_of m ls n = (m', n') \<Longrightarrow>
   m \<le> m' \<and> m' < m + int (length ls) \<and> n = sum_list (take (nat (m' - m)) ls) + n' \<and> 0 \<le> n' \<and> n' < 31"
proof (induction m ls n arbitrary: m' n' rule: month_of.induct)
  case (2 m l ls n)
  show ?case
  proof (cases "n < l")
    case True
    then show ?thesis using 2 by auto
  next
    case False
    then have ih: "m + 1 \<le> m' \<and> m' < m + 1 + int (length ls) \<and>
        n - l = sum_list (take (nat (m' - (m + 1))) ls) + n' \<and> 0 \<le> n' \<and> n' < 31"
      using 2 by simp
    then have "nat (m' - m) = Suc (nat (m' - (m + 1)))" by linarith
    with ih show ?thesis by simp
  qed
qed simp

lemma month_lengths_facts:
  "sum_list (month_lengths y) = year_length y" "\<forall>l\<in>set (month_lengths y). l \<le> 31" "length (month_lengths y) = 12"
  by (simp_all add: month_lengths_def year_length_def)

lemma days_before_year_large: "10000 \<le> y \<Longrightarrow> 3652059 \<le> days_before_year y"
  unfolding days_before_year_def by simp

lemma read_iso_date:
  assumes "0 \<le> day" and "day < 3652059"
  shows "read_date (iso_date day) = day" and "length (iso_date day) = 10"
proof -
  obtain y n where y: "year_of 1 day = (y, n)" by fastforce
  obtain m d where m: "month_of 1 (month_lengths y) n = (m, d)" by fastforce
  have ys: "day = days_before_year y + n" "0 \<le> n" "n < year_length y" "1 \<le> y"
    using year_of_spec [OF assms(1) y] by (simp_all add: days_before_year_def)
  then have "y < 10000" using days_before_year_large [of y] assms(2) by linarith
  have ms: "1 \<le> m" "m < 13" "n = days_before_month y m + d" "0 \<le> d" "d < 31"
    using month_of_spec [OF ys(2) _ month_lengths_facts(2) m] ys(3)
    by (simp_all add: month_lengths_facts days_before_month_def)
  have shape: "iso_date day = pad 4 (nat y) @ ''-'' @ pad 2 (nat m) @ ''-'' @ pad 2 (nat (d + 1))"
    by (simp add: iso_date_def y m)
  then show "length (iso_date day) = 10" by simp
  have "nat y mod 10 ^ 4 = nat y" "nat m mod 10 ^ 2 = nat m" "nat (d + 1) mod 10 ^ 2 = nat (d + 1)"
    using \<open>y < 10000\<close> ms by simp_all
  then have "read_digits (take 4 (iso_date day)) = nat y" "read_digits (take 2 (drop 5 (iso_date day))) = nat m"
    "read_digits (take 2 (drop 8 (iso_date day))) = nat (d + 1)"
    by (simp_all add: shape read_digits_pad del: pad.simps)
  then show "read_date (iso_date day) = day" using ys ms by (simp add: read_date_def)
qed

lemma read_iso_clock:
  assumes "0 \<le> us" and "us < 86400000000"
  shows "read_clock (iso_clock us @ ''+00:00'') = us"
proof -
  let ?h = "nat (us div 3600000000)" and ?m = "nat (us div 60000000 mod 60)" and ?s = "nat (us div 1000000 mod 60)"
    and ?f = "nat (us mod 1000000)"
  have small: "?h mod 100 = ?h" "?m mod 100 = ?m" "?s mod 100 = ?s" "?f mod 1000000 = ?f"
  proof -
    have "us div 3600000000 \<le> 23" using zdiv_mono1 [of us 86399999999 3600000000] assms by simp
    then have "?h < 100" by (simp add: nat_less_iff)
    then show "?h mod 100 = ?h" by (rule mod_less)
    have "us div 60000000 mod 60 < 60" "us div 1000000 mod 60 < 60" "us mod 1000000 < 1000000" by simp_all
    then show "?m mod 100 = ?m" "?s mod 100 = ?s" "?f mod 1000000 = ?f" by simp_all
  qed
  obtain rest where rest: "iso_clock us @ ''+00:00'' = pad 2 ?h @ '':'' @ pad 2 ?m @ '':'' @ pad 2 ?s @ rest"
    and frac: "rest = (if us mod 1000000 = 0 then ''+00:00'' else CHR ''.'' # pad 6 ?f @ ''+00:00'')"
    by (simp add: iso_clock_def)
  have fields: "read_digits (take 2 (iso_clock us @ ''+00:00'')) = ?h"
    "read_digits (take 2 (drop 3 (iso_clock us @ ''+00:00''))) = ?m"
    "read_digits (take 2 (drop 6 (iso_clock us @ ''+00:00''))) = ?s"
    "drop 8 (iso_clock us @ ''+00:00'') = rest" "drop 9 (iso_clock us @ ''+00:00'') = drop 1 rest"
    unfolding rest by (simp_all add: read_digits_pad small del: pad.simps)
  have "(if take 1 (drop 8 (iso_clock us @ ''+00:00'')) = ''.'' then int (read_digits (take 6 (drop 9 (iso_clock us @ ''+00:00'')))) else 0)
      = us mod 1000000"
    unfolding fields(4,5) by (simp add: frac read_digits_pad small del: pad.simps)
  then have "read_clock (iso_clock us @ ''+00:00'') =
      us div 3600000000 * 3600000000 + us div 60000000 mod 60 * 60000000 + us div 1000000 mod 60 * 1000000 + us mod 1000000"
    unfolding read_clock_def Let_def fields(1-3) using assms(1) by (simp add: pos_imp_zdiv_nonneg_iff)
  also have "\<dots> = us"
  proof -
    have "h * 3600000000 + mm * 60000000 + sm * 1000000 + f = u"
      if "s = 60 * m + sm" "m = 60 * h + mm" "u = 1000000 * s + f" for h mm sm f s m u :: int
      using that by simp
    moreover have "us div 60000000 = us div 1000000 div 60" "us div 3600000000 = us div 1000000 div 60 div 60"
      using zdiv_zmult2_eq [of 60 us 1000000] zdiv_zmult2_eq [of 60 us 60000000] by simp_all
    ultimately show ?thesis using mult_div_mod_eq by metis
  qed
  finally show ?thesis .
qed

lemma fromisoformat_isoformat:
  assumes "datetime_range t"
  shows "fromisoformat other (isoformat t) = Some (Aware t)"
proof -
  let ?day = "t div day_length + epoch_day"
  have "-719162 \<le> t div day_length"
    using zdiv_mono1 [of "-62135596800000000" t day_length] assms by (simp add: datetime_range_def)
  moreover have "t div day_length < 2932897"
    using zdiv_mono1 [of t 253402300799999999 day_length] assms by (simp add: datetime_range_def)
  ultimately have day: "0 \<le> ?day" "?day < 3652059" by simp_all
  note date = read_iso_date [OF day]
  have "read_clock (iso_clock (t mod day_length) @ ''+00:00'') = t mod day_length"
    by (rule read_iso_clock) simp_all
  moreover have "take 10 (isoformat t) = iso_date ?day"
    "drop 11 (isoformat t) = iso_clock (t mod day_length) @ ''+00:00''"
    using date(2) by (simp_all add: isoformat_def)
  ultimately have "read_instant (isoformat t) = t"
    using date(1) by (simp add: read_instant_def)
  then show ?thesis using assms by (simp add: fromisoformat_def Let_def)
qed

end
