(* ===== verification/Pagination.thy ===== *)
theory Pagination
  imports Errors Bytes IsoTime
begin

text \<open>
  \<open>app/schemas/pagination.py\<close> and \<open>app/repositories/cursor.py\<close>: the opaque cursor of the two logs, the
  validation of a cursor query, and the page that a cursor leads to. The locale \<open>cursor_listing\<close> says
  what a listing has to answer page by page; its theorem is that following the cursors reads the
  whole listing, each entry once and in order.
\<close>

section \<open>Cursors\<close>

abbreviation DEFAULT_PAGE_LIMIT :: int where "DEFAULT_PAGE_LIMIT \<equiv> 20"
abbreviation MAX_PAGE_LIMIT :: int where "MAX_PAGE_LIMIT \<equiv> 100"
abbreviation CURSOR_SEPARATOR :: char where "CURSOR_SEPARATOR \<equiv> CHR ''|''"
abbreviation BAD_CURSOR :: str where "BAD_CURSOR \<equiv> ''cursor is not one this API issued''"

definition encode_cursor :: "time \<Rightarrow> ident \<Rightarrow> str" where
  "encode_cursor created_at entry_id =
     b64_encode (utf8_encode (isoformat created_at @ [CURSOR_SEPARATOR] @ show_int entry_id))"

text \<open>\<open>s.rsplit(c, 1)\<close>, unpacked into two parts; without the separator the unpacking fails.\<close>

definition rsplit_once :: "char \<Rightarrow> str \<Rightarrow> (str \<times> str) option" where
  "rsplit_once c s =
     (if c \<in> set s
      then Some (rev (drop 1 (dropWhile (\<lambda>x. x \<noteq> c) (rev s))), rev (takeWhile (\<lambda>x. x \<noteq> c) (rev s)))
      else None)"

definition read_cursor :: "(str \<Rightarrow> moment option) \<Rightarrow> str \<Rightarrow> (moment \<times> int) option" where
  "read_cursor other value =
     (case b64_decode (utf8_encode value) of
        None \<Rightarrow> None
      | Some raw \<Rightarrow>
          (case utf8_decode raw of
             None \<Rightarrow> None
           | Some decoded \<Rightarrow>
               (case rsplit_once CURSOR_SEPARATOR decoded of
                  None \<Rightarrow> None
                | Some (m, entry_id) \<Rightarrow>
                    (case (fromisoformat other m, py_int entry_id) of
                       (Some at, Some i) \<Rightarrow> Some (at, i)
                     | _ \<Rightarrow> None))))"

definition decode_cursor :: "(str \<Rightarrow> moment option) \<Rightarrow> str \<Rightarrow> (moment \<times> int) result" where
  "decode_cursor other value =
     (case read_cursor other value of None \<Rightarrow> Inl (ValueError BAD_CURSOR) | Some r \<Rightarrow> Inr r)"

text \<open>\<open>CURSOR_REGEX\<close>: one to two hundred characters of the base64 alphabet.\<close>

definition cursor_char :: "char \<Rightarrow> bool" where
  "cursor_char c \<longleftrightarrow> between 65 90 c \<or> between 97 122 c \<or> between 48 57 c \<or> c \<in> {CHR ''_'', CHR ''='', CHR ''-''}"

definition cursor_regex :: "str \<Rightarrow> bool" where
  "cursor_regex s \<longleftrightarrow> 1 \<le> length s \<and> length s \<le> 200 \<and> list_all cursor_char s"

section \<open>Queries and pages\<close>

record CursorQuery =
  cq_limit :: int
  cq_cursor :: "str option"
  cq_since :: "time option"
  cq_until :: "time option"

definition validate_cursor_query ::
  "(str \<Rightarrow> moment option) \<Rightarrow> ('a) CursorQuery_scheme \<Rightarrow> ('a) CursorQuery_scheme result" where
  "validate_cursor_query other q =
     (if \<not> (1 \<le> cq_limit q \<and> cq_limit q \<le> MAX_PAGE_LIMIT) then Inl (ValueError ''limit'')
      else
        rbind (case cq_cursor q of
                 None \<Rightarrow> Inr ()
               | Some c \<Rightarrow> if cursor_regex c then map_sum id (\<lambda>_. ()) (decode_cursor other c)
                           else Inl (ValueError ''cursor'')) (\<lambda>_.
        (case (cq_since q, cq_until q) of
           (Some since, Some until) \<Rightarrow>
             if since > until then Inl (ValueError ''since must not be later than until'') else Inr q
         | _ \<Rightarrow> Inr q)))"

text \<open>
  \<open>cursor_condition\<close>: the row comparison \<open>(moment, id) < (m, i)\<close> of SQL. A moment without a zone
  cannot come from an issued cursor; the driver reads it in the server's zone, taken to be UTC.
\<close>

fun below :: "(moment \<times> int) option \<Rightarrow> time \<times> ident \<Rightarrow> bool" where
  "below None k = True"
| "below (Some (m, i)) k = (k < (replace_tzinfo_utc m, i))"

definition cursor_condition :: "(str \<Rightarrow> moment option) \<Rightarrow> str option \<Rightarrow> (time \<times> ident \<Rightarrow> bool) result" where
  "cursor_condition other cursor =
     (case cursor of
        None \<Rightarrow> Inr (below None)
      | Some c \<Rightarrow> rbind (decode_cursor other c) (\<lambda>bound. Inr (below (Some bound))))"

text \<open>\<open>ORDER BY moment DESC, id DESC\<close> and \<open>LIMIT limit + 1\<close> over the rows that match.\<close>

definition newest_first :: "('r \<Rightarrow> time \<times> ident) \<Rightarrow> 'r list \<Rightarrow> 'r list" where
  "newest_first key rows = rev (sort_key key rows)"

definition page_of :: "('r \<Rightarrow> time \<times> ident) \<Rightarrow> int \<Rightarrow> ('r \<Rightarrow> bool) \<Rightarrow> 'r list \<Rightarrow> 'r list" where
  "page_of key limit P rows = take (nat (limit + 1)) (newest_first key (filter P rows))"

definition cursor_slice :: "('r \<Rightarrow> time \<times> ident) \<Rightarrow> int \<Rightarrow> 'r list \<Rightarrow> 'r list \<times> str option" where
  "cursor_slice key limit found =
     (let page = take (nat limit) found in
      if int (length found) \<le> limit \<or> page = [] then (page, None)
      else (page, Some (encode_cursor (fst (key (last page))) (snd (key (last page))))))"

record ('r) CursorPage =
  cp_items :: "'r list"
  cp_limit :: int
  cp_next_cursor :: "str option"

definition cursor_page_of :: "('r \<Rightarrow> 'i) \<Rightarrow> int \<Rightarrow> 'r list \<times> str option \<Rightarrow> 'i CursorPage" where
  "cursor_page_of mapper limit listed =
     \<lparr>cp_items = map mapper (fst listed), cp_limit = limit, cp_next_cursor = snd listed\<rparr>"

text \<open>A reader: request the page of a cursor, then the page of the cursor that came with it.\<close>

fun follow :: "nat \<Rightarrow> (str option \<Rightarrow> ('r list \<times> str option) result) \<Rightarrow> str option \<Rightarrow> 'r list option" where
  "follow 0 get cursor = None"
| "follow (Suc n) get cursor =
     (case get cursor of
        Inl e \<Rightarrow> None
      | Inr (page, next) \<Rightarrow>
          (case next of None \<Rightarrow> Some page | Some c \<Rightarrow> map_option ((@) page) (follow n get (Some c))))"

section \<open>The cursor round trip\<close>

lemma rsplit_once_last:
  assumes "c \<notin> set t"
  shows "rsplit_once c (s @ c # t) = Some (s, t)"
proof -
  have "takeWhile (\<lambda>x. x \<noteq> c) (rev t) = rev t" "dropWhile (\<lambda>x. x \<noteq> c) (rev t) = []"
    using assms by (auto simp: takeWhile_eq_all_conv dropWhile_eq_Nil_conv)
  then show ?thesis by (simp add: rsplit_once_def takeWhile_append dropWhile_append)
qed

lemma show_int_no_bar: "CURSOR_SEPARATOR \<notin> set (show_int n)"
  using show_nat_digits [of CURSOR_SEPARATOR] by (auto simp: show_int_def is_digit_def)

lemma utf8_encode_ascii: "list_all (between 0 127) s \<Longrightarrow> utf8_encode s = s"
  by (induction s) (auto simp: utf8_encode_def utf8_char_def between_def Let_def)

lemma b64_char_cursor: "v < 64 \<Longrightarrow> cursor_char (b64_char v)"
  by (auto simp: cursor_char_def b64_char_def between_def Let_def)

lemma cursor_pad: "cursor_char b64_pad"
  by (simp add: cursor_char_def)

lemma cursor_b64: "list_all cursor_char (b64_encode s)"
proof (induction s rule: b64_encode.induct)
  case (2 a)
  have "(of_char a :: nat) div 4 < 64" using of_char_less_256 [of a] by (simp add: less_mult_imp_div_less)
  then show ?case by (simp add: Let_def b64_char_cursor cursor_pad)
next
  case (3 a b)
  have "(of_char a :: nat) div 4 < 64" using of_char_less_256 [of a] by (simp add: less_mult_imp_div_less)
  moreover have "(of_char b :: nat) div 16 < 16" using of_char_less_256 [of b] by (simp add: less_mult_imp_div_less)
  then have "(of_char a :: nat) mod 4 * 16 + of_char b div 16 < 64" using mod_less_divisor [of 4 "of_char a"] by linarith
  ultimately show ?case by (simp add: Let_def b64_char_cursor cursor_pad)
next
  case (4 a b c rest)
  have "(of_char a :: nat) div 4 < 64" using of_char_less_256 [of a] by (simp add: less_mult_imp_div_less)
  moreover have "(of_char b :: nat) div 16 < 16" using of_char_less_256 [of b] by (simp add: less_mult_imp_div_less)
  then have "(of_char a :: nat) mod 4 * 16 + of_char b div 16 < 64" using mod_less_divisor [of 4 "of_char a"] by linarith
  moreover have "(of_char c :: nat) div 64 < 4" using of_char_less_256 [of c] by (simp add: less_mult_imp_div_less)
  then have "(of_char b :: nat) mod 16 * 4 + of_char c div 64 < 64" using mod_less_divisor [of 16 "of_char b"] by linarith
  ultimately show ?case using 4 by (simp add: Let_def b64_char_cursor)
qed simp

lemma cursor_ascii: "cursor_char c \<Longrightarrow> between 0 127 c"
  by (auto simp: cursor_char_def between_def Let_def)

lemma read_encode_cursor:
  assumes "datetime_range t" and "db_int i"
  shows "read_cursor other (encode_cursor t i) = Some (Aware t, i)"
proof -
  have "list_all (between 0 127) (encode_cursor t i)"
    using cursor_b64 cursor_ascii by (auto simp: encode_cursor_def list_all_iff)
  then have "utf8_encode (encode_cursor t i) = encode_cursor t i" by (rule utf8_encode_ascii)
  moreover have "rsplit_once CURSOR_SEPARATOR (isoformat t @ [CURSOR_SEPARATOR] @ show_int i) = Some (isoformat t, show_int i)"
    using rsplit_once_last [OF show_int_no_bar] by simp
  ultimately show ?thesis
    using assms by (simp add: read_cursor_def encode_cursor_def b64_decode_encode utf8_decode_encode
        fromisoformat_isoformat py_int_show_int)
qed

lemma decode_encode_cursor:
  "datetime_range t \<Longrightarrow> db_int i \<Longrightarrow> decode_cursor other (encode_cursor t i) = Inr (Aware t, i)"
  by (simp add: decode_cursor_def read_encode_cursor)

subsection \<open>An issued cursor is accepted\<close>

lemma length_b64_encode: "length (b64_encode s) = 4 * ((length s + 2) div 3)"
proof (induction s rule: b64_encode.induct)
  case (4 a b c rest)
  have "(length (a # b # c # rest) + 2) div 3 = Suc ((length rest + 2) div 3)" by simp
  with 4 show ?case by (simp add: Let_def)
qed (simp_all add: Let_def)

lemma length_utf8_encode: "length s \<le> length (utf8_encode s) \<and> length (utf8_encode s) \<le> 2 * length s"
  by (induction s) (auto simp: utf8_encode_def utf8_char_def Let_def)

lemma length_isoformat:
  assumes "datetime_range t"
  shows "length (isoformat t) \<le> 32"
proof -
  have "-719162 \<le> t div day_length"
    using zdiv_mono1 [of "-62135596800000000" t day_length] assms by (simp add: datetime_range_def)
  moreover have "t div day_length < 2932897"
    using zdiv_mono1 [of t 253402300799999999 day_length] assms by (simp add: datetime_range_def)
  ultimately have "length (iso_date (t div day_length + epoch_day)) = 10" by (intro read_iso_date(2)) simp_all
  then show ?thesis by (simp add: isoformat_def iso_clock_def del: pad.simps)
qed

lemma encode_cursor_accepted:
  assumes "datetime_range t" and "db_int i"
  shows "cursor_regex (encode_cursor t i)"
proof -
  have "length (show_int i) \<le> 20"
    using length_show_db_int [OF assms(2)] by (cases "i < 0") (simp_all add: show_int_def)
  then have "length (isoformat t @ [CURSOR_SEPARATOR] @ show_int i) \<le> 53"
    using length_isoformat [OF assms(1)] by simp
  then have "length (utf8_encode (isoformat t @ [CURSOR_SEPARATOR] @ show_int i)) \<le> 106"
    and "1 \<le> length (utf8_encode (isoformat t @ [CURSOR_SEPARATOR] @ show_int i))"
    using length_utf8_encode [of "isoformat t @ [CURSOR_SEPARATOR] @ show_int i"] by simp_all
  then have "(length (utf8_encode (isoformat t @ [CURSOR_SEPARATOR] @ show_int i)) + 2) div 3 \<le> 36"
    and "1 \<le> (length (utf8_encode (isoformat t @ [CURSOR_SEPARATOR] @ show_int i)) + 2) div 3"
    by linarith+
  then show ?thesis
    unfolding cursor_regex_def encode_cursor_def length_b64_encode using cursor_b64 by simp
qed

section \<open>Listings\<close>

text \<open>
  What a service answers for a reader \<open>s\<close> (its view, filters and page size) and a cursor. \<open>listing s\<close> is
  everything the reader may see, in descending order of the keys.
\<close>

locale cursor_listing =
  fixes key :: "'r \<Rightarrow> time \<times> ident"
    and listing :: "'s \<Rightarrow> 'r list"
    and limit :: "'s \<Rightarrow> int"
    and get :: "'s \<Rightarrow> str option \<Rightarrow> ('r list \<times> str option) result"
    and ok :: "'s \<Rightarrow> bool"
  assumes limit_pos: "ok s \<Longrightarrow> 1 \<le> limit s"
    and descending: "ok s \<Longrightarrow> sorted_wrt (\<lambda>a b. key b < key a) (listing s)"
    and first_page: "ok s \<Longrightarrow> get s None = Inr (cursor_slice key (limit s) (take (nat (limit s + 1)) (listing s)))"
    and next_page: "ok s \<Longrightarrow> r \<in> set (listing s) \<Longrightarrow>
      get s (Some (encode_cursor (fst (key r)) (snd (key r)))) =
      Inr (cursor_slice key (limit s) (take (nat (limit s + 1)) (filter (\<lambda>x. key x < key r) (listing s))))"
begin

lemma slice_last:
  "1 \<le> limit s \<Longrightarrow> int (length ys) \<le> limit s \<Longrightarrow>
   cursor_slice key (limit s) (take (nat (limit s + 1)) ys) = (ys, None)"
  by (simp add: cursor_slice_def)

lemma slice_more:
  assumes "1 \<le> limit s" and "limit s < int (length ys)"
  shows "cursor_slice key (limit s) (take (nat (limit s + 1)) ys) =
    (take (nat (limit s)) ys, Some (encode_cursor (fst (key (last (take (nat (limit s)) ys))))
      (snd (key (last (take (nat (limit s)) ys))))))"
proof -
  have "nat (limit s + 1) = Suc (nat (limit s))" "0 < nat (limit s)" using assms(1) by simp_all
  moreover have "take (nat (limit s)) (take (Suc (nat (limit s))) ys) = take (nat (limit s)) ys" by simp
  moreover have "ys \<noteq> []" using assms by auto
  ultimately show ?thesis using assms by (simp add: cursor_slice_def Let_def)
qed

text \<open>In a strictly descending listing, what lies below an entry is what follows it.\<close>

lemma after_entry:
  assumes "sorted_wrt (\<lambda>a b. key b < key a) (xs @ ys)" and "xs \<noteq> []"
  shows "filter (\<lambda>x. key x < key (last xs)) (xs @ ys) = ys"
proof -
  obtain zs z where xs: "xs = zs @ [z]" using assms(2) by (metis rev_exhaust)
  have "\<not> key x < key z" if "x \<in> set (zs @ [z])" for x
    using assms(1) that by (auto simp: xs sorted_wrt_append dest: less_asym)
  moreover have "key y < key z" if "y \<in> set ys" for y
    using assms(1) that by (auto simp: xs sorted_wrt_append)
  ultimately have "filter (\<lambda>x. key x < key z) (zs @ [z]) = []" "filter (\<lambda>x. key x < key z) ys = ys"
    by (simp_all add: filter_empty_conv del: filter_append)
  then show ?thesis by (simp add: xs)
qed

lemma follow_rest:
  assumes "ok s"
  shows "listing s = xs @ ys \<Longrightarrow> xs \<noteq> [] \<Longrightarrow> length ys < n \<Longrightarrow>
    follow n (get s) (Some (encode_cursor (fst (key (last xs))) (snd (key (last xs))))) = Some ys"
proof (induction n arbitrary: xs ys)
  case (Suc n)
  have "last xs \<in> set (listing s)" using Suc.prems by simp
  moreover have "filter (\<lambda>x. key x < key (last xs)) (listing s) = ys"
    using after_entry [of xs ys] descending [OF assms] Suc.prems(1,2) unfolding Suc.prems(1) by blast
  ultimately have page: "get s (Some (encode_cursor (fst (key (last xs))) (snd (key (last xs))))) =
      Inr (cursor_slice key (limit s) (take (nat (limit s + 1)) ys))"
    using next_page [OF assms, of "last xs"] by (simp only:)
  show ?case
  proof (cases "int (length ys) \<le> limit s")
    case True
    then show ?thesis using page slice_last limit_pos [OF assms] by simp
  next
    case False
    let ?p = "take (nat (limit s)) ys" and ?q = "drop (nat (limit s)) ys"
    have p: "?p \<noteq> []" using False limit_pos [OF assms] by auto
    have "listing s = (xs @ ?p) @ ?q" using Suc.prems by simp
    moreover have "length ?q < n" using Suc.prems False limit_pos [OF assms] by auto
    ultimately have "follow n (get s) (Some (encode_cursor (fst (key (last (xs @ ?p)))) (snd (key (last (xs @ ?p)))))) = Some ?q"
      using Suc.IH p by blast
    then show ?thesis using page slice_more [of s ys] False limit_pos [OF assms] p by simp
  qed
qed simp

theorem follow_reads_all:
  assumes "ok s" and "length (listing s) < n"
  shows "follow n (get s) None = Some (listing s)"
proof -
  obtain m where n: "n = Suc m" using assms(2) by (cases n) auto
  show ?thesis
  proof (cases "int (length (listing s)) \<le> limit s")
    case True
    then show ?thesis using n first_page [OF assms(1)] slice_last limit_pos [OF assms(1)] by simp
  next
    case False
    let ?p = "take (nat (limit s)) (listing s)" and ?q = "drop (nat (limit s)) (listing s)"
    have p: "?p \<noteq> []" using False limit_pos [OF assms(1)] by auto
    have "length ?q < m" using assms(2) n False limit_pos [OF assms(1)] by auto
    then have "follow m (get s) (Some (encode_cursor (fst (key (last ?p))) (snd (key (last ?p))))) = Some ?q"
      using follow_rest [OF assms(1), of ?p ?q] p by simp
    then show ?thesis using n first_page [OF assms(1)] slice_more [of s "listing s"] False limit_pos [OF assms(1)] by simp
  qed
qed

end

section \<open>Sorted tables\<close>

lemma newest_first_descending:
  assumes "distinct (map key rows)"
  shows "sorted_wrt (\<lambda>a b. key b < key a) (newest_first key rows)"
proof -
  have "sorted (map key (sort_key key rows))" "distinct (map key (sort_key key rows))"
    using assms by (simp_all add: distinct_map)
  then have "sorted_wrt (<) (map key (sort_key key rows))" by (simp add: strict_sorted_iff)
  then show ?thesis by (simp add: newest_first_def sorted_wrt_rev sorted_wrt_map)
qed

lemma newest_first_filter: "newest_first key (filter P rows) = filter P (newest_first key rows)"
  by (simp add: newest_first_def filter_sort [symmetric] rev_filter)

lemma set_newest_first [simp]: "set (newest_first key rows) = set rows"
  by (simp add: newest_first_def)

section \<open>What a cursor promises\<close>

text \<open>
  Every cursor that the API issues is accepted when it comes back, whatever further forms of
  ISO dates the parser knows, and it is read as exactly the instant and the identifier that it was
  made from; a query that carries it is valid whenever the rest of the query is.
\<close>

theorem issued_cursor_accepted:
  assumes "datetime_range t" and "db_int i" and "validate_cursor_query other (q\<lparr>cq_cursor := None\<rparr>) = Inr q'"
  shows "decode_cursor other (encode_cursor t i) = Inr (Aware t, i) \<and> cursor_regex (encode_cursor t i) \<and>
    validate_cursor_query other (q\<lparr>cq_cursor := Some (encode_cursor t i)\<rparr>) = Inr (q\<lparr>cq_cursor := Some (encode_cursor t i)\<rparr>)"
  using assms decode_encode_cursor [OF assms(1,2), of other] encode_cursor_accepted [OF assms(1,2)]
  by (auto simp: validate_cursor_query_def split: if_splits option.splits)

theorem issued_cursor_accepted_witness:
  "decode_cursor (\<lambda>s. None) (encode_cursor (seconds 5) 12) = Inr (Aware (seconds 5), 12)"
proof -
  have "validate_cursor_query (\<lambda>s. None) (\<lparr>cq_limit = 20, cq_cursor = None, cq_since = None, cq_until = None\<rparr>\<lparr>cq_cursor := None\<rparr>) =
      Inr \<lparr>cq_limit = 20, cq_cursor = None, cq_since = None, cq_until = None\<rparr>"
    by (simp add: validate_cursor_query_def)
  from issued_cursor_accepted [OF _ _ this, of "seconds 5" 12] show ?thesis by (simp add: datetime_range_def)
qed

end
