(* ===== verification/Logs.thy ===== *)
theory Logs
  imports Pagination AuditTrail
begin

text \<open>
  \<open>app/repositories/request_log_repo.py\<close>, \<open>app/repositories/audit_log_repo.py\<close>, their services
  (\<open>app/services/request_log_service.py\<close>, \<open>app/services/audit_log_service.py\<close>), query schemas and routes:
  the two append-only logs, read by cursor, scoped to their viewer. Both services interpret
  \<open>cursor_listing\<close>.
\<close>

section \<open>Request log\<close>

datatype Outcome = Success | Warning | Error

abbreviation CLIENT_ERROR_STATUS :: int where "CLIENT_ERROR_STATUS \<equiv> 400"
abbreviation SERVER_ERROR_STATUS :: int where "SERVER_ERROR_STATUS \<equiv> 500"
abbreviation MAX_STATUS :: int where "MAX_STATUS \<equiv> 599"

definition outcome_for :: "int \<Rightarrow> Outcome" where
  "outcome_for status_code =
     (if status_code \<ge> SERVER_ERROR_STATUS then Error
      else if status_code \<ge> CLIENT_ERROR_STATUS then Warning else Success)"

fun OUTCOME_RANGES :: "Outcome \<Rightarrow> int \<times> int" where
  "OUTCOME_RANGES Success = (0, CLIENT_ERROR_STATUS - 1)"
| "OUTCOME_RANGES Warning = (CLIENT_ERROR_STATUS, SERVER_ERROR_STATUS - 1)"
| "OUTCOME_RANGES Error = (SERVER_ERROR_STATUS, MAX_STATUS)"

record RequestLogQuery = CursorQuery +
  rq_outcome :: "Outcome option"
  rq_method :: "str option"
  rq_path :: "str option"
  rq_request_id :: "str option"
  rq_user_id :: "ident option"

text \<open>\<open>if query.x:\<close> on an optional string: absent and empty are no filter.\<close>

definition filter_str :: "str option \<Rightarrow> (str \<Rightarrow> bool) \<Rightarrow> bool" where
  "filter_str v P \<longleftrightarrow> (case v of None \<Rightarrow> True | Some [] \<Rightarrow> True | Some s \<Rightarrow> P s)"

definition filter_opt :: "'a option \<Rightarrow> ('a \<Rightarrow> bool) \<Rightarrow> bool" where
  "filter_opt v P \<longleftrightarrow> (case v of None \<Rightarrow> True | Some x \<Rightarrow> P x)"

definition request_log_where :: "RequestLogQuery \<Rightarrow> RequestLog \<Rightarrow> bool" where
  "request_log_where q r \<longleftrightarrow>
     filter_opt (rq_user_id q) (\<lambda>u. rl_user_id r = Some u) \<and>
     filter_opt (rq_outcome q) (\<lambda>x. fst (OUTCOME_RANGES x) \<le> rl_status_code r \<and> rl_status_code r \<le> snd (OUTCOME_RANGES x)) \<and>
     filter_str (rq_method q) (\<lambda>m. rl_method r = m) \<and>
     filter_str (rq_path q) (\<lambda>p. startswith p (rl_path r)) \<and>
     filter_str (rq_request_id q) (\<lambda>i. rl_request_id r = i) \<and>
     filter_opt (cq_since q) (\<lambda>t. rl_created_at r \<ge> t) \<and>
     filter_opt (cq_until q) (\<lambda>t. rl_created_at r \<le> t)"

abbreviation rl_key :: "RequestLog \<Rightarrow> time \<times> ident" where
  "rl_key r \<equiv> (rl_created_at r, rl_id r)"

definition request_log_list_page ::
  "(str \<Rightarrow> moment option) \<Rightarrow> RequestLogQuery \<Rightarrow> database \<Rightarrow> RequestLog list result" where
  "request_log_list_page other q d =
     rbind (cursor_condition other (cq_cursor q)) (\<lambda>cond.
       Inr (page_of rl_key (cq_limit q) (\<lambda>r. request_log_where q r \<and> cond (rl_key r)) (t_request_logs d)))"

record RequestRecord =
  rr_request_id :: str
  rr_method :: str
  rr_path :: str
  rr_status_code :: int
  rr_duration_us :: int
  rr_client_ip :: "str option"
  rr_user_id :: "ident option"

text \<open>\<open>record\<close>: the insert; a value longer than its column is refused by the database.\<close>

definition request_log_record :: "RequestRecord \<Rightarrow> database \<Rightarrow> (RequestLog \<times> database) result" where
  "request_log_record r d =
     (let row = \<lparr>rl_id = seqs d TRequestLogs, rl_request_id = rr_request_id r, rl_method = rr_method r,
                 rl_path = rr_path r, rl_status_code = rr_status_code r, rl_duration_us = rr_duration_us r,
                 rl_client_ip = rr_client_ip r, rl_user_id = rr_user_id r, rl_created_at = tx_now d\<rparr>
      in if length (rr_request_id r) > 64 \<or> length (rr_method r) > 10 \<or> length (rr_path r) > 512
            \<or> (case rr_client_ip r of None \<Rightarrow> False | Some ip \<Rightarrow> length ip > 45)
         then Inl (DataError STRING_TRUNCATION)
         else Inr (row, bump TRequestLogs (d\<lparr>t_request_logs := t_request_logs d @ [row]\<rparr>)))"

definition request_log_visible :: "User \<Rightarrow> Scope \<Rightarrow> RequestLogQuery \<Rightarrow> RequestLogQuery" where
  "request_log_visible viewer scope q =
     (if scope = ScopeAll then q else q\<lparr>rq_user_id := Some (user_id viewer)\<rparr>)"

definition request_log_list_for ::
  "(str \<Rightarrow> moment option) \<Rightarrow> User \<Rightarrow> Scope \<Rightarrow> RequestLogQuery \<Rightarrow> database \<Rightarrow> (RequestLog list \<times> str option) result" where
  "request_log_list_for other viewer scope q d =
     rbind (request_log_list_page other (request_log_visible viewer scope q) d) (\<lambda>found.
       Inr (cursor_slice rl_key (cq_limit q) found))"

text \<open>\<open>RequestLogQuery(request_id=\<dots>, limit=1)\<close> and the defaults.\<close>

definition request_log_query :: "int \<Rightarrow> str option \<Rightarrow> RequestLogQuery" where
  "request_log_query limit request_id = \<lparr>cq_limit = limit, cq_cursor = None, cq_since = None, cq_until = None,
     rq_outcome = None, rq_method = None, rq_path = None, rq_request_id = request_id, rq_user_id = None\<rparr>"

definition request_log_get_for ::
  "(str \<Rightarrow> moment option) \<Rightarrow> User \<Rightarrow> Scope \<Rightarrow> str \<Rightarrow> database \<Rightarrow> RequestLog result" where
  "request_log_get_for other viewer scope request_id d =
     rbind (request_log_list_page other (request_log_visible viewer scope (request_log_query 1 (Some request_id))) d) (\<lambda>found.
       (case found of
          [] \<Rightarrow> raise_error NotFoundError ''Request not found'' REQUEST_LOG_NOT_FOUND
        | entry # rest \<Rightarrow> Inr entry))"

section \<open>Audit log\<close>

record AuditLogQuery = CursorQuery +
  aq_actor_id :: "ident option"
  aq_impersonator_id :: "ident option"
  aq_table_name :: "str option"
  aq_row_pk :: "str option"
  aq_action :: "str option"
  aq_request_id :: "str option"

definition AUDIT_ACTIONS :: "AuditAction list" where
  "AUDIT_ACTIONS = [INSERT, UPDATE_ROW, DELETE_ROW, SOFT_DELETE, RESTORE, LINK, UNLINK, IMPERSONATE_START, IMPERSONATE_STOP]"

definition reject_an_action_the_trail_never_records :: "str option \<Rightarrow> str option result" where
  "reject_an_action_the_trail_never_records v =
     (case v of
        None \<Rightarrow> Inr None
      | Some a \<Rightarrow> if a \<in> set (map action_value AUDIT_ACTIONS) then Inr (Some a)
                  else Inl (ValueError ''action is not one this API records''))"

definition audit_log_where :: "AuditLogQuery \<Rightarrow> AuditLog \<Rightarrow> bool" where
  "audit_log_where q e \<longleftrightarrow>
     filter_opt (aq_actor_id q) (\<lambda>u. al_actor_id e = Some u) \<and>
     filter_opt (aq_impersonator_id q) (\<lambda>u. al_impersonator_id e = Some u) \<and>
     filter_str (aq_table_name q) (\<lambda>t. al_table_name e = t) \<and>
     filter_str (aq_row_pk q) (\<lambda>p. al_row_pk e = Some p) \<and>
     filter_str (aq_action q) (\<lambda>a. al_action e = a) \<and>
     filter_str (aq_request_id q) (\<lambda>i. al_request_id e = Some i) \<and>
     filter_opt (cq_since q) (\<lambda>t. al_occurred_at e \<ge> t) \<and>
     filter_opt (cq_until q) (\<lambda>t. al_occurred_at e \<le> t)"

abbreviation al_key :: "AuditLog \<Rightarrow> time \<times> ident" where
  "al_key e \<equiv> (al_occurred_at e, al_id e)"

definition audit_log_list_page ::
  "(str \<Rightarrow> moment option) \<Rightarrow> AuditLogQuery \<Rightarrow> database \<Rightarrow> AuditLog list result" where
  "audit_log_list_page other q d =
     rbind (cursor_condition other (cq_cursor q)) (\<lambda>cond.
       Inr (page_of al_key (cq_limit q) (\<lambda>e. audit_log_where q e \<and> cond (al_key e)) (t_audit_logs d)))"

definition audit_log_get :: "ident \<Rightarrow> database \<Rightarrow> AuditLog option" where
  "audit_log_get entry_id d = find_row (\<lambda>e. al_id e = entry_id) (t_audit_logs d)"

definition audit_log_visible :: "User \<Rightarrow> Scope \<Rightarrow> AuditLogQuery \<Rightarrow> AuditLogQuery" where
  "audit_log_visible viewer scope q =
     (if scope = ScopeAll then q else q\<lparr>aq_actor_id := Some (user_id viewer)\<rparr>)"

definition audit_log_list_for ::
  "(str \<Rightarrow> moment option) \<Rightarrow> User \<Rightarrow> Scope \<Rightarrow> AuditLogQuery \<Rightarrow> database \<Rightarrow> (AuditLog list \<times> str option) result" where
  "audit_log_list_for other viewer scope q d =
     rbind (audit_log_list_page other (audit_log_visible viewer scope q) d) (\<lambda>found.
       Inr (cursor_slice al_key (cq_limit q) found))"

definition audit_log_get_for :: "User \<Rightarrow> Scope \<Rightarrow> ident \<Rightarrow> database \<Rightarrow> AuditLog result" where
  "audit_log_get_for viewer scope entry_id d =
     (case audit_log_get entry_id d of
        None \<Rightarrow> raise_error NotFoundError ''Audit entry not found'' AUDIT_LOG_NOT_FOUND
      | Some entry \<Rightarrow>
          if scope \<noteq> ScopeAll \<and> al_actor_id entry \<noteq> Some (user_id viewer)
          then raise_error NotFoundError ''Audit entry not found'' AUDIT_LOG_NOT_FOUND
          else Inr entry)"

section \<open>Both logs are cursor listings\<close>

definition wf_log :: "('r \<Rightarrow> time \<times> ident) \<Rightarrow> 'r list \<Rightarrow> bool" where
  "wf_log key rows \<longleftrightarrow> distinct (map (snd \<circ> key) rows) \<and>
     (\<forall>r\<in>set rows. datetime_range (fst (key r)) \<and> db_int (snd (key r)))"

lemma wf_log_distinct: "wf_log key rows \<Longrightarrow> distinct (map key rows)"
  unfolding wf_log_def by (metis distinct_map map_map)

lemma wf_log_filter: "wf_log key rows \<Longrightarrow> wf_log key (filter P rows)"
  by (auto simp: wf_log_def distinct_map_filter)

definition request_log_listing :: "User \<Rightarrow> Scope \<Rightarrow> RequestLogQuery \<Rightarrow> database \<Rightarrow> RequestLog list" where
  "request_log_listing viewer scope q d =
     newest_first rl_key (filter (request_log_where (request_log_visible viewer scope q)) (t_request_logs d))"

definition audit_log_listing :: "User \<Rightarrow> Scope \<Rightarrow> AuditLogQuery \<Rightarrow> database \<Rightarrow> AuditLog list" where
  "audit_log_listing viewer scope q d =
     newest_first al_key (filter (audit_log_where (audit_log_visible viewer scope q)) (t_audit_logs d))"

lemma visible_cursor [simp]:
  "request_log_visible viewer scope (q\<lparr>cq_cursor := c\<rparr>) = (request_log_visible viewer scope q)\<lparr>cq_cursor := c\<rparr>"
  "audit_log_visible viewer scope (p\<lparr>cq_cursor := c\<rparr>) = (audit_log_visible viewer scope p)\<lparr>cq_cursor := c\<rparr>"
  "cq_limit (request_log_visible viewer scope q) = cq_limit q" "cq_limit (audit_log_visible viewer scope p) = cq_limit p"
  by (simp_all add: request_log_visible_def audit_log_visible_def)

lemma where_cursor [simp]:
  "request_log_where (q\<lparr>cq_cursor := c\<rparr>) = request_log_where q" "audit_log_where (p\<lparr>cq_cursor := c\<rparr>) = audit_log_where p"
  by (simp_all add: request_log_where_def audit_log_where_def fun_eq_iff)

text \<open>The page that an issued cursor leads to, and the page without a cursor.\<close>

lemma page_of_below:
  assumes "r \<in> set rows" and "wf_log key rows"
  shows "rbind (cursor_condition other (Some (encode_cursor (fst (key r)) (snd (key r))))) (\<lambda>cond.
      Inr (page_of key limit (\<lambda>x. P x \<and> cond (key x)) rows)) =
    Inr (take (nat (limit + 1)) (filter (\<lambda>x. key x < key r) (newest_first key (filter P rows))))"
  using assms by (simp add: cursor_condition_def decode_encode_cursor wf_log_def page_of_def newest_first_filter conj_commute)

lemma page_of_first:
  "rbind (cursor_condition other None) (\<lambda>cond. Inr (page_of key limit (\<lambda>x. P x \<and> cond (key x)) rows)) =
   Inr (take (nat (limit + 1)) (newest_first key (filter P rows)))"
  by (simp add: cursor_condition_def page_of_def)

interpretation requests: cursor_listing rl_key "\<lambda>(viewer, scope, q, d). request_log_listing viewer scope q d"
    "\<lambda>(viewer, scope, q, d). cq_limit q"
    "\<lambda>(viewer, scope, q, d) cursor. request_log_list_for other viewer scope (q\<lparr>cq_cursor := cursor\<rparr>) d"
    "\<lambda>(viewer, scope, q, d). 1 \<le> cq_limit q \<and> wf_log rl_key (t_request_logs d)" for other
proof
  fix s :: "User \<times> Scope \<times> RequestLogQuery \<times> database" and r
  obtain viewer scope q d where s: "s = (viewer, scope, q, d)" by (cases s) auto
  assume ok: "case s of (viewer, scope, q, d) \<Rightarrow> 1 \<le> cq_limit q \<and> wf_log rl_key (t_request_logs d)"
  show "1 \<le> (case s of (viewer, scope, q, d) \<Rightarrow> cq_limit q)" using ok by (simp add: s)
  show "sorted_wrt (\<lambda>a b. rl_key b < rl_key a) (case s of (viewer, scope, q, d) \<Rightarrow> request_log_listing viewer scope q d)"
    unfolding s prod.case request_log_listing_def
    by (rule newest_first_descending) (use ok in \<open>simp add: s wf_log_distinct wf_log_filter\<close>)
  show "(case s of (viewer, scope, q, d) \<Rightarrow> \<lambda>cursor. request_log_list_for other viewer scope (q\<lparr>cq_cursor := cursor\<rparr>) d) None =
      Inr (cursor_slice rl_key (case s of (viewer, scope, q, d) \<Rightarrow> cq_limit q)
        (take (nat ((case s of (viewer, scope, q, d) \<Rightarrow> cq_limit q) + 1))
          (case s of (viewer, scope, q, d) \<Rightarrow> request_log_listing viewer scope q d)))"
    by (simp add: s request_log_list_for_def request_log_list_page_def page_of_first request_log_listing_def)
  assume "r \<in> set (case s of (viewer, scope, q, d) \<Rightarrow> request_log_listing viewer scope q d)"
  then have "r \<in> set (t_request_logs d)" by (simp add: s request_log_listing_def)
  then show "(case s of (viewer, scope, q, d) \<Rightarrow> \<lambda>cursor. request_log_list_for other viewer scope (q\<lparr>cq_cursor := cursor\<rparr>) d)
        (Some (encode_cursor (fst (rl_key r)) (snd (rl_key r)))) =
      Inr (cursor_slice rl_key (case s of (viewer, scope, q, d) \<Rightarrow> cq_limit q)
        (take (nat ((case s of (viewer, scope, q, d) \<Rightarrow> cq_limit q) + 1))
          (filter (\<lambda>x. rl_key x < rl_key r) (case s of (viewer, scope, q, d) \<Rightarrow> request_log_listing viewer scope q d))))"
    using ok page_of_below [of r "t_request_logs d" rl_key]
    by (simp add: s request_log_list_for_def request_log_list_page_def request_log_listing_def)
qed

interpretation trail: cursor_listing al_key "\<lambda>(viewer, scope, q, d). audit_log_listing viewer scope q d"
    "\<lambda>(viewer, scope, q, d). cq_limit q"
    "\<lambda>(viewer, scope, q, d) cursor. audit_log_list_for other viewer scope (q\<lparr>cq_cursor := cursor\<rparr>) d"
    "\<lambda>(viewer, scope, q, d). 1 \<le> cq_limit q \<and> wf_log al_key (t_audit_logs d)" for other
proof
  fix s :: "User \<times> Scope \<times> AuditLogQuery \<times> database" and r
  obtain viewer scope q d where s: "s = (viewer, scope, q, d)" by (cases s) auto
  assume ok: "case s of (viewer, scope, q, d) \<Rightarrow> 1 \<le> cq_limit q \<and> wf_log al_key (t_audit_logs d)"
  show "1 \<le> (case s of (viewer, scope, q, d) \<Rightarrow> cq_limit q)" using ok by (simp add: s)
  show "sorted_wrt (\<lambda>a b. al_key b < al_key a) (case s of (viewer, scope, q, d) \<Rightarrow> audit_log_listing viewer scope q d)"
    unfolding s prod.case audit_log_listing_def
    by (rule newest_first_descending) (use ok in \<open>simp add: s wf_log_distinct wf_log_filter\<close>)
  show "(case s of (viewer, scope, q, d) \<Rightarrow> \<lambda>cursor. audit_log_list_for other viewer scope (q\<lparr>cq_cursor := cursor\<rparr>) d) None =
      Inr (cursor_slice al_key (case s of (viewer, scope, q, d) \<Rightarrow> cq_limit q)
        (take (nat ((case s of (viewer, scope, q, d) \<Rightarrow> cq_limit q) + 1))
          (case s of (viewer, scope, q, d) \<Rightarrow> audit_log_listing viewer scope q d)))"
    by (simp add: s audit_log_list_for_def audit_log_list_page_def page_of_first audit_log_listing_def)
  assume "r \<in> set (case s of (viewer, scope, q, d) \<Rightarrow> audit_log_listing viewer scope q d)"
  then have "r \<in> set (t_audit_logs d)" by (simp add: s audit_log_listing_def)
  then show "(case s of (viewer, scope, q, d) \<Rightarrow> \<lambda>cursor. audit_log_list_for other viewer scope (q\<lparr>cq_cursor := cursor\<rparr>) d)
        (Some (encode_cursor (fst (al_key r)) (snd (al_key r)))) =
      Inr (cursor_slice al_key (case s of (viewer, scope, q, d) \<Rightarrow> cq_limit q)
        (take (nat ((case s of (viewer, scope, q, d) \<Rightarrow> cq_limit q) + 1))
          (filter (\<lambda>x. al_key x < al_key r) (case s of (viewer, scope, q, d) \<Rightarrow> audit_log_listing viewer scope q d))))"
    using ok page_of_below [of r "t_audit_logs d" al_key]
    by (simp add: s audit_log_list_for_def audit_log_list_page_def audit_log_listing_def)
qed

section \<open>What the logs promise\<close>

lemma cursor_slice_subset: "cursor_slice key limit found = (page, c) \<Longrightarrow> x \<in> set page \<Longrightarrow> x \<in> set found"
  by (auto simp: cursor_slice_def Let_def split: if_splits dest: in_set_takeD)

text \<open>
  C18. Whatever the filters, a reader who starts without a cursor and follows the cursors gets
  every entry of the log that it may see and that matches, newest first and each exactly once, in
  finitely many pages of at most the requested size. This holds for the request log and for the
  audit log.
\<close>

theorem log_pages_complete:
  assumes "1 \<le> cq_limit q" and "wf_log rl_key (t_request_logs d)" and "length (t_request_logs d) < n"
    and "1 \<le> cq_limit p" and "wf_log al_key (t_audit_logs d)" and "length (t_audit_logs d) < m"
  shows "follow n (\<lambda>c. request_log_list_for other viewer scope (q\<lparr>cq_cursor := c\<rparr>) d) None =
      Some (newest_first rl_key (filter (request_log_where (request_log_visible viewer scope q)) (t_request_logs d))) \<and>
    follow m (\<lambda>c. audit_log_list_for other viewer scope (p\<lparr>cq_cursor := c\<rparr>) d) None =
      Some (newest_first al_key (filter (audit_log_where (audit_log_visible viewer scope p)) (t_audit_logs d)))"
proof -
  have "length (request_log_listing viewer scope q d) < n" "length (audit_log_listing viewer scope p d) < m"
    using assms(3,6) by (simp_all add: request_log_listing_def audit_log_listing_def newest_first_def
        le_less_trans [OF length_filter_le])
  then show ?thesis
    using requests.follow_reads_all [of "(viewer, scope, q, d)" n other]
      trail.follow_reads_all [of "(viewer, scope, p, d)" m other] assms(1,2,4,5)
    by (simp add: request_log_listing_def audit_log_listing_def)
qed

text \<open>
  C36. With the scope \<open>own\<close>, neither log shows an entry of anybody else: not in a page, even when the
  query names another account, and not by asking for a single entry. Each of the four answers keeps this on
  its own, whatever the others would be.
\<close>

theorem logs_scoped_to_viewer:
  shows "(\<forall>q page c. request_log_list_for other viewer ScopeOwn q d = Inr (page, c) \<longrightarrow>
        (\<forall>r\<in>set page. rl_user_id r = Some (user_id viewer))) \<and>
    (\<forall>rid r. request_log_get_for other viewer ScopeOwn rid d = Inr r \<longrightarrow> rl_user_id r = Some (user_id viewer)) \<and>
    (\<forall>p page c. audit_log_list_for other viewer ScopeOwn p d = Inr (page, c) \<longrightarrow>
        (\<forall>e\<in>set page. al_actor_id e = Some (user_id viewer))) \<and>
    (\<forall>eid e. audit_log_get_for viewer ScopeOwn eid d = Inr e \<longrightarrow> al_actor_id e = Some (user_id viewer))"
proof -
  have own: "rl_user_id x = Some (user_id viewer)"
    if "request_log_list_page other (request_log_visible viewer ScopeOwn p) d = Inr found" "x \<in> set found" for p found x
    using that by (auto simp: request_log_list_page_def request_log_visible_def page_of_def rbind_eq_Inr
        request_log_where_def filter_opt_def dest!: in_set_takeD)
  have acted: "al_actor_id x = Some (user_id viewer)"
    if "audit_log_list_page other (audit_log_visible viewer ScopeOwn p) d = Inr found" "x \<in> set found" for p found x
    using that by (auto simp: audit_log_list_page_def audit_log_visible_def page_of_def rbind_eq_Inr
        audit_log_where_def filter_opt_def dest!: in_set_takeD)
  have "rl_user_id r = Some (user_id viewer)"
    if "request_log_list_for other viewer ScopeOwn q d = Inr (page, c)" "r \<in> set page" for q page c r
    using that own cursor_slice_subset by (fastforce simp: request_log_list_for_def rbind_eq_Inr)
  moreover have "rl_user_id r = Some (user_id viewer)" if get: "request_log_get_for other viewer ScopeOwn rid d = Inr r" for rid r
  proof -
    obtain found where found: "request_log_list_page other
        (request_log_visible viewer ScopeOwn (request_log_query 1 (Some rid))) d = Inr found"
      using get by (auto simp: request_log_get_for_def elim: rbindE)
    with get have "r \<in> set found"
      by (auto simp: request_log_get_for_def raise_error_def split: list.splits)
    then show ?thesis using own [OF found] by blast
  qed
  moreover have "al_actor_id e = Some (user_id viewer)"
    if "audit_log_list_for other viewer ScopeOwn p d = Inr (page, c)" "e \<in> set page" for p page c e
    using that acted cursor_slice_subset by (fastforce simp: audit_log_list_for_def rbind_eq_Inr)
  moreover have "al_actor_id e = Some (user_id viewer)" if "audit_log_get_for viewer ScopeOwn eid d = Inr e" for eid e
    using that by (auto simp: audit_log_get_for_def raise_error_def split: option.splits if_splits)
  ultimately show ?thesis by blast
qed

text \<open>
  A filter by outcome selects exactly the entries that are labelled with it, for every status code
  that HTTP has.
\<close>

lemma outcome_filter_matches_label:
  assumes "0 \<le> s" and "s \<le> MAX_STATUS"
  shows "fst (OUTCOME_RANGES x) \<le> s \<and> s \<le> snd (OUTCOME_RANGES x) \<longleftrightarrow> outcome_for s = x"
  using assms by (cases x) (auto simp: outcome_for_def)

text \<open>
  Entries that arrive while a reader pages through a log do not shift the pages that follow: a
  cursor leads to the same page, whatever newer entries were appended.
\<close>

lemma newer_entries_do_not_shift:
  assumes "wf_log rl_key (t_request_logs d)" and "r \<in> set (t_request_logs d)"
    and "t_request_logs d' = t_request_logs d @ new" and "\<And>x. x \<in> set new \<Longrightarrow> rl_key r < rl_key x"
  shows "request_log_list_page other (q\<lparr>cq_cursor := Some (encode_cursor (rl_created_at r) (rl_id r))\<rparr>) d' =
    request_log_list_page other (q\<lparr>cq_cursor := Some (encode_cursor (rl_created_at r) (rl_id r))\<rparr>) d"
proof -
  have bound: "cursor_condition other (Some (encode_cursor (rl_created_at r) (rl_id r))) =
      Inr (below (Some (Aware (rl_created_at r), rl_id r)))"
    using assms(1,2) by (simp add: cursor_condition_def decode_encode_cursor wf_log_def)
  have "filter (\<lambda>x. request_log_where q x \<and> below (Some (Aware (rl_created_at r), rl_id r)) (rl_key x)) new = []"
    using assms(4) by (fastforce simp: filter_empty_conv)
  then show ?thesis by (simp add: request_log_list_page_def bound page_of_def assms(3))
qed

section \<open>Sample logs\<close>

definition sample_viewer :: "ident \<Rightarrow> User" where
  "sample_viewer uid = \<lparr>user_id = uid, user_email = ''v@b.co'', user_name = None, user_hashed_password = ''h'',
     user_email_verified_at = None, user_password_changed_at = None, user_deleted_at = None,
     user_created_at = 0, user_updated_at = 0, user_roles = []\<rparr>"

definition sample_request :: "ident \<Rightarrow> time \<Rightarrow> ident \<Rightarrow> RequestLog" where
  "sample_request i t uid = \<lparr>rl_id = i, rl_request_id = ''r'' @ show_int i, rl_method = ''GET'', rl_path = ''/v1'',
     rl_status_code = 200, rl_duration_us = 5, rl_client_ip = None, rl_user_id = Some uid, rl_created_at = t\<rparr>"

definition sample_entry :: "ident \<Rightarrow> time \<Rightarrow> ident \<Rightarrow> AuditLog" where
  "sample_entry i t uid = \<lparr>al_id = i, al_occurred_at = t, al_request_id = None, al_actor_id = Some uid,
     al_impersonator_id = None, al_source = SYSTEM_SOURCE, al_method = None, al_path = None, al_client_ip = None,
     al_table_name = ''items'', al_action = action_value INSERT, al_row_pk = Some ''1'', al_changes = [], al_truncated = False\<rparr>"

definition sample_logs_db :: database where
  "sample_logs_db = empty_db\<lparr>
     t_request_logs := [sample_request 1 5 7, sample_request 2 9 8, sample_request 3 5 7],
     t_audit_logs := [sample_entry 1 4 7, sample_entry 2 4 8]\<rparr>"

definition sample_audit_query :: AuditLogQuery where
  "sample_audit_query = \<lparr>cq_limit = 1, cq_cursor = None, cq_since = None, cq_until = None, aq_actor_id = Some 8,
     aq_impersonator_id = None, aq_table_name = None, aq_row_pk = None, aq_action = None, aq_request_id = None\<rparr>"

lemma wf_sample_logs: "wf_log rl_key (t_request_logs sample_logs_db)" "wf_log al_key (t_audit_logs sample_logs_db)"
  by (simp_all add: wf_log_def sample_logs_db_def sample_request_def sample_entry_def datetime_range_def)

theorem log_pages_complete_witness:
  "map_option (map rl_id) (follow 4 (\<lambda>c. request_log_list_for (\<lambda>s. None) (sample_viewer 7) ScopeAll
      ((request_log_query 1 None)\<lparr>cq_cursor := c\<rparr>) sample_logs_db) None) = Some [2, 3, 1] \<and>
   map_option (map al_id) (follow 3 (\<lambda>c. audit_log_list_for (\<lambda>s. None) (sample_viewer 7) ScopeAll
      (sample_audit_query\<lparr>cq_cursor := c\<rparr>) sample_logs_db) None) = Some [2]"
proof -
  have limits: "1 \<le> cq_limit (request_log_query 1 None)" "1 \<le> cq_limit sample_audit_query"
    by (simp_all add: request_log_query_def sample_audit_query_def)
  have sizes: "length (t_request_logs sample_logs_db) < 4" "length (t_audit_logs sample_logs_db) < 3"
    by (simp_all add: sample_logs_db_def)
  have "map rl_id (newest_first rl_key (filter (request_log_where (request_log_visible (sample_viewer 7) ScopeAll
      (request_log_query 1 None))) (t_request_logs sample_logs_db))) = [2, 3, 1]" by code_simp
  moreover have "map al_id (newest_first al_key (filter (audit_log_where (audit_log_visible (sample_viewer 7) ScopeAll
      sample_audit_query)) (t_audit_logs sample_logs_db))) = [2]" by code_simp
  ultimately show ?thesis
    using log_pages_complete [OF limits(1) wf_sample_logs(1) sizes(1) limits(2) wf_sample_logs(2) sizes(2),
        of "\<lambda>s. None" "sample_viewer 7" ScopeAll] by simp
qed

theorem logs_scoped_to_viewer_witness:
  "rl_user_id (sample_request 3 5 7) = Some 7 \<and>
   request_log_get_for (\<lambda>s. None) (sample_viewer 7) ScopeOwn ''r1'' sample_logs_db = Inr (sample_request 1 5 7) \<and>
   al_actor_id (sample_entry 1 4 7) = Some 7"
proof -
  have "request_log_list_for (\<lambda>s. None) (sample_viewer 7) ScopeOwn (request_log_query 2 None) sample_logs_db =
      Inr ([sample_request 3 5 7, sample_request 1 5 7], None)" by code_simp
  moreover have get: "request_log_get_for (\<lambda>s. None) (sample_viewer 7) ScopeOwn ''r1'' sample_logs_db =
      Inr (sample_request 1 5 7)" by code_simp
  moreover have "audit_log_list_for (\<lambda>s. None) (sample_viewer 7) ScopeOwn sample_audit_query sample_logs_db =
      Inr ([sample_entry 1 4 7], None)" by code_simp
  moreover have "audit_log_get_for (sample_viewer 7) ScopeOwn 1 sample_logs_db = Inr (sample_entry 1 4 7)" by code_simp
  ultimately show ?thesis
    using logs_scoped_to_viewer [of "\<lambda>s. None" "sample_viewer 7" sample_logs_db] by (fastforce simp: sample_viewer_def)
qed

end
