(* ===== verification/Jobs.thy ===== *)
theory Jobs
  imports Logs Idempotency TokenRepos "HOL-Library.Word"
begin

text \<open>
  \<open>app/jobs/\<close>, \<open>app/core/jobs/scheduler.py\<close>, \<open>BaseRepository._delete_batch_before\<close> and \<open>prune_before\<close>:
  the retention jobs, the batches they delete in, the advisory lock that lets one replica work at a
  time, and the scheduler. The locale \<open>batch_pruner\<close> is the contract of one batch; the drain loop is
  proved once against it, and the three pruned tables are its interpretations.
\<close>

section \<open>Batches\<close>

abbreviation DELETE_BATCH_SIZE :: int where "DELETE_BATCH_SIZE \<equiv> 5000"

definition delete_batch_before ::
  "('r \<Rightarrow> ident) \<Rightarrow> ('r \<Rightarrow> time) \<Rightarrow> time \<Rightarrow> int \<Rightarrow> 'r list \<Rightarrow> int \<times> 'r list" where
  "delete_batch_before identifier moment cutoff batch_size rows =
     (let doomed = take (nat batch_size) (sort (map identifier (filter (\<lambda>r. moment r < cutoff) rows)))
      in (count_where (\<lambda>r. identifier r \<in> set doomed) rows, delete_where (\<lambda>r. identifier r \<in> set doomed) rows))"

definition prune_before :: "(time \<Rightarrow> int \<Rightarrow> 'a) \<Rightarrow> time \<Rightarrow> time \<Rightarrow> int \<Rightarrow> 'a" where
  "prune_before delete_batch now retention batch_size = delete_batch (now - retention) batch_size"

definition request_log_delete_batch :: "database \<Rightarrow> time \<Rightarrow> int \<Rightarrow> int \<times> database" where
  "request_log_delete_batch d cutoff batch_size =
     (let (n, rows) = delete_batch_before rl_id rl_created_at cutoff batch_size (t_request_logs d)
      in (n, d\<lparr>t_request_logs := rows\<rparr>))"

definition audit_log_delete_batch :: "database \<Rightarrow> time \<Rightarrow> int \<Rightarrow> int \<times> database" where
  "audit_log_delete_batch d cutoff batch_size =
     (let (n, rows) = delete_batch_before al_id al_occurred_at cutoff batch_size (t_audit_logs d)
      in (n, d\<lparr>t_audit_logs := rows\<rparr>))"

definition idempotency_delete_batch :: "database \<Rightarrow> time \<Rightarrow> int \<Rightarrow> int \<times> database" where
  "idempotency_delete_batch d cutoff batch_size =
     (let (n, rows) = delete_batch_before ik_id ik_created_at cutoff batch_size (t_idempotency_keys d)
      in (n, d\<lparr>t_idempotency_keys := rows\<rparr>))"

text \<open>The three services' \<open>prune_batch(retention, batch_size)\<close>, with the clock they read.\<close>

type_synonym prune_batch = "time \<Rightarrow> time \<Rightarrow> int \<Rightarrow> database \<Rightarrow> int \<times> database"

definition request_log_prune_batch :: prune_batch where
  "request_log_prune_batch now retention batch_size d =
     prune_before (request_log_delete_batch d) now retention batch_size"

definition audit_log_prune_batch :: prune_batch where
  "audit_log_prune_batch now retention batch_size d =
     prune_before (audit_log_delete_batch d) now retention batch_size"

definition idempotency_prune_batch :: prune_batch where
  "idempotency_prune_batch now retention batch_size d =
     prune_before (idempotency_delete_batch d) now retention batch_size"

section \<open>Maintenance\<close>

text \<open>
  \<open>_drain\<close>: batch after batch, each committed, until one is not full. \<open>clock k\<close> is what the \<open>k\<close>-th
  batch reads from the clock. The loop has no bound of its own: not returning is \<open>None\<close>.
\<close>

partial_function (option) drain ::
  "(time \<Rightarrow> time \<Rightarrow> int \<Rightarrow> 's \<Rightarrow> int \<times> 's) \<Rightarrow> (nat \<Rightarrow> time) \<Rightarrow> time \<Rightarrow> nat \<Rightarrow> int \<Rightarrow> 's \<Rightarrow> (int \<times> 's) option" where
  "drain prune clock retention k removed s =
     (let (batch, s') = prune (clock k) retention DELETE_BATCH_SIZE s
      in if batch < DELETE_BATCH_SIZE then Some (removed + batch, s')
         else drain prune clock retention (Suc k) (removed + batch) s')"

definition prune_audit_log :: "(nat \<Rightarrow> time) \<Rightarrow> time \<Rightarrow> database \<Rightarrow> (int \<times> database) option" where
  "prune_audit_log clock retention d = drain audit_log_prune_batch clock retention 0 0 d"

definition prune_request_log :: "(nat \<Rightarrow> time) \<Rightarrow> time \<Rightarrow> database \<Rightarrow> (int \<times> database) option" where
  "prune_request_log clock retention d = drain request_log_prune_batch clock retention 0 0 d"

definition prune_idempotency_keys :: "(nat \<Rightarrow> time) \<Rightarrow> time \<Rightarrow> database \<Rightarrow> (int \<times> database) option" where
  "prune_idempotency_keys clock retention d = drain idempotency_prune_batch clock retention 0 0 d"

definition expire_tokens :: "time \<Rightarrow> database \<Rightarrow> int \<times> database" where
  "expire_tokens now d =
     (let (n, d1) = rt_delete_expired now d; (m, d2) = sut_delete_expired now d1 in (n + m, d2))"

section \<open>The registry and the scheduler\<close>

abbreviation PRUNE_AUDIT_LOG :: str where "PRUNE_AUDIT_LOG \<equiv> ''prune-audit-log''"
abbreviation PRUNE_REQUEST_LOG :: str where "PRUNE_REQUEST_LOG \<equiv> ''prune-request-log''"
abbreviation PRUNE_IDEMPOTENCY_KEYS :: str where "PRUNE_IDEMPOTENCY_KEYS \<equiv> ''prune-idempotency-keys''"
abbreviation EXPIRE_TOKENS :: str where "EXPIRE_TOKENS \<equiv> ''expire-tokens''"

type_synonym work = "(nat \<Rightarrow> time) \<Rightarrow> database \<Rightarrow> (int \<times> database) option"

record Job =
  job_name :: str
  job_interval :: time
  job_work :: work

definition maintenance_jobs :: "Settings \<Rightarrow> Job list" where
  "maintenance_jobs s =
     [\<lparr>job_name = PRUNE_AUDIT_LOG, job_interval = days 1,
       job_work = (\<lambda>clock. prune_audit_log clock (days (audit_log_retention_days s)))\<rparr>,
      \<lparr>job_name = PRUNE_REQUEST_LOG, job_interval = days 1,
       job_work = (\<lambda>clock. prune_request_log clock (days (request_log_retention_days s)))\<rparr>,
      \<lparr>job_name = PRUNE_IDEMPOTENCY_KEYS, job_interval = hours 1,
       job_work = (\<lambda>clock. prune_idempotency_keys clock (hours (idempotency_retention_hours s)))\<rparr>,
      \<lparr>job_name = EXPIRE_TOKENS, job_interval = hours 1,
       job_work = (\<lambda>clock d. Some (expire_tokens (clock 0) d))\<rparr>]"

text \<open>\<open>once_across_replicas\<close>: without the lock the job does nothing and reports no rows.\<close>

definition once_across_replicas :: "bool \<Rightarrow> work \<Rightarrow> work" where
  "once_across_replicas acquired work clock d = (if acquired then work clock d else Some (0, d))"

text \<open>\<open>run_once\<close>: a job that raises is logged and answers nothing; only a cancellation passes.\<close>

datatype 'a run = Returned 'a | Raised | Cancelled

definition run_once :: "int run \<Rightarrow> int option run" where
  "run_once outcome = (case outcome of Returned rows \<Rightarrow> Returned (Some rows) | Raised \<Rightarrow> Returned None | Cancelled \<Rightarrow> Cancelled)"

text \<open>
  \<open>_loop\<close>: the instants at which a job starts, given how long its runs take; the loop ends with the
  first cancelled run. \<open>start\<close> and \<open>stop\<close> keep the list of tasks.
\<close>

fun loop :: "time \<Rightarrow> time \<Rightarrow> (time \<times> int run) list \<Rightarrow> (time \<times> int option run) list" where
  "loop interval t [] = []"
| "loop interval t ((took, outcome) # runs) =
     (t, run_once outcome) #
     (case run_once outcome of Cancelled \<Rightarrow> [] | _ \<Rightarrow> loop interval (t + took + interval) runs)"

definition scheduler_start :: "Job list \<Rightarrow> str list \<Rightarrow> str list" where
  "scheduler_start jobs tasks = (if tasks \<noteq> [] then tasks else map (\<lambda>j. ''job:'' @ job_name j) jobs)"

definition scheduler_stop :: "str list \<Rightarrow> str list" where
  "scheduler_stop tasks = []"

section \<open>The lock\<close>

unbundle bit_operations_syntax

text \<open>\<open>zlib.crc32\<close>, bit by bit, on 32-bit words.\<close>

definition crc_bit :: "32 word \<Rightarrow> 32 word" where
  "crc_bit c = (if bit c 0 then drop_bit 1 c XOR 0xEDB88320 else drop_bit 1 c)"

definition crc_byte :: "32 word \<Rightarrow> char \<Rightarrow> 32 word" where
  "crc_byte c b = (crc_bit ^^ 8) (c XOR of_nat (of_char b))"

definition crc32 :: "str \<Rightarrow> 32 word" where
  "crc32 bytes = NOT (foldl crc_byte (NOT 0) bytes)"

abbreviation SIGNED_32_BIT_OFFSET :: int where "SIGNED_32_BIT_OFFSET \<equiv> 2 ^ 31"

definition lock_key :: "Settings \<Rightarrow> str \<Rightarrow> int" where
  "lock_key s name = uint (crc32 (utf8_encode (service_name s @ '':'' @ name))) - SIGNED_32_BIT_OFFSET"

text \<open>
  The replicas, each with the connection of its job: \<open>pg_try_advisory_lock\<close> takes a free key for the
  connection and answers whether it did, \<open>pg_advisory_unlock\<close> frees it when the job is over, raised or
  not, and the server frees it when the connection is lost.
\<close>

record lock_state =
  ls_holder :: "int \<Rightarrow> nat option"
  ls_running :: "nat \<Rightarrow> str option"

definition try_advisory_lock :: "nat \<Rightarrow> int \<Rightarrow> lock_state \<Rightarrow> bool \<times> lock_state" where
  "try_advisory_lock conn key st =
     (if ls_holder st key = None \<or> ls_holder st key = Some conn
      then (True, st\<lparr>ls_holder := (ls_holder st)(key := Some conn)\<rparr>) else (False, st))"

definition advisory_unlock :: "nat \<Rightarrow> int \<Rightarrow> lock_state \<Rightarrow> lock_state" where
  "advisory_unlock conn key st =
     (if ls_holder st key = Some conn then st\<lparr>ls_holder := (ls_holder st)(key := None)\<rparr> else st)"

inductive lock_step :: "Settings \<Rightarrow> lock_state \<Rightarrow> lock_state \<Rightarrow> bool" for s where
  enter: "ls_running st i = None \<Longrightarrow> try_advisory_lock i (lock_key s name) st = (True, st') \<Longrightarrow>
     lock_step s st (st'\<lparr>ls_running := (ls_running st')(i := Some name)\<rparr>)"
| skip: "ls_running st i = None \<Longrightarrow> try_advisory_lock i (lock_key s name) st = (False, st') \<Longrightarrow>
     lock_step s st st'"
| leave: "ls_running st i = Some name \<Longrightarrow>
     lock_step s st ((advisory_unlock i (lock_key s name) st)\<lparr>ls_running := (ls_running st)(i := None)\<rparr>)"

definition no_locks :: lock_state where
  "no_locks = \<lparr>ls_holder = (\<lambda>k. None), ls_running = (\<lambda>i. None)\<rparr>"

section \<open>The drain\<close>

text \<open>
  What one batch does, over a table \<open>rows s\<close> with a moment per row: it deletes only rows older than
  the retention, reports how many, and when it is not full there is none left; \<open>put\<close> replaces that table, and
  a batch changes nothing else.
\<close>

locale batch_pruner =
  fixes prune :: "time \<Rightarrow> time \<Rightarrow> int \<Rightarrow> 's \<Rightarrow> int \<times> 's"
    and rows :: "'s \<Rightarrow> 'r list"
    and moment :: "'r \<Rightarrow> time"
    and put :: "'r list \<Rightarrow> 's \<Rightarrow> 's"
    and inv :: "'s \<Rightarrow> bool"
  assumes put_laws: "rows (put xs s) = xs" "put (rows s) s = s" "put ys (put xs s) = put ys s"
    and batch_law: "inv s \<Longrightarrow> 0 < bsz \<Longrightarrow> prune now retention bsz s = (n, s') \<Longrightarrow>
      inv s' \<and> s' = put (rows s') s \<and> (\<exists>P. rows s' = filter (\<lambda>r. \<not> P r) (rows s) \<and> (\<forall>r. P r \<longrightarrow> moment r < now - retention)) \<and>
      n = int (length (rows s)) - int (length (rows s')) \<and>
      (n < bsz \<longrightarrow> (\<forall>r\<in>set (rows s'). now - retention \<le> moment r))"
begin

lemma drain_exact:
  assumes mono: "\<And>i j. i \<le> j \<Longrightarrow> clock i \<le> clock j"
  shows "inv s \<Longrightarrow> \<exists>m s'. drain prune clock retention k removed s =
      Some (removed + int (length (rows s)) - int (length (rows s')), s') \<and> inv s' \<and> s' = put (rows s') s \<and>
      k \<le> m \<and> int (m - k) * DELETE_BATCH_SIZE \<le> int (length (rows s)) \<and>
      rows s' = filter (\<lambda>r. clock m - retention \<le> moment r) (rows s)"
proof (induction "length (rows s)" arbitrary: s k removed rule: less_induct)
  case less
  obtain n t where step: "prune (clock k) retention DELETE_BATCH_SIZE s = (n, t)" by fastforce
  from batch_law [OF less.prems _ step] obtain P where law: "inv t" "rows t = filter (\<lambda>r. \<not> P r) (rows s)"
    "\<And>r. P r \<Longrightarrow> moment r < clock k - retention" "n = int (length (rows s)) - int (length (rows t))"
    "n < DELETE_BATCH_SIZE \<Longrightarrow> \<forall>r\<in>set (rows t). clock k - retention \<le> moment r"
    and frame: "t = put (rows t) s"
    by auto
  show ?case
  proof (cases "n < DELETE_BATCH_SIZE")
    case True
    have "rows t = filter (\<lambda>r. clock k - retention \<le> moment r) (rows s)"
      using law(2,3) law(5) [OF True] by (auto simp: law(2) intro!: filter_cong) (metis linorder_not_le)+
    then show ?thesis using True law(1,4) frame step by (subst drain.simps) auto
  next
    case False
    then have "length (rows t) < length (rows s)" using law(4) by simp
    from less.hyps [OF this law(1), of "Suc k" "removed + n"] obtain m u where ih:
      "drain prune clock retention (Suc k) (removed + n) t = Some (removed + n + int (length (rows t)) - int (length (rows u)), u)"
      "inv u" "Suc k \<le> m" "int (m - Suc k) * DELETE_BATCH_SIZE \<le> int (length (rows t))"
      "rows u = filter (\<lambda>r. clock m - retention \<le> moment r) (rows t)" "u = put (rows u) t" by blast
    have "u = put (rows u) s" by (metis ih(6) frame put_laws(3))
    moreover have le: "clock k \<le> clock m" using mono ih(3) by simp
    moreover have "rows u = filter (\<lambda>r. clock m - retention \<le> moment r) (rows s)"
      unfolding ih(5) law(2) filter_filter using law(3) le by (intro filter_cong) force+
    moreover have "int (m - k) * DELETE_BATCH_SIZE \<le> int (length (rows s))"
      using ih(3,4) False law(4) by (simp add: of_nat_diff algebra_simps)
    moreover have "drain prune clock retention k removed s =
        Some (removed + int (length (rows s)) - int (length (rows u)), u)"
      using ih(1) step False law(4) by (subst drain.simps) simp
    ultimately show ?thesis using ih(2,3) by (intro exI [of _ m] exI [of _ u]) simp
  qed
qed

text \<open>From the first batch on: what is gone is what the report counts.\<close>

lemma drain_from_start:
  assumes "\<And>i j. i \<le> j \<Longrightarrow> clock i \<le> clock j" "inv s"
  shows "\<exists>m. int m * DELETE_BATCH_SIZE \<le> int (length (rows s)) \<and>
    drain prune clock retention 0 0 s = Some (int (length (filter (\<lambda>r. moment r < clock m - retention) (rows s))),
      put (filter (\<lambda>r. clock m - retention \<le> moment r) (rows s)) s)"
proof -
  obtain m s' where d: "drain prune clock retention 0 0 s = Some (0 + int (length (rows s)) - int (length (rows s')), s')"
    "s' = put (rows s') s" "int (m - 0) * DELETE_BATCH_SIZE \<le> int (length (rows s))"
    "rows s' = filter (\<lambda>r. clock m - retention \<le> moment r) (rows s)"
    using drain_exact [where clock = clock and k = 0 and removed = 0, OF assms] by blast
  have "length (rows s) = length (filter (\<lambda>r. moment r < clock m - retention) (rows s)) + length (rows s')"
    using sum_length_filter_compl [of "\<lambda>r. moment r < clock m - retention" "rows s"] by (simp add: d(4) not_less)
  then show ?thesis
    using d by (intro exI [of _ m]) simp
qed

end

lemma delete_batch_spec:
  assumes dist: "distinct (map identifier rows)" and "0 < bsz"
    and res: "delete_batch_before identifier moment cutoff bsz rows = (n, rows')"
  shows "\<exists>P. rows' = filter (\<lambda>r. \<not> P r) rows \<and> (\<forall>r. P r \<longrightarrow> moment r < cutoff)"
    and "n = int (length rows) - int (length rows')"
    and "n < bsz \<Longrightarrow> \<forall>r\<in>set rows'. cutoff \<le> moment r"
proof -
  define doomed where "doomed = take (nat bsz) (sort (map identifier (filter (\<lambda>r. moment r < cutoff) rows)))"
  have old: "set doomed \<subseteq> identifier ` {r \<in> set rows. moment r < cutoff}"
    unfolding doomed_def by (auto dest!: in_set_takeD)
  have dd: "distinct doomed" unfolding doomed_def using dist by (simp add: distinct_map_filter)
  have all: "identifier ` {r \<in> set rows. moment r < cutoff} \<subseteq> set doomed" if "int (length doomed) < bsz"
    using that unfolding doomed_def by (auto simp: min_def split: if_splits)
  from res have n: "n = count_where (\<lambda>r. identifier r \<in> set doomed) rows"
    and rows': "rows' = delete_where (\<lambda>r. identifier r \<in> set doomed) rows"
    by (simp_all add: delete_batch_before_def Let_def doomed_def)
  have "rows' = filter (\<lambda>r. \<not> (r \<in> set rows \<and> identifier r \<in> set doomed)) rows"
    unfolding rows' delete_where_def by (rule filter_cong) auto
  moreover have "\<forall>r. r \<in> set rows \<and> identifier r \<in> set doomed \<longrightarrow> moment r < cutoff"
    using old distinct_key_eq [OF dist] by blast
  ultimately show "\<exists>P. rows' = filter (\<lambda>r. \<not> P r) rows \<and> (\<forall>r. P r \<longrightarrow> moment r < cutoff)"
    by (intro exI [of _ "\<lambda>r. r \<in> set rows \<and> identifier r \<in> set doomed"] conjI)
  show "n = int (length rows) - int (length rows')" unfolding n rows' length_delete_where by simp
  have "set (map identifier (filter (\<lambda>r. identifier r \<in> set doomed) rows)) = set doomed" using old by auto
  then have "length (map identifier (filter (\<lambda>r. identifier r \<in> set doomed) rows)) = length doomed"
    using dd dist by (metis distinct_card distinct_map_filter)
  then have "n = int (length doomed)" by (simp add: n count_where_def)
  then show "\<forall>r\<in>set rows'. cutoff \<le> moment r" if "n < bsz"
    using that all unfolding rows' by (auto simp: image_subset_iff not_less [symmetric])
qed

interpretation request_pruner: batch_pruner request_log_prune_batch t_request_logs rl_created_at
    "\<lambda>rows d. d\<lparr>t_request_logs := rows\<rparr>"
    "\<lambda>d. distinct (map rl_id (t_request_logs d))"
proof
  fix s s' :: database and bsz now retention n
  assume d: "distinct (map rl_id (t_request_logs s))" and z: "0 < bsz"
    and "request_log_prune_batch now retention bsz s = (n, s')"
  then obtain rows' where b: "delete_batch_before rl_id rl_created_at (now - retention) bsz (t_request_logs s) = (n, rows')"
    and s': "s' = s\<lparr>t_request_logs := rows'\<rparr>"
    by (auto simp: request_log_prune_batch_def prune_before_def request_log_delete_batch_def split: prod.splits)
  from delete_batch_spec [OF d z b] d
  show "distinct (map rl_id (t_request_logs s')) \<and> s' = s\<lparr>t_request_logs := t_request_logs s'\<rparr> \<and>
      (\<exists>P. t_request_logs s' = filter (\<lambda>r. \<not> P r) (t_request_logs s) \<and> (\<forall>r. P r \<longrightarrow> rl_created_at r < now - retention)) \<and>
      n = int (length (t_request_logs s)) - int (length (t_request_logs s')) \<and>
      (n < bsz \<longrightarrow> (\<forall>r\<in>set (t_request_logs s'). now - retention \<le> rl_created_at r))"
    by (auto simp: s' distinct_map_filter)
qed simp_all

interpretation audit_pruner: batch_pruner audit_log_prune_batch t_audit_logs al_occurred_at
    "\<lambda>rows d. d\<lparr>t_audit_logs := rows\<rparr>"
    "\<lambda>d. distinct (map al_id (t_audit_logs d))"
proof
  fix s s' :: database and bsz now retention n
  assume d: "distinct (map al_id (t_audit_logs s))" and z: "0 < bsz"
    and "audit_log_prune_batch now retention bsz s = (n, s')"
  then obtain rows' where b: "delete_batch_before al_id al_occurred_at (now - retention) bsz (t_audit_logs s) = (n, rows')"
    and s': "s' = s\<lparr>t_audit_logs := rows'\<rparr>"
    by (auto simp: audit_log_prune_batch_def prune_before_def audit_log_delete_batch_def split: prod.splits)
  from delete_batch_spec [OF d z b] d
  show "distinct (map al_id (t_audit_logs s')) \<and> s' = s\<lparr>t_audit_logs := t_audit_logs s'\<rparr> \<and>
      (\<exists>P. t_audit_logs s' = filter (\<lambda>r. \<not> P r) (t_audit_logs s) \<and> (\<forall>r. P r \<longrightarrow> al_occurred_at r < now - retention)) \<and>
      n = int (length (t_audit_logs s)) - int (length (t_audit_logs s')) \<and>
      (n < bsz \<longrightarrow> (\<forall>r\<in>set (t_audit_logs s'). now - retention \<le> al_occurred_at r))"
    by (auto simp: s' distinct_map_filter)
qed simp_all

interpretation idempotency_pruner: batch_pruner idempotency_prune_batch t_idempotency_keys ik_created_at
    "\<lambda>rows d. d\<lparr>t_idempotency_keys := rows\<rparr>"
    "\<lambda>d. distinct (map ik_id (t_idempotency_keys d))"
proof
  fix s s' :: database and bsz now retention n
  assume d: "distinct (map ik_id (t_idempotency_keys s))" and z: "0 < bsz"
    and "idempotency_prune_batch now retention bsz s = (n, s')"
  then obtain rows' where b: "delete_batch_before ik_id ik_created_at (now - retention) bsz (t_idempotency_keys s) = (n, rows')"
    and s': "s' = s\<lparr>t_idempotency_keys := rows'\<rparr>"
    by (auto simp: idempotency_prune_batch_def prune_before_def idempotency_delete_batch_def split: prod.splits)
  from delete_batch_spec [OF d z b] d
  show "distinct (map ik_id (t_idempotency_keys s')) \<and> s' = s\<lparr>t_idempotency_keys := t_idempotency_keys s'\<rparr> \<and>
      (\<exists>P. t_idempotency_keys s' = filter (\<lambda>r. \<not> P r) (t_idempotency_keys s) \<and> (\<forall>r. P r \<longrightarrow> ik_created_at r < now - retention)) \<and>
      n = int (length (t_idempotency_keys s)) - int (length (t_idempotency_keys s')) \<and>
      (n < bsz \<longrightarrow> (\<forall>r\<in>set (t_idempotency_keys s'). now - retention \<le> ik_created_at r))"
    by (auto simp: s' distinct_map_filter)
qed simp_all

text \<open>
  C21. Every retention job ends, after at most one batch per full batch of rows and one more, however
  many rows there are; it has then deleted exactly the rows that were older than the retention when
  its last batch ran, it reports their number, and it has touched nothing else of the database. The clock may
  move between the batches, but not backwards.
\<close>

theorem retention_jobs_exact:
  assumes "\<And>i j. i \<le> j \<Longrightarrow> clock i \<le> clock j"
    and "distinct (map al_id (t_audit_logs d))" and "distinct (map rl_id (t_request_logs d))"
    and "distinct (map ik_id (t_idempotency_keys d))"
  shows "(\<exists>m. int m * DELETE_BATCH_SIZE \<le> int (length (t_audit_logs d)) \<and>
      prune_audit_log clock keep d = Some (int (length (filter (\<lambda>e. al_occurred_at e < clock m - keep) (t_audit_logs d))),
        d\<lparr>t_audit_logs := filter (\<lambda>e. clock m - keep \<le> al_occurred_at e) (t_audit_logs d)\<rparr>)) \<and>
    (\<exists>m. int m * DELETE_BATCH_SIZE \<le> int (length (t_request_logs d)) \<and>
      prune_request_log clock keep d = Some (int (length (filter (\<lambda>r. rl_created_at r < clock m - keep) (t_request_logs d))),
        d\<lparr>t_request_logs := filter (\<lambda>r. clock m - keep \<le> rl_created_at r) (t_request_logs d)\<rparr>)) \<and>
    (\<exists>m. int m * DELETE_BATCH_SIZE \<le> int (length (t_idempotency_keys d)) \<and>
      prune_idempotency_keys clock keep d = Some (int (length (filter (\<lambda>e. ik_created_at e < clock m - keep) (t_idempotency_keys d))),
        d\<lparr>t_idempotency_keys := filter (\<lambda>e. clock m - keep \<le> ik_created_at e) (t_idempotency_keys d)\<rparr>))"
  unfolding prune_audit_log_def prune_request_log_def prune_idempotency_keys_def
  using audit_pruner.drain_from_start [where clock = clock and s = d and retention = keep, OF assms(1)]
    request_pruner.drain_from_start [where clock = clock and s = d and retention = keep, OF assms(1)]
    idempotency_pruner.drain_from_start [where clock = clock and s = d and retention = keep, OF assms(1)] assms(2-4)
  by blast

text \<open>
  Expiring tokens signs nobody out and voids no link: from the moment the job ran, every lookup
  of a refresh token and of a single-use token of either purpose answers as if it had not run.
\<close>

theorem expiry_keeps_live_tokens:
  assumes "wf_refresh_tokens d" and "wf_single_use_tokens d" and "now \<le> later" and "expire_tokens now d = (n, d')"
  shows "rt_get_active h later d' = rt_get_active h later d \<and>
    sut_get_active h purpose later d' = sut_get_active h purpose later d \<and>
    n = int (length (t_refresh_tokens d)) - int (length (t_refresh_tokens d')) +
      (int (length (t_single_use_tokens d)) - int (length (t_single_use_tokens d')))"
proof -
  obtain a d1 where a: "rt_delete_expired now d = (a, d1)" by fastforce
  obtain b d2 where b: "sut_delete_expired now d1 = (b, d2)" by fastforce
  have d': "n = a + b" "d' = d2" using assms(4) a b by (simp_all add: expire_tokens_def)
  have d1: "d1 = snd (rt_delete_expired now d)" "d2 = snd (sut_delete_expired now d1)" using a b by simp_all
  have same: "t_single_use_tokens d1 = t_single_use_tokens d" "t_refresh_tokens d2 = t_refresh_tokens d1"
    using a b by (auto simp: rt_delete_expired_def sut_delete_expired_def)
  have "rt_get_active h later d1 = rt_get_active h later d"
    using refresh_store.prune_law [OF assms(1), of now] assms(3) by (simp add: d1)
  moreover have "rt_get_active h later d2 = rt_get_active h later d1" by (simp add: rt_get_active_def same)
  moreover have "seqs d1 TSingleUseTokens = seqs d TSingleUseTokens" "t_users d1 = t_users d"
    using a by (auto simp: rt_delete_expired_def)
  then have wf: "wf_single_use_tokens d1" using assms(2) by (simp add: wf_single_use_tokens_def same)
  then have "sut_get_active h purpose later d2 = sut_get_active h purpose later d1"
    using single_use_store.prune_law [OF wf, of now] assms(3) by (simp add: d1(2))
  moreover have "sut_get_active h purpose later d1 = sut_get_active h purpose later d" by (simp add: sut_get_active_def same)
  moreover have "a = int (length (t_refresh_tokens d)) - int (length (t_refresh_tokens d1))"
    using a by (auto simp: rt_delete_expired_def length_delete_where)
  moreover have "b = int (length (t_single_use_tokens d1)) - int (length (t_single_use_tokens d2))"
    using b by (auto simp: sut_delete_expired_def length_delete_where)
  ultimately show ?thesis by (simp add: d' same)
qed

section \<open>One replica at a time\<close>

inductive_cases lock_stepE: "lock_step s st st'"

definition lock_inv :: "Settings \<Rightarrow> lock_state \<Rightarrow> bool" where
  "lock_inv s st \<longleftrightarrow> (\<forall>i name. ls_running st i = Some name \<longrightarrow> ls_holder st (lock_key s name) = Some i)"

lemma lock_step_inv:
  assumes "lock_step s st st'" and "lock_inv s st"
  shows "lock_inv s st'"
  using assms(1)
proof (cases rule: lock_step.cases)
  case (enter i name u)
  then have u: "ls_holder u = (ls_holder st)(lock_key s name := Some i)" "ls_running u = ls_running st"
    and free: "ls_holder st (lock_key s name) \<in> {None, Some i}"
    by (auto simp: try_advisory_lock_def split: if_splits)
  have "lock_key s other \<noteq> lock_key s name" if "ls_running st j = Some other" for j other
    using that free assms(2) enter(2) unfolding lock_inv_def by force
  then show ?thesis using enter u assms(2) by (auto simp: lock_inv_def)
next
  case (skip i name)
  then show ?thesis using assms(2) by (auto simp: try_advisory_lock_def split: if_splits)
next
  case (leave i name)
  have "lock_key s other \<noteq> lock_key s name" if "ls_running st j = Some other" "j \<noteq> i" for j other
    using that assms(2) leave(2) unfolding lock_inv_def by (metis option.inject)
  then show ?thesis using leave assms(2) by (auto simp: lock_inv_def advisory_unlock_def)
qed

lemma locks_reachable_inv: "(lock_step s)\<^sup>*\<^sup>* no_locks st \<Longrightarrow> lock_inv s st"
proof (induction rule: rtranclp_induct)
  case base
  show ?case by (simp add: lock_inv_def no_locks_def)
next
  case (step y z)
  then show ?case using lock_step_inv by blast
qed

text \<open>
  C23. However the replicas start, finish and crash, no two of them run the same job at the same
  time. The key that they lock is a 32-bit signed integer for every job name, so that
  PostgreSQL takes it as it is.
\<close>

theorem one_replica_per_job:
  assumes "(lock_step s)\<^sup>*\<^sup>* no_locks st" and "ls_running st i = Some name" and "ls_running st j = Some name"
  shows "i = j \<and> - (2 ^ 31) \<le> lock_key s name \<and> lock_key s name < 2 ^ 31"
proof -
  have "ls_holder st (lock_key s name) = Some i" "ls_holder st (lock_key s name) = Some j"
    using locks_reachable_inv [OF assms(1)] assms(2,3) unfolding lock_inv_def by blast+
  moreover have "0 \<le> uint w" "uint w < 2 ^ 32" for w :: "32 word" using uint_bounded [of w] by simp_all
  ultimately show ?thesis by (simp add: lock_key_def)
qed

theorem one_replica_per_job_witness:
  "\<exists>st. (lock_step sample_settings)\<^sup>*\<^sup>* no_locks st \<and> ls_running st 4 = Some EXPIRE_TOKENS \<and>
     lock_key sample_settings EXPIRE_TOKENS < 2 ^ 31"
proof -
  let ?st = "no_locks\<lparr>ls_holder := (\<lambda>k. None)(lock_key sample_settings EXPIRE_TOKENS := Some 4),
      ls_running := (\<lambda>i. None)(4 := Some EXPIRE_TOKENS)\<rparr>"
  have "lock_step sample_settings no_locks ((no_locks\<lparr>ls_holder := (\<lambda>k. None)(lock_key sample_settings EXPIRE_TOKENS := Some 4)\<rparr>)
      \<lparr>ls_running := (ls_running (no_locks\<lparr>ls_holder := (\<lambda>k. None)(lock_key sample_settings EXPIRE_TOKENS := Some 4)\<rparr>))(4 := Some EXPIRE_TOKENS)\<rparr>)"
    by (rule lock_step.enter) (simp_all add: no_locks_def try_advisory_lock_def)
  then have "(lock_step sample_settings)\<^sup>*\<^sup>* no_locks ?st" by (intro r_into_rtranclp) (simp add: no_locks_def)
  then show ?thesis
    using one_replica_per_job [of sample_settings ?st 4 EXPIRE_TOKENS 4] by (intro exI [of _ ?st]) simp
qed

text \<open>Runs of one job never overlap, and every run of the loop starts after the last one and the pause.\<close>

lemma loop_starts_later:
  "\<forall>run\<in>set runs. 0 \<le> fst run \<Longrightarrow> 0 \<le> interval \<Longrightarrow> sorted (map fst (loop interval t runs)) \<and> (\<forall>r\<in>set (loop interval t runs). t \<le> fst r)"
proof (induction interval t runs rule: loop.induct)
  case (2 interval t took outcome runs)
  then show ?case by (cases outcome) (fastforce simp: run_once_def)+
qed simp

theorem retention_jobs_exact_witness:
  "\<exists>d'. prune_request_log (\<lambda>k. 8) 0 sample_logs_db = Some (2, d') \<and> map rl_id (t_request_logs d') = [2]"
proof -
  have d: "distinct (map al_id (t_audit_logs sample_logs_db))" "distinct (map rl_id (t_request_logs sample_logs_db))"
    "distinct (map ik_id (t_idempotency_keys sample_logs_db))"
    by (simp_all add: sample_logs_db_def sample_request_def sample_entry_def empty_db_def)
  have "prune_request_log (\<lambda>k. 8) 0 sample_logs_db = Some (int (length (filter (\<lambda>r. rl_created_at r < 8) (t_request_logs sample_logs_db))),
      sample_logs_db\<lparr>t_request_logs := filter (\<lambda>r. 8 \<le> rl_created_at r) (t_request_logs sample_logs_db)\<rparr>)"
    using retention_jobs_exact [of "\<lambda>k. 8" sample_logs_db 0, OF _ d] by simp
  then show ?thesis by (simp add: sample_logs_db_def sample_request_def)
qed

definition sample_tokens_db :: database where
  "sample_tokens_db = empty_db\<lparr>
     t_users := [\<lparr>user_id = 1, user_email = ''a@b.co'', user_name = None, user_hashed_password = ''h'',
       user_email_verified_at = None, user_password_changed_at = None, user_deleted_at = None,
       user_created_at = 0, user_updated_at = 0\<rparr>],
     t_refresh_tokens := [
       \<lparr>rt_id = 1, rt_token_hash = ''old'', rt_user_id = 1, rt_expires_at = 3, rt_revoked_at = None, rt_created_at = 0\<rparr>,
       \<lparr>rt_id = 2, rt_token_hash = ''new'', rt_user_id = 1, rt_expires_at = 20, rt_revoked_at = None, rt_created_at = 0\<rparr>],
     seqs := (\<lambda>t. 3)\<rparr>"

theorem expiry_keeps_live_tokens_witness:
  "fst (expire_tokens 5 sample_tokens_db) = 1 \<and>
   map_option rt_id (rt_get_active ''new'' 9 (snd (expire_tokens 5 sample_tokens_db))) = Some 2"
proof -
  have wf: "wf_refresh_tokens sample_tokens_db" "wf_single_use_tokens sample_tokens_db"
    by (simp_all add: wf_refresh_tokens_def wf_single_use_tokens_def keyed_def sample_tokens_db_def empty_db_def)
  have "map_option rt_id (rt_get_active ''new'' 9 sample_tokens_db) = Some 2" "fst (expire_tokens 5 sample_tokens_db) = 1"
    by code_simp+
  moreover have "rt_get_active ''new'' 9 (snd (expire_tokens 5 sample_tokens_db)) = rt_get_active ''new'' 9 sample_tokens_db"
    using expiry_keeps_live_tokens [OF wf _ prod.collapse [symmetric], of 5 9 "''new''"] by simp
  ultimately show ?thesis by simp
qed

end
