(* ===== verification/Transactions.thy ===== *)
theory Transactions
  imports Errors
begin

text \<open>
  \<open>app/db/transactional_hooks.py\<close> and \<open>get_session\<close> of \<open>app/db/session.py\<close>: work that waits for the
  outcome of a session's transaction. A session sees a sequence of events: pairs of listeners are
  registered, savepoints begin and end, the transaction itself commits or rolls back, the event loop
  gets to run what was deferred, and a next transaction may follow on the same session.
\<close>

section \<open>Sessions\<close>

datatype tx_outcome = Commit | Rollback

type_synonym pair_id = nat

text \<open>
  \<open>listening\<close> are the pairs that SQLAlchemy would call, \<open>retired\<close> those whose \<open>retired\<close> flag is set,
  \<open>to_remove\<close> the removals that \<open>call_soon\<close> has queued, \<open>fired\<close> the callbacks run so far with the
  outcome that ran them, \<open>savepoints\<close> the depth of nested transactions.
\<close>

record session =
  listening :: "pair_id list"
  retired :: "pair_id set"
  to_remove :: "pair_id list"
  fired :: "(pair_id \<times> tx_outcome) list"
  savepoints :: nat

definition new_session :: session where
  "new_session = \<lparr>listening = [], retired = {}, to_remove = [], fired = [], savepoints = 0\<rparr>"

definition in_nested_transaction :: "session \<Rightarrow> bool" where
  "in_nested_transaction s \<longleftrightarrow> savepoints s > 0"

text \<open>\<open>run_after_outcome\<close>: both listeners of the pair.\<close>

definition run_after_outcome :: "pair_id \<Rightarrow> session \<Rightarrow> session" where
  "run_after_outcome p s = s\<lparr>listening := listening s @ [p]\<rparr>"

text \<open>
  \<open>_on_commit\<close> and \<open>_on_rollback\<close>: nothing once the pair is retired or while the outcome is a
  savepoint's; otherwise retire the pair, queue its removal and run the callback.
\<close>

definition on_outcome :: "tx_outcome \<Rightarrow> pair_id \<Rightarrow> session \<Rightarrow> session" where
  "on_outcome out p s =
     (if p \<in> retired s \<or> in_nested_transaction s then s
      else s\<lparr>retired := insert p (retired s), to_remove := to_remove s @ [p], fired := fired s @ [(p, out)]\<rparr>)"

text \<open>SQLAlchemy calls the listeners there are, in order.\<close>

definition dispatch :: "tx_outcome \<Rightarrow> session \<Rightarrow> session" where
  "dispatch out s = fold (on_outcome out) (listening s) s"

text \<open>\<open>_deregister\<close>: what the event loop runs once the dispatch has unwound.\<close>

definition deregister :: "session \<Rightarrow> session" where
  "deregister s = s\<lparr>listening := filter (\<lambda>p. p \<notin> set (to_remove s)) (listening s), to_remove := []\<rparr>"

datatype event =
    Register pair_id
  | BeginNested
  | EndNested tx_outcome
  | Outcome tx_outcome
  | LoopTurn

text \<open>
  A savepoint's end is dispatched while it is still open. The outcome of the transaction itself is
  reached with every savepoint closed.
\<close>

primrec step :: "session \<Rightarrow> event \<Rightarrow> session" where
  "step s (Register p) = run_after_outcome p s"
| "step s BeginNested = s\<lparr>savepoints := savepoints s + 1\<rparr>"
| "step s (EndNested out) =
     (if in_nested_transaction s then (dispatch out s)\<lparr>savepoints := savepoints s - 1\<rparr> else s)"
| "step s (Outcome out) = dispatch out (s\<lparr>savepoints := 0\<rparr>)"
| "step s LoopTurn = deregister s"

definition run :: "session \<Rightarrow> event list \<Rightarrow> session" where
  "run s es = foldl step s es"

text \<open>
  \<open>get_session\<close>: the handler's events, then a commit when it returned; a handler that raised, or a
  commit that failed, is rolled back and the exception goes on.
\<close>

definition get_session :: "event list \<Rightarrow> exn option \<Rightarrow> exn option \<Rightarrow> event list \<times> exn option" where
  "get_session body raised commit_failure =
     (case raised of
        Some e \<Rightarrow> (body @ [Outcome Rollback], Some e)
      | None \<Rightarrow> (case commit_failure of
          None \<Rightarrow> (body @ [Outcome Commit], None)
        | Some e \<Rightarrow> (body @ [Outcome Rollback], Some e)))"

section \<open>Lemmas\<close>

lemma run_append: "run s (es @ fs) = run (run s es) fs"
  by (simp add: run_def)

lemma run_Cons [simp]: "run s (e # es) = run (step s e) es" and run_Nil [simp]: "run s [] = s"
  by (simp_all add: run_def)

lemma on_outcome_keeps [simp]:
  "listening (on_outcome out p s) = listening s" "savepoints (on_outcome out p s) = savepoints s"
  "in_nested_transaction (on_outcome out p s) = in_nested_transaction s"
  by (simp_all add: on_outcome_def in_nested_transaction_def)

lemma fold_on_outcome_keeps:
  "listening (fold (on_outcome out) ps s) = listening s"
  "savepoints (fold (on_outcome out) ps s) = savepoints s"
  by (induction ps arbitrary: s) simp_all

lemma fold_on_outcome_nested: "in_nested_transaction s \<Longrightarrow> fold (on_outcome out) ps s = s"
  by (induction ps) (simp_all add: on_outcome_def)

lemma dispatch_nested: "in_nested_transaction s \<Longrightarrow> dispatch out s = s"
  by (simp add: dispatch_def fold_on_outcome_nested)

text \<open>The callbacks of one pair that have run.\<close>

definition runs_of :: "pair_id \<Rightarrow> session \<Rightarrow> tx_outcome list" where
  "runs_of p s = map snd (filter (\<lambda>(q, out). q = p) (fired s))"

definition armed :: "pair_id \<Rightarrow> session \<Rightarrow> bool" where
  "armed p s \<longleftrightarrow> p \<in> set (listening s) \<and> p \<notin> retired s \<and> p \<notin> set (to_remove s)"

definition spent :: "pair_id \<Rightarrow> session \<Rightarrow> bool" where
  "spent p s \<longleftrightarrow> p \<in> retired s"

lemma fold_on_outcome_spent:
  "spent p s \<Longrightarrow> spent p (fold (on_outcome out) ps s) \<and> runs_of p (fold (on_outcome out) ps s) = runs_of p s"
proof (induction ps arbitrary: s)
  case (Cons q ps)
  have "spent p (on_outcome out q s)" "runs_of p (on_outcome out q s) = runs_of p s"
    using Cons.prems by (auto simp: spent_def on_outcome_def runs_of_def)
  then show ?case
    using Cons.IH [of "on_outcome out q s"] by simp
qed simp

lemma fold_on_outcome_armed:
  "\<not> in_nested_transaction s \<Longrightarrow> p \<notin> retired s \<Longrightarrow> p \<in> set ps
    \<Longrightarrow> spent p (fold (on_outcome out) ps s) \<and> runs_of p (fold (on_outcome out) ps s) = runs_of p s @ [out]"
proof (induction ps arbitrary: s)
  case (Cons q ps)
  show ?case
  proof (cases "q = p")
    case True
    have "spent p (on_outcome out p s)" "runs_of p (on_outcome out p s) = runs_of p s @ [out]"
      using Cons.prems by (auto simp: spent_def on_outcome_def runs_of_def)
    then show ?thesis
      using fold_on_outcome_spent [of p "on_outcome out p s" out ps] True by simp
  next
    case False
    have "p \<notin> retired (on_outcome out q s)" "runs_of p (on_outcome out q s) = runs_of p s"
      using Cons.prems False by (auto simp: on_outcome_def runs_of_def)
    then show ?thesis
      using Cons.IH [of "on_outcome out q s"] Cons.prems False by simp
  qed
qed simp

lemma step_spent: "spent p s \<Longrightarrow> spent p (step s e) \<and> runs_of p (step s e) = runs_of p s"
proof (cases e)
  case (Outcome out)
  assume "spent p s"
  then show ?thesis
    using fold_on_outcome_spent [of p "s\<lparr>savepoints := 0\<rparr>" out "listening s"] Outcome
    by (simp add: dispatch_def spent_def runs_of_def)
qed (auto simp: spent_def runs_of_def run_after_outcome_def deregister_def dispatch_nested)

lemma run_spent: "spent p s \<Longrightarrow> runs_of p (run s es) = runs_of p s"
proof (induction es arbitrary: s)
  case (Cons e es)
  then show ?case
    using step_spent [of p s e] by simp
qed simp

text \<open>An outcome of the transaction itself, and an event that registers the pair.\<close>

fun is_outcome :: "event \<Rightarrow> bool" where
  "is_outcome (Outcome out) \<longleftrightarrow> True"
| "is_outcome (Register p) \<longleftrightarrow> False"
| "is_outcome BeginNested \<longleftrightarrow> False"
| "is_outcome (EndNested out) \<longleftrightarrow> False"
| "is_outcome LoopTurn \<longleftrightarrow> False"

lemma step_armed:
  "armed p s \<Longrightarrow> \<not> is_outcome e \<Longrightarrow> armed p (step s e) \<and> runs_of p (step s e) = runs_of p s"
  by (cases e) (auto simp: armed_def runs_of_def run_after_outcome_def deregister_def dispatch_nested)

lemma run_armed:
  "armed p s \<Longrightarrow> list_all (\<lambda>e. \<not> is_outcome e) es \<Longrightarrow> armed p (run s es) \<and> runs_of p (run s es) = runs_of p s"
proof (induction es arbitrary: s)
  case (Cons e es)
  then show ?case
    using step_armed [of p s e] by simp
qed simp

lemma step_outcome_armed:
  assumes "armed p s"
  shows "spent p (step s (Outcome out)) \<and> runs_of p (step s (Outcome out)) = runs_of p s @ [out]"
proof -
  have "\<not> in_nested_transaction (s\<lparr>savepoints := 0\<rparr>)" "p \<notin> retired (s\<lparr>savepoints := 0\<rparr>)" "p \<in> set (listening s)"
    using assms by (simp_all add: in_nested_transaction_def armed_def)
  from fold_on_outcome_armed [OF this, of out] show ?thesis
    by (simp add: dispatch_def runs_of_def)
qed

text \<open>A pair that no event has registered yet.\<close>

definition unknown :: "pair_id \<Rightarrow> session \<Rightarrow> bool" where
  "unknown p s \<longleftrightarrow> p \<notin> set (listening s) \<and> p \<notin> retired s \<and> p \<notin> set (to_remove s) \<and> runs_of p s = []"

lemma fold_on_outcome_unknown: "p \<notin> set ps \<Longrightarrow> unknown p s \<Longrightarrow> unknown p (fold (on_outcome out) ps s)"
proof (induction ps arbitrary: s)
  case (Cons q ps)
  have "unknown p (on_outcome out q s)"
    using Cons.prems by (auto simp: unknown_def on_outcome_def runs_of_def)
  then show ?case
    using Cons by simp
qed simp

lemma step_unknown: "unknown p s \<Longrightarrow> e \<noteq> Register p \<Longrightarrow> unknown p (step s e)"
proof (cases e)
  case (Outcome out)
  assume p: "unknown p s"
  then have "unknown p (s\<lparr>savepoints := 0\<rparr>)"
    by (simp add: unknown_def runs_of_def)
  moreover have "p \<notin> set (listening s)"
    using p by (simp add: unknown_def)
  ultimately show ?thesis
    using fold_on_outcome_unknown [of p "listening s" "s\<lparr>savepoints := 0\<rparr>" out] Outcome by (simp add: dispatch_def)
qed (auto simp: unknown_def runs_of_def run_after_outcome_def deregister_def dispatch_nested)

lemma run_unknown: "unknown p s \<Longrightarrow> Register p \<notin> set es \<Longrightarrow> unknown p (run s es)"
  by (induction es arbitrary: s) (auto simp: step_unknown)

lemma register_arms: "unknown p s \<Longrightarrow> armed p (step s (Register p)) \<and> runs_of p (step s (Register p)) = []"
  by (simp add: unknown_def armed_def runs_of_def run_after_outcome_def)

lemma fold_on_outcome_fires:
  "\<not> in_nested_transaction s \<Longrightarrow> distinct ps \<Longrightarrow> set ps \<inter> retired s = {}
    \<Longrightarrow> fired (fold (on_outcome out) ps s) = fired s @ map (\<lambda>p. (p, out)) ps"
proof (induction ps arbitrary: s)
  case (Cons q ps)
  have "set ps \<inter> retired (on_outcome out q s) = {}" "fired (on_outcome out q s) = fired s @ [(q, out)]"
    using Cons.prems by (auto simp: on_outcome_def)
  then show ?case
    using Cons.IH [of "on_outcome out q s"] Cons.prems by simp
qed simp

lemma run_registers: "run s (map Register ps) = s\<lparr>listening := listening s @ ps\<rparr>"
  by (induction ps arbitrary: s) (simp_all add: run_after_outcome_def)

text \<open>The pairs that a handler registers run with the outcome of its request, in their order.\<close>

lemma request_runs_hooks:
  assumes "distinct ps"
  shows "fired (run new_session (fst (get_session (map Register ps) raised commit_failure))) =
    map (\<lambda>p. (p, if raised = None \<and> commit_failure = None then Commit else Rollback)) ps"
  using fold_on_outcome_fires [of "new_session\<lparr>listening := ps, savepoints := 0\<rparr>" ps] assms
  by (auto simp: get_session_def run_append run_registers dispatch_def in_nested_transaction_def new_session_def
      split: option.splits)

section \<open>Properties\<close>

text \<open>
  C19. Work registered for the outcome of a transaction runs exactly once, with the first outcome of the
  transaction itself that follows: savepoints released or rolled back in between, other pairs, turns of
  the event loop, and any later transaction on the same session neither run it early nor run it again.
\<close>

theorem hooks_run_exactly_once:
  assumes "Register p \<notin> set before" and "list_all (\<lambda>e. \<not> is_outcome e) between"
  shows "runs_of p (run new_session (before @ [Register p] @ between @ [Outcome out] @ later)) = [out]"
proof -
  have "unknown p new_session"
    by (simp add: unknown_def new_session_def runs_of_def)
  then have reg: "armed p (run new_session (before @ [Register p]))"
    "runs_of p (run new_session (before @ [Register p])) = []"
    using register_arms [OF run_unknown [OF _ assms(1)]] by (simp_all add: run_append)
  have "armed p (run new_session (before @ [Register p] @ between))"
    "runs_of p (run new_session (before @ [Register p] @ between)) = []"
    using run_armed [OF reg(1) assms(2)] reg(2) by (simp_all add: run_append)
  then have "spent p (run new_session (before @ [Register p] @ between @ [Outcome out]))"
    "runs_of p (run new_session (before @ [Register p] @ between @ [Outcome out])) = [out]"
    using step_outcome_armed [of p "run new_session (before @ [Register p] @ between)" out]
    by (simp_all add: run_append)
  then show ?thesis
    using run_spent [of p "run new_session (before @ [Register p] @ between @ [Outcome out])" later]
    by (simp add: run_append)
qed

theorem hooks_run_exactly_once_witness:
  "Register 7 \<notin> set [Register 3, Outcome Commit, LoopTurn]
   \<and> runs_of 7 (run new_session ([Register 3, Outcome Commit, LoopTurn] @ [Register 7]
       @ [BeginNested, EndNested Rollback, Register 8, LoopTurn] @ [Outcome Rollback]
       @ [Outcome Commit, LoopTurn, Outcome Rollback])) = [Rollback]"
  using hooks_run_exactly_once [of 7 "[Register 3, Outcome Commit, LoopTurn]"
      "[BeginNested, EndNested Rollback, Register 8, LoopTurn]" Rollback "[Outcome Commit, LoopTurn, Outcome Rollback]"]
  by simp

end
