(* ===== verification/Attachments.thy ===== *)
theory Attachments
  imports Items Config Bytes Transactions
begin

text \<open>
  \<open>app/services/attachment_service.py\<close>, \<open>app/repositories/attachment_repo.py\<close>, \<open>app/core/storage/local.py\<close>,
  \<open>app/db/transactional_hooks.py\<close> and the attachment routes: the files of an item, kept in a blob
  storage that does not take part in the database transaction. The service keeps the two together
  with hooks on the outcome of the transaction; the main theorem is that every row keeps its blob
  after every request, and which requests may leave a blob without a row.
\<close>

section \<open>File names\<close>

abbreviation FALLBACK_FILENAME :: str where "FALLBACK_FILENAME \<equiv> ''file''"
abbreviation MAX_FILENAME_LENGTH :: nat where "MAX_FILENAME_LENGTH \<equiv> 255"

definition REFUSED_IN_FILENAME :: "char list" where
  "REFUSED_IN_FILENAME = [CHR 0x22, CHR 0x5C, CHR '';'', CHR 0x0D, CHR 0x0A]"

text \<open>\<open>PurePosixPath(p).name\<close>: the last component, where empty ones and \<open>.\<close> do not count.\<close>

definition posix_name :: "str \<Rightarrow> str" where
  "posix_name p =
     (case rev (filter (\<lambda>w. w \<noteq> [] \<and> w \<noteq> ''.'') (split_on (CHR ''/'') p)) of [] \<Rightarrow> [] | w # ws \<Rightarrow> w)"

definition safe_filename :: "str option \<Rightarrow> str" where
  "safe_filename name =
     (let candidate = posix_name (map (\<lambda>c. if c = CHR 0x5C then CHR ''/'' else c)
                        (case name of None \<Rightarrow> [] | Some n \<Rightarrow> n));
          cleaned = strip (filter (\<lambda>c. is_printable c \<and> c \<notin> set REFUSED_IN_FILENAME) candidate)
      in take MAX_FILENAME_LENGTH (if cleaned = [] then FALLBACK_FILENAME else cleaned))"

text \<open>\<open>_disposition\<close>: a plain ASCII name for old clients and the percent-encoded UTF-8 name.\<close>

definition ascii_name :: "str \<Rightarrow> str" where
  "ascii_name s = map (\<lambda>c. if \<not> between 0 127 c then CHR ''?''
     else if c = CHR 0x5C \<or> c = CHR 0x22 then CHR ''_'' else c) s"

definition disposition :: "Attachment \<Rightarrow> str" where
  "disposition a = ''attachment; filename='' @ [CHR 0x22] @ ascii_name (att_filename a) @ [CHR 0x22]
     @ ''; filename*=UTF-8'' @ [CHR 0x27, CHR 0x27] @ percent_encode (att_filename a)"

section \<open>The blob storage\<close>

text \<open>
  \<open>LocalStorage\<close> over the files below its root. A stream is a list of chunks that may end in an
  exception of its source. \<open>_path\<close> is lexical here: components after \<open>resolve\<close>, without symbolic links.
\<close>

type_synonym blobs = "str \<rightharpoonup> str"

fun resolve_parts :: "str list \<Rightarrow> str list \<Rightarrow> str list" where
  "resolve_parts acc [] = acc"
| "resolve_parts acc (p # ps) =
     (if p = [] \<or> p = ''.'' then resolve_parts acc ps
      else if p = ''..'' then resolve_parts (butlast acc) ps
      else resolve_parts (acc @ [p]) ps)"

definition storage_path :: "str list \<Rightarrow> str \<Rightarrow> str list result" where
  "storage_path root key =
     (let candidate = resolve_parts (if startswith ''/'' key then [] else root) (split_on (CHR ''/'') key) in
      if take (length root) candidate = root then Inr candidate
      else Inl (ValueError ''a storage key must stay inside the storage root''))"

datatype chunk = Chunk str | SourceError exn

record StoredFile =
  sf_key :: str
  sf_size_bytes :: int

text \<open>
  What the storage itself may fail with: creating the file of a key, and deleting it. A write that
  fails is, in the stream of chunks, an exception after the bytes that were written.
\<close>

record faults =
  f_create :: "str \<Rightarrow> exn option"
  f_delete :: "str \<Rightarrow> exn option"

definition no_faults :: faults where
  "no_faults = \<lparr>f_create = (\<lambda>key. None), f_delete = (\<lambda>key. None)\<rparr>"

text \<open>
  \<open>LocalStorage.save\<close> of the stream that \<open>_bounded\<close> lets through: the file is created, written chunk by
  chunk and closed whatever happens. The chunk that exceeds the limit deletes the blob and raises;
  an exception of the source leaves what was written, and so does one of that deletion.
\<close>

abbreviation TOO_LARGE :: str where "TOO_LARGE \<equiv> ''This file is larger than the deployment accepts''"
abbreviation TYPE_REFUSED :: str where "TYPE_REFUSED \<equiv> ''This deployment does not accept that file type''"

fun save_bounded :: "exn option \<Rightarrow> int \<Rightarrow> str \<Rightarrow> str \<Rightarrow> chunk list \<Rightarrow> blobs \<Rightarrow> StoredFile result \<times> blobs" where
  "save_bounded undeletable limit key written [] blobs =
     (Inr \<lparr>sf_key = key, sf_size_bytes = int (length written)\<rparr>, blobs(key \<mapsto> written))"
| "save_bounded undeletable limit key written (SourceError e # cs) blobs = (Inl e, blobs(key \<mapsto> written))"
| "save_bounded undeletable limit key written (Chunk c # cs) blobs =
     (if int (length written + length c) > limit
      then (case undeletable of
              Some e \<Rightarrow> (Inl e, blobs(key \<mapsto> written))
            | None \<Rightarrow> (Inl (Domain (make_error PayloadTooLargeError TOO_LARGE (Some ATTACHMENT_TOO_LARGE)
                (Some [(''limit'', PInt limit)]))), blobs(key := None)))
      else save_bounded undeletable limit key (written @ c) cs blobs)"

definition storage_save :: "faults \<Rightarrow> int \<Rightarrow> str \<Rightarrow> chunk list \<Rightarrow> blobs \<Rightarrow> StoredFile result \<times> blobs" where
  "storage_save fl limit key cs blobs = (case f_create fl key of
      Some e \<Rightarrow> (Inl e, blobs)
    | None \<Rightarrow> save_bounded (f_delete fl key) limit key [] cs blobs)"

section \<open>The repository\<close>

definition attachment_create :: "str \<Rightarrow> str \<Rightarrow> str \<Rightarrow> int \<Rightarrow> ident \<Rightarrow> database \<Rightarrow> (Attachment \<times> database) result" where
  "attachment_create key filename content_type size_bytes iid d =
     (let row = \<lparr>att_id = seqs d TAttachments, att_key = key, att_filename = filename, att_content_type = content_type,
                 att_size_bytes = size_bytes, att_item_id = iid, att_created_at = tx_now d, att_updated_at = tx_now d\<rparr>
      in if length key > 64 \<or> length filename > 255 \<or> length content_type > 100 then Inl (DataError STRING_TRUNCATION)
         else if key \<in> att_key ` set (t_attachments d) then Inl (IntegrityError UNIQUE_VIOLATION)
         else if iid \<notin> item_id ` set (t_items d) then Inl (IntegrityError FOREIGN_KEY_VIOLATION)
         else Inr (row, bump TAttachments (d\<lparr>t_attachments := t_attachments d @ [row]\<rparr>)))"

definition attachment_list_for_item :: "ident \<Rightarrow> database \<Rightarrow> Attachment list" where
  "attachment_list_for_item iid d = sort_key att_id (filter (\<lambda>a. att_item_id a = iid) (t_attachments d))"

definition attachment_get_for_owner :: "ident \<Rightarrow> ident \<Rightarrow> database \<Rightarrow> Attachment option" where
  "attachment_get_for_owner aid owner d =
     find_row (\<lambda>a. att_id a = aid \<and> (\<exists>i\<in>set (t_items d). item_id i = att_item_id a \<and> item_owned_by owner i))
       (t_attachments d)"

definition attachment_delete :: "Attachment \<Rightarrow> database \<Rightarrow> database" where
  "attachment_delete a d = d\<lparr>t_attachments := delete_where (\<lambda>b. att_id b = att_id a) (t_attachments d)\<rparr>"

section \<open>The service\<close>

text \<open>
  \<open>run_after_outcome\<close>: the hooks that wait for the outcome of the session's transaction. Each pair
  fires once, for the outcome that comes first, and never for a savepoint.
\<close>

datatype hook = DeleteOnCommit str | DeleteOnRollback str

record att_session =
  ses_db :: database
  ses_blobs :: blobs
  ses_hooks :: "hook list"

fun hook_fires :: "tx_outcome \<Rightarrow> hook \<Rightarrow> str option" where
  "hook_fires Commit (DeleteOnCommit key) = Some key"
| "hook_fires Rollback (DeleteOnRollback key) = Some key"
| "hook_fires Commit (DeleteOnRollback key) = None"
| "hook_fires Rollback (DeleteOnCommit key) = None"

text \<open>\<open>_delete_quietly\<close>: what the storage raises is logged and the blob stays.\<close>

definition delete_quietly :: "faults \<Rightarrow> blobs \<Rightarrow> str \<Rightarrow> blobs" where
  "delete_quietly fl b key = (case f_delete fl key of Some e \<Rightarrow> b | None \<Rightarrow> b(key := None))"

definition run_hooks :: "faults \<Rightarrow> tx_outcome \<Rightarrow> bool \<Rightarrow> att_session \<Rightarrow> att_session" where
  "run_hooks fl result nested s =
     (if nested then s
      else s\<lparr>ses_blobs := foldl (delete_quietly fl) (ses_blobs s) (List.map_filter (hook_fires result) (ses_hooks s)),
             ses_hooks := []\<rparr>)"

record Upload =
  up_filename :: "str option"
  up_content_type :: "str option"
  up_chunks :: "chunk list"

definition base_content_type :: "str option \<Rightarrow> str" where
  "base_content_type t = strip (hd (split_on (CHR '';'') (case t of None \<Rightarrow> [] | Some s \<Rightarrow> s)))"

definition owned_item :: "ident \<Rightarrow> ident \<Rightarrow> database \<Rightarrow> Item result" where
  "owned_item iid owner d = or_not_found (item_get_for_owner iid owner d) ''Item not found'' ITEM_NOT_FOUND"

text \<open>\<open>add\<close>; \<open>key\<close> is the \<open>uuid4().hex\<close> that it draws.\<close>

definition attachment_add ::
  "faults \<Rightarrow> Settings \<Rightarrow> str \<Rightarrow> ident \<Rightarrow> ident \<Rightarrow> Upload \<Rightarrow> att_session \<Rightarrow> Attachment result \<times> att_session" where
  "attachment_add fl st key iid owner upload s =
     (case owned_item iid owner (ses_db s) of
        Inl e \<Rightarrow> (Inl e, s)
      | Inr item \<Rightarrow>
          (let content_type = base_content_type (up_content_type upload) in
           if content_type \<notin> attachment_type_set st
           then (Inl (Domain (make_error ForbiddenError TYPE_REFUSED (Some ATTACHMENT_TYPE_REFUSED)
                   (Some [(''type'', PStr (if content_type = [] then ''unknown'' else content_type))]))), s)
           else
             (case storage_save fl (max_attachment_bytes st) key (up_chunks upload) (ses_blobs s) of
                (Inl e, blobs) \<Rightarrow> (Inl e, s\<lparr>ses_blobs := blobs\<rparr>)
              | (Inr stored, blobs) \<Rightarrow>
                  (let s1 = s\<lparr>ses_blobs := blobs, ses_hooks := ses_hooks s @ [DeleteOnRollback (sf_key stored)]\<rparr> in
                   (case attachment_create (sf_key stored) (safe_filename (up_filename upload)) content_type
                           (sf_size_bytes stored) iid (ses_db s) of
                      Inl e \<Rightarrow> (Inl e, s1)
                    | Inr (row, d) \<Rightarrow> (Inr row, s1\<lparr>ses_db := d\<rparr>))))))"

definition attachment_service_list :: "ident \<Rightarrow> ident \<Rightarrow> database \<Rightarrow> Attachment list result" where
  "attachment_service_list iid owner d =
     rbind (owned_item iid owner d) (\<lambda>_. Inr (attachment_list_for_item iid d))"

definition attachment_service_get :: "ident \<Rightarrow> ident \<Rightarrow> database \<Rightarrow> Attachment result" where
  "attachment_service_get aid owner d =
     or_not_found (attachment_get_for_owner aid owner d) ''Attachment not found'' ATTACHMENT_NOT_FOUND"

definition attachment_read :: "Attachment \<Rightarrow> blobs \<Rightarrow> str option" where
  "attachment_read a blobs = blobs (att_key a)"

definition attachment_remove :: "ident \<Rightarrow> ident \<Rightarrow> att_session \<Rightarrow> unit result \<times> att_session" where
  "attachment_remove aid owner s =
     (case attachment_service_get aid owner (ses_db s) of
        Inl e \<Rightarrow> (Inl e, s)
      | Inr stored \<Rightarrow> (Inr (), s\<lparr>ses_db := attachment_delete stored (ses_db s),
                                  ses_hooks := ses_hooks s @ [DeleteOnCommit (att_key stored)]\<rparr>))"

section \<open>A request\<close>

text \<open>
  \<open>get_session\<close>: commit when the handler returned, roll back when it raised; a commit that fails is
  rolled back too. The hooks run with the outcome.
\<close>

text \<open>\<open>list_attachments\<close> and \<open>download_attachment\<close>: the content is streamed with its type and disposition.\<close>

definition list_attachments :: "ident \<Rightarrow> ident \<Rightarrow> database \<Rightarrow> Attachment list result" where
  "list_attachments caller iid d = attachment_service_list iid caller d"

record download =
  dl_content :: "str option"
  dl_media_type :: str
  dl_disposition :: str

definition download_attachment :: "ident \<Rightarrow> ident \<Rightarrow> database \<Rightarrow> blobs \<Rightarrow> download result" where
  "download_attachment caller aid d blobs =
     rbind (attachment_service_get aid caller d) (\<lambda>stored.
       Inr \<lparr>dl_content = attachment_read stored blobs, dl_media_type = att_content_type stored,
            dl_disposition = disposition stored\<rparr>)"

datatype att_request =
    AddAttachment str ident ident Upload
  | RemoveAttachment ident ident

definition att_handler :: "faults \<Rightarrow> Settings \<Rightarrow> att_request \<Rightarrow> att_session \<Rightarrow> bool \<times> att_session" where
  "att_handler fl st r s = (case r of
      AddAttachment key iid owner upload \<Rightarrow>
        (let (res, s') = attachment_add fl st key iid owner upload s in (\<not> isl res, s'))
    | RemoveAttachment aid owner \<Rightarrow>
        (let (res, s') = attachment_remove aid owner s in (\<not> isl res, s')))"

definition att_serve :: "faults \<Rightarrow> Settings \<Rightarrow> bool \<Rightarrow> att_request \<Rightarrow> database \<times> blobs \<Rightarrow> database \<times> blobs" where
  "att_serve fl st commit_ok r w =
     (let (ok, s) = att_handler fl st r \<lparr>ses_db = fst w, ses_blobs = snd w, ses_hooks = []\<rparr> in
      if ok \<and> commit_ok then (ses_db s, ses_blobs (run_hooks fl Commit False s))
      else (fst w, ses_blobs (run_hooks fl Rollback False s)))"

section \<open>Rows and blobs\<close>

text \<open>Every row has its blob, of the recorded size; and the blobs that no row names.\<close>

definition rows_have_blobs :: "database \<times> blobs \<Rightarrow> bool" where
  "rows_have_blobs w \<longleftrightarrow>
     keyed att_id (t_attachments (fst w)) (seqs (fst w) TAttachments) \<and>
     distinct (map att_key (t_attachments (fst w))) \<and>
     (\<forall>a\<in>set (t_attachments (fst w)). map_option (int \<circ> length) (snd w (att_key a)) = Some (att_size_bytes a))"

definition orphans :: "database \<times> blobs \<Rightarrow> str set" where
  "orphans w = dom (snd w) - att_key ` set (t_attachments (fst w))"

fun is_chunk :: "chunk \<Rightarrow> bool" where
  "is_chunk (Chunk c) = True"
| "is_chunk (SourceError e) = False"

fun chunk_bytes :: "chunk \<Rightarrow> str" where
  "chunk_bytes (Chunk c) = c"
| "chunk_bytes (SourceError e) = []"

text \<open>
  The key of an upload is fresh (it is drawn at random). The blobs that a request is about, and the
  requests on which neither the source nor a deletion fails.
\<close>

definition fresh_request :: "blobs \<Rightarrow> att_request \<Rightarrow> bool" where
  "fresh_request blobs r = (case r of
      AddAttachment key iid owner upload \<Rightarrow> key \<notin> dom blobs
    | RemoveAttachment aid owner \<Rightarrow> True)"

definition own_keys :: "database \<Rightarrow> att_request \<Rightarrow> str set" where
  "own_keys d r = (case r of
      AddAttachment key iid owner upload \<Rightarrow> {key}
    | RemoveAttachment aid owner \<Rightarrow> att_key ` {a \<in> set (t_attachments d). att_id a = aid})"

definition undisturbed :: "faults \<Rightarrow> database \<Rightarrow> att_request \<Rightarrow> bool" where
  "undisturbed fl d r \<longleftrightarrow> (\<forall>k\<in>own_keys d r. f_delete fl k = None) \<and> (case r of
      AddAttachment key iid owner upload \<Rightarrow> list_all is_chunk (up_chunks upload)
    | RemoveAttachment aid owner \<Rightarrow> True)"

definition upload_bytes :: "Upload \<Rightarrow> str" where
  "upload_bytes upload = concat (map chunk_bytes (up_chunks upload))"

lemma save_bounded_Inr:
  "save_bounded und limit key written cs blobs = (Inr sf, b') \<Longrightarrow>
     sf = \<lparr>sf_key = key, sf_size_bytes = int (length (written @ concat (map chunk_bytes cs)))\<rparr> \<and>
     b' = blobs(key \<mapsto> written @ concat (map chunk_bytes cs)) \<and>
     (cs = [] \<or> int (length (written @ concat (map chunk_bytes cs))) \<le> limit)"
proof (induction und limit key written cs blobs rule: save_bounded.induct)
  case (3 und limit key written c cs blobs)
  then show ?case by (cases "cs = []") (auto split: if_splits option.splits)
qed auto

text \<open>A save that fails changes only its own key, and leaves nothing there unless something else failed too.\<close>

lemma save_bounded_Inl:
  "save_bounded und limit key written cs blobs = (Inl e, b') \<Longrightarrow>
     \<exists>left. b' = blobs(key := left) \<and> (list_all is_chunk cs \<and> und = None \<longrightarrow> left = None)"
  by (induction und limit key written cs blobs rule: save_bounded.induct) (auto split: if_splits option.splits)

lemma storage_save_fresh:
  assumes "key \<notin> dom blobs" and "storage_save fl limit key cs blobs = (r, b')"
  shows "case r of
      Inl e \<Rightarrow> \<exists>left. b' = blobs(key := left) \<and> (list_all is_chunk cs \<and> f_delete fl key = None \<longrightarrow> left = None)
    | Inr sf \<Rightarrow> sf = \<lparr>sf_key = key, sf_size_bytes = int (length (concat (map chunk_bytes cs)))\<rparr> \<and>
        b' = blobs(key \<mapsto> concat (map chunk_bytes cs)) \<and> (cs = [] \<or> int (length (concat (map chunk_bytes cs))) \<le> limit)"
proof -
  have none: "blobs = blobs(key := None)" using assms(1) by (auto simp: fun_eq_iff)
  show ?thesis
    using assms(2) save_bounded_Inr [of "f_delete fl key" limit key "[]" cs blobs _ b']
      save_bounded_Inl [of "f_delete fl key" limit key "[]" cs blobs _ b'] none
    by (auto simp: storage_save_def split: option.splits sum.splits)
qed

text \<open>What an upload leaves behind, by outcome.\<close>

lemma attachment_add_cases:
  assumes "key \<notin> dom (ses_blobs s)" and "attachment_add fl st key iid owner upload s = (res, s')"
  shows "(\<exists>e left. res = Inl e \<and> s' = s\<lparr>ses_blobs := (ses_blobs s)(key := left)\<rparr> \<and>
      (list_all is_chunk (up_chunks upload) \<and> f_delete fl key = None \<longrightarrow> left = None)) \<or>
    (\<exists>e. res = Inl e \<and>
      s' = s\<lparr>ses_blobs := (ses_blobs s)(key \<mapsto> upload_bytes upload), ses_hooks := ses_hooks s @ [DeleteOnRollback key]\<rparr>) \<or>
    (\<exists>row d. res = Inr row \<and> attachment_create key (safe_filename (up_filename upload))
        (base_content_type (up_content_type upload)) (int (length (upload_bytes upload))) iid (ses_db s) = Inr (row, d) \<and>
      s' = s\<lparr>ses_db := d, ses_blobs := (ses_blobs s)(key \<mapsto> upload_bytes upload), ses_hooks := ses_hooks s @ [DeleteOnRollback key]\<rparr>)"
    (is "?refused \<or> ?failed \<or> ?added")
proof -
  obtain r b where save: "storage_save fl (max_attachment_bytes st) key (up_chunks upload) (ses_blobs s) = (r, b)" by fastforce
  have "s = s\<lparr>ses_blobs := (ses_blobs s)(key := None)\<rparr>" using assms(1) by (auto simp: fun_upd_idem_iff)
  then have early: "res = Inl e \<Longrightarrow> s' = s \<Longrightarrow> ?refused" for e by blast
  show ?thesis
  proof (cases "isl (owned_item iid owner (ses_db s)) \<or> base_content_type (up_content_type upload) \<notin> attachment_type_set st")
    case True
    then have "\<exists>e. res = Inl e \<and> s' = s" using assms(2) by (auto simp: attachment_add_def Let_def split: sum.splits)
    with early show ?thesis by blast
  next
    case False
    then show ?thesis
      using assms(2) save storage_save_fresh [OF assms(1) save]
      by (cases r) (auto simp: attachment_add_def Let_def upload_bytes_def split: sum.splits prod.splits)
  qed
qed

lemma run_hooks_simps:
  "ses_hooks s = [] \<Longrightarrow> ses_blobs (run_hooks fl x False s) = ses_blobs s"
  "ses_hooks s = [DeleteOnRollback key] \<Longrightarrow> ses_blobs (run_hooks fl Commit False s) = ses_blobs s"
  "ses_hooks s = [DeleteOnRollback key] \<Longrightarrow> ses_blobs (run_hooks fl Rollback False s) = delete_quietly fl (ses_blobs s) key"
  "ses_hooks s = [DeleteOnCommit key] \<Longrightarrow> ses_blobs (run_hooks fl Commit False s) = delete_quietly fl (ses_blobs s) key"
  "ses_hooks s = [DeleteOnCommit key] \<Longrightarrow> ses_blobs (run_hooks fl Rollback False s) = ses_blobs s"
  by (simp_all add: run_hooks_def List.map_filter_def)

text \<open>
  The blobs that the hooks of a request delete are those that the session's listeners delete when the
  request ends: hook \<open>p\<close> of the list is the pair of listeners \<open>p\<close>.
\<close>

lemma run_hooks_refines_session:
  "List.map_filter (\<lambda>(p, out). hook_fires out (hooks ! p))
      (fired (run new_session (fst (get_session (map Register [0..<length hooks]) raised failure)))) =
    List.map_filter (hook_fires (if raised = None \<and> failure = None then Commit else Rollback)) hooks"
proof -
  let ?out = "if raised = None \<and> failure = None then Commit else Rollback"
  have "List.map_filter (\<lambda>(p, out). hook_fires out (hooks ! p)) (map (\<lambda>p. (p, ?out)) ps) =
      List.map_filter (hook_fires ?out) (map (\<lambda>p. hooks ! p) ps)" for ps
    by (simp add: List.map_filter_def filter_map comp_def)
  then show ?thesis
    by (simp only: request_runs_hooks [OF distinct_upt] map_nth)
qed

lemma attachment_create_Inr:
  "attachment_create key filename ct n iid d = Inr (row, d') \<longleftrightarrow>
     length key \<le> 64 \<and> length filename \<le> 255 \<and> length ct \<le> 100 \<and> key \<notin> att_key ` set (t_attachments d) \<and>
     iid \<in> item_id ` set (t_items d) \<and>
     row = \<lparr>att_id = seqs d TAttachments, att_key = key, att_filename = filename, att_content_type = ct,
       att_size_bytes = n, att_item_id = iid, att_created_at = tx_now d, att_updated_at = tx_now d\<rparr> \<and>
     d' = bump TAttachments (d\<lparr>t_attachments := t_attachments d @ [row]\<rparr>)"
  by (auto simp: attachment_create_def Let_def split: if_splits)

lemma rows_have_blobs_add:
  assumes "rows_have_blobs (d, blobs)" and "attachment_create key filename ct (int (length bytes)) iid d = Inr (row, d')"
  shows "rows_have_blobs (d', blobs(key \<mapsto> bytes))" and "orphans (d', blobs(key \<mapsto> bytes)) \<subseteq> orphans (d, blobs)"
proof -
  note new = assms(2) [unfolded attachment_create_Inr]
  then have "att_key a \<noteq> key" if "a \<in> set (t_attachments d)" for a using that by auto
  then show "rows_have_blobs (d', blobs(key \<mapsto> bytes))" using assms(1) new by (auto simp: rows_have_blobs_def intro: keyed_append)
  show "orphans (d', blobs(key \<mapsto> bytes)) \<subseteq> orphans (d, blobs)" using new by (auto simp: orphans_def)
qed

lemma rows_have_blobs_other:
  assumes "rows_have_blobs (d, blobs)" and "key \<notin> att_key ` set (t_attachments d)"
  shows "rows_have_blobs (d, blobs(key := left))"
  using assms by (auto simp: rows_have_blobs_def)

lemma rows_have_blobs_remove:
  assumes "rows_have_blobs (d, blobs)" and "a \<in> set (t_attachments d)"
  shows "rows_have_blobs (attachment_delete a d, blobs(att_key a := left))"
    and "orphans (attachment_delete a d, blobs(att_key a := left)) \<subseteq>
      orphans (d, blobs) \<union> (if left = None then {} else {att_key a})"
proof -
  have dist: "distinct (map att_key (t_attachments d))" "distinct (map att_id (t_attachments d))"
    using assms(1) by (simp_all add: rows_have_blobs_def keyed_def)
  have same: "att_id b = att_id a \<longleftrightarrow> att_key b = att_key a" if "b \<in> set (t_attachments d)" for b
    using that assms(2) distinct_key_eq [OF dist(1)] distinct_key_eq [OF dist(2)] by metis
  then have keys: "att_key ` {b \<in> set (t_attachments d). att_id b \<noteq> att_id a} = att_key ` set (t_attachments d) - {att_key a}"
    by auto
  show "rows_have_blobs (attachment_delete a d, blobs(att_key a := left))"
    using assms(1) same by (auto simp: rows_have_blobs_def attachment_delete_def keyed_delete_where distinct_map_delete_where)
  show "orphans (attachment_delete a d, blobs(att_key a := left)) \<subseteq>
      orphans (d, blobs) \<union> (if left = None then {} else {att_key a})"
    using keys by (auto simp: orphans_def attachment_delete_def delete_where_def split: if_splits)
qed

lemma delete_quietly_upd: "delete_quietly fl blobs key = blobs(key := (if f_delete fl key = None then None else blobs key))"
  by (auto simp: delete_quietly_def split: option.splits)

lemma attachment_get_SomeD:
  "attachment_get_for_owner aid owner d = Some a \<Longrightarrow> a \<in> set (t_attachments d) \<and> att_id a = aid"
  by (auto simp: attachment_get_for_owner_def dest!: find_row_SomeD)

section \<open>What the service promises\<close>

text \<open>
  C9. Rows and blobs stay together through every upload and every removal that is not cancelled, whether it is accepted,
  refused, too large, failed by its source or by the storage, or rolled back by a failing insert or commit. Given
  that the key of an upload is new, every attachment row has its blob of the recorded size before and
  after. A blob without a row can appear only under the request's own key, and only when the source of
  the upload failed midway or the storage failed to delete that blob: otherwise no new one appears. A
  request that does not take effect leaves the tables as they were, and the storage too but for
  such a blob; no request touches the blob of another key.
\<close>

theorem attachments_match_blobs:
  assumes "rows_have_blobs (d, blobs)" and "fresh_request blobs r" and "att_serve fl st commit_ok r (d, blobs) = (d', blobs')"
  shows "rows_have_blobs (d', blobs') \<and>
    orphans (d', blobs') \<subseteq> orphans (d, blobs) \<union> (if undisturbed fl d r then {} else own_keys d r) \<and>
    (\<forall>k. k \<notin> own_keys d r \<longrightarrow> blobs' k = blobs k) \<and>
    (commit_ok \<and> fst (att_handler fl st r \<lparr>ses_db = d, ses_blobs = blobs, ses_hooks = []\<rparr>) \<or>
     d' = d \<and> (undisturbed fl d r \<longrightarrow> blobs' = blobs))"
proof (cases r)
  case (AddAttachment key iid owner upload)
  let ?s = "\<lparr>ses_db = d, ses_blobs = blobs, ses_hooks = []\<rparr>"
  obtain res s' where add: "attachment_add fl st key iid owner upload ?s = (res, s')" by fastforce
  have fresh: "key \<notin> dom (ses_blobs ?s)" using assms(2) by (simp add: AddAttachment fresh_request_def)
  then have none: "blobs(key := None) = blobs" and new: "key \<notin> att_key ` set (t_attachments d)"
    using assms(1) by (auto simp: fun_eq_iff rows_have_blobs_def)
  have own: "own_keys d r = {key}" "undisturbed fl d r \<longleftrightarrow> f_delete fl key = None \<and> list_all is_chunk (up_chunks upload)"
    by (simp_all add: own_keys_def undisturbed_def AddAttachment)
  have serve: "(d', blobs') = (if \<not> isl res \<and> commit_ok then (ses_db s', ses_blobs (run_hooks fl Commit False s'))
      else (d, ses_blobs (run_hooks fl Rollback False s')))"
    and ok: "fst (att_handler fl st r ?s) = (\<not> isl res)"
    using assms(3) add by (auto simp: att_serve_def att_handler_def AddAttachment split: if_splits)
  have dropped: ?thesis if "d' = d" "blobs' = blobs(key := left)" "undisturbed fl d r \<longrightarrow> left = None" for left
    using that rows_have_blobs_other [OF assms(1) new] none by (auto simp: own(1) orphans_def)
  from attachment_add_cases [OF fresh add] show ?thesis
  proof (elim disjE exE conjE)
    fix e left assume "res = Inl e" "s' = ?s\<lparr>ses_blobs := (ses_blobs ?s)(key := left)\<rparr>"
      "list_all is_chunk (up_chunks upload) \<and> f_delete fl key = None \<longrightarrow> left = None"
    then show ?thesis using serve own(2) by (intro dropped [of left]) (simp_all add: run_hooks_simps)
  next
    fix e assume "res = Inl e"
      "s' = ?s\<lparr>ses_blobs := (ses_blobs ?s)(key \<mapsto> upload_bytes upload), ses_hooks := ses_hooks ?s @ [DeleteOnRollback key]\<rparr>"
    then show ?thesis
      using serve own(2) by (intro dropped [of "if f_delete fl key = None then None else Some (upload_bytes upload)"])
        (simp_all add: run_hooks_simps delete_quietly_upd)
  next
    fix row d1 assume res: "res = Inr row"
      and create: "attachment_create key (safe_filename (up_filename upload))
        (base_content_type (up_content_type upload)) (int (length (upload_bytes upload))) iid (ses_db ?s) = Inr (row, d1)"
      and s': "s' = ?s\<lparr>ses_db := d1, ses_blobs := (ses_blobs ?s)(key \<mapsto> upload_bytes upload),
        ses_hooks := ses_hooks ?s @ [DeleteOnRollback key]\<rparr>"
    have kept: "rows_have_blobs (d1, blobs(key \<mapsto> upload_bytes upload))"
      "orphans (d1, blobs(key \<mapsto> upload_bytes upload)) \<subseteq> orphans (d, blobs)"
      using rows_have_blobs_add [OF assms(1), of key _ _ "upload_bytes upload"] create by simp_all
    show ?thesis
    proof (cases commit_ok)
      case True
      then have "d' = d1" "blobs' = blobs(key \<mapsto> upload_bytes upload)" using serve by (simp_all add: res s' run_hooks_simps)
      then show ?thesis using True kept ok by (auto simp: res own(1))
    next
      case False
      then show ?thesis
        using serve own(2) by (intro dropped [of "if f_delete fl key = None then None else Some (upload_bytes upload)"])
          (simp_all add: res s' run_hooks_simps delete_quietly_upd)
    qed
  qed
next
  case (RemoveAttachment aid owner)
  show ?thesis
  proof (cases "attachment_get_for_owner aid owner d")
    case None
    then show ?thesis
      using assms(1,3) by (simp add: RemoveAttachment att_serve_def att_handler_def attachment_remove_def
          attachment_service_get_def raise_error_def run_hooks_simps)
  next
    case (Some a)
    let ?left = "if f_delete fl (att_key a) = None then None else blobs (att_key a)"
    have a: "a \<in> set (t_attachments d)" "att_id a = aid" using attachment_get_SomeD [OF Some] by simp_all
    note kept = rows_have_blobs_remove [OF assms(1) a(1), of ?left]
    have own: "att_key a \<in> own_keys d r" using a by (auto simp: own_keys_def RemoveAttachment)
    then have clean: "undisturbed fl d r \<Longrightarrow> ?left = None" by (simp add: undisturbed_def)
    have serve: "(d', blobs') = (if commit_ok then (attachment_delete a d, blobs(att_key a := ?left)) else (d, blobs))"
      "fst (att_handler fl st r \<lparr>ses_db = d, ses_blobs = blobs, ses_hooks = []\<rparr>)"
      using assms(3) Some by (auto simp: RemoveAttachment att_serve_def att_handler_def attachment_remove_def
          attachment_service_get_def run_hooks_simps delete_quietly_upd split: if_splits)
    have "orphans (attachment_delete a d, blobs(att_key a := ?left)) \<subseteq> orphans (d, blobs) \<union> (if undisturbed fl d r then {} else own_keys d r)"
      using kept(2) own clean by (cases "?left = None") (auto split: if_splits)
    then show ?thesis using serve assms(1) kept(1) own by (cases commit_ok) auto
  qed
qed

text \<open>
  What an owner uploads is what the owner downloads. An accepted upload to an item of the caller
  whose transaction commits is found afterwards under its identifier, only by that owner while the
  item is active, and its content is the bytes of the upload.
\<close>

theorem upload_reads_back:
  assumes "rows_have_blobs (d, blobs)" and "fresh_request blobs (AddAttachment key iid owner upload)"
    and "attachment_add fl st key iid owner upload \<lparr>ses_db = d, ses_blobs = blobs, ses_hooks = []\<rparr> = (Inr row, s')"
    and "att_serve fl st True (AddAttachment key iid owner upload) (d, blobs) = (d', blobs')"
  shows "attachment_service_get (att_id row) owner d' = Inr row \<and> attachment_read row blobs' = Some (upload_bytes upload) \<and>
    att_size_bytes row = int (length (upload_bytes upload)) \<and>
    (up_chunks upload = [] \<or> att_size_bytes row \<le> max_attachment_bytes st) \<and>
    base_content_type (up_content_type upload) \<in> attachment_type_set st"
proof -
  let ?s = "\<lparr>ses_db = d, ses_blobs = blobs, ses_hooks = []\<rparr>"
  have fresh: "key \<notin> dom (ses_blobs ?s)" using assms(2) by (simp add: fresh_request_def)
  from attachment_add_cases [OF fresh assms(3)] obtain d1 where
    create: "attachment_create key (safe_filename (up_filename upload))
        (base_content_type (up_content_type upload)) (int (length (upload_bytes upload))) iid d = Inr (row, d1)"
    and s': "s' = ?s\<lparr>ses_db := d1, ses_blobs := blobs(key \<mapsto> upload_bytes upload), ses_hooks := [DeleteOnRollback key]\<rparr>"
    by auto
  note new = create [unfolded attachment_create_Inr]
  have d': "d' = d1" "blobs' = blobs(key \<mapsto> upload_bytes upload)"
    using assms(3,4) by (simp_all add: att_serve_def att_handler_def s' run_hooks_simps)
  have own: "\<exists>i\<in>set (t_items d). item_id i = iid \<and> item_owned_by owner i"
    and ok: "base_content_type (up_content_type upload) \<in> attachment_type_set st"
    using assms(3) by (auto simp: attachment_add_def owned_item_def or_not_found_def raise_error_def item_get_for_owner_def Let_def
        split: option.splits if_splits dest!: find_row_SomeD)
  have small: "up_chunks upload = [] \<or> int (length (upload_bytes upload)) \<le> max_attachment_bytes st"
    using assms(3) storage_save_fresh [OF fresh, of fl "max_attachment_bytes st" "up_chunks upload"]
    by (auto simp: attachment_add_def Let_def upload_bytes_def split: sum.splits prod.splits if_splits)
  have "find_row (\<lambda>a. att_id a = att_id row \<and> (\<exists>i\<in>set (t_items d). item_id i = att_item_id a \<and> item_owned_by owner i)) (t_attachments d) = None"
    using assms(1) new by (auto simp: find_row_None_iff rows_have_blobs_def dest: keyed_fresh)
  then have "attachment_get_for_owner (att_id row) owner d1 = Some row"
    using new own by (auto simp: attachment_get_for_owner_def find_row_append)
  then show ?thesis using new ok small by (simp add: d' attachment_service_get_def attachment_read_def)
qed

text \<open>
  A failing source does leave a blob without a row. When reading the upload fails after a first chunk, the
  request is rolled back and no row is left, but the bytes written so far stay in the storage.
\<close>

theorem failed_source_leaks_blob:
  "\<exists>st d upload d' blobs'. rows_have_blobs (d, Map.empty) \<and>
     att_serve no_faults st True (AddAttachment ''k'' 1 1 upload) (d, Map.empty) = (d', blobs') \<and>
     d' = d \<and> blobs' ''k'' = Some ''ab'' \<and> orphans (d', blobs') = {''k''}"
proof -
  let ?st = "default_settings ''url'' ''key''"
  let ?d = "sample_items_db"
  let ?u = "\<lparr>up_filename = None, up_content_type = Some ''text/plain'', up_chunks = [Chunk ''ab'', SourceError StaleDataError]\<rparr>"
  have owned: "\<not> isl (owned_item 1 1 ?d)" and ct: "base_content_type (Some ''text/plain'') \<in> attachment_type_set ?st" by code_simp+
  then obtain i where i: "owned_item 1 1 ?d = Inr i" using not_isl_Inr by blast
  have "att_serve no_faults ?st True (AddAttachment ''k'' 1 1 ?u) (?d, Map.empty) = (?d, [''k'' \<mapsto> ''ab''])"
    using ct by (simp add: att_serve_def att_handler_def attachment_add_def i Let_def run_hooks_simps storage_save_def no_faults_def)
      (simp add: default_settings_def)
  moreover have "rows_have_blobs (?d, Map.empty)" "orphans (?d, [''k'' \<mapsto> ''ab'']) = {''k''}"
    by (simp_all add: rows_have_blobs_def orphans_def keyed_def sample_items_db_def empty_db_def)
  ultimately show ?thesis by (intro exI [of _ ?st] exI [of _ ?d] exI [of _ ?u]) auto
qed

lemma posix_name_no_slash: "CHR ''/'' \<notin> set (posix_name p)"
proof (cases "rev (filter (\<lambda>w. w \<noteq> [] \<and> w \<noteq> ''.'') (split_on (CHR ''/'') p))")
  case Nil
  then show ?thesis by (simp add: posix_name_def)
next
  case (Cons w ws)
  then have "w \<in> set (filter (\<lambda>w. w \<noteq> [] \<and> w \<noteq> ''.'') (split_on (CHR ''/'') p))"
    by (metis list.set_intros(1) set_rev)
  then show ?thesis using Cons split_on_no_sep [of w "CHR ''/''" p] by (simp add: posix_name_def)
qed

lemma safe_filename_chars:
  assumes "c \<in> set (safe_filename name)"
  shows "is_printable c" and "c \<notin> set REFUSED_IN_FILENAME" and "c \<noteq> CHR ''/''"
proof -
  let ?p = "posix_name (map (\<lambda>c. if c = CHR 0x5C then CHR ''/'' else c) (case name of None \<Rightarrow> [] | Some n \<Rightarrow> n))"
  let ?f = "filter (\<lambda>c. is_printable c \<and> c \<notin> set REFUSED_IN_FILENAME) ?p"
  have "c \<in> set FALLBACK_FILENAME \<or> c \<in> set ?f"
    using assms set_strip_by [of is_space ?f] by (auto simp: safe_filename_def Let_def dest!: in_set_takeD split: if_splits)
  then have "is_printable c \<and> c \<notin> set REFUSED_IN_FILENAME \<and> c \<noteq> CHR ''/''"
    using posix_name_no_slash by (auto simp: is_printable_def REFUSED_IN_FILENAME_def)
  then show "is_printable c" "c \<notin> set REFUSED_IN_FILENAME" "c \<noteq> CHR ''/''" by blast+
qed

text \<open>
  Whatever name a client sends, the name that is stored is not empty, fits its column, has no
  path separator, no quote and no control character; and the download header made from it is a
  single line of printable ASCII in which the quoted name cannot end early.
\<close>

theorem download_header_safe:
  "safe_filename name \<noteq> [] \<and> length (safe_filename name) \<le> 255 \<and>
   set (safe_filename name) \<inter> {CHR ''/'', CHR 0x5C, CHR 0x22, CHR '';'', CHR 0x0D, CHR 0x0A, CHR 0x00} = {} \<and>
   (\<exists>quoted encoded. disposition (a\<lparr>att_filename := safe_filename name\<rparr>) =
      ''attachment; filename='' @ [CHR 0x22] @ quoted @ [CHR 0x22] @ ''; filename*=UTF-8'' @ [CHR 0x27, CHR 0x27] @ encoded \<and>
      list_all (between 32 126) quoted \<and> CHR 0x22 \<notin> set quoted \<and> length quoted = length (safe_filename name) \<and>
      list_all (between 33 126) encoded \<and> CHR 0x22 \<notin> set encoded)"
proof -
  let ?n = "safe_filename name"
  have "?n \<noteq> []" "length ?n \<le> 255" by (auto simp: safe_filename_def Let_def)
  moreover have "set ?n \<inter> {CHR ''/'', CHR 0x5C, CHR 0x22, CHR '';'', CHR 0x0D, CHR 0x0A, CHR 0x00} = {}"
    using safe_filename_chars [of _ name] by (fastforce simp: REFUSED_IN_FILENAME_def is_printable_def)
  moreover have "list_all (between 32 126) (ascii_name ?n)"
    using safe_filename_chars(1) [of _ name] by (fastforce simp: ascii_name_def list_all_iff is_printable_def between_def Let_def)
  moreover have "CHR 0x22 \<notin> set (ascii_name ?n)" by (auto simp: ascii_name_def)
  moreover have "length (ascii_name ?n) = length ?n" by (simp add: ascii_name_def)
  moreover have "list_all (between 33 126) (percent_encode ?n)" "CHR 0x22 \<notin> set (percent_encode ?n)"
    using percent_encode_chars by (auto simp: list_all_iff)
  moreover have "disposition (a\<lparr>att_filename := ?n\<rparr>) =
      ''attachment; filename='' @ [CHR 0x22] @ ascii_name ?n @ [CHR 0x22] @ ''; filename*=UTF-8'' @ [CHR 0x27, CHR 0x27] @ percent_encode ?n"
    by (simp add: disposition_def)
  ultimately show ?thesis by blast
qed

section \<open>Samples\<close>

definition sample_upload :: Upload where
  "sample_upload = \<lparr>up_filename = Some ''a/b.txt'', up_content_type = Some ''text/plain; charset=utf-8'',
     up_chunks = [Chunk ''ab'', Chunk ''c'']\<rparr>"

abbreviation sample_storage_settings :: Settings where
  "sample_storage_settings \<equiv> default_settings ''url'' ''key''"

lemma sample_blobs:
  "rows_have_blobs (sample_items_db, Map.empty)" "fresh_request Map.empty (AddAttachment ''k'' 1 1 upload)"
  "orphans (sample_items_db, Map.empty) = {}"
  by (simp_all add: rows_have_blobs_def orphans_def keyed_def sample_items_db_def empty_db_def fresh_request_def)

lemma sample_add:
  "\<not> isl (fst (attachment_add no_faults sample_storage_settings ''k'' 1 1 sample_upload
     \<lparr>ses_db = sample_items_db, ses_blobs = Map.empty, ses_hooks = []\<rparr>))"
  by code_simp

theorem attachments_match_blobs_witness:
  "\<exists>d' blobs'. att_serve no_faults sample_storage_settings True (AddAttachment ''k'' 1 1 sample_upload)
       (sample_items_db, Map.empty) = (d', blobs') \<and>
     rows_have_blobs (d', blobs') \<and> orphans (d', blobs') = {}"
proof -
  let ?r = "AddAttachment ''k'' 1 1 sample_upload"
  obtain d' b' where run: "att_serve no_faults sample_storage_settings True ?r (sample_items_db, Map.empty) = (d', b')" by fastforce
  have "undisturbed no_faults sample_items_db ?r"
    by (simp add: undisturbed_def own_keys_def no_faults_def sample_upload_def)
  then show ?thesis
    using attachments_match_blobs [OF sample_blobs(1,2) run] sample_blobs(3) run by simp
qed

theorem upload_reads_back_witness:
  "\<exists>row. attachment_read row (snd (att_serve no_faults sample_storage_settings True (AddAttachment ''k'' 1 1 sample_upload)
     (sample_items_db, Map.empty))) = Some ''abc'' \<and> att_size_bytes row = 3"
proof -
  obtain row s' where row: "attachment_add no_faults sample_storage_settings ''k'' 1 1 sample_upload
      \<lparr>ses_db = sample_items_db, ses_blobs = Map.empty, ses_hooks = []\<rparr> = (Inr row, s')"
    using sample_add not_isl_Inr by (metis prod.collapse)
  have "upload_bytes sample_upload = ''abc''" by (simp add: upload_bytes_def sample_upload_def)
  then show ?thesis
    using upload_reads_back [OF sample_blobs(1,2) row prod.collapse [symmetric]] by (intro exI [of _ row]) simp
qed

end
