(* ===== verification/Preferences.thy ===== *)
theory Preferences
  imports UserRepo Config
begin

text \<open>
  \<open>app/services/preferences_service.py\<close>, \<open>app/repositories/preferences_repo.py\<close>,
  \<open>app/schemas/preferences.py\<close>, \<open>app/core/i18n/\<close>: what an account prefers, stored on the first change,
  and how a stored locale and time zone are resolved.
\<close>

section \<open>Locales and time zones\<close>

datatype Locale = EN_US | PT_BR

fun locale_value :: "Locale \<Rightarrow> str" where
  "locale_value EN_US = ''en-US''"
| "locale_value PT_BR = ''pt-BR''"

definition all_locales :: "Locale list" where
  "all_locales = [EN_US, PT_BR]"

abbreviation DEFAULT_LOCALE :: Locale where "DEFAULT_LOCALE \<equiv> EN_US"

definition by_language :: "str \<Rightarrow> Locale option" where
  "by_language lang = map_of (rev (map (\<lambda>l. (hd (split_on (CHR ''-'') (locale_value l)), l)) all_locales)) lang"

definition coerce :: "str option \<Rightarrow> Locale option" where
  "coerce tag =
     (case tag of
        None \<Rightarrow> None
      | Some t \<Rightarrow>
          (let cleaned = lower (strip t) in
           if cleaned = [] then None
           else (case find_row (\<lambda>l. lower (locale_value l) = cleaned) all_locales of
                   Some l \<Rightarrow> Some l
                 | None \<Rightarrow> by_language (hd (split_on (CHR ''-'') cleaned)))))"

text \<open>\<open>resolve(stored)\<close>, as the mailer calls it: without an \<open>Accept-Language\<close> header to negotiate.\<close>

definition locale_resolve :: "str option \<Rightarrow> Locale" where
  "locale_resolve stored = (case coerce stored of None \<Rightarrow> DEFAULT_LOCALE | Some l \<Rightarrow> l)"

abbreviation DEFAULT_TIMEZONE :: str where "DEFAULT_TIMEZONE \<equiv> ''UTC''"

text \<open>The zones of the machine's time zone database are a parameter.\<close>

definition timezone_resolve :: "(str \<Rightarrow> bool) \<Rightarrow> str option \<Rightarrow> str" where
  "timezone_resolve is_known stored =
     (case stored of None \<Rightarrow> DEFAULT_TIMEZONE | Some z \<Rightarrow> if is_known z then z else DEFAULT_TIMEZONE)"

section \<open>Updates\<close>

record PreferencesUpdate =
  pu_locale :: "str option field"
  pu_theme :: "str option field"
  pu_timezone :: "str option field"
  pu_show_request_id :: "bool option field"
  pu_features :: "str option field"

definition char_in :: "nat \<Rightarrow> nat \<Rightarrow> char \<Rightarrow> bool" where
  "char_in lo hi c \<longleftrightarrow> (let n = of_char c :: nat in lo \<le> n \<and> n \<le> hi)"

text \<open>\<open>^[a-z]{2}(-[A-Za-z0-9]{2,8})?$\<close>, at most ten characters.\<close>

definition locale_ok :: "str \<Rightarrow> bool" where
  "locale_ok s \<longleftrightarrow> length s \<le> 10 \<and> 2 \<le> length s \<and> list_all (char_in 97 122) (take 2 s) \<and>
     (drop 2 s = [] \<or>
      (s ! 2 = CHR ''-'' \<and> 2 \<le> length (drop 3 s) \<and> length (drop 3 s) \<le> 8 \<and>
       list_all (\<lambda>c. char_in 65 90 c \<or> char_in 97 122 c \<or> char_in 48 57 c) (drop 3 s)))"

definition theme_ok :: "str \<Rightarrow> bool" where
  "theme_ok s \<longleftrightarrow> s \<in> {''light'', ''dark'', ''system''}"

text \<open>\<open>^$|^[a-z0-9-]+(,[a-z0-9-]+)*$\<close>, at most 200 characters.\<close>

definition features_ok :: "str \<Rightarrow> bool" where
  "features_ok s \<longleftrightarrow> length s \<le> 200 \<and>
     (s = [] \<or> list_all (\<lambda>w. w \<noteq> [] \<and> list_all (\<lambda>c. char_in 97 122 c \<or> char_in 48 57 c \<or> c = CHR ''-'') w)
                 (split_on (CHR '','') s))"

definition field_ok :: "('a \<Rightarrow> bool) \<Rightarrow> 'a option field \<Rightarrow> bool" where
  "field_ok P f \<longleftrightarrow> (case f of Given (Some v) \<Rightarrow> P v | _ \<Rightarrow> True)"

definition validate_preferences :: "(str \<Rightarrow> bool) \<Rightarrow> PreferencesUpdate \<Rightarrow> PreferencesUpdate result" where
  "validate_preferences is_known u =
     (if \<not> field_ok locale_ok (pu_locale u) then Inl (ValueError ''locale'')
      else if \<not> field_ok theme_ok (pu_theme u) then Inl (ValueError ''theme'')
      else if \<not> field_ok (\<lambda>z. length z \<le> 64 \<and> is_known z) (pu_timezone u)
      then Inl (ValueError ''timezone is not an IANA zone this machine knows'')
      else if \<not> field_ok features_ok (pu_features u) then Inl (ValueError ''features'')
      else Inr u)"

section \<open>The repository and the service\<close>

definition pref_get_for_user :: "ident \<Rightarrow> database \<Rightarrow> UserPreferences option" where
  "pref_get_for_user uid d = find_row (\<lambda>p. pref_user_id p = uid) (t_preferences d)"

definition pref_too_long :: "UserPreferences \<Rightarrow> bool" where
  "pref_too_long p \<longleftrightarrow> length (pref_locale p) > 10 \<or> length (pref_theme p) > 10 \<or> length (pref_timezone p) > 64
     \<or> (case pref_features p of None \<Rightarrow> False | Some f \<Rightarrow> length f > 200)"

definition pref_create :: "UserPreferences \<Rightarrow> database \<Rightarrow> (UserPreferences \<times> database) result" where
  "pref_create p d =
     (let row = p\<lparr>pref_id := seqs d TPreferences\<rparr> in
      if pref_too_long row then Inl (DataError STRING_TRUNCATION)
      else if pref_get_for_user (pref_user_id p) d \<noteq> None then Inl (IntegrityError UNIQUE_VIOLATION)
      else if pref_user_id p \<notin> user_id ` set (t_users d) then Inl (IntegrityError FOREIGN_KEY_VIOLATION)
      else Inr (row, bump TPreferences (d\<lparr>t_preferences := t_preferences d @ [row]\<rparr>)))"

definition pref_save :: "UserPreferences \<Rightarrow> database \<Rightarrow> (UserPreferences \<times> database) result" where
  "pref_save p d =
     (if pref_too_long p then Inl (DataError STRING_TRUNCATION)
      else Inr (p, d\<lparr>t_preferences := update_where (\<lambda>q. pref_id q = pref_id p) (\<lambda>q. p) (t_preferences d)\<rparr>))"

definition default_preferences :: "ident \<Rightarrow> UserPreferences" where
  "default_preferences uid = \<lparr>pref_id = 0, pref_user_id = uid, pref_locale = locale_value DEFAULT_LOCALE,
     pref_theme = ''system'', pref_timezone = DEFAULT_TIMEZONE, pref_show_request_id = True, pref_features = None\<rparr>"

definition pref_get :: "ident \<Rightarrow> database \<Rightarrow> UserPreferences" where
  "pref_get uid d = (case pref_get_for_user uid d of Some p \<Rightarrow> p | None \<Rightarrow> default_preferences uid)"

text \<open>A null is an omission, except for \<open>features\<close>, where it is an answer.\<close>

fun sent_value :: "'a option field \<Rightarrow> 'a \<Rightarrow> 'a" where
  "sent_value (Given (Some v)) old = v"
| "sent_value (Given None) old = old"
| "sent_value Unset old = old"

definition apply_preferences :: "PreferencesUpdate \<Rightarrow> UserPreferences \<Rightarrow> UserPreferences" where
  "apply_preferences u p = p\<lparr>pref_locale := sent_value (pu_locale u) (pref_locale p),
     pref_theme := sent_value (pu_theme u) (pref_theme p), pref_timezone := sent_value (pu_timezone u) (pref_timezone p),
     pref_show_request_id := sent_value (pu_show_request_id u) (pref_show_request_id p),
     pref_features := given (pu_features u) (pref_features p)\<rparr>"

definition pref_update :: "ident \<Rightarrow> PreferencesUpdate \<Rightarrow> database \<Rightarrow> (UserPreferences \<times> database) result" where
  "pref_update uid u d =
     (case pref_get_for_user uid d of
        None \<Rightarrow> pref_create (apply_preferences u (default_preferences uid)) d
      | Some stored \<Rightarrow> pref_save (apply_preferences u stored) d)"

record AccountFeaturesRead =
  afr_features :: "str option"
  afr_available :: "str list"

definition pref_user :: "ident \<Rightarrow> database \<Rightarrow> User result" where
  "pref_user uid d = or_not_found (user_get uid d) ''User not found'' USER_NOT_FOUND"

definition features_for :: "Settings \<Rightarrow> ident \<Rightarrow> database \<Rightarrow> AccountFeaturesRead result" where
  "features_for s uid d =
     rbind (pref_user uid d) (\<lambda>user.
       Inr \<lparr>afr_features = pref_features (pref_get (user_id user) d), afr_available = available_features s\<rparr>)"

definition update_features_for ::
  "Settings \<Rightarrow> ident \<Rightarrow> str option \<Rightarrow> database \<Rightarrow> (AccountFeaturesRead \<times> database) result" where
  "update_features_for s uid features d =
     rbind (pref_user uid d) (\<lambda>user.
     rbind (pref_update (user_id user) \<lparr>pu_locale = Unset, pu_theme = Unset, pu_timezone = Unset,
              pu_show_request_id = Unset, pu_features = Given features\<rparr> d) (\<lambda>(stored, d').
       Inr (\<lparr>afr_features = pref_features stored, afr_available = available_features s\<rparr>, d')))"

section \<open>What the service promises\<close>

definition wf_preferences :: "database \<Rightarrow> bool" where
  "wf_preferences d \<longleftrightarrow> keyed pref_id (t_preferences d) (seqs d TPreferences) \<and>
     distinct (map pref_user_id (t_preferences d)) \<and>
     (\<forall>p\<in>set (t_preferences d). pref_user_id p \<in> user_id ` set (t_users d) \<and> \<not> pref_too_long p)"

lemma locale_resolve_value: "locale_resolve (Some (locale_value l)) = l"
proof -
  have "locale_resolve (Some (locale_value EN_US)) = EN_US" "locale_resolve (Some (locale_value PT_BR)) = PT_BR"
    by code_simp+
  then show ?thesis by (cases l) simp_all
qed

lemma valid_update_fits:
  assumes "validate_preferences is_known u = Inr u" and "\<not> pref_too_long p"
  shows "\<not> pref_too_long (apply_preferences u p)"
proof -
  have ok: "field_ok locale_ok (pu_locale u)" "field_ok theme_ok (pu_theme u)"
    "field_ok (\<lambda>z. length z \<le> 64 \<and> is_known z) (pu_timezone u)" "field_ok features_ok (pu_features u)"
    using assms(1) by (auto simp: validate_preferences_def split: if_splits)
  have sent: "Q (sent_value f old)" if "field_ok P f" "Q old" "\<And>v. P v \<Longrightarrow> Q v" for P Q old and f :: "str option field"
    using that by (cases "(f, old)" rule: sent_value.cases) (simp_all add: field_ok_def)
  have "length (pref_locale (apply_preferences u p)) \<le> 10"
    using sent [OF ok(1), of "\<lambda>s. length s \<le> 10"] assms(2) by (simp add: apply_preferences_def pref_too_long_def locale_ok_def)
  moreover have "length (pref_theme (apply_preferences u p)) \<le> 10"
  proof -
    have "theme_ok v \<Longrightarrow> length v \<le> 10" for v by (auto simp: theme_ok_def)
    then show ?thesis
      using sent [OF ok(2), of "\<lambda>s. length s \<le> 10"] assms(2) by (simp add: apply_preferences_def pref_too_long_def)
  qed
  moreover have "length (pref_timezone (apply_preferences u p)) \<le> 64"
    using sent [OF ok(3), of "\<lambda>s. length s \<le> 64"] assms(2) by (simp add: apply_preferences_def pref_too_long_def)
  moreover have "case pref_features (apply_preferences u p) of None \<Rightarrow> True | Some f \<Rightarrow> length f \<le> 200"
    using ok(4) assms(2) by (cases "pu_features u") (auto simp: apply_preferences_def pref_too_long_def field_ok_def features_ok_def split: option.splits)
  ultimately show ?thesis by (auto simp: pref_too_long_def split: option.splits)
qed

lemma keyed_same_ids: "map k rows' = map k rows \<Longrightarrow> keyed k rows n \<Longrightarrow> keyed k rows' n"
proof -
  assume ids: "map k rows' = map k rows" and "keyed k rows n"
  then have "distinct (map k rows')" "\<forall>i\<in>set (map k rows'). i < n" by (simp_all only: ids) (auto simp: keyed_def)
  then show ?thesis by (simp add: keyed_def)
qed

lemma pref_get_save:
  assumes "wf_preferences d" and "pref_get_for_user uid d = Some q" and "pref_id p = pref_id q" and "pref_user_id p = uid"
    and "\<not> pref_too_long p" and "pref_save p d = Inr (r, d')"
  shows "r = p" and "wf_preferences d'"
    and "pref_get_for_user v d' = (if v = uid then Some p else pref_get_for_user v d)"
proof -
  have q: "q \<in> set (t_preferences d)" "pref_user_id q = uid"
    using assms(2) by (auto simp: pref_get_for_user_def dest: find_row_SomeD)
  have d': "r = p" "d' = d\<lparr>t_preferences := update_where (\<lambda>x. pref_id x = pref_id q) (\<lambda>x. p) (t_preferences d)\<rparr>"
    using assms(3,5,6) by (auto simp: pref_save_def)
  then show "r = p" by simp
  have dist: "distinct (map pref_id (t_preferences d))" "distinct (map pref_user_id (t_preferences d))"
    using assms(1) by (simp_all add: wf_preferences_def keyed_def)
  have same: "pref_id x = pref_id q \<longleftrightarrow> x = q" if "x \<in> set (t_preferences d)" for x
    using that q distinct_key_eq [OF dist(1)] by metis
  have keep: "map f (update_where (\<lambda>x. pref_id x = pref_id q) (\<lambda>x. p) (t_preferences d)) = map f (t_preferences d)"
    if "f p = f q" for f :: "UserPreferences \<Rightarrow> ident"
    using same that by (auto simp: update_where_def)
  have ids: "map pref_id (t_preferences d') = map pref_id (t_preferences d)"
    "map pref_user_id (t_preferences d') = map pref_user_id (t_preferences d)"
    using keep [of pref_id] keep [of pref_user_id] assms(3,4) q(2) by (simp_all add: d')
  have mem: "x = p \<or> x \<in> set (t_preferences d)" if "x \<in> set (t_preferences d')" for x
    using that by (auto simp: d' set_update_where)
  have "keyed pref_id (t_preferences d') (seqs d' TPreferences)"
    using assms(1) keyed_same_ids [OF ids(1)] by (simp add: wf_preferences_def d'(2))
  moreover have "pref_user_id x \<in> user_id ` set (t_users d') \<and> \<not> pref_too_long x" if "x \<in> set (t_preferences d')" for x
  proof -
    have "pref_user_id q \<in> user_id ` set (t_users d)" using assms(1) q(1) by (auto simp: wf_preferences_def)
    then show ?thesis using mem [OF that] assms(1,4,5) q(2) by (auto simp: wf_preferences_def d'(2))
  qed
  ultimately show "wf_preferences d'" using dist(2) ids(2) by (simp add: wf_preferences_def)
  show "pref_get_for_user v d' = (if v = uid then Some p else pref_get_for_user v d)"
  proof (cases "v = uid")
    case True
    have "p \<in> set (t_preferences d')" using q(1) by (auto simp: d' set_update_where image_iff)
    moreover have "distinct (map pref_user_id (t_preferences d'))" using dist ids by simp
    ultimately show ?thesis
      using True find_row_key [of pref_user_id "t_preferences d'" p] assms(4) by (simp add: pref_get_for_user_def)
  next
    case False
    have "find_row (\<lambda>x. pref_user_id x = v) (update_where (\<lambda>x. pref_id x = pref_id q) (\<lambda>x. p) xs) =
        find_row (\<lambda>x. pref_user_id x = v) xs" if "set xs \<subseteq> set (t_preferences d)" for xs
      using that same q(2) assms(4) False by (induction xs) (auto simp: update_where_def)
    then show ?thesis using False by (simp add: pref_get_for_user_def d')
  qed
qed

text \<open>
  A valid change of preferences of an existing account always succeeds. Afterwards the account
  reads exactly the values it sent, its former ones (or the defaults, when it had never changed
  any) for what it did not send or sent as null, and no list of features when it sent null for
  that; nobody else's preferences change.
\<close>

theorem preferences_update_outcome:
  assumes "wf_preferences d" and "validate_preferences is_known u = Inr u" and "uid \<in> user_id ` set (t_users d)"
  shows "\<exists>p d'. pref_update uid u d = Inr (p, d') \<and> wf_preferences d' \<and> pref_get uid d' = p \<and>
    p\<lparr>pref_id := 0\<rparr> = (apply_preferences u (pref_get uid d))\<lparr>pref_id := 0\<rparr> \<and>
    (\<forall>other. other = uid \<or> pref_get other d' = pref_get other d)"
proof (cases "pref_get_for_user uid d")
  case (Some q)
  then have q: "q \<in> set (t_preferences d)" "pref_user_id q = uid"
    by (auto simp: pref_get_for_user_def dest: find_row_SomeD)
  let ?p = "apply_preferences u q"
  have fits: "\<not> pref_too_long ?p" using valid_update_fits [OF assms(2)] q assms(1) by (auto simp: wf_preferences_def)
  then obtain d' where d': "pref_save ?p d = Inr (?p, d')" by (simp add: pref_save_def)
  note saved = pref_get_save [OF assms(1) Some _ _ fits d']
  have "pref_id ?p = pref_id q" "pref_user_id ?p = uid" using q by (simp_all add: apply_preferences_def)
  then show ?thesis
    using Some d' saved by (intro exI [of _ ?p] exI [of _ d']) (auto simp: pref_update_def pref_get_def)
next
  case None
  let ?p = "(apply_preferences u (default_preferences uid))\<lparr>pref_id := seqs d TPreferences\<rparr>"
  let ?d = "bump TPreferences (d\<lparr>t_preferences := t_preferences d @ [?p]\<rparr>)"
  have "\<not> pref_too_long (default_preferences uid)" by (simp add: pref_too_long_def default_preferences_def)
  then have fits: "\<not> pref_too_long ?p"
    using valid_update_fits [OF assms(2)] by (simp add: pref_too_long_def)
  have who: "pref_user_id ?p = uid" "pref_user_id (apply_preferences u (default_preferences uid)) = uid"
    by (simp_all add: apply_preferences_def default_preferences_def)
  have res: "pref_update uid u d = Inr (?p, ?d)"
    using None fits who assms(3) by (simp add: pref_update_def pref_create_def Let_def)
  have new: "uid \<notin> pref_user_id ` set (t_preferences d)" using None by (auto simp: pref_get_for_user_def find_row_None_iff)
  have "wf_preferences ?d"
    using assms(1,3) fits who new by (auto simp: wf_preferences_def intro: keyed_append)
  moreover have "pref_get_for_user v ?d = (if v = uid then Some ?p else pref_get_for_user v d)" for v
    using None who by (auto simp: pref_get_for_user_def find_row_append split: option.split)
  ultimately show ?thesis
    using res None by (intro exI [of _ ?p] exI [of _ ?d]) (auto simp: pref_get_def)
qed

definition dark_theme :: PreferencesUpdate where
  "dark_theme = \<lparr>pu_locale = Given None, pu_theme = Given (Some ''dark''), pu_timezone = Unset,
     pu_show_request_id = Unset, pu_features = Given None\<rparr>"

definition account_row :: user_row where
  "account_row = \<lparr>user_id = 1, user_email = ''a@b.co'', user_name = None, user_hashed_password = ''h'',
     user_email_verified_at = None, user_password_changed_at = None, user_deleted_at = None,
     user_created_at = 0, user_updated_at = 0\<rparr>"

theorem preferences_update_outcome_witness:
  "\<exists>p d'. pref_update 1 dark_theme (empty_db\<lparr>t_users := [account_row]\<rparr>) = Inr (p, d') \<and>
     pref_theme (pref_get 1 d') = ''dark'' \<and> pref_locale (pref_get 1 d') = ''en-US''"
proof -
  let ?d = "empty_db\<lparr>t_users := [account_row]\<rparr>"
  have "wf_preferences ?d" by (simp add: wf_preferences_def keyed_def empty_db_def)
  moreover have "validate_preferences (\<lambda>z. True) dark_theme = Inr dark_theme"
    by (simp add: validate_preferences_def dark_theme_def field_ok_def theme_ok_def)
  ultimately obtain p d' where r: "pref_update 1 dark_theme ?d = Inr (p, d')" "pref_get 1 d' = p"
    "p\<lparr>pref_id := 0\<rparr> = (apply_preferences dark_theme (pref_get 1 ?d))\<lparr>pref_id := 0\<rparr>"
    using preferences_update_outcome [of ?d "\<lambda>z. True" dark_theme 1] by (auto simp: account_row_def)
  have "pref_get 1 ?d = default_preferences 1" by (simp add: pref_get_def pref_get_for_user_def empty_db_def)
  then have "pref_theme (p\<lparr>pref_id := 0\<rparr>) = ''dark''" "pref_locale (p\<lparr>pref_id := 0\<rparr>) = ''en-US''"
    unfolding r(3) by (simp_all add: apply_preferences_def dark_theme_def default_preferences_def)
  then have "pref_theme p = ''dark''" "pref_locale p = ''en-US''" by simp_all
  then show ?thesis using r(1,2) by blast
qed

end
