(* ===== verification/Mail.thy ===== *)
theory Mail
  imports SingleUse Preferences Bytes
begin

text \<open>
  \<open>app/core/mail/\<close>, \<open>app/services/account_mailer.py\<close> and \<open>app/api/mail_tasks.py\<close>: the templates of the
  two account mails and how they are filled in, the link they carry, and the background task that
  issues a reset link and sends it in one transaction.
\<close>

section \<open>Templates\<close>

record Mail =
  mail_to :: str
  mail_subject :: str
  mail_body :: str

record Template =
  tpl_subject :: str
  tpl_body :: str

abbreviation nl :: str where "nl \<equiv> [CHR 0x0A]"

text \<open>\<open>TEMPLATES\<close>; the accented letters are written by their code point.\<close>

fun TEMPLATES :: "mail_kind \<Rightarrow> Locale \<Rightarrow> Template" where
  "TEMPLATES VerifyEmail EN_US =
     \<lparr>tpl_subject = ''Confirm your email address'',
      tpl_body = ''Hello {name},'' @ nl @ nl @
        ''Confirm this address to finish setting up your account:'' @ nl @
        ''{link}'' @ nl @ nl @
        ''The link stops working on {expires_at}.'' @ nl @
        ''If you did not create this account, ignore this message.''\<rparr>"
| "TEMPLATES VerifyEmail PT_BR =
     \<lparr>tpl_subject = ''Confirme seu endere'' @ [CHR 0xE7] @ ''o de email'',
      tpl_body = ''Ol'' @ [CHR 0xE1] @ '', {name}.'' @ nl @ nl @
        ''Confirme este endere'' @ [CHR 0xE7] @ ''o para terminar de configurar sua conta:'' @ nl @
        ''{link}'' @ nl @ nl @
        ''O link para de funcionar em {expires_at}.'' @ nl @
        ''Se voc'' @ [CHR 0xEA] @ '' n'' @ [CHR 0xE3] @ ''o criou esta conta, ignore esta mensagem.''\<rparr>"
| "TEMPLATES ResetPassword EN_US =
     \<lparr>tpl_subject = ''Reset your password'',
      tpl_body = ''Hello {name},'' @ nl @ nl @
        ''Someone asked to reset the password for this account:'' @ nl @
        ''{link}'' @ nl @ nl @
        ''The link stops working on {expires_at} and can be used once.'' @ nl @
        ''If it was not you, nothing has changed and you can ignore this.''\<rparr>"
| "TEMPLATES ResetPassword PT_BR =
     \<lparr>tpl_subject = ''Redefina sua senha'',
      tpl_body = ''Ol'' @ [CHR 0xE1] @ '', {name}.'' @ nl @ nl @
        ''Algu'' @ [CHR 0xE9] @ ''m pediu a redefini'' @ [CHR 0xE7, CHR 0xE3] @ ''o da senha desta conta:'' @ nl @
        ''{link}'' @ nl @ nl @
        ''O link para de funcionar em {expires_at} e vale uma vez s'' @ [CHR 0xF3] @ ''.'' @ nl @
        ''Se n'' @ [CHR 0xE3] @ ''o foi voc'' @ [CHR 0xEA] @ '', nada mudou e pode ignorar esta mensagem.''\<rparr>"

text \<open>
  \<open>str.format(**slots)\<close> for replacement fields that are a bare name: a doubled brace is that brace, an
  unknown name a \<open>KeyError\<close>, a brace without its partner a \<open>ValueError\<close>. What replaces a field is
  copied, not formatted again.
\<close>

lemma length_tl_dropWhile [termination_simp]: "length (dropWhile P s) - Suc 0 < Suc (length s)"
  using length_dropWhile_le [of P s] by simp

fun format_slots :: "(str \<times> str) list \<Rightarrow> str \<Rightarrow> str result" where
  "format_slots slots [] = Inr []"
| "format_slots slots (c # s) =
     (if c = CHR ''{''
      then (if s \<noteq> [] \<and> hd s = CHR ''{'' then rbind (format_slots slots (tl s)) (\<lambda>r. Inr (c # r))
            else if dropWhile (\<lambda>x. x \<noteq> CHR ''}'') s = [] then Inl (ValueError ''expected '}' before end of string'')
            else (case map_of slots (takeWhile (\<lambda>x. x \<noteq> CHR ''}'') s) of
                    None \<Rightarrow> Inl (KeyError (takeWhile (\<lambda>x. x \<noteq> CHR ''}'') s))
                  | Some v \<Rightarrow> rbind (format_slots slots (tl (dropWhile (\<lambda>x. x \<noteq> CHR ''}'') s))) (\<lambda>r. Inr (v @ r))))
      else if c = CHR ''}''
      then (if s \<noteq> [] \<and> hd s = CHR ''}'' then rbind (format_slots slots (tl s)) (\<lambda>r. Inr (c # r))
            else Inl (ValueError ''Single '}' encountered in format string''))
      else rbind (format_slots slots s) (\<lambda>r. Inr (c # r)))"

definition render :: "mail_kind \<Rightarrow> Locale \<Rightarrow> (str \<times> str) list \<Rightarrow> Template result" where
  "render kind l slots =
     rbind (format_slots slots (tpl_subject (TEMPLATES kind l))) (\<lambda>subject.
     rbind (format_slots slots (tpl_body (TEMPLATES kind l))) (\<lambda>body.
       Inr \<lparr>tpl_subject = subject, tpl_body = body\<rparr>))"

section \<open>The account mailer\<close>

fun mail_path :: "mail_kind \<Rightarrow> str" where
  "mail_path VerifyEmail = ''verify-email''"
| "mail_path ResetPassword = ''reset-password''"

definition mail_link :: "Settings \<Rightarrow> mail_kind \<Rightarrow> str \<Rightarrow> str" where
  "mail_link s kind token =
     rstrip_by (\<lambda>c. c = CHR ''/'') (app_base_url s) @ ''/'' @ mail_path kind @ ''?token='' @ percent_encode token"

text \<open>
  The machine's time zone database is a parameter: \<open>is_known\<close> says which zones it has, and \<open>local_time\<close>
  is \<open>expires_at.astimezone(zone).strftime("%Y-%m-%d %H:%M %Z")\<close>. So is the mail server: \<open>deliver\<close> says whether it
  took the mail and whether sending it raised, which can happen after the mail was taken, when the connection is closed.
\<close>

datatype delivery = Accepted | AcceptedThenRaised exn | Refused exn

definition account_mail :: "(str \<Rightarrow> bool) \<Rightarrow> (str \<Rightarrow> time \<Rightarrow> str) \<Rightarrow> Settings \<Rightarrow> mail_request \<Rightarrow> database \<Rightarrow> Mail result" where
  "account_mail is_known local_time s m d =
     (let stored = pref_get_for_user (user_id (mr_user m)) d;
          l = locale_resolve (map_option pref_locale stored);
          zone = timezone_resolve is_known (map_option pref_timezone stored)
      in rbind (render (mr_kind m) l
           [(''name'', (case user_name (mr_user m) of
                          Some n \<Rightarrow> if n = [] then user_email (mr_user m) else n
                        | None \<Rightarrow> user_email (mr_user m))),
            (''link'', mail_link s (mr_kind m) (mr_token m)),
            (''expires_at'', local_time zone (mr_expires_at m))]) (\<lambda>rendered.
         Inr \<lparr>mail_to = user_email (mr_user m), mail_subject = tpl_subject rendered, mail_body = tpl_body rendered\<rparr>))"

definition send_mail ::
  "(str \<Rightarrow> bool) \<Rightarrow> (str \<Rightarrow> time \<Rightarrow> str) \<Rightarrow> (Mail \<Rightarrow> delivery) \<Rightarrow> Settings \<Rightarrow> mail_request \<Rightarrow> database
   \<Rightarrow> Mail option \<times> exn option" where
  "send_mail is_known local_time deliver s m d =
     (case account_mail is_known local_time s m d of
        Inl e \<Rightarrow> (None, Some e)
      | Inr mail \<Rightarrow>
          (case deliver mail of
             Accepted \<Rightarrow> (Some mail, None)
           | AcceptedThenRaised e \<Rightarrow> (Some mail, Some e)
           | Refused e \<Rightarrow> (None, Some e)))"

text \<open>
  \<open>send_password_reset(email)\<close>, the background task: its own session, committed when the request and the
  delivery have succeeded; any exception, also one of the commit, is logged and the session rolled back.
  What the task did is the mail that was sent, if any, and the database afterwards.
\<close>

definition send_password_reset ::
  "ext \<Rightarrow> Settings \<Rightarrow> (str \<Rightarrow> bool) \<Rightarrow> (str \<Rightarrow> time \<Rightarrow> str) \<Rightarrow> (Mail \<Rightarrow> delivery) \<Rightarrow> exn option \<Rightarrow> str \<Rightarrow> str \<Rightarrow> time
   \<Rightarrow> database \<Rightarrow> Mail option \<times> database" where
  "send_password_reset ext s is_known local_time deliver commit_raises token email now d =
     (case reset_request ext s token email now d of
        Inl e \<Rightarrow> (None, d)
      | Inr (request, d') \<Rightarrow>
          (let (sent, raised) = (case request of
                 None \<Rightarrow> (None, None)
               | Some m \<Rightarrow> send_mail is_known local_time deliver s m d')
           in (sent, if raised = None \<and> commit_raises = None then d' else d)))"

section \<open>Filling in a template\<close>

definition plain :: "str \<Rightarrow> bool" where
  "plain s \<longleftrightarrow> CHR ''{'' \<notin> set s \<and> CHR ''}'' \<notin> set s"

lemma format_plain_append: "plain p \<Longrightarrow> format_slots slots (p @ s) = rbind (format_slots slots s) (\<lambda>r. Inr (p @ r))"
  by (induction p) (auto simp: plain_def rbind_def split: sum.splits)

lemma format_plain: "plain p \<Longrightarrow> format_slots slots p = Inr p"
  using format_plain_append [of p slots "[]"] by (simp add: rbind_def)

lemma format_field:
  assumes "plain n" "n \<noteq> []" "map_of slots n = Some v"
  shows "format_slots slots (''{'' @ n @ ''}'' @ s) = rbind (format_slots slots s) (\<lambda>r. Inr (v @ r))"
proof -
  have n: "takeWhile (\<lambda>x. x \<noteq> CHR ''}'') (n @ CHR ''}'' # s) = n" "dropWhile (\<lambda>x. x \<noteq> CHR ''}'') (n @ CHR ''}'' # s) = CHR ''}'' # s"
    using assms(1) by (auto simp: plain_def takeWhile_append dropWhile_append)
  have "hd (n @ CHR ''}'' # s) \<noteq> CHR ''{''" using assms(1,2) by (cases n) (auto simp: plain_def)
  then show ?thesis using n assms(3) by simp
qed

text \<open>Every template is plain text around the three fields, the link on a line of its own.\<close>

lemma template_shape:
  "\<exists>a b c e. plain (tpl_subject (TEMPLATES kind l)) \<and> plain a \<and> plain b \<and> plain c \<and> plain e \<and>
     tpl_body (TEMPLATES kind l) =
       a @ (''{'' @ ''name'' @ ''}'' @ (b @ nl) @ (''{'' @ ''link'' @ ''}'' @ (nl @ c) @ (''{'' @ ''expires_at'' @ ''}'' @ e)))"
proof (cases kind; cases l)
  assume "kind = VerifyEmail" "l = EN_US"
  then show ?thesis
    by (intro exI [of _ "''Hello ''"] exI [of _ "'','' @ nl @ nl @ ''Confirm this address to finish setting up your account:''"]
          exI [of _ "nl @ ''The link stops working on ''"]
          exI [of _ "''.'' @ nl @ ''If you did not create this account, ignore this message.''"]) (simp add: plain_def)
next
  assume "kind = VerifyEmail" "l = PT_BR"
  then show ?thesis
    by (intro exI [of _ "''Ol'' @ [CHR 0xE1] @ '', ''"]
          exI [of _ "''.'' @ nl @ nl @ ''Confirme este endere'' @ [CHR 0xE7] @ ''o para terminar de configurar sua conta:''"]
          exI [of _ "nl @ ''O link para de funcionar em ''"]
          exI [of _ "''.'' @ nl @ ''Se voc'' @ [CHR 0xEA] @ '' n'' @ [CHR 0xE3] @ ''o criou esta conta, ignore esta mensagem.''"])
       (simp add: plain_def)
next
  assume "kind = ResetPassword" "l = EN_US"
  then show ?thesis
    by (intro exI [of _ "''Hello ''"] exI [of _ "'','' @ nl @ nl @ ''Someone asked to reset the password for this account:''"]
          exI [of _ "nl @ ''The link stops working on ''"]
          exI [of _ "'' and can be used once.'' @ nl @ ''If it was not you, nothing has changed and you can ignore this.''"])
       (simp add: plain_def)
next
  assume "kind = ResetPassword" "l = PT_BR"
  then show ?thesis
    by (intro exI [of _ "''Ol'' @ [CHR 0xE1] @ '', ''"]
          exI [of _ "''.'' @ nl @ nl @ ''Algu'' @ [CHR 0xE9] @ ''m pediu a redefini'' @ [CHR 0xE7, CHR 0xE3] @ ''o da senha desta conta:''"]
          exI [of _ "nl @ ''O link para de funcionar em ''"]
          exI [of _ "'' e vale uma vez s'' @ [CHR 0xF3] @ ''.'' @ nl @ ''Se n'' @ [CHR 0xE3] @ ''o foi voc'' @ [CHR 0xEA] @
            '', nada mudou e pode ignorar esta mensagem.''"])
       (simp add: plain_def)
qed

lemma render_total:
  assumes "map_of slots ''name'' = Some n" "map_of slots ''link'' = Some k" "map_of slots ''expires_at'' = Some x"
  shows "\<exists>a b c e. render kind l slots =
    Inr \<lparr>tpl_subject = tpl_subject (TEMPLATES kind l), tpl_body = a @ n @ b @ nl @ k @ nl @ c @ x @ e\<rparr>"
proof -
  obtain a b c e where t: "plain (tpl_subject (TEMPLATES kind l))" "plain a" "plain b" "plain c" "plain e"
    "tpl_body (TEMPLATES kind l) =
       a @ (''{'' @ ''name'' @ ''}'' @ (b @ nl) @ (''{'' @ ''link'' @ ''}'' @ (nl @ c) @ (''{'' @ ''expires_at'' @ ''}'' @ e)))"
    using template_shape by blast
  have f: "plain ''name''" "plain ''link''" "plain ''expires_at''" "plain (b @ nl)" "plain (nl @ c)"
    using t(3,4) by (simp_all add: plain_def)
  have "format_slots slots (tpl_body (TEMPLATES kind l)) = Inr (a @ n @ (b @ nl) @ k @ (nl @ c) @ x @ e)"
    unfolding t(6) by (simp only: format_plain_append [OF t(2)] format_field [OF f(1) _ assms(1)] format_plain_append [OF f(4)]
        format_field [OF f(2) _ assms(2)] format_plain_append [OF f(5)] format_field [OF f(3) _ assms(3)] format_plain [OF t(5)]
        rbind_Inr list.distinct not_False_eq_True)
  then have "render kind l slots =
      Inr \<lparr>tpl_subject = tpl_subject (TEMPLATES kind l), tpl_body = a @ n @ b @ nl @ k @ nl @ c @ x @ e\<rparr>"
    by (simp add: render_def format_plain [OF t(1)])
  then show ?thesis by blast
qed

text \<open>An account's mail always renders: it goes to the account's address with its link on a line of its own.\<close>

lemma account_mail_total:
  "\<exists>mail a b. account_mail is_known local_time s m d = Inr mail \<and> mail_to mail = user_email (mr_user m) \<and>
     mail_body mail = a @ nl @ mail_link s (mr_kind m) (mr_token m) @ nl @ b"
proof -
  let ?l = "locale_resolve (map_option pref_locale (pref_get_for_user (user_id (mr_user m)) d))"
  let ?x = "local_time (timezone_resolve is_known (map_option pref_timezone (pref_get_for_user (user_id (mr_user m)) d))) (mr_expires_at m)"
  let ?n = "case user_name (mr_user m) of Some n \<Rightarrow> if n = [] then user_email (mr_user m) else n | None \<Rightarrow> user_email (mr_user m)"
  let ?slots = "[(''name'', ?n), (''link'', mail_link s (mr_kind m) (mr_token m)), (''expires_at'', ?x)]"
  have "map_of ?slots ''name'' = Some ?n" "map_of ?slots ''link'' = Some (mail_link s (mr_kind m) (mr_token m))"
    "map_of ?slots ''expires_at'' = Some ?x" by simp_all
  from render_total [OF this, of "mr_kind m" ?l] obtain a b c e where r: "render (mr_kind m) ?l ?slots =
      Inr \<lparr>tpl_subject = tpl_subject (TEMPLATES (mr_kind m) ?l),
        tpl_body = a @ ?n @ b @ nl @ mail_link s (mr_kind m) (mr_token m) @ nl @ c @ ?x @ e\<rparr>" by blast
  show ?thesis unfolding account_mail_def Let_def r rbind_Inr
    by (intro exI [of _ "\<lparr>mail_to = _, mail_subject = _, mail_body = _\<rparr>"] exI [of _ "a @ ?n @ b"] exI [of _ "c @ ?x @ e"]) simp
qed

section \<open>Reading the link back\<close>

definition hex_value :: "char \<Rightarrow> nat" where
  "hex_value c = (let n = of_char c in if n < 58 then n - 48 else n - 55)"

text \<open>What a browser does with the query of the link: each escape is the byte it names.\<close>

fun percent_decode :: "str \<Rightarrow> str" where
  "percent_decode (c # h # l # s) =
     (if c = CHR ''%'' then char_of (hex_value h * 16 + hex_value l) # percent_decode s
      else c # percent_decode (h # l # s))"
| "percent_decode s = s"

lemma hex_value_upper: "n < 16 \<Longrightarrow> hex_value (hex_upper n) = n"
  by (simp add: hex_value_def hex_upper_def)

lemma percent_decode_Cons: "c \<noteq> CHR ''%'' \<Longrightarrow> percent_decode (c # s) = c # percent_decode s"
  by (cases "c # s" rule: percent_decode.cases) simp_all

lemma percent_not_unreserved: "\<not> unreserved (CHR ''%'')"
  by (simp add: unreserved_def between_def)

lemma percent_decode_encode: "utf8_decode (percent_decode (percent_encode s)) = Some s"
proof -
  have "percent_decode (concat (map (\<lambda>b. if unreserved b then [b]
     else [CHR ''%'', hex_upper (of_char b div 16), hex_upper (of_char b mod 16)]) bs)) = bs" for bs
  proof (induction bs)
    case (Cons b bs)
    have "(of_char b :: nat) div 16 < 16" using of_char_less_256 [of b] by linarith
    moreover have "b \<noteq> CHR ''%''" if "unreserved b" using that percent_not_unreserved by blast
    ultimately show ?case using Cons by (simp add: percent_decode_Cons hex_value_upper)
  qed simp
  then show ?thesis by (simp add: percent_encode_def utf8_decode_encode)
qed

section \<open>A reset mail and its token\<close>

lemma user_by_email_get: "wf_accounts d \<Longrightarrow> user_get_by_email e d = Some u \<Longrightarrow> user_get (user_id u) d = Some u"
  by (auto simp: wf_accounts_def user_get_by_email_iff user_get_iff)

lemma issue_token_new:
  assumes "issue_token ext p life cd token uid now d = Inr (Some (t, e), d')"
  shows "redeem ext p' token at d = None"
proof -
  have "sut_create (hash_single_use_token ext token) uid p (now + life) (snd (sut_revoke_all_for uid p now d)) = Inr d'"
    using assms by (auto elim: issue_token_cases)
  then have "hash_single_use_token ext token \<notin> sut_token_hash ` set (t_single_use_tokens (snd (sut_revoke_all_for uid p now d)))"
    by (auto simp: sut_create_def split: if_splits)
  moreover have "sut_token_hash ` set (t_single_use_tokens (snd (sut_revoke_all_for uid p now d))) = sut_token_hash ` set (t_single_use_tokens d)"
    using map_update_where [of sut_token_hash "sut_stamp now" _ "t_single_use_tokens d"]
    by (simp add: sut_revoke_all_for_def Let_def sut_stamp_def set_map [symmetric] del: set_map)
  ultimately have "active_token ext p' token at d = None"
    by (force simp: active_token_def sut_get_active_def find_row_None_iff sut_live_def)
  then show ?thesis by (simp add: redeem_def)
qed



end
