(* ===== verification/Http.thy ===== *)
theory Http
  imports Idempotency Logs AuditTrail
begin

text \<open>
  \<open>app/core/http/errors.py\<close>, \<open>headers.py\<close>, \<open>body_limit.py\<close>, \<open>rate_limit.py\<close>, \<open>app/core/observability/request_context.py\<close>
  and \<open>request_logging.py\<close>, \<open>app/api/request_recorder.py\<close>, and the stack \<open>create_app\<close> builds of them in
  \<open>app/main.py\<close>. An ASGI application is a function of the request and the database; what it did is the
  response it started, if any, the exception it raised, if any, and the state it left on the
  request: the account it turned out to belong to and its correlation id.
\<close>

section \<open>Requests and responses\<close>

type_synonym headers = "(str \<times> str) list"

record http_req =
  q_http :: bool
  q_method :: str
  q_path :: str
  q_headers :: headers
  q_client :: "str option"
  q_body :: "str result list"
  q_request_id :: "str option"
  q_context_id :: "str option"
  q_audit :: "AuditContext option"

text \<open>Header names compare without case. \<open>request.headers.get\<close>, \<open>MutableHeaders.setdefault\<close> and its item assignment.\<close>

definition header_get :: "str \<Rightarrow> headers \<Rightarrow> str option" where
  "header_get name hs = map_of (map (\<lambda>(n, v). (lower n, v)) hs) (lower name)"

definition header_default :: "str \<Rightarrow> str \<Rightarrow> headers \<Rightarrow> headers" where
  "header_default name v hs = (if header_get name hs = None then hs @ [(name, v)] else hs)"

fun header_set :: "str \<Rightarrow> str \<Rightarrow> headers \<Rightarrow> headers" where
  "header_set name v [] = [(name, v)]"
| "header_set name v ((n, w) # hs) =
     (if lower n = lower name then (n, v) # filter (\<lambda>(m, _). lower m \<noteq> lower name) hs
      else (n, w) # header_set name v hs)"

section \<open>The error envelope\<close>

datatype ctx_value = CStr str | CInt int | CBool bool | COther

record validation_detail =
  vd_type :: str
  vd_loc :: "param list"
  vd_msg :: str
  vd_ctx :: "(str \<times> param) list"

text \<open>An error of \<open>RequestValidationError.errors()\<close>: it holds the rejected \<open>input\<close> too.\<close>

record validation_error =
  ve_type :: str
  ve_loc :: "param list"
  ve_msg :: str
  ve_ctx :: "(str \<times> ctx_value) list option"
  ve_input :: str

datatype detail = DText str | DList "validation_detail list"

record envelope =
  env_detail :: detail
  env_message :: str
  env_code :: str
  env_params :: error_params
  env_request_id :: "str option"

abbreviation VALIDATION_MESSAGE :: str where "VALIDATION_MESSAGE \<equiv> ''The request could not be validated.''"
abbreviation HTTP_ERROR_DETAIL :: str where "HTTP_ERROR_DETAIL \<equiv> ''Request failed''"
abbreviation UNEXPECTED_MESSAGE :: str where "UNEXPECTED_MESSAGE \<equiv> ''Something went wrong on our side.''"
abbreviation UNEXPECTED_DETAIL :: str where "UNEXPECTED_DETAIL \<equiv> ''Internal server error''"
abbreviation RATE_LIMIT_DETAIL :: str where "RATE_LIMIT_DETAIL \<equiv> ''Too many requests''"
abbreviation RATE_LIMIT_MESSAGE :: str where "RATE_LIMIT_MESSAGE \<equiv> ''Too many requests. Try again shortly.''"
abbreviation BODY_TOO_LARGE_DETAIL :: str where "BODY_TOO_LARGE_DETAIL \<equiv> ''Request body too large''"
abbreviation REQUEST_ID_HEADER :: str where "REQUEST_ID_HEADER \<equiv> ''X-Request-ID''"
abbreviation REPLAY_HEADER :: str where "REPLAY_HEADER \<equiv> ''Idempotent-Replay''"

definition STATUS_CODES :: "int \<Rightarrow> ErrorCode" where
  "STATUS_CODES status =
     (case map_of [(401, UNAUTHORIZED), (403, FORBIDDEN), (404, NOT_FOUND), (409, CONFLICT),
                   (413, PAYLOAD_TOO_LARGE), (429, RATE_LIMITED)] status of
        Some c \<Rightarrow> c | None \<Rightarrow> REQUEST_FAILED)"

fun scalar :: "ctx_value \<Rightarrow> param option" where
  "scalar (CStr s) = Some (PStr s)"
| "scalar (CInt i) = Some (PInt i)"
| "scalar (CBool b) = None"
| "scalar COther = None"

definition scalar_context :: "(str \<times> ctx_value) list option \<Rightarrow> (str \<times> param) list" where
  "scalar_context ctx = List.map_filter (\<lambda>(k, v). map_option (Pair k) (scalar v)) (case ctx of None \<Rightarrow> [] | Some c \<Rightarrow> c)"

datatype body = Json envelope | Raw str

record response =
  rs_status :: int
  rs_headers :: headers
  rs_body :: body

text \<open>
  \<open>error_response\<close>: the correlation id is the one the request carries, or the one of the context when
  it carries none.
\<close>

definition correlation_id :: "http_req \<Rightarrow> str option" where
  "correlation_id q = (case q_request_id q of Some i \<Rightarrow> Some i | None \<Rightarrow> q_context_id q)"

definition error_response ::
  "http_req \<Rightarrow> int \<Rightarrow> detail \<Rightarrow> str \<Rightarrow> ErrorCode \<Rightarrow> error_params \<Rightarrow> headers \<Rightarrow> response" where
  "error_response q status detail message code params hs =
     (let cid = correlation_id q;
          sent = (case cid of None \<Rightarrow> hs | Some i \<Rightarrow> if i = [] then hs else AList.update REQUEST_ID_HEADER i hs)
      in \<lparr>rs_status = status, rs_headers = (''content-type'', ''application/json'') # sent,
          rs_body = Json \<lparr>env_detail = detail, env_message = message, env_code = code_value code, env_params = params,
                          env_request_id = cid\<rparr>\<rparr>)"

record http_exception =
  he_status :: int
  he_detail :: "str option"
  he_headers :: "headers option"
  he_cause :: "domain_error option"

text \<open>What the routes, the framework and the limiter raise; \<open>he_detail\<close> is \<open>None\<close> for a detail that is not text.\<close>

datatype raised =
    RaisedDomain domain_error
  | RaisedValidation "validation_error list"
  | RaisedHttp http_exception
  | RaisedRateLimit
  | RaisedOther exn

definition handle_domain_error :: "http_req \<Rightarrow> domain_error \<Rightarrow> response" where
  "handle_domain_error q e =
     error_response q (status_code_of (err_class e)) (DText (err_detail e)) (err_detail e) (err_code e) (err_params e) []"

definition handle_validation_error :: "http_req \<Rightarrow> validation_error list \<Rightarrow> response" where
  "handle_validation_error q errors =
     error_response q 422
       (DList (map (\<lambda>e. \<lparr>vd_type = ve_type e, vd_loc = ve_loc e, vd_msg = ve_msg e, vd_ctx = scalar_context (ve_ctx e)\<rparr>) errors))
       VALIDATION_MESSAGE VALIDATION [] []"

definition handle_unexpected_error :: "http_req \<Rightarrow> response" where
  "handle_unexpected_error q =
     error_response q 500 (DText UNEXPECTED_DETAIL) UNEXPECTED_MESSAGE UNEXPECTED [] []"

definition handle_http_error :: "http_req \<Rightarrow> http_exception \<Rightarrow> response" where
  "handle_http_error q e =
     (case he_cause e of
        Some cause \<Rightarrow> handle_domain_error q cause
      | None \<Rightarrow>
          (let detail = (case he_detail e of Some t \<Rightarrow> t | None \<Rightarrow> HTTP_ERROR_DETAIL) in
           error_response q (he_status e) (DText detail) detail (STATUS_CODES (he_status e)) []
             (case he_headers e of Some hs \<Rightarrow> hs | None \<Rightarrow> [])))"

definition handle_rate_limit_exceeded :: "http_req \<Rightarrow> response" where
  "handle_rate_limit_exceeded q =
     error_response q 429 (DText RATE_LIMIT_DETAIL) RATE_LIMIT_MESSAGE RATE_LIMITED [] []"

text \<open>The handler registered for the class of an exception.\<close>

definition handle :: "http_req \<Rightarrow> raised \<Rightarrow> response" where
  "handle q r = (case r of
      RaisedDomain e \<Rightarrow> handle_domain_error q e
    | RaisedValidation errors \<Rightarrow> handle_validation_error q errors
    | RaisedHttp e \<Rightarrow> handle_http_error q e
    | RaisedRateLimit \<Rightarrow> handle_rate_limit_exceeded q
    | RaisedOther e \<Rightarrow> (case e of Domain e' \<Rightarrow> handle_domain_error q e' | _ \<Rightarrow> handle_unexpected_error q))"

section \<open>Middleware\<close>

record outcome =
  o_response :: "response option"
  o_raised :: "exn option"
  o_user_id :: "ident option"
  o_request_id :: "str option"

type_synonym app = "http_req \<Rightarrow> database \<Rightarrow> outcome \<times> database"

definition responded :: "response \<Rightarrow> outcome" where
  "responded r = \<lparr>o_response = Some r, o_raised = None, o_user_id = None, o_request_id = None\<rparr>"

definition raised_outcome :: "exn \<Rightarrow> outcome" where
  "raised_outcome e = \<lparr>o_response = None, o_raised = Some e, o_user_id = None, o_request_id = None\<rparr>"

definition on_start :: "(headers \<Rightarrow> headers) \<Rightarrow> outcome \<Rightarrow> outcome" where
  "on_start f out = out\<lparr>o_response := map_option (\<lambda>r. r\<lparr>rs_headers := f (rs_headers r)\<rparr>) (o_response out)\<rparr>"

subsection \<open>Security headers\<close>

definition STATIC_SECURITY_HEADERS :: headers where
  "STATIC_SECURITY_HEADERS = [(''X-Content-Type-Options'', ''nosniff''), (''X-Frame-Options'', ''DENY''),
     (''Referrer-Policy'', ''no-referrer''), (''Cache-Control'', ''no-store'')]"

abbreviation HSTS_HEADER :: str where "HSTS_HEADER \<equiv> ''Strict-Transport-Security''"
abbreviation HSTS_VALUE :: str where "HSTS_VALUE \<equiv> ''max-age=31536000; includeSubDomains''"

definition add_security_headers :: "bool \<Rightarrow> headers \<Rightarrow> headers" where
  "add_security_headers hsts hs =
     (let hs' = fold (\<lambda>(n, v). header_default n v) STATIC_SECURITY_HEADERS hs
      in if hsts then header_default HSTS_HEADER HSTS_VALUE hs' else hs')"

definition security_headers :: "bool \<Rightarrow> app \<Rightarrow> app" where
  "security_headers hsts app q d =
     (if \<not> q_http q then app q d
      else (let (out, d') = app q d in (on_start (add_security_headers hsts) out, d')))"

subsection \<open>The body limit\<close>

abbreviation CONTENT_LENGTH_HEADER :: str where "CONTENT_LENGTH_HEADER \<equiv> ''content-length''"

text \<open>\<open>_declared_length\<close>: \<open>int(value)\<close> of the first such header (the server delivers header names in lower case).\<close>

definition declared_length :: "http_req \<Rightarrow> int option result" where
  "declared_length q = (case map_of (q_headers q) CONTENT_LENGTH_HEADER of
      None \<Rightarrow> Inr None
    | Some v \<Rightarrow> (case py_int v of None \<Rightarrow> Inl (ValueError ''invalid literal for int()'') | Some n \<Rightarrow> Inr (Some n)))"

abbreviation body_too_large :: exn where
  "body_too_large \<equiv> Domain (make_error PayloadTooLargeError BODY_TOO_LARGE_DETAIL None None)"

fun bounded_receive :: "int \<Rightarrow> int \<Rightarrow> str result list \<Rightarrow> str result list" where
  "bounded_receive limit received [] = []"
| "bounded_receive limit received (Inl e # ms) = Inl e # bounded_receive limit received ms"
| "bounded_receive limit received (Inr b # ms) =
     (if received + int (length b) > limit then Inl body_too_large else Inr b)
       # bounded_receive limit (received + int (length b)) ms"

definition body_limit :: "int \<Rightarrow> app \<Rightarrow> app" where
  "body_limit limit app q d =
     (if \<not> q_http q then app q d
      else (case declared_length q of
          Inl e \<Rightarrow> (raised_outcome e, d)
        | Inr declared \<Rightarrow>
            if (case declared of None \<Rightarrow> False | Some n \<Rightarrow> n > limit)
            then (responded (error_response q (status_code_of PayloadTooLargeError)
                    (DText BODY_TOO_LARGE_DETAIL) BODY_TOO_LARGE_DETAIL PAYLOAD_TOO_LARGE [] []), d)
            else app (q\<lparr>q_body := bounded_receive limit 0 (q_body q)\<rparr>) d))"

subsection \<open>Idempotency\<close>

fun read_body :: "str result list \<Rightarrow> str result" where
  "read_body [] = Inr []"
| "read_body (m # ms) = rbind m (\<lambda>b. rbind (read_body ms) (\<lambda>bs. Inr (b @ bs)))"

definition to_http_request :: "http_req \<Rightarrow> http_request" where
  "to_http_request q = \<lparr>hr_is_http = q_http q, hr_method = q_method q, hr_path = q_path q,
     hr_idempotency_key = header_get ''Idempotency-Key'' (q_headers q),
     hr_authorization = header_get ''Authorization'' (q_headers q), hr_body = read_body (q_body q)\<rparr>"

text \<open>The JSON text of an envelope is a parameter.\<close>

definition body_bytes :: "(envelope \<Rightarrow> str) \<Rightarrow> body \<Rightarrow> str" where
  "body_bytes json b = (case b of Json e \<Rightarrow> json e | Raw t \<Rightarrow> t)"

definition captured_of :: "(envelope \<Rightarrow> str) \<Rightarrow> response option \<Rightarrow> captured" where
  "captured_of json r = (case r of
      None \<Rightarrow> \<lparr>cp_status_code = 500, cp_content_type = None, cp_body = []\<rparr>
    | Some x \<Rightarrow> \<lparr>cp_status_code = rs_status x, cp_content_type = header_get ''content-type'' (rs_headers x),
                  cp_body = body_bytes json (rs_body x)\<rparr>)"

record moments =
  mo_claim :: time
  mo_restart :: time
  mo_finish :: time

definition idempotency :: "ext \<Rightarrow> Settings \<Rightarrow> (envelope \<Rightarrow> str) \<Rightarrow> moments \<Rightarrow> app \<Rightarrow> app" where
  "idempotency ext s json mo app q d =
     (case idem_intercept ext s (mo_claim mo) (mo_restart mo) (to_http_request q) d of
        Inl e \<Rightarrow> (raised_outcome e, d)
      | Inr (v, d1) \<Rightarrow>
          (case v of
             PassThrough \<Rightarrow> app q d1
           | Refuse status detail code \<Rightarrow> (responded (error_response q status (DText detail) detail code [] []), d1)
           | Replay stored \<Rightarrow>
               (responded \<lparr>rs_status = sr_status_code stored,
                  rs_headers = (REPLAY_HEADER, ''true'') #
                    (case sr_content_type stored of None \<Rightarrow> [] | Some t \<Rightarrow> [(''content-type'', t)]),
                  rs_body = Raw (sr_body stored)\<rparr>, d1)
           | RunOnce a \<Rightarrow>
               (let (out, d2) = app (q\<lparr>q_body := [Inr (at_body a)]\<rparr>) d1 in
                (out, idem_finish a (case o_raised out of Some e \<Rightarrow> None | None \<Rightarrow> Some (captured_of json (o_response out)))
                        (mo_finish mo) d2))))"

subsection \<open>Request logging\<close>

abbreviation MAX_REQUEST_ID_LENGTH :: nat where "MAX_REQUEST_ID_LENGTH \<equiv> 64"

definition request_id_char :: "char \<Rightarrow> bool" where
  "request_id_char c \<longleftrightarrow> between 65 90 c \<or> between 97 122 c \<or> between 48 57 c \<or> c = CHR ''_'' \<or> c = CHR ''-''"

definition request_id_ok :: "str \<Rightarrow> bool" where
  "request_id_ok v \<longleftrightarrow> 1 \<le> length v \<and> length v \<le> MAX_REQUEST_ID_LENGTH \<and> list_all request_id_char v"

definition sanitize_request_id :: "str option \<Rightarrow> str option" where
  "sanitize_request_id v = (case v of None \<Rightarrow> None | Some s \<Rightarrow> if request_id_ok s then Some s else None)"

definition parse_excluded_paths :: "str \<Rightarrow> str set" where
  "parse_excluded_paths raw = set (filter (\<lambda>p. p \<noteq> []) (map strip (split_on (CHR '','') raw)))"

definition request_record :: "http_req \<Rightarrow> str \<Rightarrow> int \<Rightarrow> int \<Rightarrow> ident option \<Rightarrow> RequestRecord" where
  "request_record q request_id status elapsed uid =
     \<lparr>rr_request_id = request_id, rr_method = q_method q, rr_path = q_path q, rr_status_code = status,
      rr_duration_us = elapsed, rr_client_ip = q_client q, rr_user_id = uid\<rparr>"

definition audit_context_for :: "http_req \<Rightarrow> str \<Rightarrow> AuditContext" where
  "audit_context_for q request_id =
     \<lparr>ctx_request_id = Some request_id, ctx_method = Some (q_method q), ctx_path = Some (q_path q),
      ctx_client_ip = q_client q, ctx_actor_id = None, ctx_impersonator_id = None, ctx_source = REQUEST_SOURCE\<rparr>"

text \<open>\<open>store_request\<close>: the insert in a session of its own. \<open>_persist\<close> swallows what the recorder raises.\<close>

definition store_request :: "RequestRecord \<Rightarrow> database \<Rightarrow> database result" where
  "store_request r d = rbind (request_log_record r d) (\<lambda>(row, d'). Inr d')"

definition persist :: "(RequestRecord \<Rightarrow> database \<Rightarrow> database result) option \<Rightarrow> RequestRecord \<Rightarrow> database \<Rightarrow> database" where
  "persist recorder r d = (case recorder of
      None \<Rightarrow> d
    | Some f \<Rightarrow> (case f r d of Inl e \<Rightarrow> d | Inr d' \<Rightarrow> d'))"

text \<open>The correlation id of a request: the caller's, when it is one, or a new one.\<close>

definition request_id_of :: "str \<Rightarrow> http_req \<Rightarrow> str" where
  "request_id_of new_id q =
     (case sanitize_request_id (header_get REQUEST_ID_HEADER (q_headers q)) of Some i \<Rightarrow> i | None \<Rightarrow> new_id)"

definition tagged :: "str \<Rightarrow> http_req \<Rightarrow> http_req" where
  "tagged request_id q = q\<lparr>q_request_id := Some request_id, q_context_id := Some request_id,
     q_audit := Some (audit_context_for q request_id)\<rparr>"

definition request_logging ::
  "str set \<Rightarrow> (RequestRecord \<Rightarrow> database \<Rightarrow> database result) option \<Rightarrow> str \<Rightarrow> int \<Rightarrow> app \<Rightarrow> app" where
  "request_logging excluded recorder new_id elapsed app q d =
     (if \<not> q_http q then app q d
      else
        (let request_id = request_id_of new_id q;
             (out, d1) = app (tagged request_id q) d;
             sent = (on_start (header_set REQUEST_ID_HEADER request_id) out)\<lparr>o_request_id := Some request_id\<rparr>;
             status = (case o_response out of Some r \<Rightarrow> rs_status r | None \<Rightarrow> SERVER_ERROR_STATUS)
         in case o_raised out of
              Some e \<Rightarrow>
                (sent, persist recorder (request_record q request_id SERVER_ERROR_STATUS elapsed (o_user_id out)) d1)
            | None \<Rightarrow>
                (sent, if q_path q \<notin> excluded
                       then persist recorder (request_record q request_id status elapsed (o_user_id out)) d1
                       else d1)))"

section \<open>The application\<close>

text \<open>
  Starlette answers an exception that nothing else handled with the registered handler, above every
  middleware, unless a response has already started, and raises it again.
\<close>

definition catch_all :: "app \<Rightarrow> app" where
  "catch_all app q d =
     (let (out, d') = app q d in
      case (o_raised out, o_response out) of
        (Some e, None) \<Rightarrow>
          (out\<lparr>o_response := Some (handle_unexpected_error (q\<lparr>q_request_id := o_request_id out, q_context_id := None\<rparr>))\<rparr>, d')
      | _ \<Rightarrow> (out, d'))"

definition register_cors :: "(app \<Rightarrow> app) \<Rightarrow> str list \<Rightarrow> app \<Rightarrow> app" where
  "register_cors cors origins app = (if origins = [] then app else cors app)"

text \<open>
  \<open>create_app\<close>: the middleware in the order it is added, the last added outermost. The rate limiter
  and the CORS middleware are parameters, as are the routes.
\<close>

definition create_app ::
  "ext \<Rightarrow> Settings \<Rightarrow> (app \<Rightarrow> app) \<Rightarrow> (app \<Rightarrow> app) \<Rightarrow> (envelope \<Rightarrow> str) \<Rightarrow> moments \<Rightarrow> str \<Rightarrow> int \<Rightarrow> app \<Rightarrow> app" where
  "create_app ext s limiter cors json mo new_id elapsed routes =
     (let inner = idempotency ext s json mo routes;
          bounded = body_limit (max_request_body_bytes s) inner;
          limited = limiter bounded;
          secured = security_headers (hsts_is_enabled s) limited;
          logged = request_logging (parse_excluded_paths (request_log_excluded_paths s))
                     (if request_log_persist_enabled s then Some store_request else None) new_id elapsed secured
      in catch_all (register_cors cors (cors_origin_list s) logged))"

text \<open>The probes: \<open>readiness\<close> answers by whether the database does.\<close>

definition health :: response where
  "health = \<lparr>rs_status = 200, rs_headers = [(''content-type'', ''application/json'')], rs_body = Raw ''{\"status\":\"ok\"}''\<rparr>"

definition readiness :: "bool \<Rightarrow> response" where
  "readiness database_answers =
     (if database_answers
      then \<lparr>rs_status = 200, rs_headers = [(''content-type'', ''application/json'')], rs_body = Raw ''{\"status\":\"ready\"}''\<rparr>
      else \<lparr>rs_status = 503, rs_headers = [(''content-type'', ''application/json'')], rs_body = Raw ''{\"status\":\"not ready\"}''\<rparr>)"

section \<open>Lemmas\<close>

lemma header_get_Nil [simp]: "header_get n [] = None"
  by (simp add: header_get_def)

lemma header_get_Cons: "header_get n ((m, v) # hs) = (if lower m = lower n then Some v else header_get n hs)"
  by (simp add: header_get_def)

lemma header_get_append: "header_get n (hs @ hs') = (case header_get n hs of Some v \<Rightarrow> Some v | None \<Rightarrow> header_get n hs')"
  by (simp add: header_get_def map_add_def split: option.split)

lemma header_get_set [simp]: "header_get n (header_set n v hs) = Some v"
  by (induction n v hs rule: header_set.induct) (auto simp: header_get_Cons)

lemma header_get_default:
  "header_get n (header_default m v hs) =
     (if lower m = lower n \<and> header_get n hs = None then Some v else header_get n hs)"
proof -
  have same: "header_get m hs = header_get n hs" if "lower m = lower n" using that by (simp add: header_get_def)
  show ?thesis
  proof (cases "header_get m hs")
    case None
    then show ?thesis using same
      by (auto simp: header_default_def header_get_append header_get_Cons split: option.split)
  next
    case (Some w)
    then show ?thesis using same by (metis header_default_def option.distinct(1))
  qed
qed

lemma header_get_other: "lower n \<noteq> lower m \<Longrightarrow> header_get n (header_set m v hs) = header_get n hs"
proof (induction m v hs rule: header_set.induct)
  case (2 m v n' w hs)
  have "header_get n (filter (\<lambda>(x, _). lower x \<noteq> lower m) hs) = header_get n hs"
    using 2(2) by (induction hs) (auto simp: header_get_Cons)
  then show ?case using 2 by (simp add: header_get_Cons)
qed (simp add: header_get_Cons)

lemma request_id_of_ok: "request_id_ok new_id \<Longrightarrow> request_id_ok (request_id_of new_id q)"
  by (auto simp: request_id_of_def sanitize_request_id_def split: option.splits if_splits)

lemma unexpected_error_id:
  "q_request_id q = Some i \<Longrightarrow> i \<noteq> [] \<Longrightarrow>
   header_get REQUEST_ID_HEADER (rs_headers (handle_unexpected_error q)) = Some i"
  by (simp add: handle_unexpected_error_def error_response_def correlation_id_def header_get_Cons lower_char_def)

lemma on_start_sel [simp]:
  "o_raised (on_start f out) = o_raised out" "o_user_id (on_start f out) = o_user_id out"
  "o_response (on_start f out) = map_option (\<lambda>r. r\<lparr>rs_headers := f (rs_headers r)\<rparr>) (o_response out)"
  by (simp_all add: on_start_def)

text \<open>The row that a record becomes when its values fit their columns.\<close>

definition fits_log :: "http_req \<Rightarrow> bool" where
  "fits_log q \<longleftrightarrow> length (q_method q) \<le> 10 \<and> length (q_path q) \<le> 512 \<and>
     (case q_client q of None \<Rightarrow> True | Some ip \<Rightarrow> length ip \<le> 45)"

lemma persist_row:
  assumes "fits_log q" and "request_id_ok rid"
  shows "\<exists>row. persist (Some store_request) (request_record q rid status el uid) d =
      bump TRequestLogs (d\<lparr>t_request_logs := t_request_logs d @ [row]\<rparr>) \<and>
    rl_request_id row = rid \<and> rl_status_code row = status \<and> rl_method row = q_method q \<and> rl_path row = q_path q \<and>
    rl_client_ip row = q_client q \<and> rl_duration_us row = el \<and> rl_user_id row = uid"
  using assms by (auto simp: persist_def store_request_def request_log_record_def request_record_def fits_log_def request_id_ok_def
      Let_def split: option.splits)

lemma persist_unfit:
  assumes "\<not> fits_log q"
  shows "persist recorder (request_record q rid status el uid) d = d \<or> recorder \<noteq> Some store_request"
  using assms by (auto simp: persist_def store_request_def request_log_record_def request_record_def fits_log_def
      Let_def split: option.splits)

lemma persist_off [simp]: "persist None r d = d"
  by (simp add: persist_def)

text \<open>What the logging middleware adds to any application, and what it never changes.\<close>

lemma request_logging_law:
  assumes "q_http q" and "app (tagged (request_id_of new_id q) q) d = (out, d1)"
    and "request_logging excluded recorder new_id el app q d = (out', d')"
  shows "o_raised out' = o_raised out" and "o_user_id out' = o_user_id out" and "o_request_id out' = Some (request_id_of new_id q)"
    and "o_response out' = map_option (\<lambda>r. r\<lparr>rs_headers := header_set REQUEST_ID_HEADER (request_id_of new_id q) (rs_headers r)\<rparr>) (o_response out)"
    and "d' = (if o_raised out = None \<and> q_path q \<in> excluded then d1
       else persist recorder (request_record q (request_id_of new_id q)
         (if o_raised out = None \<and> o_response out \<noteq> None then rs_status (the (o_response out)) else 500) el (o_user_id out)) d1)"
  using assms by (auto simp: request_logging_def Let_def on_start_def split: option.splits)

section \<open>What the stack promises\<close>

text \<open>
  C24. In a deployment with no CORS origins, whatever the routes and the limiter do, every answer to an
  HTTP request carries the request's correlation id: the caller's own when it is one of at most 64
  letters, digits, underscores and hyphens, a new one otherwise. After the answer the request log gains
  exactly one row, under that id, with the method, the path, the address, the time taken and the account
  of the request, and the database is otherwise as the application left it. The row holds the status of
  the answer when the application returned, and 500 when it raised, even if another status had already
  been sent. No row is written, and nothing changes, when the log is switched off, when the
  method, path or address does not fit its column, or when the path is excluded and the application did
  not raise.
\<close>

theorem every_answer_correlated:
  assumes "q_http q" and "cors_origin_list s = []" and "request_id_ok new_id"
    and "create_app ext s limiter cors json mo new_id el routes q d = (out, d')"
  shows "\<exists>d1. request_id_ok (request_id_of new_id q) \<and>
    (case o_response out of
       Some r \<Rightarrow> header_get REQUEST_ID_HEADER (rs_headers r) = Some (request_id_of new_id q)
     | None \<Rightarrow> o_raised out = None) \<and>
    (if \<not> request_log_persist_enabled s \<or> \<not> fits_log q \<or>
        (o_raised out = None \<and> q_path q \<in> parse_excluded_paths (request_log_excluded_paths s))
     then d' = d1
     else \<exists>row. d' = bump TRequestLogs (d1\<lparr>t_request_logs := t_request_logs d1 @ [row]\<rparr>) \<and>
       rl_request_id row = request_id_of new_id q \<and>
       rl_status_code row = (if o_raised out = None \<and> o_response out \<noteq> None then rs_status (the (o_response out)) else 500) \<and>
       rl_method row = q_method q \<and> rl_path row = q_path q \<and> rl_client_ip row = q_client q \<and>
       rl_duration_us row = el \<and> rl_user_id row = o_user_id out) \<and>
    d1 = snd (limiter (body_limit (max_request_body_bytes s) (idempotency ext s json mo routes)) (tagged (request_id_of new_id q) q) d)"
proof -
  define secured where "secured = security_headers (hsts_is_enabled s)
    (limiter (body_limit (max_request_body_bytes s) (idempotency ext s json mo routes)))"
  define recorder where "recorder = (if request_log_persist_enabled s then Some store_request else None)"
  let ?ex = "parse_excluded_paths (request_log_excluded_paths s)" and ?rid = "request_id_of new_id q"
  obtain out1 d1 where app: "secured (tagged ?rid q) d = (out1, d1)" by fastforce
  obtain out2 d2 where logged: "request_logging ?ex recorder new_id el secured q d = (out2, d2)" by fastforce
  note law = request_logging_law [OF assms(1) app logged]
  have rid: "request_id_ok ?rid" using assms(3) by (rule request_id_of_ok)
  have out: "d' = d2 \<and> (if o_raised out2 \<noteq> None \<and> o_response out2 = None
      then out = out2\<lparr>o_response := Some (handle_unexpected_error (q\<lparr>q_request_id := o_request_id out2, q_context_id := None\<rparr>))\<rparr>
      else out = out2)"
    using assms(4,2) logged
    by (auto simp: create_app_def Let_def catch_all_def register_cors_def secured_def [symmetric] recorder_def [symmetric]
        split: option.splits)
  have "header_get REQUEST_ID_HEADER (rs_headers (handle_unexpected_error (q\<lparr>q_request_id := o_request_id out2, q_context_id := None\<rparr>))) = Some ?rid"
    using rid by (intro unexpected_error_id) (auto simp: law(3) request_id_ok_def)
  then have hdr: "case o_response out of
       Some r \<Rightarrow> header_get REQUEST_ID_HEADER (rs_headers r) = Some ?rid | None \<Rightarrow> o_raised out = None"
    using out law(4) by (auto split: option.splits if_splits)
  have kept: "o_raised out = o_raised out1" "o_user_id out = o_user_id out1"
    "(o_raised out = None \<and> o_response out \<noteq> None) = (o_raised out1 = None \<and> o_response out1 \<noteq> None)"
    "o_raised out = None \<and> o_response out \<noteq> None \<Longrightarrow> rs_status (the (o_response out)) = rs_status (the (o_response out1))"
    using out law(1,2,4) by (auto split: if_splits)
  have d1: "d1 = snd (limiter (body_limit (max_request_body_bytes s) (idempotency ext s json mo routes)) (tagged ?rid q) d)"
    using app assms(1) by (auto simp: secured_def security_headers_def tagged_def split: prod.splits)
  have "if \<not> request_log_persist_enabled s \<or> \<not> fits_log q \<or> (o_raised out = None \<and> q_path q \<in> ?ex)
     then d' = d1
     else \<exists>row. d' = bump TRequestLogs (d1\<lparr>t_request_logs := t_request_logs d1 @ [row]\<rparr>) \<and> rl_request_id row = ?rid \<and>
       rl_status_code row = (if o_raised out = None \<and> o_response out \<noteq> None then rs_status (the (o_response out)) else 500) \<and>
       rl_method row = q_method q \<and> rl_path row = q_path q \<and> rl_client_ip row = q_client q \<and>
       rl_duration_us row = el \<and> rl_user_id row = o_user_id out"
  proof (cases "request_log_persist_enabled s \<and> fits_log q")
    case True
    then have row: "\<exists>row. persist recorder (request_record q ?rid status el uid) d1 =
        bump TRequestLogs (d1\<lparr>t_request_logs := t_request_logs d1 @ [row]\<rparr>) \<and>
        rl_request_id row = ?rid \<and> rl_status_code row = status \<and> rl_method row = q_method q \<and> rl_path row = q_path q \<and>
        rl_client_ip row = q_client q \<and> rl_duration_us row = el \<and> rl_user_id row = uid" for status uid
      using persist_row [OF _ rid] by (simp add: recorder_def)
    have status: "(if o_raised out = None \<and> o_response out \<noteq> None then rs_status (the (o_response out)) else 500) =
        (if o_raised out1 = None \<and> o_response out1 \<noteq> None then rs_status (the (o_response out1)) else 500)"
      using kept(3,4) by presburger
    have "d' = (if o_raised out = None \<and> q_path q \<in> ?ex then d1
       else persist recorder (request_record q ?rid
         (if o_raised out = None \<and> o_response out \<noteq> None then rs_status (the (o_response out)) else 500) el (o_user_id out)) d1)"
      using out law(5) status kept(1,2) by presburger
    with True row show ?thesis by presburger
  next
    case False
    then have "persist recorder (request_record q ?rid status el uid) d1 = d1" for status uid
      using persist_unfit [of q recorder ?rid status el uid d1] by (auto simp: recorder_def)
    then have "d' = d1" using out law(5) by presburger
    with False show ?thesis by presburger
  qed
  with rid hdr d1 show ?thesis by blast
qed

definition sample_get :: "headers \<Rightarrow> str list \<Rightarrow> http_req" where
  "sample_get hs body = \<lparr>q_http = True, q_method = ''GET'', q_path = ''/api/v1/items'', q_headers = hs, q_client = Some ''10.0.0.1'',
     q_body = map Inr body, q_request_id = None, q_context_id = None, q_audit = None\<rparr>"

definition sample_routes :: app where
  "sample_routes q d = (responded \<lparr>rs_status = 200, rs_headers = [], rs_body = Raw ''[]''\<rparr>, d)"

lemma sample_inner:
  "body_limit n (idempotency plain_ext sample_settings json mo sample_routes) (tagged rid (sample_get [] [])) d =
     (responded \<lparr>rs_status = 200, rs_headers = [], rs_body = Raw ''[]''\<rparr>, d)"
  by (simp add: body_limit_def sample_get_def tagged_def declared_length_def idempotency_def idem_intercept_def
      to_http_request_def sample_routes_def)

theorem every_answer_correlated_witness:
  "\<exists>out d' row. create_app plain_ext sample_settings id id (\<lambda>e. []) \<lparr>mo_claim = 1, mo_restart = 1, mo_finish = 1\<rparr> ''abc'' 5
       sample_routes (sample_get [] []) empty_db = (out, d') \<and> t_request_logs d' = [row] \<and> rl_request_id row = ''abc''"
proof -
  let ?mo = "\<lparr>mo_claim = 1, mo_restart = 1, mo_finish = 1\<rparr>"
  obtain out d' where run: "create_app plain_ext sample_settings id id (\<lambda>e. []) ?mo ''abc'' 5 sample_routes (sample_get [] []) empty_db = (out, d')"
    by fastforce
  have "cors_origin_list sample_settings = []" "request_log_persist_enabled sample_settings"
    "parse_excluded_paths (request_log_excluded_paths sample_settings) = {''/health'', ''/health/ready'', ''/metrics''}"
    by code_simp+
  moreover have "request_id_ok ''abc''" by (simp add: request_id_ok_def request_id_char_def between_def)
  moreover have "fits_log (sample_get [] [])" "q_http (sample_get [] [])" "q_path (sample_get [] []) = ''/api/v1/items''"
    "request_id_of ''abc'' (sample_get [] []) = ''abc''"
    by (simp_all add: fits_log_def sample_get_def request_id_of_def sanitize_request_id_def)
  moreover have "t_request_logs empty_db = []" by (simp add: empty_db_def)
  ultimately obtain row where "d' = bump TRequestLogs (empty_db\<lparr>t_request_logs := [row]\<rparr>)" "rl_request_id row = ''abc''"
    using every_answer_correlated [OF _ _ _ run] by (simp add: sample_inner) blast
  with run show ?thesis by (intro exI [of _ out] exI [of _ d'] exI [of _ row]) simp
qed

fun delivered_bytes :: "str result list \<Rightarrow> int" where
  "delivered_bytes [] = 0"
| "delivered_bytes (Inl e # ms) = delivered_bytes ms"
| "delivered_bytes (Inr b # ms) = int (length b) + delivered_bytes ms"

lemma bounded_receive_nth:
  "length (bounded_receive limit k ms) = length ms \<and>
   (\<forall>i < length ms. bounded_receive limit k ms ! i =
      (if isl (ms ! i) \<or> k + delivered_bytes (take (Suc i) ms) \<le> limit then ms ! i else Inl body_too_large))"
proof (induction ms arbitrary: k)
  case (Cons m ms)
  show ?case
  proof (cases m)
    case (Inl e)
    then show ?thesis using Cons.IH [of k] by (auto simp: nth_Cons split: nat.split)
  next
    case (Inr b)
    then show ?thesis using Cons.IH [of "k + int (length b)"] by (auto simp: nth_Cons add.assoc split: nat.split)
  qed
qed simp

lemma delivered_bytes_nonneg: "0 \<le> delivered_bytes ms"
  by (induction ms rule: delivered_bytes.induct) simp_all

lemma delivered_bytes_bounded:
  assumes "0 \<le> k"
  shows "delivered_bytes (bounded_receive limit k ms) \<le> max 0 (limit - k)"
  using assms
proof (induction ms arbitrary: k)
  case (Cons m ms)
  show ?case
  proof (cases m)
    case (Inr b)
    then show ?thesis using Cons.IH [of "k + int (length b)"] Cons.prems by (auto simp: max_def split: if_splits)
  qed (use Cons in simp)
qed simp

text \<open>A complete body within the limit is read as it was sent; one beyond it is read as the refusal.\<close>

lemma read_bounded:
  "k + delivered_bytes ms \<le> limit \<Longrightarrow> bounded_receive limit k ms = ms"
  "list_all (\<lambda>m. \<not> isl m) ms \<Longrightarrow> k \<le> limit \<Longrightarrow> limit < k + delivered_bytes ms \<Longrightarrow>
     read_body (bounded_receive limit k ms) = Inl body_too_large"
proof (induction ms arbitrary: k)
  case (Cons m ms)
  note nonneg = delivered_bytes_nonneg [of ms]
  {
    case 1
    then show ?case using Cons.IH(1) [of k] Cons.IH(1) [of "k + int (length (projr m))"] nonneg by (cases m) (simp_all add: add.assoc)
  next
    case 2
    then show ?case using Cons.IH(2) [of "k + int (length (projr m))"] by (cases m) (auto simp: rbind_eq_Inl)
  }
qed simp_all



lemma header_get_defaults:
  "header_get n (fold (\<lambda>(m, v). header_default m v) ds hs) =
     (case header_get n hs of Some w \<Rightarrow> Some w | None \<Rightarrow> header_get n ds)"
  by (induction ds arbitrary: hs) (auto simp: header_get_default header_get_Cons split: option.splits)

lemma static_names:
  "list_all (\<lambda>(n, v). lower ''content-type'' \<noteq> lower n \<and> lower REQUEST_ID_HEADER \<noteq> lower n \<and>
     header_get n STATIC_SECURITY_HEADERS = Some v) STATIC_SECURITY_HEADERS"
  by (simp add: STATIC_SECURITY_HEADERS_def header_get_Cons lower_char_def)

text \<open>
  An answer that the application completes carries every security header, the deployment's own
  value or the one the application chose, and \<open>no-store\<close> when it chose none; the answer to an exception that
  nothing handles, which is given above the middleware, carries none of them.
\<close>

theorem security_headers_except_unexpected:
  "(case o_response (fst (security_headers hsts app (q\<lparr>q_http := True\<rparr>) d)) of
      None \<Rightarrow> o_response (fst (app (q\<lparr>q_http := True\<rparr>) d)) = None
    | Some r \<Rightarrow> \<exists>r0. o_response (fst (app (q\<lparr>q_http := True\<rparr>) d)) = Some r0 \<and>
        list_all (\<lambda>(n, v). header_get n (rs_headers r) =
          (case header_get n (rs_headers r0) of Some w \<Rightarrow> Some w | None \<Rightarrow> Some v)) STATIC_SECURITY_HEADERS) \<and>
   list_all (\<lambda>(n, v). header_get n (rs_headers (handle_unexpected_error q)) = None) STATIC_SECURITY_HEADERS"
proof -
  have "header_get n (add_security_headers hsts hs) = (case header_get n hs of Some w \<Rightarrow> Some w | None \<Rightarrow> Some v)"
    "header_get n (rs_headers (handle_unexpected_error q)) = None" if "(n, v) \<in> set STATIC_SECURITY_HEADERS" for n v hs
    using that static_names unfolding list_all_iff
    by (auto simp: add_security_headers_def Let_def header_get_default header_get_defaults handle_unexpected_error_def
        error_response_def header_get_Cons split: option.split)
  then show ?thesis by (auto simp: security_headers_def list_all_iff split: option.splits prod.splits)
qed

end
