(* ===== verification/Routes.thy ===== *)
theory Routes
  imports Deps RoleService Mail Logs Http
begin

text \<open>
  \<open>app/api/v1/routing.py\<close>, \<open>router.py\<close> and \<open>routes/\<close>: every route as its guards, its service call and the
  schema it answers with; and the dispatch that authenticates the caller of a protected route. Bodies
  and query strings are validated before a route runs, so a route takes them as its schema's value;
  what the clock and the random source give is in \<open>draw\<close>. The routes of attachments are in
  \<open>Attachments\<close>: they have the blob store as a second state.
\<close>

section \<open>Answers\<close>

record UserRead =
  ur_id :: ident
  ur_email :: str
  ur_name :: "str option"
  ur_roles :: "str list"
  ur_email_verified_at :: "time option"
  ur_created_at :: time
  ur_updated_at :: time

definition user_read :: "User \<Rightarrow> UserRead" where
  "user_read u = \<lparr>ur_id = user_id u, ur_email = user_email u, ur_name = user_name u,
     ur_roles = map role_name (user_roles u), ur_email_verified_at = user_email_verified_at u,
     ur_created_at = user_created_at u, ur_updated_at = user_updated_at u\<rparr>"

record RoleRead =
  rd_id :: ident
  rd_name :: str
  rd_features :: "str option"
  rd_grants :: "(str \<times> str \<times> Scope) list"

definition role_read :: "Role \<Rightarrow> RoleRead" where
  "role_read r = \<lparr>rd_id = role_id r, rd_name = role_name r, rd_features = role_features r,
     rd_grants = map flatten_a_role_permission (role_grants r)\<rparr>"

record PreferencesRead =
  pr_locale :: str
  pr_theme :: str
  pr_timezone :: str
  pr_show_request_id :: bool
  pr_features :: "str option"

definition preferences_read :: "UserPreferences \<Rightarrow> PreferencesRead" where
  "preferences_read p = \<lparr>pr_locale = pref_locale p, pr_theme = pref_theme p, pr_timezone = pref_timezone p,
     pr_show_request_id = pref_show_request_id p, pr_features = pref_features p\<rparr>"

record ('i) Page =
  pg_items :: "'i list"
  pg_total :: int
  pg_limit :: int
  pg_offset :: int

definition page_of_rows :: "('r \<Rightarrow> 'i) \<Rightarrow> 'r list \<times> int \<Rightarrow> int \<Rightarrow> int \<Rightarrow> 'i Page" where
  "page_of_rows mapper found limit offset =
     \<lparr>pg_items = map mapper (fst found), pg_total = snd found, pg_limit = limit, pg_offset = offset\<rparr>"

record ImpersonationToken =
  it_access_token :: str
  it_expires_in :: int
  it_user :: UserRead
  it_impersonator :: UserRead

record FeatureList =
  fl_flags :: "str list"
  fl_inherited :: "str list option"

datatype reply =
    NoContent
  | OneUser UserRead
  | Users "UserRead list"
  | UserPage "UserRead Page"
  | PreferencesReply PreferencesRead
  | Grants "(str \<times> str \<times> Scope) list"
  | AccountFeatures AccountFeaturesRead
  | Permissions "(str \<times> str) list"
  | OneRole RoleRead
  | Roles "RoleRead list"
  | Impersonation ImpersonationToken
  | Features FeatureList
  | OneItem Item str
  | ItemPage "Item Page"
  | AuditEntries "AuditLog CursorPage"
  | AuditEntry AuditLog
  | Requests "RequestLog CursorPage"
  | RequestEntry RequestLog

section \<open>What a route draws from its surroundings\<close>

text \<open>
  The clock (\<open>dw_now\<close> when a service first reads it, \<open>dw_later\<close> when it reads it again), the random source,
  the mailer and the deployment.
\<close>

record draw =
  dw_ext :: ext
  dw_settings :: Settings
  dw_now :: time
  dw_later :: time
  dw_salt :: str
  dw_token :: str
  dw_jti :: str
  dw_issue :: issue_draw
  dw_absent_hash :: str
  dw_send :: "mail_request \<Rightarrow> database \<Rightarrow> Mail result"
  dw_other_iso :: "str \<Rightarrow> moment option"

definition keep :: "database \<Rightarrow> 'a result \<Rightarrow> ('a \<times> database) result" where
  "keep d r = rbind r (\<lambda>x. Inr (x, d))"

definition mailed :: "draw \<Rightarrow> (mail_request option \<times> database) result \<Rightarrow> database result" where
  "mailed w r = rbind r (\<lambda>(m, d). case m of None \<Rightarrow> Inr d | Some req \<Rightarrow> rbind (dw_send w req d) (\<lambda>mail. Inr d))"

section \<open>Public routes\<close>

definition register_user :: "draw \<Rightarrow> UserCreate \<Rightarrow> database \<Rightarrow> (UserRead \<times> database) result" where
  "register_user w data d =
     rbind (register (dw_ext w) (dw_salt w) data d) (\<lambda>(user, d1).
     rbind (mailed w (verification_request (dw_ext w) (dw_settings w) (dw_token w) user (dw_now w) d1)) (\<lambda>d2.
       Inr (user_read user, d2)))"

definition login_route :: "draw \<Rightarrow> str \<Rightarrow> str \<Rightarrow> database \<Rightarrow> (TokenPair \<times> database) result" where
  "login_route w username password d =
     authenticate (dw_ext w) (dw_settings w) (dw_absent_hash w) (dw_issue w) username password d"

definition refresh_route :: "draw \<Rightarrow> str \<Rightarrow> database \<Rightarrow> (TokenPair \<times> database) result" where
  "refresh_route w token d =
     keep d (refresh (dw_ext w) (dw_settings w) (dw_now w) (dw_now w) (dw_later w) (dw_jti w) token d)"

definition logout_route :: "draw \<Rightarrow> str \<Rightarrow> database \<Rightarrow> database" where
  "logout_route w token d = logout (dw_ext w) (dw_now w) token d"

definition reset_password :: "draw \<Rightarrow> str \<Rightarrow> str \<Rightarrow> database \<Rightarrow> database result" where
  "reset_password w token new_password d = reset_confirm (dw_ext w) (dw_salt w) (dw_now w) token new_password d"

definition verify_email :: "draw \<Rightarrow> str \<Rightarrow> database \<Rightarrow> database result" where
  "verify_email w token d = rbind (verification_confirm (dw_ext w) (dw_now w) token d) (\<lambda>(user, d'). Inr d')"

section \<open>The caller's own account\<close>

definition read_me :: "Actor \<Rightarrow> UserRead" where
  "read_me actor = user_read (actor_user actor)"

definition update_me :: "Actor \<Rightarrow> UserUpdate \<Rightarrow> database \<Rightarrow> (UserRead \<times> database) result" where
  "update_me actor data d =
     rbind (forbid_impersonation actor) (\<lambda>_.
     rbind (service_update (actor_user actor) data d) (\<lambda>(user, d'). Inr (user_read user, d')))"

definition read_my_preferences :: "Actor \<Rightarrow> database \<Rightarrow> PreferencesRead" where
  "read_my_preferences actor d = preferences_read (pref_get (user_id (actor_user actor)) d)"

definition update_my_preferences :: "Actor \<Rightarrow> PreferencesUpdate \<Rightarrow> database \<Rightarrow> (PreferencesRead \<times> database) result" where
  "update_my_preferences actor data d =
     rbind (pref_update (user_id (actor_user actor)) data d) (\<lambda>(p, d'). Inr (preferences_read p, d'))"

definition deactivate_me :: "draw \<Rightarrow> Actor \<Rightarrow> str \<Rightarrow> database \<Rightarrow> database result" where
  "deactivate_me w actor password d =
     rbind (forbid_impersonation actor) (\<lambda>_. deactivate (dw_ext w) (dw_now w) (actor_user actor) password d)"

definition read_my_permissions :: "Actor \<Rightarrow> database \<Rightarrow> (str \<times> str \<times> Scope) list" where
  "read_my_permissions actor d = effective_grants (actor_user actor) d"

definition change_password_route :: "draw \<Rightarrow> Actor \<Rightarrow> PasswordChange \<Rightarrow> database \<Rightarrow> database result" where
  "change_password_route w actor data d =
     rbind (forbid_impersonation actor) (\<lambda>_.
       change_password (dw_ext w) (dw_salt w) (dw_now w) (dw_later w) (actor_user actor) data d)"

definition resend_email_verification :: "draw \<Rightarrow> Actor \<Rightarrow> database \<Rightarrow> database result" where
  "resend_email_verification w actor d =
     rbind (forbid_impersonation actor) (\<lambda>_.
       mailed w (verification_request (dw_ext w) (dw_settings w) (dw_token w) (actor_user actor) (dw_now w) d))"

definition stop_impersonating_route :: "AuditContext option \<Rightarrow> Actor \<Rightarrow> database \<Rightarrow> database" where
  "stop_impersonating_route context actor d =
     (if actor_impersonator actor \<noteq> None then stop_impersonating context (actor_user actor) d else d)"

definition impersonate_route ::
  "draw \<Rightarrow> AuditContext option \<Rightarrow> Actor \<Rightarrow> ident \<Rightarrow> database \<Rightarrow> (ImpersonationToken \<times> database) result" where
  "impersonate_route w context actor uid d =
     rbind (require_permission USERS IMPERSONATE actor) (\<lambda>_.
     rbind (service_get uid d) (\<lambda>target.
     rbind (impersonate (dw_ext w) (dw_settings w) context (dw_now w) (dw_jti w) (actor_user actor) target d) (\<lambda>((token, expires), d').
       Inr (\<lparr>it_access_token = token, it_expires_in = expires, it_user = user_read target,
             it_impersonator = user_read (actor_user actor)\<rparr>, d'))))"

definition list_features :: "draw \<Rightarrow> Actor \<Rightarrow> FeatureList" where
  "list_features w actor =
     (let s = dw_settings w; ceiling = enabled_features s;
          inherited = inherited_features (map role_features (user_roles (actor_user actor))) ceiling
      in \<lparr>fl_flags = sort (map feature_value (filter (\<lambda>f. f \<in> ceiling) all_features)),
          fl_inherited = map_option (\<lambda>fs. sort (map feature_value (filter (\<lambda>f. f \<in> fs) all_features))) inherited\<rparr>)"

section \<open>Accounts and roles\<close>

definition list_users :: "Actor \<Rightarrow> int \<Rightarrow> int \<Rightarrow> database \<Rightarrow> UserRead Page result" where
  "list_users actor limit offset d =
     rbind (require_permission USERS READ actor) (\<lambda>_.
       Inr (page_of_rows user_read (service_list_all limit offset d) limit offset))"

definition read_user :: "Actor \<Rightarrow> ident \<Rightarrow> database \<Rightarrow> UserRead result" where
  "read_user actor uid d =
     rbind (require_permission USERS READ actor) (\<lambda>_. rbind (service_get uid d) (\<lambda>u. Inr (user_read u)))"

definition read_user_features :: "draw \<Rightarrow> Actor \<Rightarrow> ident \<Rightarrow> database \<Rightarrow> AccountFeaturesRead result" where
  "read_user_features w actor uid d =
     rbind (require_permission USERS READ actor) (\<lambda>_.
     rbind (require_permission FEATURE_FLAGS READ actor) (\<lambda>_. features_for (dw_settings w) uid d))"

definition update_user_features ::
  "draw \<Rightarrow> Actor \<Rightarrow> ident \<Rightarrow> str option \<Rightarrow> database \<Rightarrow> (AccountFeaturesRead \<times> database) result" where
  "update_user_features w actor uid features d =
     rbind (require_permission FEATURE_FLAGS UPDATE actor) (\<lambda>_. update_features_for (dw_settings w) uid features d)"

definition remove_user :: "draw \<Rightarrow> Actor \<Rightarrow> ident \<Rightarrow> database \<Rightarrow> database result" where
  "remove_user w actor uid d =
     rbind (require_permission USERS DELETE actor) (\<lambda>_. remove_account (dw_now w) (actor_user actor) uid d)"

definition add_user_role :: "Actor \<Rightarrow> ident \<Rightarrow> str \<Rightarrow> database \<Rightarrow> (UserRead \<times> database) result" where
  "add_user_role actor uid role d =
     rbind (require_permission USERS UPDATE actor) (\<lambda>_.
     rbind (add_role uid role d) (\<lambda>(u, d'). Inr (user_read u, d')))"

definition remove_user_role :: "Actor \<Rightarrow> ident \<Rightarrow> str \<Rightarrow> database \<Rightarrow> (UserRead \<times> database) result" where
  "remove_user_role actor uid role d =
     rbind (require_permission USERS UPDATE actor) (\<lambda>_.
     rbind (remove_role (actor_user actor) uid role d) (\<lambda>(u, d'). Inr (user_read u, d')))"

definition list_permissions :: "Actor \<Rightarrow> database \<Rightarrow> (str \<times> str) list result" where
  "list_permissions actor d =
     rbind (require_permission ROLES READ actor) (\<lambda>_.
       Inr (map (\<lambda>p. (perm_resource p, perm_action p)) (permission_list_all d)))"

definition list_roles :: "Actor \<Rightarrow> database \<Rightarrow> RoleRead list result" where
  "list_roles actor d =
     rbind (require_permission ROLES READ actor) (\<lambda>_. Inr (map role_read (role_list_all d)))"

definition create_role :: "Actor \<Rightarrow> RoleWrite \<Rightarrow> database \<Rightarrow> (RoleRead \<times> database) result" where
  "create_role actor data d =
     rbind (require_permission ROLES CREATE actor) (\<lambda>_.
     rbind (role_service_create data d) (\<lambda>(r, d'). Inr (role_read r, d')))"

definition read_role :: "Actor \<Rightarrow> ident \<Rightarrow> database \<Rightarrow> RoleRead result" where
  "read_role actor rid d =
     rbind (require_permission ROLES READ actor) (\<lambda>_. rbind (role_service_get rid d) (\<lambda>r. Inr (role_read r)))"

definition update_role :: "Actor \<Rightarrow> ident \<Rightarrow> RoleWrite \<Rightarrow> database \<Rightarrow> (RoleRead \<times> database) result" where
  "update_role actor rid data d =
     rbind (require_permission ROLES UPDATE actor) (\<lambda>_.
     rbind (role_service_update rid data d) (\<lambda>(r, d'). Inr (role_read r, d')))"

definition delete_role :: "Actor \<Rightarrow> ident \<Rightarrow> database \<Rightarrow> database result" where
  "delete_role actor rid d =
     rbind (require_permission ROLES DELETE actor) (\<lambda>_. role_service_delete rid d)"

definition list_role_members :: "Actor \<Rightarrow> ident \<Rightarrow> database \<Rightarrow> UserRead list result" where
  "list_role_members actor rid d =
     rbind (require_permission ROLES READ actor) (\<lambda>_. rbind (role_members rid d) (\<lambda>us. Inr (map user_read us)))"

definition add_role_member :: "Actor \<Rightarrow> ident \<Rightarrow> ident \<Rightarrow> database \<Rightarrow> (UserRead \<times> database) result" where
  "add_role_member actor rid uid d =
     rbind (require_permission ROLES UPDATE actor) (\<lambda>_.
     rbind (add_role_by_id uid rid d) (\<lambda>(u, d'). Inr (user_read u, d')))"

definition remove_role_member :: "Actor \<Rightarrow> ident \<Rightarrow> ident \<Rightarrow> database \<Rightarrow> (UserRead \<times> database) result" where
  "remove_role_member actor rid uid d =
     rbind (require_permission ROLES UPDATE actor) (\<lambda>_.
     rbind (remove_role_by_id (actor_user actor) uid rid d) (\<lambda>(u, d'). Inr (user_read u, d')))"

section \<open>Items and logs\<close>

definition list_items :: "Actor \<Rightarrow> int \<Rightarrow> int \<Rightarrow> database \<Rightarrow> Item Page" where
  "list_items actor limit offset d =
     page_of_rows id (item_service_list_for_owner (user_id (actor_user actor)) limit offset d) limit offset"

definition list_audit_entries :: "draw \<Rightarrow> Actor \<Rightarrow> AuditLogQuery \<Rightarrow> database \<Rightarrow> AuditLog CursorPage result" where
  "list_audit_entries w actor q d =
     rbind (require_permission AUDIT_LOG READ actor) (\<lambda>scope.
     rbind (audit_log_list_for (dw_other_iso w) (actor_user actor) scope q d) (\<lambda>found.
       Inr (cursor_page_of id (cq_limit q) found)))"

definition get_audit_entry :: "Actor \<Rightarrow> ident \<Rightarrow> database \<Rightarrow> AuditLog result" where
  "get_audit_entry actor eid d =
     rbind (require_permission AUDIT_LOG READ actor) (\<lambda>scope. audit_log_get_for (actor_user actor) scope eid d)"

definition list_requests :: "draw \<Rightarrow> Actor \<Rightarrow> RequestLogQuery \<Rightarrow> database \<Rightarrow> RequestLog CursorPage result" where
  "list_requests w actor q d =
     rbind (require_permission REQUEST_LOG READ actor) (\<lambda>scope.
     rbind (request_log_list_for (dw_other_iso w) (actor_user actor) scope q d) (\<lambda>found.
       Inr (cursor_page_of id (cq_limit q) found)))"

definition get_request :: "draw \<Rightarrow> Actor \<Rightarrow> str \<Rightarrow> database \<Rightarrow> RequestLog result" where
  "get_request w actor rid d =
     rbind (require_permission REQUEST_LOG READ actor) (\<lambda>scope.
     rbind (if request_id_ok rid then Inr () else Inl (ValueError ''string_pattern_mismatch'')) (\<lambda>_.
       request_log_get_for (dw_other_iso w) (actor_user actor) scope rid d))"

section \<open>The protected routers\<close>

datatype call =
    ReadMe | UpdateMe UserUpdate | ReadMyPreferences | UpdateMyPreferences PreferencesUpdate | DeactivateMe str
  | ReadMyPermissions | ChangePassword PasswordChange | ResendVerification | StopImpersonating | Impersonate ident
  | ListFeatures
  | ListUsers int int | ReadUser ident | ReadUserFeatures ident | UpdateUserFeatures ident "str option"
  | RemoveUser ident | AddUserRole ident str | RemoveUserRole ident str
  | ListPermissions | ListRoles | CreateRole RoleWrite | ReadRole ident | UpdateRole ident RoleWrite | DeleteRole ident
  | ListRoleMembers ident | AddRoleMember ident ident | RemoveRoleMember ident ident
  | ListItems int int | GetItem ident | WriteItem item_request
  | ListAudit AuditLogQuery | GetAudit ident | ListRequests RequestLogQuery | GetRequest str

text \<open>The feature a router is behind.\<close>

definition router_feature :: "call \<Rightarrow> Feature option" where
  "router_feature c = (case c of
      ListItems l off \<Rightarrow> Some FEATURE_ITEMS | GetItem i \<Rightarrow> Some FEATURE_ITEMS | WriteItem r \<Rightarrow> Some FEATURE_ITEMS
    | ListAudit q \<Rightarrow> Some FEATURE_AUDIT_LOG | GetAudit i \<Rightarrow> Some FEATURE_AUDIT_LOG
    | ListRequests q \<Rightarrow> Some FEATURE_REQUEST_LOG | GetRequest i \<Rightarrow> Some FEATURE_REQUEST_LOG
    | _ \<Rightarrow> None)"

definition answer :: "('a \<Rightarrow> reply) \<Rightarrow> ('a \<times> database) result \<Rightarrow> (reply \<times> database) result" where
  "answer f r = rbind r (\<lambda>(x, d). Inr (f x, d))"

definition no_content :: "database result \<Rightarrow> (reply \<times> database) result" where
  "no_content r = rbind r (\<lambda>d. Inr (NoContent, d))"

primrec item_reply :: "draw \<Rightarrow> ident \<Rightarrow> item_request \<Rightarrow> database \<Rightarrow> (reply \<times> database) result" where
  "item_reply w caller (CreateItem t de) d = answer (\<lambda>(i, tag). OneItem i tag) (route_create_item caller t de d)"
| "item_reply w caller (UpdateItem i data im) d = answer (\<lambda>(i, tag). OneItem i tag) (route_update_item caller i data im d)"
| "item_reply w caller (DeleteItem i im) d = no_content (route_delete_item (dw_now w) caller i im d)"

primrec run_call :: "draw \<Rightarrow> AuditContext option \<Rightarrow> Actor \<Rightarrow> call \<Rightarrow> database \<Rightarrow> (reply \<times> database) result" where
  "run_call w cx a ReadMe d = Inr (OneUser (read_me a), d)"
| "run_call w cx a (UpdateMe data) d = answer OneUser (update_me a data d)"
| "run_call w cx a ReadMyPreferences d = Inr (PreferencesReply (read_my_preferences a d), d)"
| "run_call w cx a (UpdateMyPreferences data) d = answer PreferencesReply (update_my_preferences a data d)"
| "run_call w cx a (DeactivateMe pw) d = no_content (deactivate_me w a pw d)"
| "run_call w cx a ReadMyPermissions d = Inr (Grants (read_my_permissions a d), d)"
| "run_call w cx a (ChangePassword data) d = no_content (change_password_route w a data d)"
| "run_call w cx a ResendVerification d = no_content (resend_email_verification w a d)"
| "run_call w cx a StopImpersonating d = Inr (NoContent, stop_impersonating_route cx a d)"
| "run_call w cx a (Impersonate i) d = answer Impersonation (impersonate_route w cx a i d)"
| "run_call w cx a ListFeatures d = Inr (Features (list_features w a), d)"
| "run_call w cx a (ListUsers l off) d = answer UserPage (keep d (list_users a l off d))"
| "run_call w cx a (ReadUser i) d = answer OneUser (keep d (read_user a i d))"
| "run_call w cx a (ReadUserFeatures i) d = answer AccountFeatures (keep d (read_user_features w a i d))"
| "run_call w cx a (UpdateUserFeatures i f) d = answer AccountFeatures (update_user_features w a i f d)"
| "run_call w cx a (RemoveUser i) d = no_content (remove_user w a i d)"
| "run_call w cx a (AddUserRole i r) d = answer OneUser (add_user_role a i r d)"
| "run_call w cx a (RemoveUserRole i r) d = answer OneUser (remove_user_role a i r d)"
| "run_call w cx a ListPermissions d = answer Permissions (keep d (list_permissions a d))"
| "run_call w cx a ListRoles d = answer Roles (keep d (list_roles a d))"
| "run_call w cx a (CreateRole data) d = answer OneRole (create_role a data d)"
| "run_call w cx a (ReadRole r) d = answer OneRole (keep d (read_role a r d))"
| "run_call w cx a (UpdateRole r data) d = answer OneRole (update_role a r data d)"
| "run_call w cx a (DeleteRole r) d = no_content (delete_role a r d)"
| "run_call w cx a (ListRoleMembers r) d = answer Users (keep d (list_role_members a r d))"
| "run_call w cx a (AddRoleMember r i) d = answer OneUser (add_role_member a r i d)"
| "run_call w cx a (RemoveRoleMember r i) d = answer OneUser (remove_role_member a r i d)"
| "run_call w cx a (ListItems l off) d =
     Inr (ItemPage (list_items a l off d), d)"
| "run_call w cx a (GetItem i) d = answer (\<lambda>(i, tag). OneItem i tag) (keep d (route_get_item (user_id (actor_user a)) i d))"
| "run_call w cx a (WriteItem r) d = item_reply w (user_id (actor_user a)) r d"
| "run_call w cx a (ListAudit q) d = answer AuditEntries (keep d (list_audit_entries w a q d))"
| "run_call w cx a (GetAudit i) d = answer AuditEntry (keep d (get_audit_entry a i d))"
| "run_call w cx a (ListRequests q) d = answer Requests (keep d (list_requests w a q d))"
| "run_call w cx a (GetRequest i) d = answer RequestEntry (keep d (get_request w a i d))"

text \<open>
  \<open>protected_router\<close>: the feature of the router, then the caller, then the guards of the route. An exception
  anywhere rolls the request's session back.
\<close>

definition protected_call ::
  "draw \<Rightarrow> str \<Rightarrow> AuditContext option \<Rightarrow> call \<Rightarrow> database \<Rightarrow> (reply \<times> database) result" where
  "protected_call w token cx c d =
     rbind (case router_feature c of None \<Rightarrow> Inr () | Some f \<Rightarrow> require_feature (dw_settings w) f) (\<lambda>_.
     rbind (get_actor (dw_ext w) (dw_settings w) (dw_now w) token cx d) (\<lambda>(actor, cx').
       run_call w cx' actor c d))"

section \<open>Lemmas\<close>

lemma answer_eq_Inr: "answer f r = Inr (y, d') \<longleftrightarrow> (\<exists>x. r = Inr (x, d') \<and> y = f x)"
  by (auto simp: answer_def rbind_eq_Inr)

lemma keep_eq_Inr: "keep d r = Inr (x, d') \<longleftrightarrow> r = Inr x \<and> d' = d"
  by (auto simp: keep_def rbind_eq_Inr)

lemma no_content_eq_Inr: "no_content r = Inr (y, d') \<longleftrightarrow> r = Inr d' \<and> y = NoContent"
  by (auto simp: no_content_def rbind_eq_Inr)

lemma forbid_impersonation_eq_Inr: "forbid_impersonation a = Inr u \<longleftrightarrow> actor_impersonator a = None"
  by (simp add: forbid_impersonation_def raise_error_def)

text \<open>
  A caller is confined when it acts under impersonation or holds none of the permissions to change other
  accounts, roles or feature lists: the permissions that impersonation blocks.
\<close>

definition confined :: "Actor \<Rightarrow> bool" where
  "confined a \<longleftrightarrow> actor_impersonator a \<noteq> None \<or>
     (\<forall>(resource, action) \<in> BLOCKED_WHILE_IMPERSONATING. scope_for (actor_user a) resource action = None)"

lemma confined_refused:
  "confined a \<Longrightarrow> (resource, action) \<in> BLOCKED_WHILE_IMPERSONATING \<Longrightarrow> require_permission resource action a \<noteq> Inr sc"
  by (auto simp: confined_def require_permission_def raise_error_def split: option.splits)

lemma blocked_permissions:
  "(ROLES, CREATE) \<in> BLOCKED_WHILE_IMPERSONATING" "(ROLES, UPDATE) \<in> BLOCKED_WHILE_IMPERSONATING"
  "(ROLES, DELETE) \<in> BLOCKED_WHILE_IMPERSONATING" "(USERS, UPDATE) \<in> BLOCKED_WHILE_IMPERSONATING"
  "(USERS, DELETE) \<in> BLOCKED_WHILE_IMPERSONATING" "(USERS, IMPERSONATE) \<in> BLOCKED_WHILE_IMPERSONATING"
  "(FEATURE_FLAGS, UPDATE) \<in> BLOCKED_WHILE_IMPERSONATING"
  by (simp_all add: BLOCKED_WHILE_IMPERSONATING_def)

text \<open>What a confined caller's successful call can have been.\<close>

lemma confined_call_cases:
  assumes "confined a" and "run_call w cx a c d = Inr (reply, d')"
  obtains (reads) "d' = d"
  | (stopped) "actor_impersonator a \<noteq> None" "d' = stop_impersonating cx (actor_user a) d"
  | (preferences) data p where "pref_update (user_id (actor_user a)) data d = Inr (p, d')"
  | (item) req where "run_item_request (dw_now w) (user_id (actor_user a)) req d = Inr d'"
  | (profile) data u where "actor_impersonator a = None" "service_update (actor_user a) data d = Inr (u, d')"
  | (closed) pw where "actor_impersonator a = None" "deactivate (dw_ext w) (dw_now w) (actor_user a) pw d = Inr d'"
  | (password) data where "actor_impersonator a = None"
      "change_password (dw_ext w) (dw_salt w) (dw_now w) (dw_later w) (actor_user a) data d = Inr d'"
  | (link) m where "actor_impersonator a = None"
      "verification_request (dw_ext w) (dw_settings w) (dw_token w) (actor_user a) (dw_now w) d = Inr (m, d')"
proof (cases c)
  case (WriteItem req)
  have "run_item_request (dw_now w) (user_id (actor_user a)) req d = Inr d'"
    using assms(2) WriteItem by (cases req) (auto simp: answer_eq_Inr no_content_eq_Inr)
  then show ?thesis by (rule item)
next
  case StopImpersonating
  then show ?thesis using assms(2) reads stopped by (auto simp: stop_impersonating_route_def split: if_splits)
next
  case ResendVerification
  then obtain m where "actor_impersonator a = None"
    "verification_request (dw_ext w) (dw_settings w) (dw_token w) (actor_user a) (dw_now w) d = Inr (m, d')"
    using assms(2) by (auto simp: no_content_eq_Inr resend_email_verification_def mailed_def rbind_eq_Inr
        forbid_impersonation_eq_Inr split: option.splits)
  then show ?thesis by (rule link)
qed (use assms confined_refused [OF assms(1)] blocked_permissions in
      \<open>auto simp: answer_eq_Inr keep_eq_Inr no_content_eq_Inr rbind_eq_Inr forbid_impersonation_eq_Inr update_me_def
         update_my_preferences_def deactivate_me_def change_password_route_def impersonate_route_def update_user_features_def
         remove_user_def add_user_role_def remove_user_role_def create_role_def update_role_def delete_role_def
         add_role_member_def remove_role_member_def intro: that\<close>)

section \<open>Confinement\<close>

text \<open>What one account owns: its row with its roles, its items, its preferences, its sessions and its links.\<close>

definition private_view ::
  "ident \<Rightarrow> database \<Rightarrow> User option \<times> Item list \<times> UserPreferences option \<times> RefreshToken list \<times> SingleUseToken list" where
  "private_view j d = (user_get j d, filter (\<lambda>i. item_owner_id i = j) (t_items d), pref_get_for_user j d,
     filter (\<lambda>t. rt_user_id t = j) (t_refresh_tokens d), filter (\<lambda>t. sut_user_id t = j) (t_single_use_tokens d))"

definition wf_app :: "database \<Rightarrow> bool" where
  "wf_app d \<longleftrightarrow> wf_tokens d \<and> wf_items d \<and> wf_preferences d"

lemma wf_appD:
  "wf_app d \<Longrightarrow> wf_accounts d" "wf_app d \<Longrightarrow> wf_items d" "wf_app d \<Longrightarrow> wf_preferences d"
  by (simp_all add: wf_app_def wf_tokens_def wf_sessions_def)

lemma filter_stamped:
  "(\<And>x. key (f x) = key x) \<Longrightarrow> (\<And>x. Q x \<Longrightarrow> key x \<noteq> j) \<Longrightarrow>
   filter (\<lambda>x. key x = j) (update_where Q f xs) = filter (\<lambda>x. key x = j) xs"
  unfolding update_where_def by (intro filter_map_same) auto

lemma pref_update_frame:
  assumes "pref_update uid u d = Inr (p, d')"
  shows "t_users d' = t_users d \<and> t_user_roles d' = t_user_roles d \<and> t_roles d' = t_roles d \<and> t_items d' = t_items d \<and>
    t_refresh_tokens d' = t_refresh_tokens d \<and> t_single_use_tokens d' = t_single_use_tokens d"
  using assms by (auto simp: pref_update_def pref_create_def pref_save_def Let_def split: option.splits if_splits)

lemma pref_update_other:
  assumes "wf_preferences d" and "pref_update uid u d = Inr (p, d')" and "v \<noteq> uid"
  shows "pref_get_for_user v d' = pref_get_for_user v d"
proof (cases "pref_get_for_user uid d")
  case None
  then show ?thesis using assms(2,3)
    by (auto simp: pref_update_def pref_create_def Let_def pref_get_for_user_def find_row_append apply_preferences_def
        default_preferences_def split: if_splits option.split)
next
  case (Some q)
  then have q: "pref_user_id q = uid" by (auto simp: pref_get_for_user_def dest: find_row_SomeD)
  have save: "pref_save (apply_preferences u q) d = Inr (p, d')" using Some assms(2) by (simp add: pref_update_def)
  then have "\<not> pref_too_long (apply_preferences u q)" by (auto simp: pref_save_def split: if_splits)
  then show ?thesis using pref_get_save(3) [OF assms(1) Some _ _ _ save, of v] q assms(3) by (simp add: apply_preferences_def)
qed

lemma audit_create_preferences [simp]: "t_preferences (audit_create e d) = t_preferences d"
  by (simp add: audit_create_def)

lemma item_request_frame:
  assumes "run_item_request now caller req d = Inr d'"
  shows "t_users d' = t_users d \<and> t_user_roles d' = t_user_roles d \<and> t_roles d' = t_roles d \<and>
    t_preferences d' = t_preferences d \<and> t_refresh_tokens d' = t_refresh_tokens d \<and>
    t_single_use_tokens d' = t_single_use_tokens d"
  using assms by (cases rule: run_item_request_cases) (auto elim: item_flush_Inr_cases)

lemma item_request_other:
  assumes "wf_items d" and "run_item_request now caller req d = Inr d'" and "j \<noteq> caller"
  shows "filter (\<lambda>i. item_owner_id i = j) (t_items d') = filter (\<lambda>i. item_owner_id i = j) (t_items d)"
  using assms(2)
proof (cases rule: run_item_request_cases)
  case (flushed loaded edited)
  then show ?thesis using item_flush_other [OF flushed(5,4) assms(1) flushed(1)] assms(3) by simp
qed (use assms(3) in simp)

lemma issue_token_frame:
  assumes "issue_token ext p life cd token uid now d = Inr (issued, d')" and "j \<noteq> uid"
  shows "t_users d' = t_users d \<and> t_user_roles d' = t_user_roles d \<and> t_roles d' = t_roles d \<and> t_items d' = t_items d \<and>
    t_preferences d' = t_preferences d \<and> t_refresh_tokens d' = t_refresh_tokens d \<and>
    filter (\<lambda>t. sut_user_id t = j) (t_single_use_tokens d') = filter (\<lambda>t. sut_user_id t = j) (t_single_use_tokens d)"
  using assms(1)
proof (cases rule: issue_token_cases)
  case sent
  have "filter (\<lambda>t. sut_user_id t = j) (update_where (\<lambda>t. sut_user_id t = uid \<and> sut_purpose t = p \<and> sut_used_at t = None)
      (sut_stamp now) (t_single_use_tokens d)) = filter (\<lambda>t. sut_user_id t = j) (t_single_use_tokens d)"
    using assms(2) by (intro filter_stamped) auto
  with sent(3) assms(2) show ?thesis
    by (elim sut_create_shape) (auto simp: sut_revoke_all_for_def Let_def)
qed simp

lemma close_account_other:
  assumes "wf_app d" and "user_get (user_id u) d = Some u" and "close_account now u d = Inr d'" and "j \<noteq> user_id u"
  shows "private_view j d' = private_view j d"
proof -
  let ?d = "d\<lparr>t_items := map (\<lambda>i. if item_owned_by (user_id u) i then item_retired now (tx_now d) i else i) (t_items d)\<rparr>"
  obtain w where save: "user_save (user_mark_deleted now u) ?d = Inr (w, d')"
    using assms(3) by (auto simp: close_account_def item_soft_delete_for_owner_eq [OF wf_appD(2) [OF assms(1)]]
        user_soft_delete_def map_sum_eq_Inr)
  have "user_get j d' = user_get j d"
    using close_account_law [OF wf_appD(1,2) [OF assms(1)] assms(2), of now] assms(3,4) by (metis Inr_inject)
  moreover have "filter (\<lambda>i. item_owner_id i = j) (t_items ?d) = filter (\<lambda>i. item_owner_id i = j) (t_items d)"
    using assms(4) by (simp, intro filter_map_same) (auto simp: item_owned_by_def)
  ultimately show ?thesis
    using user_save_frame [OF save] by (simp add: private_view_def pref_get_for_user_def)
qed

text \<open>Saving the caller's own row, whatever changed in it.\<close>

lemma own_save_other:
  assumes "wf_app d" and "user_get (user_id u) d = Some u" and "user_save v d = Inr (w, d')"
    and "user_id v = user_id u" and "user_roles v = user_roles u" and "j \<noteq> user_id u"
  shows "private_view j d' = private_view j d" and "user_id w = user_id u"
proof -
  have "set (user_roles v) \<subseteq> set (t_roles d)"
    using users.get_found [OF wf_appD(1) [OF assms(1)] assms(2)] assms(5) by (simp add: assignable_def)
  then have "user_get j d' = user_get j d \<and> user_id w = user_id v"
    using user_save_get [OF wf_appD(1) [OF assms(1)] assms(3)] assms(4,6) by simp
  then show "private_view j d' = private_view j d" "user_id w = user_id u"
    using user_save_frame [OF assms(3)] assms(4) by (simp_all add: private_view_def pref_get_for_user_def)
qed

lemma get_actor_loaded:
  assumes "wf_accounts d" and "get_actor ext s now token cx d = Inr (a, cx')"
  shows "user_get (user_id (actor_user a)) d = Some (actor_user a)"
proof -
  obtain subject issued where "load_subject subject issued d = Inr (actor_user a)"
    using assms(2) by (auto simp: get_actor_def Let_def rbind_eq_Inr raise_error_def split: if_splits)
  then obtain uid where uid: "user_get uid d = Some (actor_user a)"
    by (auto simp: load_subject_def raise_error_def split: option.splits if_splits)
  then show ?thesis using users.get_found [OF assms(1) uid] by simp
qed

section \<open>Two accounts\<close>

text \<open>A deployment with its administrator and one more account, and the tokens of the two.\<close>

definition pair_db :: database where
  "pair_db = (case rbind (register plain_ext ''s'' (sample_data ''a@b.co'') seeded_db) (\<lambda>(u, d).
      register plain_ext ''s'' (sample_data ''c@d.co'') d) of Inr (u, d) \<Rightarrow> d | Inl e \<Rightarrow> empty_db)"

definition second_user :: User where
  "second_user = the (user_get 2 pair_db)"

definition sample_world :: draw where
  "sample_world = \<lparr>dw_ext = plain_ext, dw_settings = sample_settings, dw_now = seconds 9, dw_later = seconds 9, dw_salt = ''t'',
     dw_token = ''tok'', dw_jti = ''j'', dw_issue = sample_draw, dw_absent_hash = ''x'', dw_send = (\<lambda>m d. Inl (RuntimeError ''smtp'')),
     dw_other_iso = (\<lambda>s. None)\<rparr>"

definition user_token :: str where
  "user_token = create_access_token plain_ext sample_settings (seconds 1) ''j'' (show_int 2)"

definition support_token :: str where
  "support_token = create_impersonation_token plain_ext sample_settings (seconds 1) ''j'' (show_int 2) (show_int 1)"

lemma pair_facts:
  "wf_app pair_db" "user_get 2 pair_db \<noteq> None" "user_get 1 pair_db \<noteq> None"
  "user_password_changed_at (the (user_get 2 pair_db)) = None" "user_password_changed_at (the (user_get 1 pair_db)) = None"
  "may_impersonate (the (user_get 1 pair_db)) (the (user_get 2 pair_db))"
  "confined \<lparr>actor_user = the (user_get 2 pair_db), actor_impersonator = None\<rparr>"
  "user_id (the (user_get 2 pair_db)) = 2"
  "\<not> isl (pref_update 2 dark_theme pair_db)"
  by code_simp+

lemma user_token_actor:
  "get_actor plain_ext sample_settings (seconds 9) user_token None pair_db = Inr (\<lparr>actor_user = second_user, actor_impersonator = None\<rparr>, None)"
proof -
  have "decode_access_token plain_ext sample_settings (seconds 9) user_token =
      Inr \<lparr>ac_subject = show_int 2, ac_impersonator = None, ac_issued_at = seconds 1 div 1000000 * 1000000\<rparr>"
    unfolding user_token_def using plain_ext_ok(1)
    by (intro decode_issued_access) (simp_all add: datetime_range_def sample_settings_def default_settings_def)
  moreover have "load_subject (show_int 2) t pair_db = Inr second_user" for t
    using pair_facts(2,4) by (auto simp: load_subject_show second_user_def password_moved_after_def)
  ultimately show ?thesis by (simp add: get_actor_def bind_actor_def)
qed

lemma support_token_actor:
  "get_actor plain_ext sample_settings (seconds 9) support_token None pair_db =
     Inr (\<lparr>actor_user = second_user, actor_impersonator = user_get 1 pair_db\<rparr>, None)"
proof -
  have "decode_access_token plain_ext sample_settings (seconds 9) support_token =
      Inr \<lparr>ac_subject = show_int 2, ac_impersonator = Some (show_int 1), ac_issued_at = seconds 1 div 1000000 * 1000000\<rparr>"
    unfolding support_token_def using plain_ext_ok(1)
    by (intro decode_issued_impersonation) (simp_all add: datetime_range_def sample_settings_def default_settings_def)
  moreover have "load_subject (show_int 2) t pair_db = Inr second_user" "load_subject (show_int 1) t pair_db = Inr (the (user_get 1 pair_db))" for t
    using pair_facts(2-5) by (auto simp: load_subject_show second_user_def password_moved_after_def)
  ultimately show ?thesis using pair_facts(3,6) by (auto simp: get_actor_def bind_actor_def second_user_def)
qed

lemma pair_preferences:
  assumes "get_actor plain_ext sample_settings (seconds 9) token None pair_db = Inr (\<lparr>actor_user = second_user, actor_impersonator = i\<rparr>, None)"
  shows "\<exists>reply d'. protected_call sample_world token None (UpdateMyPreferences dark_theme) pair_db = Inr (reply, d')"
proof -
  obtain p d' where "pref_update 2 dark_theme pair_db = Inr (p, d')" using pair_facts(9) not_isl_Inr by (metis surj_pair)
  then show ?thesis using assms pair_facts(8)
    by (auto simp: protected_call_def router_feature_def sample_world_def update_my_preferences_def answer_def second_user_def)
qed

text \<open>
  C1. Whatever protected route a caller uses, with whatever arguments: if it acts under impersonation, or
  holds none of the permissions to manage accounts, roles and feature lists, then a call that succeeds
  leaves every other account exactly as it was, with its row, its roles, its items, its preferences, its
  sessions and its links.
\<close>

theorem confined_calls_touch_own_rows:
  assumes "wf_app d" and "get_actor (dw_ext w) (dw_settings w) (dw_now w) token cx d = Inr (a, cx')" and "confined a"
    and "protected_call w token cx c d = Inr (reply, d')" and "j \<noteq> user_id (actor_user a)"
  shows "private_view j d' = private_view j d"
proof -
  let ?u = "actor_user a"
  have u: "user_get (user_id ?u) d = Some ?u" using get_actor_loaded [OF wf_appD(1) [OF assms(1)] assms(2)] .
  have "run_call w cx' a c d = Inr (reply, d')"
    using assms(2,4) by (auto simp: protected_call_def rbind_eq_Inr)
  with assms(3) show ?thesis
  proof (cases rule: confined_call_cases)
    case reads
    then show ?thesis by simp
  next
    case stopped
    then show ?thesis
      by (auto simp: stop_impersonating_def record_impersonation_def private_view_def pref_get_for_user_def
          intro!: user_get_same_tables)
  next
    case (preferences data p)
    then show ?thesis
      using pref_update_frame [OF preferences] pref_update_other [OF wf_appD(3) [OF assms(1)] preferences assms(5)]
      by (auto simp: private_view_def intro!: user_get_same_tables)
  next
    case (item req)
    then show ?thesis
      using item_request_frame [OF item] item_request_other [OF wf_appD(2) [OF assms(1)] item assms(5)]
      by (auto simp: private_view_def pref_get_for_user_def intro!: user_get_same_tables)
  next
    case (profile data v)
    then have "user_save (?u\<lparr>user_email := given (uu_email data) (user_email ?u), user_name := given (uu_name data) (user_name ?u)\<rparr>) d
        = Inr (v, d')"
      by (cases "uu_email data") (auto simp: service_update_def as_conflict_eq_Inr rbind_eq_Inr split: if_splits)
    then show ?thesis using own_save_other(1) [OF assms(1) u _ _ _ assms(5)] by simp
  next
    case (closed pw)
    then show ?thesis
      using close_account_other [OF assms(1) u _ assms(5)] by (auto simp: deactivate_def raise_error_def split: if_splits)
  next
    case (password data)
    then obtain v d1 where v: "user_save (?u\<lparr>user_hashed_password := hash_password (dw_ext w) (dw_salt w) (pc_new_password data),
        user_password_changed_at := Some (dw_now w)\<rparr>) d = Inr (v, d1)" "d' = snd (revoke_sessions (dw_later w) v d1)"
      by (auto simp: change_password_def rbind_eq_Inr raise_error_def split: if_splits)
    have own: "private_view j d1 = private_view j d" "user_id v = user_id ?u"
      using own_save_other [OF assms(1) u v(1) _ _ assms(5)] by simp_all
    have "filter (\<lambda>t. rt_user_id t = j) (update_where (\<lambda>t. rt_user_id t = user_id v \<and> rt_revoked_at t = None)
        (rt_stamp (dw_later w)) (t_refresh_tokens d1)) = filter (\<lambda>t. rt_user_id t = j) (t_refresh_tokens d1)"
      using own(2) assms(5) by (intro filter_stamped) auto
    moreover have "user_get j d' = user_get j d1"
      unfolding v(2) revoke_sessions_def by (intro user_get_same_tables) simp_all
    ultimately have "private_view j d' = private_view j d1"
      by (simp add: v(2) revoke_sessions_def rt_revoke_all_for_user_def Let_def private_view_def pref_get_for_user_def)
    then show ?thesis using own(1) by simp
  next
    case (link m)
    show ?thesis
    proof (cases "user_email_verified_at ?u = None")
      case True
      then obtain issued where "issue_token (dw_ext w) EMAIL_VERIFICATION (hours (email_verification_expire_hours (dw_settings w)))
          (seconds (mail_resend_cooldown_seconds (dw_settings w))) (dw_token w) (user_id ?u) (dw_now w) d = Inr (issued, d')"
        using link(2) by (auto simp: verification_request_def rbind_eq_Inr)
      from issue_token_frame [OF this assms(5)] show ?thesis
        by (auto simp: private_view_def pref_get_for_user_def intro!: user_get_same_tables)
    qed (use link(2) in \<open>simp add: verification_request_def\<close>)
  qed
qed

theorem confined_calls_touch_own_rows_witness:
  "\<exists>reply d'. protected_call sample_world user_token None (UpdateMyPreferences dark_theme) pair_db = Inr (reply, d') \<and>
     private_view 1 d' = private_view 1 pair_db"
proof -
  let ?a = "\<lparr>actor_user = second_user, actor_impersonator = None\<rparr>"
  obtain reply d' where c: "protected_call sample_world user_token None (UpdateMyPreferences dark_theme) pair_db = Inr (reply, d')"
    using pair_preferences [OF user_token_actor] by blast
  have "confined ?a" "(1::int) \<noteq> user_id (actor_user ?a)" using pair_facts(7,8) by (simp_all add: second_user_def)
  with confined_calls_touch_own_rows [OF pair_facts(1) _ _ c, of ?a None 1] user_token_actor c show ?thesis
    by (auto simp: sample_world_def)
qed

text \<open>
  C2. Impersonation gives the impersonator the account's data but never the account: no call made
  with an impersonation token, whatever the target is allowed to do, changes any account's row, password
  or address, any role or assignment of roles, or any session or link.
\<close>

theorem impersonation_never_takes_over:
  assumes "get_actor (dw_ext w) (dw_settings w) (dw_now w) token cx d = Inr (a, cx')" and "actor_impersonator a \<noteq> None"
    and "protected_call w token cx c d = Inr (reply, d')"
  shows "t_users d' = t_users d \<and> t_user_roles d' = t_user_roles d \<and> t_roles d' = t_roles d \<and>
    t_refresh_tokens d' = t_refresh_tokens d \<and> t_single_use_tokens d' = t_single_use_tokens d"
proof -
  have "confined a" using assms(2) by (simp add: confined_def)
  moreover have "run_call w cx' a c d = Inr (reply, d')"
    using assms(1,3) by (auto simp: protected_call_def rbind_eq_Inr)
  ultimately show ?thesis
  proof (cases rule: confined_call_cases)
    case stopped
    then show ?thesis by (simp add: stop_impersonating_def record_impersonation_def)
  next
    case (preferences data p)
    then show ?thesis using pref_update_frame by blast
  next
    case (item req)
    then show ?thesis using item_request_frame by blast
  qed (use assms(2) in simp_all)
qed

theorem impersonation_never_takes_over_witness:
  "\<exists>reply d'. protected_call sample_world support_token None (UpdateMyPreferences dark_theme) pair_db = Inr (reply, d') \<and>
     t_users d' = t_users pair_db \<and> t_preferences d' \<noteq> t_preferences pair_db"
proof -
  let ?a = "\<lparr>actor_user = second_user, actor_impersonator = user_get 1 pair_db\<rparr>"
  obtain reply d' where c: "protected_call sample_world support_token None (UpdateMyPreferences dark_theme) pair_db = Inr (reply, d')"
    using pair_preferences [OF support_token_actor] by blast
  have "t_users d' = t_users pair_db"
    using impersonation_never_takes_over [OF _ _ c, of ?a None] support_token_actor pair_facts(3) by (simp add: sample_world_def)
  moreover obtain p where "pref_update 2 dark_theme pair_db = Inr (p, d')"
    using c support_token_actor pair_facts(8)
    by (auto simp: protected_call_def router_feature_def sample_world_def update_my_preferences_def answer_eq_Inr rbind_eq_Inr second_user_def)
  moreover have "t_preferences pair_db = []" by code_simp
  ultimately show ?thesis using c
    by (auto simp: pref_update_def pref_get_for_user_def pref_create_def Let_def split: if_splits)
qed

section \<open>The permission to update accounts\<close>

text \<open>
  C39. The permission to update accounts is the permission to be the superadmin: an account that holds it,
  in whatever scope, gives itself the superadmin role in one call, although an account that is not a
  superadmin may neither close nor impersonate one.
\<close>

theorem users_update_reaches_superadmin:
  assumes "wf_accounts d" and "user_get (user_id u) d = Some u" and "scope_for u USERS UPDATE \<noteq> None"
    and "role_get_by_name ADMIN_ROLE d = Some admin"
  shows "\<exists>reply d' v. run_call w cx \<lparr>actor_user = u, actor_impersonator = None\<rparr> (AddUserRole (user_id u) ADMIN_ROLE) d = Inr (reply, d') \<and>
    user_get (user_id u) d' = Some v \<and> is_superuser v"
proof -
  have name: "role_name admin = ADMIN_ROLE" using assms(4) by (auto dest: role_get_by_name_SomeD)
  let ?v = "u\<lparr>user_roles := user_roles u @ [admin]\<rparr>"
  obtain v d' where add: "add_role (user_id u) ADMIN_ROLE d = Inr (v, d')"
  proof (cases "\<exists>held\<in>set (user_roles u). role_name held = ADMIN_ROLE")
    case True
    then show ?thesis using that [of u d] assms(2,4) name by (simp add: add_role_def service_get_def role_named_def)
  next
    case False
    obtain v d' where "user_save ?v d = Inr (v, d')"
      using users.save_ok [OF assms(1), of ?v u] users.get_found [OF assms(1,2)] assms(2) by auto
    then show ?thesis using that [of v d'] False assms(2,4) name by (simp add: add_role_def service_get_def role_named_def)
  qed
  note law = add_role_law [OF assms(1,2,4) add]
  obtain sc where "scope_for u USERS UPDATE = Some sc" using assms(3) by blast
  then have "run_call w cx \<lparr>actor_user = u, actor_impersonator = None\<rparr> (AddUserRole (user_id u) ADMIN_ROLE) d = Inr (OneUser (user_read v), d')"
    using add by (simp add: add_user_role_def require_permission_def answer_def)
  moreover have "user_get (user_id u) d' = Some v" "is_superuser v"
    using law name by (auto simp: writes_only_def is_superuser_def)
  ultimately show ?thesis by blast
qed

text \<open>A third account whose only role may update accounts.\<close>

definition clerk_role :: RoleWrite where
  "clerk_role = \<lparr>rw_name = ''clerk'', rw_grants = [\<lparr>gw_resource = USERS, gw_action = UPDATE, gw_scope = ScopeOwn\<rparr>], rw_features = None\<rparr>"

definition clerk_db :: database where
  "clerk_db = (case rbind (role_service_create clerk_role pair_db) (\<lambda>(r, d). add_role 2 ''clerk'' d) of
     Inr (u, d) \<Rightarrow> d | Inl e \<Rightarrow> empty_db)"

lemma clerk_facts:
  "wf_accounts clerk_db" "user_get 2 clerk_db \<noteq> None" "user_id (the (user_get 2 clerk_db)) = 2"
  "scope_for (the (user_get 2 clerk_db)) USERS UPDATE \<noteq> None" "\<not> is_superuser (the (user_get 2 clerk_db))"
  "role_get_by_name ADMIN_ROLE clerk_db \<noteq> None"
  by code_simp+

theorem users_update_reaches_superadmin_witness:
  "\<exists>u reply d' v. user_get 2 clerk_db = Some u \<and> \<not> is_superuser u \<and>
     run_call sample_world None \<lparr>actor_user = u, actor_impersonator = None\<rparr> (AddUserRole 2 ADMIN_ROLE) clerk_db = Inr (reply, d') \<and>
     user_get 2 d' = Some v \<and> is_superuser v"
proof -
  obtain u admin where u: "user_get 2 clerk_db = Some u" "role_get_by_name ADMIN_ROLE clerk_db = Some admin"
    using clerk_facts(2,6) by auto
  with clerk_facts users_update_reaches_superadmin [of clerk_db u admin sample_world None] show ?thesis by simp
qed

end
