(* ===== verification/Cli.thy ===== *)
theory Cli
  imports Attachments Preferences Jobs SingleUse
begin

text \<open>
  \<open>app/cli/actions.py\<close> and \<open>app/db/demo.py\<close>: the administrative commands and the demo data. A command is its
  message and the database afterwards; an exception rolls its session back.
\<close>

section \<open>Accounts and roles\<close>

definition cli_error :: "error_class \<Rightarrow> str \<Rightarrow> 'a result" where
  "cli_error cls detail = Inl (Domain (make_error cls detail None None))"

definition cli_load :: "str \<Rightarrow> database \<Rightarrow> User result" where
  "cli_load email d =
     (case user_get_by_email (normalize_email email) d of
        None \<Rightarrow> cli_error NotFoundError (''no account is registered as '' @ email)
      | Some user \<Rightarrow> Inr user)"

definition cli_role :: "str \<Rightarrow> database \<Rightarrow> Role result" where
  "cli_role name d =
     (case role_get_by_name name d of
        None \<Rightarrow> cli_error NotFoundError (''no role is named '' @ name)
      | Some found \<Rightarrow> Inr found)"

definition create_superuser :: "ext \<Rightarrow> str \<Rightarrow> time \<Rightarrow> str \<Rightarrow> str \<Rightarrow> database \<Rightarrow> (str \<times> database) result" where
  "create_superuser ext salt now email password d =
     (if user_get_by_email (normalize_email email) d \<noteq> None
      then cli_error ConflictError (email @ '' is already registered'')
      else
        rbind (cli_role ADMIN_ROLE d) (\<lambda>role.
        rbind (user_create (new_user (normalize_email email) None (hash_password ext salt password) (Some now) [role]) d)
          (\<lambda>(user, d'). Inr (''created '' @ user_email user @ '' as '' @ ADMIN_ROLE, d'))))"

definition grant_role :: "str \<Rightarrow> str \<Rightarrow> database \<Rightarrow> (str \<times> database) result" where
  "grant_role email name d =
     rbind (cli_load email d) (\<lambda>user.
       if \<exists>held\<in>set (user_roles user). role_name held = name
       then Inr (user_email user @ '' already holds '' @ name, d)
       else
         rbind (add_role (user_id user) name d) (\<lambda>(user, d').
           Inr (user_email user @ '' now holds '' @ name, d')))"

definition cli_verify_email :: "time \<Rightarrow> str \<Rightarrow> database \<Rightarrow> (str \<times> database) result" where
  "cli_verify_email now email d =
     rbind (cli_load email d) (\<lambda>user.
     rbind (user_save (user\<lparr>user_email_verified_at :=
              (case user_email_verified_at user of Some t \<Rightarrow> Some t | None \<Rightarrow> Some now)\<rparr>) d) (\<lambda>(user, d').
       Inr (user_email user @ '' is confirmed'', d')))"

text \<open>
  The flush of \<open>seed_roles\<close> on a table without roles: the pair of a permission is unique, so a permission that is
  left from before refuses the whole of it.
\<close>

definition flush_seed_roles :: "database \<Rightarrow> database result" where
  "flush_seed_roles d =
     (if \<exists>p\<in>set (t_permissions d). (perm_resource p, perm_action p) \<in> set seed_pairs
      then Inl (IntegrityError UNIQUE_VIOLATION) else Inr (seed_roles d))"

definition seed :: "database \<Rightarrow> (str \<times> database) result" where
  "seed d =
     (if t_roles d \<noteq> [] then Inr (''roles are already seeded'', d)
      else rbind (flush_seed_roles d) (\<lambda>d'. Inr (''seeded the base roles'', d')))"

text \<open>
  \<open>prune\<close>: the four retention jobs in turn, each with the clock it reads; \<open>None\<close> is a run that does not
  return.
\<close>

definition prune :: "Settings \<Rightarrow> (nat \<Rightarrow> time) \<Rightarrow> (nat \<Rightarrow> time) \<Rightarrow> (nat \<Rightarrow> time) \<Rightarrow> time \<Rightarrow> database \<Rightarrow> (str \<times> database) option" where
  "prune s c1 c2 c3 now d =
     Option.bind (prune_audit_log c1 (days (audit_log_retention_days s)) d) (\<lambda>(audit, d1).
     Option.bind (prune_request_log c2 (days (request_log_retention_days s)) d1) (\<lambda>(requests, d2).
     Option.bind (prune_idempotency_keys c3 (hours (idempotency_retention_hours s)) d2) (\<lambda>(keys, d3).
       (let (tokens, d4) = expire_tokens now d3 in
        Some (''removed '' @ show_int audit @ '' audit rows, '' @ show_int requests @ '' request rows, '' @
              show_int keys @ '' idempotency keys and '' @ show_int tokens @ '' expired tokens'', d4)))))"

section \<open>Demo data\<close>

abbreviation DEMO_PASSWORD :: str where "DEMO_PASSWORD \<equiv> ''Change!123''"

record DemoItem =
  di_title :: str
  di_description :: str
  di_deleted :: bool

record DemoAttachment =
  da_item_title :: str
  da_filename :: str
  da_content_type :: str
  da_content :: str

text \<open>The preferences of a demo account are its locale, theme and time zone.\<close>

record DemoUser =
  du_email :: str
  du_role :: str
  du_verified :: bool
  du_preferences :: "(str \<times> str \<times> str) option"
  du_items :: "DemoItem list"
  du_attachments :: "DemoAttachment list"

definition DEMO_USERS :: "DemoUser list" where
  "DEMO_USERS =
    [\<lparr>du_email = ''admin@example.com'', du_role = ADMIN_ROLE, du_verified = True, du_preferences = None,
      du_items = [], du_attachments = []\<rparr>,
     \<lparr>du_email = ''alice@example.com'', du_role = USER_ROLE, du_verified = True,
      du_preferences = Some (''pt-BR'', ''dark'', ''America/Sao_Paulo''),
      du_items =
        [\<lparr>di_title = ''Draft the onboarding guide'', di_description = ''Cover the demo flag and the login flow'', di_deleted = False\<rparr>,
         \<lparr>di_title = ''Review pull request #42'', di_description = ''Check the migration drift test still passes'', di_deleted = False\<rparr>,
         \<lparr>di_title = ''Retired planning doc'', di_description = ''No longer needed now that the roadmap moved'', di_deleted = True\<rparr>],
      du_attachments =
        [\<lparr>da_item_title = ''Draft the onboarding guide'', da_filename = ''notes.txt'', da_content_type = ''text/plain'',
          da_content = ''Remember to mention the DEMO_DATA_ENABLED flag.'' @ [CHR 0x0A]\<rparr>]\<rparr>,
     \<lparr>du_email = ''bob@example.com'', du_role = USER_ROLE, du_verified = True, du_preferences = None,
      du_items =
        [\<lparr>di_title = ''Set up the staging environment'', di_description = ''Point it at the demo dataset'', di_deleted = False\<rparr>,
         \<lparr>di_title = ''Write the release notes'', di_description = ''Summarize the demo-seed command'', di_deleted = False\<rparr>,
         \<lparr>di_title = ''Fix the flaky rate-limit test'', di_description = ''It fails under load, not in isolation'', di_deleted = False\<rparr>],
      du_attachments = []\<rparr>,
     \<lparr>du_email = ''carol@example.com'', du_role = USER_ROLE, du_verified = False, du_preferences = None,
      du_items = [], du_attachments = []\<rparr>]"

text \<open>The items of one account, remembered by title; a retired one is stamped and flushed again.\<close>

fun seed_items :: "time \<Rightarrow> ident \<Rightarrow> DemoItem list \<Rightarrow> database \<Rightarrow> ((str \<times> Item) list \<times> database) result" where
  "seed_items now uid [] d = Inr ([], d)"
| "seed_items now uid (i # rest) d =
     rbind (item_create (di_title i) (Some (di_description i)) uid d) (\<lambda>(item, d1).
     rbind (if di_deleted i then item_flush item (item_mark_deleted now item) d1 else Inr d1) (\<lambda>d2.
     rbind (seed_items now uid rest d2) (\<lambda>(by_title, d3).
       Inr ((di_title i, item) # by_title, d3))))"

fun seed_attachments ::
  "(str \<times> Item) list \<Rightarrow> DemoAttachment list \<Rightarrow> database \<times> blobs \<Rightarrow> (database \<times> blobs) result" where
  "seed_attachments by_title [] w = Inr w"
| "seed_attachments by_title (a # rest) w =
     (case map_of by_title (da_item_title a) of
        None \<Rightarrow> Inl (KeyError (da_item_title a))
      | Some item \<Rightarrow>
          (let key = ''demo/'' @ show_int (item_id item) @ ''/'' @ da_filename a in
           rbind (attachment_create key (da_filename a) (da_content_type a) (int (length (da_content a))) (item_id item) (fst w))
             (\<lambda>(row, d'). seed_attachments by_title rest (d', (snd w)(key \<mapsto> da_content a)))))"

definition seed_account :: "ext \<Rightarrow> str \<Rightarrow> time \<Rightarrow> DemoUser \<Rightarrow> database \<times> blobs \<Rightarrow> (database \<times> blobs) result" where
  "seed_account ext salt now u w =
     rbind (cli_role (du_role u) (fst w)) (\<lambda>role.
     rbind (user_create (new_user (du_email u) None (hash_password ext salt DEMO_PASSWORD)
              (if du_verified u then Some now else None) [role]) (fst w)) (\<lambda>(user, d1).
     rbind (case du_preferences u of
              None \<Rightarrow> Inr d1
            | Some (l, t, z) \<Rightarrow>
                rbind (pref_create ((default_preferences (user_id user))\<lparr>pref_locale := l, pref_theme := t, pref_timezone := z\<rparr>) d1)
                  (\<lambda>(p, d'). Inr d')) (\<lambda>d2.
     rbind (seed_items now (user_id user) (du_items u) d2) (\<lambda>(by_title, d3).
       seed_attachments by_title (du_attachments u) (d3, snd w)))))"

fun seed_accounts :: "ext \<Rightarrow> str \<Rightarrow> time \<Rightarrow> DemoUser list \<Rightarrow> database \<times> blobs \<Rightarrow> (database \<times> blobs) result" where
  "seed_accounts ext salt now [] w = Inr w"
| "seed_accounts ext salt now (u # us) w =
     rbind (seed_account ext salt now u w) (seed_accounts ext salt now us)"

definition seed_demo :: "ext \<Rightarrow> str \<Rightarrow> time \<Rightarrow> database \<times> blobs \<Rightarrow> ((int \<times> int \<times> int) \<times> database \<times> blobs) result" where
  "seed_demo ext salt now w =
     rbind (seed_accounts ext salt now DEMO_USERS w) (\<lambda>w'.
       Inr ((int (length DEMO_USERS), int (length (concat (map du_items DEMO_USERS))),
             int (length (concat (map du_attachments DEMO_USERS)))), w'))"

text \<open>\<open>deps.get_storage\<close>: the root of the only backend there is. The blobs are those of that root.\<close>

definition get_storage :: "Settings \<Rightarrow> str result" where
  "get_storage s =
     (if storage_backend s = ''local'' then Inr (storage_root s)
      else Inl (ValueError (''unknown storage backend: '' @ storage_backend s)))"

definition demo_seed ::
  "ext \<Rightarrow> Settings \<Rightarrow> str \<Rightarrow> time \<Rightarrow> bool \<Rightarrow> database \<times> blobs \<Rightarrow> (str \<times> database \<times> blobs) result" where
  "demo_seed ext s salt now if_enabled w =
     (if if_enabled \<and> \<not> demo_data_enabled s then Inr (''demo data is turned off'', w)
      else if t_users (fst w) \<noteq> [] then Inr (''the database already has accounts; demo data was not written'', w)
      else
        (rbind (if t_roles (fst w) = [] then flush_seed_roles (fst w) else Inr (fst w)) (\<lambda>d.
         rbind (get_storage s) (\<lambda>root.
         rbind (seed_demo ext salt now (d, snd w)) (\<lambda>((users, items, attachments), w').
           Inr (''seeded '' @ show_int users @ '' demo users, '' @ show_int items @ '' items, '' @
                show_int attachments @ '' attachments'', w'))))))"

section \<open>What the commands promise\<close>

lemma create_superuser_law:
  assumes "wf_accounts d" and "role_get_by_name ADMIN_ROLE d = Some admin" and "user_get_by_email (normalize_email email) d = None"
    and "length (normalize_email email) \<le> 255"
  obtains u d' where "create_superuser ext salt now email password d = Inr (''created '' @ user_email u @ '' as '' @ ADMIN_ROLE, d')"
    "wf_accounts d'" "user_get_by_email (normalize_email email) d' = Some u" "user_get (user_id u) d = None"
    "account_fields u = account_fields (new_user (normalize_email email) None (hash_password ext salt password) (Some now) [admin])"
    "\<And>i. user_get i d' = (if i = user_id u then Some u else user_get i d)"
proof -
  let ?new = "new_user (normalize_email email) None (hash_password ext salt password) (Some now) [admin]"
  obtain u d' where c: "user_create ?new d = Inr (u, d')" using users.create_ok [of ?new d] assms(3,4) by (auto simp: user_too_long_def)
  have asg: "assignable ?new d" using assms(2) by (rule assignable_new_user)
  note law = users.create_law [OF assms(1) asg _ c]
  have "user_get_by_email (normalize_email email) d' = Some u"
    using users.get_by_email_after_create [OF assms(1) asg _ c, of "normalize_email email"] assms(3) law by simp
  with law c assms(2,3,4) show ?thesis by (intro that [of u d']) (auto simp: create_superuser_def cli_role_def)
qed

text \<open>
  Creating a superuser at the command line is refused for an address that an open account has, in any
  spelling. Otherwise the new account signs in at once with that password and with no other, its address
  counts as confirmed, it may do everything to everything, and no other account has changed.
\<close>

theorem created_superuser_signs_in:
  assumes "wf_accounts d" and "role_get_by_name ADMIN_ROLE d = Some admin" and "length (normalize_email email) \<le> 255"
    and "pw_complete ext" and "pw_sound ext"
  shows "if user_get_by_email (normalize_email email) d \<noteq> None
    then error_code_of (create_superuser ext salt now email password d) = Some CONFLICT
    else \<exists>u message d'. create_superuser ext salt now email password d = Inr (message, d') \<and> wf_accounts d' \<and>
      authenticate ext s absent draw email password d' = issue_pair ext s draw u d' \<and>
      (\<forall>attempt. attempt = password \<or> error_code_of (authenticate ext s absent draw email attempt d') = Some AUTH_BAD_LOGIN) \<and>
      (\<forall>resource action. scope_for u resource action = Some ScopeAll) \<and>
      (\<forall>i. user_get i d' = (if i = user_id u then Some u else user_get i d))"
proof (cases "user_get_by_email (normalize_email email) d = None")
  case True
  obtain u d' where c: "create_superuser ext salt now email password d = Inr (''created '' @ user_email u @ '' as '' @ ADMIN_ROLE, d')"
    "wf_accounts d'" "user_get_by_email (normalize_email email) d' = Some u"
    "account_fields u = account_fields (new_user (normalize_email email) None (hash_password ext salt password) (Some now) [admin])"
    "\<And>i. user_get i d' = (if i = user_id u then Some u else user_get i d)"
    using create_superuser_law [OF assms(1,2) True assms(3)] by metis
  have f: "user_hashed_password u = hash_password ext salt password" "user_email_verified_at u = Some now" "set (user_roles u) = {admin}"
    using c(4) by simp_all
  have "role_name admin = ADMIN_ROLE" using assms(2) by (auto dest: role_get_by_name_SomeD)
  then have "is_superuser u" using f(3) by (simp add: is_superuser_def)
  then have "scope_for u resource action = Some ScopeAll" for resource action by (simp add: scope_for_def)
  moreover have "authenticate ext s absent draw email password d' = issue_pair ext s draw u d'"
    using c(3) f assms(4) by (simp add: authenticate_def verify_password_def hash_password_def pw_complete_def)
  moreover have "attempt = password \<or> error_code_of (authenticate ext s absent draw email attempt d') = Some AUTH_BAD_LOGIN" for attempt
    using c(3) f assms(5) by (auto simp: authenticate_def raise_error_def make_error_def error_code_of_def verify_password_def hash_password_def pw_sound_def)
  ultimately show ?thesis using True c by auto
next
  case False
  then show ?thesis by (simp add: create_superuser_def cli_error_def error_code_of_def make_error_def)
qed

theorem created_superuser_signs_in_witness:
  "\<exists>u message d'. create_superuser plain_ext ''s'' 5 ''Root@b.co'' ''password1'' seeded_db = Inr (message, d') \<and>
     authenticate plain_ext sample_settings ''x'' sample_draw ''root@B.co'' ''password1'' d' = issue_pair plain_ext sample_settings sample_draw u d' \<and>
     scope_for u USERS DELETE = Some ScopeAll"
proof -
  obtain admin where r: "role_get_by_name ADMIN_ROLE seeded_db = Some admin" using seeded_roles by auto
  have e: "length (normalize_email ''Root@b.co'') \<le> 255" "normalize_email ''root@B.co'' = normalize_email ''Root@b.co''" by code_simp+
  have "user_get_by_email (normalize_email ''Root@b.co'') seeded_db = None" by (simp add: user_get_by_email_None_iff seeded_roles)
  with created_superuser_signs_in [OF wf_seeded_db(1) r e(1) plain_ext_ok(2,3), of "''s''" 5 "''password1''" sample_settings "''x''" sample_draw]
  have "\<exists>u message d'. create_superuser plain_ext ''s'' 5 ''Root@b.co'' ''password1'' seeded_db = Inr (message, d') \<and>
      authenticate plain_ext sample_settings ''x'' sample_draw ''Root@b.co'' ''password1'' d' = issue_pair plain_ext sample_settings sample_draw u d' \<and>
      scope_for u USERS DELETE = Some ScopeAll" by (simp only: not_True_eq_False if_False simp_thms) blast
  moreover have "authenticate plain_ext sample_settings ''x'' sample_draw ''root@B.co'' p d = authenticate plain_ext sample_settings ''x'' sample_draw ''Root@b.co'' p d" for p d
    by (simp only: authenticate_def e(2))
  ultimately show ?thesis by simp
qed

subsection \<open>Demo data\<close>

lemma demo_seed_again: "t_users d \<noteq> [] \<Longrightarrow> \<exists>m. demo_seed ext s salt now e (d, blobs) = Inr (m, d, blobs)"
  by (auto simp: demo_seed_def)

lemma demo_world:
  "case demo_seed plain_ext sample_settings ''s'' 5 False (empty_db, Map.empty) of
     Inl e \<Rightarrow> False
   | Inr (message, d, blobs) \<Rightarrow>
       message = ''seeded 4 demo users, 6 items, 1 attachments'' \<and> length (t_users d) = 4 \<and> wf_accounts d \<and>
       wf_items d \<and> wf_preferences d \<and> length (filter item_is_active (t_items d)) = 5 \<and>
       list_all (\<lambda>a. map_option length (blobs (att_key a)) = Some (nat (att_size_bytes a))) (t_attachments d) \<and>
       list_all (\<lambda>u. verify_password plain_ext DEMO_PASSWORD (user_hashed_password u)) (t_users d)"
  by code_simp

text \<open>
  The demo command fills an empty deployment once: it writes its four accounts with the demo password,
  six items of which one is already retired, and an attachment whose blob is stored with the recorded
  size, all of it well formed; after that, and on any deployment that has an account, the command
  changes nothing.
\<close>

theorem demo_seed_fills_once:
  "\<exists>d blobs. demo_seed plain_ext sample_settings ''s'' 5 False (empty_db, Map.empty) =
       Inr (''seeded 4 demo users, 6 items, 1 attachments'', d, blobs) \<and>
     wf_accounts d \<and> wf_items d \<and> wf_preferences d \<and> length (filter item_is_active (t_items d)) = 5 \<and>
     list_all (\<lambda>a. map_option length (blobs (att_key a)) = Some (nat (att_size_bytes a))) (t_attachments d) \<and>
     list_all (\<lambda>u. verify_password plain_ext DEMO_PASSWORD (user_hashed_password u)) (t_users d) \<and>
     (\<forall>ext s salt now e. \<exists>m. demo_seed ext s salt now e (d, blobs) = Inr (m, d, blobs))"
proof -
  obtain message d blobs where r: "demo_seed plain_ext sample_settings ''s'' 5 False (empty_db, Map.empty) = Inr (message, d, blobs)"
    using demo_world by (auto split: sum.splits)
  with demo_world have "t_users d \<noteq> []" by auto
  with r demo_world demo_seed_again show ?thesis by auto
qed

end
