(* ===== verification/Delivery.thy ===== *)
theory Delivery
  imports Mail
begin

text \<open>
  \<open>app/core/mail/sender.py\<close> and \<open>get_mail_sender\<close> of \<open>app/api/deps.py\<close>: which sender a deployment
  uses, and the conversation that \<open>SmtpMailSender\<close> has with its server. The server's side is the
  argument \<open>reply\<close>: the exception with which it, or the network, ends a step.
\<close>

section \<open>Senders\<close>

record SmtpMailSender =
  smtp_sender :: str
  smtp_sender_host :: str
  smtp_sender_port :: int
  smtp_sender_username :: "str option"
  smtp_sender_password :: "str option"
  smtp_use_starttls :: bool
  smtp_timeout :: int

abbreviation SMTP_TIMEOUT_SECONDS :: int where
  "SMTP_TIMEOUT_SECONDS \<equiv> 10"

datatype MailSender = Logging str | Smtp SmtpMailSender

definition get_mail_sender :: "Settings \<Rightarrow> MailSender" where
  "get_mail_sender settings =
     (if mail_backend settings = ''smtp''
      then Smtp \<lparr>smtp_sender = mail_from settings, smtp_sender_host = smtp_host settings,
        smtp_sender_port = smtp_port settings, smtp_sender_username = smtp_username settings,
        smtp_sender_password = smtp_password settings, smtp_use_starttls = smtp_starttls settings,
        smtp_timeout = SMTP_TIMEOUT_SECONDS\<rparr>
      else Logging (mail_from settings))"

section \<open>Delivery\<close>

record EmailMessage =
  msg_from :: str
  msg_to :: str
  msg_subject :: str
  msg_content :: str

datatype smtp_step =
    Connect str int int
  | StartTls
  | Login str str
  | SendMessage EmailMessage
  | Quit

text \<open>The steps in turn, until one raises; the trace has every step that was begun.\<close>

fun converse :: "(smtp_step \<Rightarrow> exn option) \<Rightarrow> smtp_step list \<Rightarrow> smtp_step list \<times> exn option" where
  "converse reply [] = ([], None)"
| "converse reply (x # xs) =
     (case reply x of
        Some e \<Rightarrow> ([x], Some e)
      | None \<Rightarrow> (let (trace, result) = converse reply xs in (x # trace, result)))"

definition truthy :: "str option \<Rightarrow> bool" where
  "truthy v \<longleftrightarrow> v \<noteq> None \<and> v \<noteq> Some []"

definition message_of :: "SmtpMailSender \<Rightarrow> Mail \<Rightarrow> EmailMessage" where
  "message_of s mail = \<lparr>msg_from = smtp_sender s, msg_to = mail_to mail, msg_subject = mail_subject mail,
     msg_content = mail_body mail\<rparr>"

text \<open>\<open>_deliver\<close>: the body of the \<open>with\<close> block, then the block's own \<open>QUIT\<close> once connected, whose
  failure replaces any other.\<close>

definition smtp_session :: "SmtpMailSender \<Rightarrow> Mail \<Rightarrow> smtp_step list" where
  "smtp_session s mail =
     (if smtp_use_starttls s then [StartTls] else [])
     @ (if truthy (smtp_sender_username s) \<and> truthy (smtp_sender_password s)
        then [Login (the (smtp_sender_username s)) (the (smtp_sender_password s))] else [])
     @ [SendMessage (message_of s mail)]"

definition deliver ::
  "(smtp_step \<Rightarrow> exn option) \<Rightarrow> SmtpMailSender \<Rightarrow> Mail \<Rightarrow> smtp_step list \<times> exn option" where
  "deliver reply s mail =
     (let connect = Connect (smtp_sender_host s) (smtp_sender_port s) (smtp_timeout s) in
      case reply connect of
        Some e \<Rightarrow> ([connect], Some e)
      | None \<Rightarrow> (let (trace, result) = converse reply (smtp_session s mail)
                 in (connect # trace @ [Quit], case reply Quit of Some e \<Rightarrow> Some e | None \<Rightarrow> result)))"

text \<open>\<open>LoggingMailSender.send\<close> writes one log event and contacts nobody.\<close>

definition send :: "(smtp_step \<Rightarrow> exn option) \<Rightarrow> MailSender \<Rightarrow> Mail \<Rightarrow> (str \<times> str) list list \<times> smtp_step list \<times> exn option" where
  "send reply sender mail =
     (case sender of
        Logging from \<Rightarrow> ([[(''event'', ''mail''), (''sender'', from), (''to'', mail_to mail),
            (''subject'', mail_subject mail), (''body'', mail_body mail)]], [], None)
      | Smtp s \<Rightarrow> (let (trace, result) = deliver reply s mail in ([], trace, result)))"

section \<open>Lemmas\<close>

lemma converse_done: "snd (converse reply xs) = None \<Longrightarrow> fst (converse reply xs) = xs"
  by (induction xs) (auto simp: split_beta split: option.splits)

section \<open>Properties\<close>

text \<open>
  C28. With \<open>STARTTLS\<close> switched on, neither the credentials nor the message leave for the server before
  the connection is encrypted: whatever the server answers, a login or a message in the conversation
  comes after a \<open>STARTTLS\<close> that succeeded. And a delivery that does not raise has sent exactly the
  message, once, as the last thing before \<open>QUIT\<close>.
\<close>

theorem mail_leaves_encrypted:
  assumes "smtp_use_starttls s"
  shows "(\<forall>before x later. fst (deliver reply s mail) = before @ x # later \<and> (\<exists>u p m. x = Login u p \<or> x = SendMessage m)
      \<longrightarrow> StartTls \<in> set before \<and> reply StartTls = None)
    \<and> (snd (deliver reply s mail) = None \<longrightarrow>
        (\<exists>steps. fst (deliver reply s mail) = steps @ [SendMessage (message_of s mail), Quit]
           \<and> (\<forall>m. SendMessage m \<notin> set steps)))"
proof -
  let ?connect = "Connect (smtp_sender_host s) (smtp_sender_port s) (smtp_timeout s)"
  define rest where "rest = tl (smtp_session s mail)"
  have session: "smtp_session s mail = StartTls # rest"
    using assms by (simp add: smtp_session_def rest_def)
  have "StartTls \<in> set before \<and> reply StartTls = None"
    if x: "fst (deliver reply s mail) = before @ x # later" "\<exists>u p m. x = Login u p \<or> x = SendMessage m" for before x later
  proof (cases "reply ?connect")
    case (Some e)
    then show ?thesis
      using x by (auto simp: deliver_def Cons_eq_append_conv)
  next
    case connected: None
    show ?thesis
    proof (cases "reply StartTls")
      case (Some e)
      then show ?thesis
        using x connected by (auto simp: deliver_def session Cons_eq_append_conv)
    next
      case None
      then have "fst (deliver reply s mail) = ?connect # StartTls # fst (converse reply rest) @ [Quit]"
        using connected by (simp add: deliver_def session split_beta)
      then show ?thesis
        using x None by (cases before; cases "tl before") auto
    qed
  qed
  moreover have "\<exists>steps. fst (deliver reply s mail) = steps @ [SendMessage (message_of s mail), Quit]
      \<and> (\<forall>m. SendMessage m \<notin> set steps)" if ok: "snd (deliver reply s mail) = None"
  proof -
    from ok have "reply ?connect = None" "snd (converse reply (smtp_session s mail)) = None"
      by (auto simp: deliver_def split_beta Let_def split: option.splits)
    then have "fst (deliver reply s mail) =
        (?connect # butlast (smtp_session s mail)) @ [SendMessage (message_of s mail), Quit]"
      using converse_done [of reply "smtp_session s mail"]
      by (simp add: deliver_def split_beta smtp_session_def butlast_append)
    moreover have "SendMessage m \<notin> set (?connect # butlast (smtp_session s mail))" for m
      by (auto simp: smtp_session_def butlast_append)
    ultimately show ?thesis
      by blast
  qed
  ultimately show ?thesis
    by blast
qed

definition sample_sender :: SmtpMailSender where
  "sample_sender = \<lparr>smtp_sender = ''app@x'', smtp_sender_host = ''mx'', smtp_sender_port = 587,
     smtp_sender_username = Some ''app'', smtp_sender_password = Some ''pw'', smtp_use_starttls = True,
     smtp_timeout = SMTP_TIMEOUT_SECONDS\<rparr>"

definition sample_mail :: Mail where
  "sample_mail = \<lparr>mail_to = ''ada@x'', mail_subject = ''Hi'', mail_body = ''Hello''\<rparr>"

theorem mail_leaves_encrypted_witness:
  "smtp_use_starttls sample_sender
   \<and> fst (deliver (\<lambda>_. None) sample_sender sample_mail) =
       [Connect ''mx'' 587 10, StartTls] @ Login ''app'' ''pw'' # [SendMessage (message_of sample_sender sample_mail), Quit]
   \<and> StartTls \<in> set [Connect ''mx'' 587 10, StartTls]
   \<and> (\<exists>steps. fst (deliver (\<lambda>_. None) sample_sender sample_mail) =
         steps @ [SendMessage (message_of sample_sender sample_mail), Quit] \<and> (\<forall>m. SendMessage m \<notin> set steps))"
proof -
  have tls: "smtp_use_starttls sample_sender"
    by (simp add: sample_sender_def)
  have trace: "fst (deliver (\<lambda>_. None) sample_sender sample_mail) =
       [Connect ''mx'' 587 10, StartTls] @ Login ''app'' ''pw'' # [SendMessage (message_of sample_sender sample_mail), Quit]"
    and ok: "snd (deliver (\<lambda>_. None) sample_sender sample_mail) = None"
    by (simp_all add: deliver_def smtp_session_def sample_sender_def truthy_def)
  show ?thesis
    using mail_leaves_encrypted [OF tls, of "\<lambda>_. None" sample_mail] tls trace ok by blast
qed

end
