(* ===== verification/Logging.thy ===== *)
theory Logging
  imports Config
begin

text \<open>
  \<open>app/core/observability/logging.py\<close>, with \<open>add_request_id\<close> of \<open>request_context.py\<close> and
  \<open>add_trace_ids\<close> of \<open>tracing.py\<close>: the processors that every log event passes, and the configuration of
  the standard library's loggers. An event is the list of its keys and values. The processors that
  structlog provides are arguments.
\<close>

section \<open>Events\<close>

type_synonym event_dict = "(str \<times> str) list"

text \<open>What a processor reads: the request's identifier and the current span's context.\<close>

record log_context =
  lc_request_id :: "str option"
  lc_span :: "(nat \<times> nat) option"

definition set_key :: "str \<Rightarrow> str \<Rightarrow> event_dict \<Rightarrow> event_dict" where
  "set_key k v ev = (k, v) # filter (\<lambda>(j, w). j \<noteq> k) ev"

definition hex_lower :: "nat \<Rightarrow> char" where
  "hex_lower n = (if n < 10 then char_of (48 + n) else char_of (87 + n))"

text \<open>\<open>format(n, "032x")\<close>: hexadecimal digits, zero-padded to a width.\<close>

fun hex_digits :: "nat \<Rightarrow> str" where
  "hex_digits n = (if n < 16 then [hex_lower n] else hex_digits (n div 16) @ [hex_lower (n mod 16)])"

declare hex_digits.simps [simp del]

definition hex_padded :: "nat \<Rightarrow> nat \<Rightarrow> str" where
  "hex_padded width n = replicate (width - length (hex_digits n)) (CHR ''0'') @ hex_digits n"

definition add_request_id :: "log_context \<Rightarrow> event_dict \<Rightarrow> event_dict" where
  "add_request_id ctx ev = (case lc_request_id ctx of None \<Rightarrow> ev | Some rid \<Rightarrow> set_key ''request_id'' rid ev)"

text \<open>A span's context is valid when neither identifier is zero.\<close>

definition add_trace_ids :: "log_context \<Rightarrow> event_dict \<Rightarrow> event_dict" where
  "add_trace_ids ctx ev =
     (case lc_span ctx of
        None \<Rightarrow> ev
      | Some (trace, span) \<Rightarrow>
          (if trace \<noteq> 0 \<and> span \<noteq> 0
           then set_key ''span_id'' (hex_padded 16 span) (set_key ''trace_id'' (hex_padded 32 trace) ev)
           else ev))"

definition add_service :: "str \<Rightarrow> event_dict \<Rightarrow> event_dict" where
  "add_service service ev = set_key ''service'' service ev"

datatype library_processor = MergeContextvars | AddLogLevel | AddLoggerName | TimeStamper | StackInfoRenderer

datatype processor =
    Library library_processor
  | AddRequestId
  | AddTraceIds
  | AddService str

definition shared_processors :: "str \<Rightarrow> processor list" where
  "shared_processors service =
     [Library MergeContextvars, AddRequestId, AddTraceIds, AddService service, Library AddLogLevel,
      Library AddLoggerName, Library TimeStamper, Library StackInfoRenderer]"

primrec run_processor ::
  "(library_processor \<Rightarrow> event_dict \<Rightarrow> event_dict) \<Rightarrow> log_context \<Rightarrow> processor \<Rightarrow> event_dict \<Rightarrow> event_dict" where
  "run_processor lib ctx (Library p) ev = lib p ev"
| "run_processor lib ctx AddRequestId ev = add_request_id ctx ev"
| "run_processor lib ctx AddTraceIds ev = add_trace_ids ctx ev"
| "run_processor lib ctx (AddService name) ev = add_service name ev"

definition process_event ::
  "(library_processor \<Rightarrow> event_dict \<Rightarrow> event_dict) \<Rightarrow> log_context \<Rightarrow> processor list \<Rightarrow> event_dict \<Rightarrow> event_dict" where
  "process_event lib ctx ps ev = fold (run_processor lib ctx) ps ev"

section \<open>Loggers\<close>

datatype renderer = JSONRenderer | ConsoleRenderer bool

record formatter =
  fm_chain :: "processor list"
  fm_format_exc_info :: bool
  fm_renderer :: renderer

definition build_formatter :: "bool \<Rightarrow> bool \<Rightarrow> processor list \<Rightarrow> formatter" where
  "build_formatter isatty json_format shared =
     (if json_format then \<lparr>fm_chain = shared, fm_format_exc_info = True, fm_renderer = JSONRenderer\<rparr>
      else \<lparr>fm_chain = shared, fm_format_exc_info = False, fm_renderer = ConsoleRenderer isatty\<rparr>)"

abbreviation LOG_FILE_MAX_BYTES :: int where
  "LOG_FILE_MAX_BYTES \<equiv> 10 * 1024 * 1024"

abbreviation LOG_FILE_BACKUP_COUNT :: int where
  "LOG_FILE_BACKUP_COUNT \<equiv> 3"

datatype handler_kind =
    StreamHandler
  | RotatingFileHandler str int int
  | ForeignHandler

text \<open>A handler object: its identity, what it writes to, its formatter.\<close>

record handler =
  h_object :: nat
  h_kind :: handler_kind
  h_formatter :: "formatter option"

record logger =
  lg_handlers :: "handler list"
  lg_propagate :: bool

record logging_state =
  ls_root :: "handler list"
  ls_level :: str
  ls_loggers :: "str \<Rightarrow> logger"
  ls_closed :: "handler list"
  ls_processors :: "processor list"
  ls_fresh :: nat

definition UVICORN_LOGGERS :: "str list" where
  "UVICORN_LOGGERS = [''uvicorn'', ''uvicorn.error'', ''uvicorn.access'']"

definition file_handler :: "nat \<Rightarrow> str \<Rightarrow> formatter \<Rightarrow> handler" where
  "file_handler object path f =
     \<lparr>h_object = object, h_kind = RotatingFileHandler path LOG_FILE_MAX_BYTES LOG_FILE_BACKUP_COUNT,
      h_formatter = Some f\<rparr>"

fun close_handlers :: "handler list \<Rightarrow> logging_state \<Rightarrow> logging_state" where
  "close_handlers [] s = s"
| "close_handlers (h # hs) s = close_handlers hs (s\<lparr>ls_root := remove1 h (ls_root s), ls_closed := ls_closed s @ [h]\<rparr>)"

definition quiet_logger :: "str \<Rightarrow> logging_state \<Rightarrow> logging_state" where
  "quiet_logger name s =
     s\<lparr>ls_loggers := (ls_loggers s)(name := (ls_loggers s name)\<lparr>lg_handlers := [], lg_propagate := True\<rparr>)\<rparr>"

definition upper_char :: "char \<Rightarrow> char" where
  "upper_char c = (if CHR ''a'' \<le> c \<and> c \<le> CHR ''z'' then char_of (of_char c - 32 :: nat) else c)"

definition configure_logging ::
  "bool \<Rightarrow> str \<Rightarrow> bool \<Rightarrow> str \<Rightarrow> str option \<Rightarrow> logging_state \<Rightarrow> logging_state" where
  "configure_logging isatty level json_format service path_opt s =
     (let shared = shared_processors service;
          f = build_formatter isatty json_format shared;
          stream = \<lparr>h_object = ls_fresh s, h_kind = StreamHandler, h_formatter = Some f\<rparr>;
          handlers = stream # (case path_opt of
              None \<Rightarrow> []
            | Some path \<Rightarrow> (if path = [] then []
                           else [file_handler (ls_fresh s + 1) path (build_formatter isatty True shared)]));
          s1 = s\<lparr>ls_processors := shared, ls_fresh := ls_fresh s + length handlers\<rparr>;
          s2 = close_handlers (ls_root s1) s1;
          s3 = s2\<lparr>ls_root := ls_root s2 @ handlers, ls_level := map upper_char level\<rparr>
      in fold quiet_logger UVICORN_LOGGERS s3)"

section \<open>Lemmas\<close>

lemma map_of_set_key [simp]: "map_of (set_key k v ev) j = (if j = k then Some v else map_of ev j)"
  by (induction ev) (auto simp: set_key_def)

lemma close_handlers_spec:
  "ls_root (close_handlers hs s) = foldl (\<lambda>r h. remove1 h r) (ls_root s) hs"
  "ls_closed (close_handlers hs s) = ls_closed s @ hs"
  "ls_loggers (close_handlers hs s) = ls_loggers s" "ls_processors (close_handlers hs s) = ls_processors s"
  "ls_level (close_handlers hs s) = ls_level s" "ls_fresh (close_handlers hs s) = ls_fresh s"
  by (induction hs arbitrary: s) simp_all

lemma remove_all: "foldl (\<lambda>r h. remove1 h r) hs hs = []"
  by (induction hs) simp_all

lemma quiet_loggers_keep:
  "ls_root (fold quiet_logger ns s) = ls_root s" "ls_closed (fold quiet_logger ns s) = ls_closed s"
  "ls_processors (fold quiet_logger ns s) = ls_processors s" "ls_level (fold quiet_logger ns s) = ls_level s"
  by (induction ns arbitrary: s) (simp_all add: quiet_logger_def)

lemma quiet_loggers:
  "ls_loggers (fold quiet_logger ns s) name =
     (if name \<in> set ns then (ls_loggers s name)\<lparr>lg_handlers := [], lg_propagate := True\<rparr> else ls_loggers s name)"
  by (induction ns arbitrary: s) (auto simp: quiet_logger_def)

section \<open>Properties\<close>

text \<open>
  Every log event that passes the configured processors names the service and, while a request is
  being served, carries that request's identifier, whatever the event, the bound context variables or the
  caller had put under those keys. The library's processors that run after the application's are only
  required to leave these two keys alone.
\<close>

theorem events_carry_service_and_request:
  assumes "\<forall>p ev. p \<noteq> MergeContextvars \<longrightarrow> map_of (lib p ev) ''service'' = map_of ev ''service''
      \<and> map_of (lib p ev) ''request_id'' = map_of ev ''request_id''"
  shows "map_of (process_event lib ctx (shared_processors service) ev) ''service'' = Some service
    \<and> (\<forall>rid. lc_request_id ctx = Some rid \<longrightarrow>
        map_of (process_event lib ctx (shared_processors service) ev) ''request_id'' = Some rid)"
  using assms
  by (auto simp: process_event_def shared_processors_def add_service_def add_trace_ids_def add_request_id_def
      split: option.splits)

definition plain_library :: "library_processor \<Rightarrow> event_dict \<Rightarrow> event_dict" where
  "plain_library p ev = (case p of
      AddLogLevel \<Rightarrow> set_key ''level'' ''info'' ev
    | MergeContextvars \<Rightarrow> set_key ''request_id'' ''stale'' ev
    | _ \<Rightarrow> ev)"

theorem events_carry_service_and_request_witness:
  "map_of (process_event plain_library \<lparr>lc_request_id = Some ''r1'', lc_span = None\<rparr>
      (shared_processors ''api'') [(''event'', ''x''), (''service'', ''forged'')]) ''service'' = Some ''api''
   \<and> map_of (process_event plain_library \<lparr>lc_request_id = Some ''r1'', lc_span = None\<rparr>
      (shared_processors ''api'') [(''event'', ''x''), (''service'', ''forged'')]) ''request_id'' = Some ''r1''"
proof -
  have lib: "\<forall>p ev. p \<noteq> MergeContextvars \<longrightarrow> map_of (plain_library p ev) ''service'' = map_of ev ''service''
      \<and> map_of (plain_library p ev) ''request_id'' = map_of ev ''request_id''"
    by (simp add: plain_library_def split: library_processor.splits)
  show ?thesis
    using events_carry_service_and_request [OF lib, of "\<lparr>lc_request_id = Some ''r1'', lc_span = None\<rparr>" "''api''"
        "[(''event'', ''x''), (''service'', ''forged'')]"] by simp
qed

text \<open>
  Configuring logging leaves the root logger with exactly the handlers of this call, however often
  and with whatever it was configured before: one stream handler and, when a log file is named, one
  rotating file handler that always writes JSON. Every handler that was there is closed, the level is the
  upper-cased one, the server's own loggers have no handlers and hand their events on, and no other logger
  changes.
\<close>

theorem configure_logging_outcome:
  "let s' = configure_logging isatty level json_format service path_opt s in
     map h_kind (ls_root s') = StreamHandler # (case path_opt of
         None \<Rightarrow> [] | Some path \<Rightarrow> (if path = [] then [] else [RotatingFileHandler path 10485760 3]))
     \<and> (\<forall>h\<in>set (ls_root s'). h_formatter h = Some (build_formatter isatty
          (json_format \<or> h_kind h \<noteq> StreamHandler) (shared_processors service)))
     \<and> ls_closed s' = ls_closed s @ ls_root s
     \<and> ls_level s' = map upper_char level
     \<and> ls_processors s' = shared_processors service
     \<and> (\<forall>name. (if name \<in> set UVICORN_LOGGERS
          then lg_handlers (ls_loggers s' name) = [] \<and> lg_propagate (ls_loggers s' name)
          else ls_loggers s' name = ls_loggers s name))"
proof -
  let ?s' = "configure_logging isatty level json_format service path_opt s"
  have "map h_kind (ls_root ?s') = StreamHandler # (case path_opt of
         None \<Rightarrow> [] | Some path \<Rightarrow> (if path = [] then [] else [RotatingFileHandler path 10485760 3]))"
    by (simp add: configure_logging_def Let_def quiet_loggers_keep close_handlers_spec remove_all file_handler_def
        split: option.splits)
  moreover have "h_formatter h = Some (build_formatter isatty (json_format \<or> h_kind h \<noteq> StreamHandler)
      (shared_processors service))" if "h \<in> set (ls_root ?s')" for h
    using that
    by (auto simp: configure_logging_def Let_def quiet_loggers_keep close_handlers_spec remove_all file_handler_def
        split: option.splits if_splits)
  ultimately show ?thesis
    by (simp add: configure_logging_def Let_def quiet_loggers_keep close_handlers_spec quiet_loggers)
qed

definition sample_logging :: logging_state where
  "sample_logging = \<lparr>ls_root = [\<lparr>h_object = 0, h_kind = ForeignHandler, h_formatter = None\<rparr>], ls_level = ''WARNING'',
     ls_loggers = (\<lambda>_. \<lparr>lg_handlers = [\<lparr>h_object = 1, h_kind = ForeignHandler, h_formatter = None\<rparr>], lg_propagate = False\<rparr>),
     ls_closed = [], ls_processors = [], ls_fresh = 2\<rparr>"

theorem configure_logging_outcome_witness:
  "let s' = configure_logging False ''info'' False ''api'' (Some ''app.log'') sample_logging in
     map h_kind (ls_root s') = [StreamHandler, RotatingFileHandler ''app.log'' 10485760 3]
     \<and> ls_closed s' = ls_root sample_logging \<and> lg_handlers (ls_loggers s' ''uvicorn.access'') = []
     \<and> ls_loggers s' ''app'' = ls_loggers sample_logging ''app''"
  using configure_logging_outcome [of False "''info''" False "''api''" "Some ''app.log''" sample_logging]
  by (auto simp: Let_def UVICORN_LOGGERS_def sample_logging_def dest!: spec [of _ "''uvicorn.access''"] spec [of _ "''app''"])

end
