(* ===== verification/Startup.thy ===== *)
theory Startup
  imports Jobs Logging
begin

text \<open>
  \<open>create_app\<close> and \<open>lifespan\<close> of \<open>app/main.py\<close>, \<open>configure_tracing\<close> of \<open>tracing.py\<close>, and the cached
  engine and session factory of \<open>app/db/session.py\<close>: what a process sets up from its settings, and what
  it gives back when it stops. The middleware stack that \<open>create_app\<close> builds is in \<open>Http\<close>.
\<close>

section \<open>The application object\<close>

text \<open>The tracer provider of the process: none of the SDK's, or one with its service and exporter.\<close>

datatype tracer_provider = NoProvider | TracerProvider str "str option"

definition configure_tracing :: "str \<Rightarrow> str option \<Rightarrow> tracer_provider \<Rightarrow> tracer_provider" where
  "configure_tracing service otlp current =
     (case current of
        TracerProvider _ _ \<Rightarrow> current
      | NoProvider \<Rightarrow> TracerProvider service (case otlp of Some [] \<Rightarrow> None | _ \<Rightarrow> otlp))"

definition METRICS_ENDPOINT :: str where
  "METRICS_ENDPOINT = ''/metrics''"

section \<open>The engine of the process\<close>

text \<open>
  The two \<open>lru_cache\<close>s: the engine and the session factory bound to it. Engines are numbered in the
  order they are made; \<open>pr_disposed\<close> are those whose pool has been closed.
\<close>

record proc =
  pr_engine :: "nat option"
  pr_factory :: "nat option"
  pr_made :: nat
  pr_disposed :: "nat set"

definition fresh_process :: proc where
  "fresh_process = \<lparr>pr_engine = None, pr_factory = None, pr_made = 0, pr_disposed = {}\<rparr>"

definition get_engine :: "proc \<Rightarrow> nat \<times> proc" where
  "get_engine p = (case pr_engine p of
      Some e \<Rightarrow> (e, p)
    | None \<Rightarrow> (pr_made p, p\<lparr>pr_engine := Some (pr_made p), pr_made := pr_made p + 1\<rparr>))"

definition get_session_factory :: "proc \<Rightarrow> nat \<times> proc" where
  "get_session_factory p = (case pr_factory p of
      Some e \<Rightarrow> (e, p)
    | None \<Rightarrow> (let (e, p') = get_engine p in (e, p'\<lparr>pr_factory := Some e\<rparr>)))"

definition dispose_engine :: "proc \<Rightarrow> proc" where
  "dispose_engine p =
     (let p' = (case pr_engine p of
          None \<Rightarrow> p
        | Some e \<Rightarrow> p\<lparr>pr_disposed := insert e (pr_disposed p)\<rparr>)
      in p'\<lparr>pr_engine := None, pr_factory := None\<rparr>)"

text \<open>What handlers, probes, jobs and commands do to it while the process runs.\<close>

inductive uses :: "proc \<Rightarrow> proc \<Rightarrow> bool" where
  uses_engine: "get_engine p = (e, p') \<Longrightarrow> uses p p'"
| uses_factory: "get_session_factory p = (e, p') \<Longrightarrow> uses p p'"
| uses_dispose: "uses p (dispose_engine p)"

inductive_cases usesE: "uses p p'"

section \<open>Creating the application\<close>

record scheduler =
  sch_jobs :: "Job list"
  sch_startup_delay :: time
  sch_tasks :: "str list"

record Application =
  app_docs_url :: "str option"
  app_redoc_url :: "str option"
  app_openapi_url :: "str option"
  app_metrics :: "str option"
  app_traced :: "str option"
  app_scheduler :: "scheduler option"

text \<open>
  \<open>app_traced\<close> holds the excluded paths the application was instrumented with. A process has a tracer
  provider, its loggers, and its engine; instrumenting the engine makes it when there is none yet.
\<close>

record world =
  w_tracer :: tracer_provider
  w_logging :: logging_state
  w_proc :: proc
  w_instrumented :: "nat set"

definition instrument_app :: "str \<Rightarrow> Application \<Rightarrow> Application" where
  "instrument_app excluded app =
     (case app_traced app of Some _ \<Rightarrow> app | None \<Rightarrow> app\<lparr>app_traced := Some excluded\<rparr>)"

definition instrument_engine :: "nat \<Rightarrow> world \<Rightarrow> world" where
  "instrument_engine e w = w\<lparr>w_instrumented := insert e (w_instrumented w)\<rparr>"

definition register_metrics :: "Application \<Rightarrow> Application" where
  "register_metrics app = app\<lparr>app_metrics := Some METRICS_ENDPOINT\<rparr>"

definition create_application :: "bool \<Rightarrow> Settings \<Rightarrow> world \<Rightarrow> Application \<times> world" where
  "create_application isatty settings w =
     (let w1 = w\<lparr>w_logging := configure_logging isatty (log_level settings) (log_format settings = ''json'')
            (service_name settings) (log_file settings) (w_logging w)\<rparr>;
          url = (\<lambda>u. if docs_are_enabled settings then Some u else None);
          app = \<lparr>app_docs_url = url ''/docs'', app_redoc_url = url ''/redoc'', app_openapi_url = url ''/openapi.json'',
            app_metrics = None, app_traced = None, app_scheduler = None\<rparr>;
          app = (if metrics_enabled settings then register_metrics app else app);
          (app, w2) = (if tracing_enabled settings
            then (let w' = w1\<lparr>w_tracer := configure_tracing (service_name settings)
                    (if otlp_endpoint settings = [] then None else Some (otlp_endpoint settings)) (w_tracer w1)\<rparr>;
                  (e, p) = get_engine (w_proc w')
              in (instrument_app (request_log_excluded_paths settings) app, instrument_engine e (w'\<lparr>w_proc := p\<rparr>)))
            else (app, w1));
          app = (if jobs_enabled settings
            then app\<lparr>app_scheduler := Some \<lparr>sch_jobs = maintenance_jobs settings,
              sch_startup_delay = seconds (jobs_startup_delay_seconds settings), sch_tasks = []\<rparr>\<rparr>
            else app)
      in (app, w2))"

section \<open>Lifespan\<close>

datatype life_event = SchedulerStarted "str list" | Served "exn option" | SchedulerStopped | EngineDisposed

text \<open>
  \<open>lifespan\<close>: start the scheduler if there is one, serve, and whatever ended the serving, stop the
  scheduler and dispose the engine.
\<close>

definition lifespan ::
  "scheduler option \<Rightarrow> exn option \<Rightarrow> proc \<Rightarrow> life_event list \<times> scheduler option \<times> proc" where
  "lifespan sch ended p =
     (case sch of
        None \<Rightarrow> ([Served ended, EngineDisposed], None, dispose_engine p)
      | Some s \<Rightarrow>
          (let started = s\<lparr>sch_tasks := scheduler_start (sch_jobs s) (sch_tasks s)\<rparr>;
               stopped = started\<lparr>sch_tasks := scheduler_stop (sch_tasks started)\<rparr>
           in ([SchedulerStarted (sch_tasks started), Served ended, SchedulerStopped, EngineDisposed],
               Some stopped, dispose_engine p)))"

section \<open>The engine is never leaked\<close>

text \<open>
  Every engine ever made is the cached one or has been disposed; the cached one is open; the factory
  is bound to the cached engine.
\<close>

definition engine_inv :: "proc \<Rightarrow> bool" where
  "engine_inv p \<longleftrightarrow>
     (\<forall>e<pr_made p. pr_engine p = Some e \<or> e \<in> pr_disposed p)
     \<and> (\<forall>e. pr_engine p = Some e \<longrightarrow> e < pr_made p \<and> e \<notin> pr_disposed p)
     \<and> (\<forall>e\<in>pr_disposed p. e < pr_made p)
     \<and> (pr_factory p = None \<or> pr_factory p = pr_engine p)"

lemma get_engine_inv: "engine_inv p \<Longrightarrow> get_engine p = (e, p') \<Longrightarrow> engine_inv p' \<and> pr_engine p' = Some e"
  by (auto simp: engine_inv_def get_engine_def less_Suc_eq split: option.splits)

lemma get_session_factory_inv:
  "engine_inv p \<Longrightarrow> get_session_factory p = (e, p') \<Longrightarrow> engine_inv p' \<and> pr_engine p' = Some e"
proof (cases "pr_factory p")
  case None
  assume p: "engine_inv p" and f: "get_session_factory p = (e, p')"
  obtain e' q where q: "get_engine p = (e', q)"
    by force
  then have "e = e'" "p' = q\<lparr>pr_factory := Some e'\<rparr>"
    using f None by (auto simp: get_session_factory_def)
  then show ?thesis
    using get_engine_inv [OF p q] by (auto simp: engine_inv_def)
next
  case (Some f)
  assume p: "engine_inv p" and f: "get_session_factory p = (e, p')"
  have "e = f" "p' = p"
    using f Some by (simp_all add: get_session_factory_def)
  then show ?thesis
    using p Some by (simp add: engine_inv_def)
qed

lemma dispose_engine_inv: "engine_inv p \<Longrightarrow> engine_inv (dispose_engine p)"
  by (auto simp: engine_inv_def dispose_engine_def Let_def split: option.splits)

lemma uses_inv: "uses p p' \<Longrightarrow> engine_inv p \<Longrightarrow> engine_inv p'"
  by (auto elim!: usesE simp: dispose_engine_inv dest: get_engine_inv get_session_factory_inv)

lemma reachable_inv:
  assumes "uses\<^sup>*\<^sup>* fresh_process p"
  shows "engine_inv p"
  using assms
proof (induction rule: rtranclp_induct)
  case base
  then show ?case
    by (simp add: engine_inv_def fresh_process_def)
next
  case (step q r)
  then show ?case
    using uses_inv by blast
qed

text \<open>What \<open>create_app\<close> leaves: a state the process can reach, and a scheduler that is not running yet.\<close>

lemma create_application_reaches:
  assumes "create_application isatty settings w = (app, w')"
  shows "uses\<^sup>*\<^sup>* (w_proc w) (w_proc w')"
proof (cases "tracing_enabled settings")
  case True
  obtain e p where "get_engine (w_proc w) = (e, p)"
    by force
  then show ?thesis
    using assms True uses_engine
    by (auto simp: create_application_def instrument_engine_def Let_def)
next
  case False
  then show ?thesis
    using assms by (auto simp: create_application_def Let_def)
qed

lemma create_application_scheduler:
  assumes "create_application isatty settings w = (app, w')"
  shows "app_scheduler app = (if jobs_enabled settings
    then Some \<lparr>sch_jobs = maintenance_jobs settings,
      sch_startup_delay = seconds (jobs_startup_delay_seconds settings), sch_tasks = []\<rparr> else None)"
proof -
  have "app = fst (create_application isatty settings w)"
    using assms by simp
  then show ?thesis
    by (simp add: create_application_def instrument_app_def register_metrics_def Let_def case_prod_unfold)
qed

lemma create_application_instrumented:
  assumes "create_application isatty settings w = (app, w')" and "engine_inv (w_proc w)" and "tracing_enabled settings"
  shows "\<exists>e. pr_engine (w_proc w') = Some e \<and> e \<in> w_instrumented w'"
proof -
  obtain e p where get: "get_engine (w_proc w) = (e, p)"
    by force
  have "w' = snd (create_application isatty settings w)"
    using assms(1) by simp
  then have "w_proc w' = p \<and> e \<in> w_instrumented w'"
    by (simp add: create_application_def instrument_engine_def Let_def case_prod_unfold assms(3) get)
  then show ?thesis
    using get_engine_inv [OF assms(2) get] by blast
qed

section \<open>Properties\<close>

text \<open>
  C20. A process never leaks a connection pool. After \<open>create_app\<close>, in every state that requests, probes, jobs
  and commands can bring the process to, in any order, the engine that a caller is handed is open and is the
  one the session factory is bound to, and at most that one is open. The lifespan starts one task for each
  job of the registry when jobs are enabled and none otherwise; when it ends, however the serving
  ended, the tasks are cancelled before the engine is disposed, no task is left, every engine ever
  made is disposed, and both caches are empty.
\<close>

theorem engines_never_leak:
  assumes "create_application isatty settings w = (app, w')" and "w_proc w = fresh_process"
    and "uses\<^sup>*\<^sup>* (w_proc w') p" and "get_session_factory p = (e, p')"
    and "lifespan (app_scheduler app) ended p' = (events, sch', p'')"
  shows "e \<notin> pr_disposed p' \<and> pr_engine p' = Some e \<and> {d. d < pr_made p'} - pr_disposed p' = {e}
    \<and> pr_disposed p'' = {d. d < pr_made p'} \<and> pr_engine p'' = None \<and> pr_factory p'' = None
    \<and> (\<forall>s. sch' = Some s \<longrightarrow> sch_tasks s = [])
    \<and> events = (if jobs_enabled settings
        then [SchedulerStarted (map (\<lambda>j. ''job:'' @ job_name j) (maintenance_jobs settings)), Served ended,
              SchedulerStopped, EngineDisposed]
        else [Served ended, EngineDisposed])"
proof -
  have "uses\<^sup>*\<^sup>* fresh_process p"
    using create_application_reaches [OF assms(1)] assms(2,3) by simp
  then have inv: "engine_inv p'" and e: "pr_engine p' = Some e"
    using get_session_factory_inv [OF reachable_inv assms(4)] by simp_all
  have p'': "p'' = dispose_engine p'"
    using assms(5) by (auto simp: lifespan_def Let_def split: option.splits)
  have "\<forall>s. sch' = Some s \<longrightarrow> sch_tasks s = []"
    using assms(5) by (auto simp: lifespan_def Let_def scheduler_stop_def split: option.splits)
  moreover have "{d. d < pr_made p'} - pr_disposed p' = {e}" "e \<notin> pr_disposed p'"
    using inv e by (auto simp: engine_inv_def)
  moreover have "pr_disposed p'' = {d. d < pr_made p'}" "pr_engine p'' = None" "pr_factory p'' = None"
    using inv e by (auto simp: p'' dispose_engine_def engine_inv_def)
  moreover have "events = (if jobs_enabled settings
        then [SchedulerStarted (map (\<lambda>j. ''job:'' @ job_name j) (maintenance_jobs settings)), Served ended,
              SchedulerStopped, EngineDisposed]
        else [Served ended, EngineDisposed])"
    using assms(5)
    by (auto simp: create_application_scheduler [OF assms(1)] lifespan_def Let_def scheduler_start_def)
  ultimately show ?thesis
    using e by simp
qed

definition sample_world :: world where
  "sample_world = \<lparr>w_tracer = NoProvider, w_logging = sample_logging, w_proc = fresh_process, w_instrumented = {}\<rparr>"

definition sample_app :: "Application \<times> world" where
  "sample_app = create_application True (default_settings ''postgresql://db'' ''key'') sample_world"

definition used_process :: proc where
  "used_process = dispose_engine (w_proc (snd sample_app))"

definition sample_end :: "life_event list \<times> scheduler option \<times> proc" where
  "sample_end = lifespan (app_scheduler (fst sample_app)) (Some (RuntimeError ''bind failed''))
     (snd (get_session_factory used_process))"

theorem engines_never_leak_witness:
  "create_application True (default_settings ''postgresql://db'' ''key'') sample_world = sample_app
   \<and> uses\<^sup>*\<^sup>* (w_proc (snd sample_app)) used_process
   \<and> fst (get_session_factory used_process) = 1
   \<and> pr_disposed (snd (snd sample_end)) = {d. d < 2}
   \<and> length (fst sample_end) = 4"
proof -
  have app: "create_application True (default_settings ''postgresql://db'' ''key'') sample_world
      = (fst sample_app, snd sample_app)"
    by (simp add: sample_app_def)
  have fresh: "w_proc sample_world = fresh_process"
    by (simp add: sample_world_def)
  have reach: "uses\<^sup>*\<^sup>* (w_proc (snd sample_app)) used_process"
    unfolding used_process_def using uses_dispose by blast
  have factory: "get_session_factory used_process = (1, snd (get_session_factory used_process))"
    by code_simp
  have made: "pr_made (snd (get_session_factory used_process)) = 2"
    by code_simp
  have sample_end: "lifespan (app_scheduler (fst sample_app)) (Some (RuntimeError ''bind failed''))
      (snd (get_session_factory used_process)) = (fst sample_end, fst (snd sample_end), snd (snd sample_end))"
    by (simp add: sample_end_def)
  have "jobs_enabled (default_settings ''postgresql://db'' ''key'')"
    by (simp add: default_settings_def)
  moreover note engines_never_leak [OF app fresh reach factory sample_end]
  ultimately have "length (fst sample_end) = 4" "pr_disposed (snd (snd sample_end)) = {d. d < 2}"
    using made by simp_all
  then show ?thesis
    using app reach factory by (metis fst_conv prod.collapse)
qed

end
