(* ===== verification/Schema.thy ===== *)
theory Schema
  imports Models
begin

text \<open>
  The relational vocabulary that the migration scripts (\<open>alembic/versions\<close>) and the declarative
  models (\<open>app/models\<close>) are written in: column types, columns, constraints and indexes as data,
  tables with their rows and their identifier sequence, and the effect of every \<open>op\<close> call and every
  SQL statement that a script issues. A statement that PostgreSQL refuses is \<open>Inl\<close> with its
  SQLSTATE, so a script that fails half way is a value too.
\<close>

section \<open>Tables\<close>

datatype sql_type =
    Integer_t | BigInteger_t | String_t nat | Text_t | Boolean_t | Float_t | DateTime_tz | JSONB_t

text \<open>\<open>server_default\<close>: absent, an SQL expression (\<open>sa.text\<close>, \<open>func.now()\<close>) or a literal string.\<close>

datatype server_default = NoDefault | Expr str | Literal str

record column =
  col_type :: sql_type
  col_nullable :: bool
  col_default :: server_default

datatype constraint =
    PrimaryKey "str list"
  | Unique "str list"
  | ForeignKey "str list" str "str list" "str option"

record index =
  ix_columns :: "str list"
  ix_unique :: bool
  ix_where :: "str option"

text \<open>A row carries its values by column; a column that it does not carry reads as \<open>NULL\<close>.\<close>

datatype sql_value = Null | VInt int | VStr str | VBool bool | VTime time

type_synonym sql_row = "(str \<times> sql_value) list"

definition get :: "sql_row \<Rightarrow> str \<Rightarrow> sql_value" where
  "get r c = (case map_of r c of None \<Rightarrow> Null | Some v \<Rightarrow> v)"

definition put :: "str \<Rightarrow> sql_value \<Rightarrow> sql_row \<Rightarrow> sql_row" where
  "put c v r = (c, v) # filter (\<lambda>(d, w). d \<noteq> c) r"

lemma get_put [simp]: "get (put c v r) d = (if d = c then v else get r d)"
  by (induction r) (auto simp: get_def put_def)

record tbl =
  tbl_columns :: "(str \<times> column) list"
  tbl_constraints :: "(str \<times> constraint) list"
  tbl_indexes :: "(str \<times> index) list"
  tbl_sequence :: "(sql_type \<times> int) option"
  tbl_rows :: "sql_row list"

type_synonym schema = "(str \<times> tbl) list"

datatype sql_error =
    DuplicateTable | UndefinedTable | DuplicateColumn | UndefinedColumn | DuplicateObject
  | UndefinedObject | InvalidForeignKey | DependentObjects
  | NotNullViolation | UniqueViolation | ForeignKeyViolation | StringTooLong | OutOfRange
  | CardinalityViolation | InvalidParameter

fun sqlstate :: "sql_error \<Rightarrow> str" where
  "sqlstate DuplicateTable = ''42P07''"
| "sqlstate UndefinedTable = ''42P01''"
| "sqlstate DuplicateColumn = ''42701''"
| "sqlstate UndefinedColumn = ''42703''"
| "sqlstate DuplicateObject = ''42710''"
| "sqlstate UndefinedObject = ''42704''"
| "sqlstate InvalidForeignKey = ''42830''"
| "sqlstate DependentObjects = ''2BP01''"
| "sqlstate NotNullViolation = ''23502''"
| "sqlstate UniqueViolation = UNIQUE_VIOLATION"
| "sqlstate ForeignKeyViolation = FOREIGN_KEY_VIOLATION"
| "sqlstate StringTooLong = STRING_TRUNCATION"
| "sqlstate OutOfRange = ''22003''"
| "sqlstate CardinalityViolation = ''21000''"
| "sqlstate InvalidParameter = ''22023''"

type_synonym 'a sql = "sql_error + 'a"

text \<open>The names that live in one namespace: tables, indexes, and the indexes behind keys.\<close>

fun key_columns :: "constraint \<Rightarrow> str list option" where
  "key_columns (PrimaryKey cs) = Some cs"
| "key_columns (Unique cs) = Some cs"
| "key_columns (ForeignKey cs t rs on) = None"

definition relation_names :: "schema \<Rightarrow> str list" where
  "relation_names S = concat (map (\<lambda>(n, t). n # map fst (tbl_indexes t) @
     map fst (filter (\<lambda>(c, k). key_columns k \<noteq> None) (tbl_constraints t))) S)"

fun constraint_columns :: "constraint \<Rightarrow> str list" where
  "constraint_columns (PrimaryKey cs) = cs"
| "constraint_columns (Unique cs) = cs"
| "constraint_columns (ForeignKey cs t rs on) = cs"

definition set_table :: "str \<Rightarrow> tbl \<Rightarrow> schema \<Rightarrow> schema" where
  "set_table n t S = map (\<lambda>(m, u). (m, if m = n then t else u)) S"

section \<open>Rows and constraints\<close>

text \<open>
  What a row must satisfy on its own (\<open>NOT NULL\<close>, the length of a \<open>VARCHAR\<close>, the range of an
  integer column), and what the rows of a table must satisfy together: two rows agree on the columns
  of a key only when one of these is \<open>NULL\<close>; a partial index compares only the rows its condition
  selects (the one condition the program uses is \<open>deleted_at IS NULL\<close>).
\<close>

fun fits :: "sql_type \<Rightarrow> sql_value \<Rightarrow> sql_error option" where
  "fits (String_t n) (VStr s) = (if length s \<le> n then None else Some StringTooLong)"
| "fits Integer_t (VInt i) = (if - (2 ^ 31) \<le> i \<and> i < 2 ^ 31 then None else Some OutOfRange)"
| "fits BigInteger_t (VInt i) = (if - (2 ^ 63) \<le> i \<and> i < 2 ^ 63 then None else Some OutOfRange)"
| "fits _ _ = None"

definition column_error :: "str \<times> column \<Rightarrow> sql_row \<Rightarrow> sql_error option" where
  "column_error nc r =
     (if get r (fst nc) = Null \<and> \<not> col_nullable (snd nc) then Some NotNullViolation
      else fits (col_type (snd nc)) (get r (fst nc)))"

fun first_error :: "('a \<Rightarrow> 'e option) \<Rightarrow> 'a list \<Rightarrow> 'e option" where
  "first_error f [] = None"
| "first_error f (x # xs) = (case f x of Some e \<Rightarrow> Some e | None \<Rightarrow> first_error f xs)"

definition row_error :: "(str \<times> column) list \<Rightarrow> sql_row \<Rightarrow> sql_error option" where
  "row_error cols r = first_error (\<lambda>nc. column_error nc r) cols"

definition key_of :: "str list \<Rightarrow> sql_row \<Rightarrow> sql_value list" where
  "key_of cs r = map (get r) cs"

definition unique_on :: "str list \<Rightarrow> sql_row list \<Rightarrow> bool" where
  "unique_on cs rows = distinct (filter (\<lambda>k. Null \<notin> set k) (map (key_of cs) rows))"

definition selected_by :: "str option \<Rightarrow> sql_row \<Rightarrow> bool" where
  "selected_by w r \<longleftrightarrow> w = Some ''deleted_at IS NULL'' \<longrightarrow> get r ''deleted_at'' = Null"

definition index_ok :: "index \<Rightarrow> sql_row list \<Rightarrow> bool" where
  "index_ok ix rows \<longleftrightarrow> ix_unique ix \<longrightarrow> unique_on (ix_columns ix) (filter (selected_by (ix_where ix)) rows)"

definition rows_of :: "str \<Rightarrow> schema \<Rightarrow> sql_row list" where
  "rows_of n S = (case map_of S n of None \<Rightarrow> [] | Some t \<Rightarrow> tbl_rows t)"

text \<open>A foreign key holds for a row when one of its columns is \<open>NULL\<close> or some row has the key.\<close>

definition references_ok :: "str list \<Rightarrow> sql_row list \<Rightarrow> str list \<Rightarrow> sql_row list \<Rightarrow> bool" where
  "references_ok cs rows rs targets \<longleftrightarrow>
     list_all (\<lambda>r. Null \<in> set (key_of cs r) \<or> key_of cs r \<in> set (map (key_of rs) targets)) rows"

fun constraint_error :: "schema \<Rightarrow> sql_row list \<Rightarrow> constraint \<Rightarrow> sql_error option" where
  "constraint_error S rows (PrimaryKey cs) =
     (if list_all (\<lambda>r. Null \<notin> set (key_of cs r)) rows
      then (if unique_on cs rows then None else Some UniqueViolation) else Some NotNullViolation)"
| "constraint_error S rows (Unique cs) = (if unique_on cs rows then None else Some UniqueViolation)"
| "constraint_error S rows (ForeignKey cs t rs on) =
     (if references_ok cs rows rs (rows_of t S) then None else Some ForeignKeyViolation)"

definition table_error :: "schema \<Rightarrow> tbl \<Rightarrow> sql_error option" where
  "table_error S t =
     (case first_error (row_error (tbl_columns t)) (tbl_rows t) of
        Some e \<Rightarrow> Some e
      | None \<Rightarrow> (case first_error (\<lambda>(n, ix). if index_ok ix (tbl_rows t) then None else Some UniqueViolation)
                        (tbl_indexes t) of
                   Some e \<Rightarrow> Some e
                 | None \<Rightarrow> first_error (\<lambda>(n, c). constraint_error S (tbl_rows t) c) (tbl_constraints t)))"

text \<open>
  Store new rows in a table, refused when a constraint of the table does not hold of them. The
  statements of the scripts change a key of at most one row or add rows, so a violation that
  PostgreSQL finds row by row is one that the final rows show.
\<close>

definition store_rows :: "str \<Rightarrow> sql_row list \<Rightarrow> schema \<Rightarrow> schema sql" where
  "store_rows n rows S =
     (case map_of S n of
        None \<Rightarrow> Inl UndefinedTable
      | Some t \<Rightarrow>
          (case table_error S (t\<lparr>tbl_rows := rows\<rparr>) of
             Some e \<Rightarrow> Inl e
           | None \<Rightarrow> Inr (set_table n (t\<lparr>tbl_rows := rows\<rparr>) S)))"

section \<open>Statements that change the schema\<close>

text \<open>
  What the scripts take from the server: the time of the transaction and the collation's \<open>lower\<close>.
\<close>

record dbms =
  db_now :: time
  db_lower :: "str \<Rightarrow> str"

text \<open>The value that \<open>ADD COLUMN\<close> gives the rows there are, and \<open>INSERT\<close> a column left out.\<close>

definition default_value :: "dbms \<Rightarrow> column \<Rightarrow> sql_value" where
  "default_value env col =
     (case col_default col of
        NoDefault \<Rightarrow> Null
      | Expr e \<Rightarrow> (if e = ''now()'' then VTime (db_now env)
                   else case py_int e of Some i \<Rightarrow> VInt i | None \<Rightarrow> Null)
      | Literal s \<Rightarrow> (if col_type col = Boolean_t then VBool (s = ''true'') else VStr s))"

definition has_columns :: "tbl \<Rightarrow> str list \<Rightarrow> bool" where
  "has_columns t cs \<longleftrightarrow> list_all (\<lambda>c. c \<in> set (map fst (tbl_columns t))) cs"

text \<open>A foreign key names existing columns and a key of the table it refers to.\<close>

fun declarable :: "schema \<Rightarrow> tbl \<Rightarrow> constraint \<Rightarrow> sql_error option" where
  "declarable S t (ForeignKey cs n rs on) =
     (if \<not> has_columns t cs then Some UndefinedColumn
      else case map_of S n of
        None \<Rightarrow> Some UndefinedTable
      | Some u \<Rightarrow> (if \<not> has_columns u rs then Some UndefinedColumn
                   else if list_ex (\<lambda>(k, c). key_columns c = Some rs) (tbl_constraints u) then None
                   else Some InvalidForeignKey))"
| "declarable S t (PrimaryKey cs) = (if has_columns t cs then None else Some UndefinedColumn)"
| "declarable S t (Unique cs) = (if has_columns t cs then None else Some UndefinedColumn)"

fun refers_to :: "str \<Rightarrow> constraint \<Rightarrow> bool" where
  "refers_to n (ForeignKey cs t rs on) \<longleftrightarrow> t = n"
| "refers_to n (PrimaryKey cs) \<longleftrightarrow> False"
| "refers_to n (Unique cs) \<longleftrightarrow> False"

definition referenced :: "str \<Rightarrow> schema \<Rightarrow> bool" where
  "referenced n S \<longleftrightarrow> list_ex (\<lambda>(m, t). m \<noteq> n \<and> list_ex (\<lambda>(k, c). refers_to n c) (tbl_constraints t)) S"

fun refers_to_columns :: "str \<Rightarrow> str list \<Rightarrow> constraint \<Rightarrow> bool" where
  "refers_to_columns n cs (ForeignKey ds t rs on) \<longleftrightarrow> t = n \<and> list_ex (\<lambda>c. c \<in> set cs) rs"
| "refers_to_columns n cs (PrimaryKey ds) \<longleftrightarrow> False"
| "refers_to_columns n cs (Unique ds) \<longleftrightarrow> False"

definition columns_referenced :: "str \<Rightarrow> str list \<Rightarrow> schema \<Rightarrow> bool" where
  "columns_referenced n cs S \<longleftrightarrow>
     list_ex (\<lambda>(m, t). list_ex (\<lambda>(k, c). refers_to_columns n cs c) (tbl_constraints t)) S"

text \<open>
  SQLAlchemy makes a primary key of one integer column that is not a foreign key a \<open>SERIAL\<close> (or a
  \<open>BIGSERIAL\<close>): PostgreSQL creates the sequence with the column's type.
\<close>

definition serial_type :: "(str \<times> column) list \<Rightarrow> (str \<times> constraint) list \<Rightarrow> sql_type option" where
  "serial_type cols cons =
     (case List.find (\<lambda>(n, c). case c of PrimaryKey cs \<Rightarrow> True | _ \<Rightarrow> False) cons of
        Some (_, PrimaryKey [c]) \<Rightarrow>
          (if list_ex (\<lambda>(n, k). (case k of ForeignKey cs t rs on \<Rightarrow> c \<in> set cs | _ \<Rightarrow> False)) cons then None
           else case map_of cols c of
             Some col \<Rightarrow> (if col_type col \<in> {Integer_t, BigInteger_t} then Some (col_type col) else None)
           | None \<Rightarrow> None)
      | _ \<Rightarrow> None)"

definition new_tbl :: "(str \<times> column) list \<Rightarrow> (str \<times> constraint) list \<Rightarrow> tbl" where
  "new_tbl cols cons = \<lparr>tbl_columns = cols, tbl_constraints = cons, tbl_indexes = [],
     tbl_sequence = map_option (\<lambda>ty. (ty, 1)) (serial_type cols cons), tbl_rows = []\<rparr>"

definition create_table ::
  "str \<Rightarrow> (str \<times> column) list \<Rightarrow> (str \<times> constraint) list \<Rightarrow> schema \<Rightarrow> schema sql" where
  "create_table n cols cons S =
     (if n \<in> set (relation_names S)
         \<or> list_ex (\<lambda>(k, c). key_columns c \<noteq> None \<and> k \<in> set (relation_names S)) cons
      then Inl DuplicateTable
      else if \<not> distinct (map fst cols) then Inl DuplicateColumn
      else if \<not> distinct (map fst cons) then Inl DuplicateObject
      else case first_error (\<lambda>(k, c). declarable S (new_tbl cols cons) c) cons of
        Some e \<Rightarrow> Inl e
      | None \<Rightarrow> Inr (S @ [(n, new_tbl cols cons)]))"

definition drop_table :: "str \<Rightarrow> schema \<Rightarrow> schema sql" where
  "drop_table n S =
     (if map_of S n = None then Inl UndefinedTable
      else if referenced n S then Inl DependentObjects
      else Inr (filter (\<lambda>(m, t). m \<noteq> n) S))"

text \<open>Run a step on one table, which must exist.\<close>

definition on_table :: "str \<Rightarrow> (tbl \<Rightarrow> tbl sql) \<Rightarrow> schema \<Rightarrow> schema sql" where
  "on_table n f S =
     (case map_of S n of
        None \<Rightarrow> Inl UndefinedTable
      | Some t \<Rightarrow> rbind (f t) (\<lambda>t'. Inr (set_table n t' S)))"

definition add_column :: "dbms \<Rightarrow> str \<Rightarrow> str \<Rightarrow> column \<Rightarrow> schema \<Rightarrow> schema sql" where
  "add_column env n c col = on_table n (\<lambda>t.
     (if c \<in> set (map fst (tbl_columns t)) then Inl DuplicateColumn
      else let rows = map (put c (default_value env col)) (tbl_rows t) in
        case first_error (column_error (c, col)) rows of
          Some e \<Rightarrow> Inl e
        | None \<Rightarrow> Inr (t\<lparr>tbl_columns := tbl_columns t @ [(c, col)], tbl_rows := rows\<rparr>)))"

text \<open>Dropping a column takes the indexes and constraints on it along.\<close>

definition drop_column :: "str \<Rightarrow> str \<Rightarrow> schema \<Rightarrow> schema sql" where
  "drop_column n c S =
     (if columns_referenced n [c] S then Inl DependentObjects
      else on_table n (\<lambda>t.
        (if c \<notin> set (map fst (tbl_columns t)) then Inl UndefinedColumn
         else Inr (t\<lparr>tbl_columns := filter (\<lambda>(d, col). d \<noteq> c) (tbl_columns t),
                tbl_constraints := filter (\<lambda>(k, con). c \<notin> set (constraint_columns con)) (tbl_constraints t),
                tbl_indexes := filter (\<lambda>(k, ix). c \<notin> set (ix_columns ix)) (tbl_indexes t),
                tbl_rows := map (filter (\<lambda>(d, v). d \<noteq> c)) (tbl_rows t)\<rparr>))) S)"

definition create_index :: "str \<Rightarrow> str \<Rightarrow> index \<Rightarrow> schema \<Rightarrow> schema sql" where
  "create_index k n ix S =
     (if k \<in> set (relation_names S) then Inl DuplicateTable
      else on_table n (\<lambda>t.
        (if \<not> has_columns t (ix_columns ix) then Inl UndefinedColumn
         else if \<not> index_ok ix (tbl_rows t) then Inl UniqueViolation
         else Inr (t\<lparr>tbl_indexes := tbl_indexes t @ [(k, ix)]\<rparr>))) S)"

definition drop_index :: "str \<Rightarrow> str \<Rightarrow> schema \<Rightarrow> schema sql" where
  "drop_index k n = on_table n (\<lambda>t.
     (if map_of (tbl_indexes t) k = None
      then Inl (if map_of (tbl_constraints t) k = None then UndefinedObject else DependentObjects)
      else Inr (t\<lparr>tbl_indexes := filter (\<lambda>(j, ix). j \<noteq> k) (tbl_indexes t)\<rparr>)))"

definition add_constraint :: "str \<Rightarrow> str \<Rightarrow> constraint \<Rightarrow> schema \<Rightarrow> schema sql" where
  "add_constraint k n c S =
     (if key_columns c \<noteq> None \<and> k \<in> set (relation_names S) then Inl DuplicateTable
      else on_table n (\<lambda>t.
        (if map_of (tbl_constraints t) k \<noteq> None then Inl DuplicateObject
         else case declarable S t c of
           Some e \<Rightarrow> Inl e
         | None \<Rightarrow> (case constraint_error S (tbl_rows t) c of
             Some e \<Rightarrow> Inl e
           | None \<Rightarrow> Inr (t\<lparr>tbl_constraints := tbl_constraints t @ [(k, c)]\<rparr>)))) S)"

definition drop_constraint :: "str \<Rightarrow> str \<Rightarrow> schema \<Rightarrow> schema sql" where
  "drop_constraint k n S = on_table n (\<lambda>t.
     (case map_of (tbl_constraints t) k of
        None \<Rightarrow> Inl UndefinedObject
      | Some c \<Rightarrow>
          (if key_columns c \<noteq> None \<and> columns_referenced n (constraint_columns c) S then Inl DependentObjects
           else Inr (t\<lparr>tbl_constraints := filter (\<lambda>(j, d). j \<noteq> k) (tbl_constraints t)\<rparr>)))) S"

text \<open>\<open>ALTER COLUMN\<close>: a new declaration for a column, which the rows must satisfy.\<close>

definition alter_column :: "str \<Rightarrow> str \<Rightarrow> (column \<Rightarrow> column) \<Rightarrow> schema \<Rightarrow> schema sql" where
  "alter_column n c f = on_table n (\<lambda>t.
     (case map_of (tbl_columns t) c of
        None \<Rightarrow> Inl UndefinedColumn
      | Some col \<Rightarrow>
          (case first_error (column_error (c, f col)) (tbl_rows t) of
             Some e \<Rightarrow> Inl e
           | None \<Rightarrow> Inr (t\<lparr>tbl_columns :=
               map (\<lambda>(d, old). (d, if d = c then f old else old)) (tbl_columns t)\<rparr>))))"

text \<open>\<open>ALTER SEQUENCE ... AS\<close>, refused when the sequence has passed the new maximum.\<close>

definition alter_sequence :: "str \<Rightarrow> sql_type \<Rightarrow> schema \<Rightarrow> schema sql" where
  "alter_sequence n ty = on_table n (\<lambda>t.
     (case tbl_sequence t of
        None \<Rightarrow> Inl UndefinedTable
      | Some (old, nxt) \<Rightarrow>
          (if fits ty (VInt (nxt - 1)) = None then Inr (t\<lparr>tbl_sequence := Some (ty, nxt)\<rparr>)
           else Inl InvalidParameter)))"

section \<open>Statements that change rows\<close>

fun map_rows :: "(sql_row \<Rightarrow> sql_row sql) \<Rightarrow> sql_row list \<Rightarrow> sql_row list sql" where
  "map_rows f [] = Inr []"
| "map_rows f (r # rs) = rbind (f r) (\<lambda>r'. rbind (map_rows f rs) (\<lambda>rs'. Inr (r' # rs')))"

definition update_rows :: "str \<Rightarrow> (sql_row \<Rightarrow> sql_row sql) \<Rightarrow> schema \<Rightarrow> schema sql" where
  "update_rows n f S =
     (if map_of S n = None then Inl UndefinedTable
      else rbind (map_rows f (rows_of n S)) (\<lambda>rows. store_rows n rows S))"

text \<open>A scalar subquery: no row is \<open>NULL\<close>, two rows are an error.\<close>

fun scalar :: "sql_value list \<Rightarrow> sql_value sql" where
  "scalar [] = Inr Null"
| "scalar [v] = Inr v"
| "scalar (v # w # vs) = Inl CardinalityViolation"

text \<open>The row an \<open>INSERT\<close> makes: the columns it names, the next identifier, defaults for the rest.\<close>

definition inserted :: "dbms \<Rightarrow> tbl \<Rightarrow> (str \<times> sql_value) list \<Rightarrow> sql_row" where
  "inserted env t vals = map (\<lambda>(c, col). (c,
     case map_of vals c of
       Some v \<Rightarrow> v
     | None \<Rightarrow>
         (case tbl_sequence t of
            Some (ty, nxt) \<Rightarrow> (if c = ''id'' then VInt nxt else default_value env col)
          | None \<Rightarrow> default_value env col))) (tbl_columns t)"

text \<open>The checks of a new row against the rows there are.\<close>

definition clashes :: "str list \<Rightarrow> sql_row list \<Rightarrow> sql_row \<Rightarrow> bool" where
  "clashes cs rows r \<longleftrightarrow> Null \<notin> set (key_of cs r) \<and> key_of cs r \<in> set (map (key_of cs) rows)"

definition index_clash :: "sql_row list \<Rightarrow> sql_row \<Rightarrow> index \<Rightarrow> bool" where
  "index_clash rows r ix \<longleftrightarrow> ix_unique ix \<and> selected_by (ix_where ix) r
     \<and> clashes (ix_columns ix) (filter (selected_by (ix_where ix)) rows) r"

fun new_row_error :: "schema \<Rightarrow> sql_row list \<Rightarrow> sql_row \<Rightarrow> constraint \<Rightarrow> sql_error option" where
  "new_row_error S rows r (PrimaryKey cs) =
     (if Null \<in> set (key_of cs r) then Some NotNullViolation
      else if clashes cs rows r then Some UniqueViolation else None)"
| "new_row_error S rows r (Unique cs) = (if clashes cs rows r then Some UniqueViolation else None)"
| "new_row_error S rows r (ForeignKey cs t rs on) =
     (if references_ok cs [r] rs (rows_of t S) then None else Some ForeignKeyViolation)"

fun new_row_errors :: "schema \<Rightarrow> sql_row list \<Rightarrow> sql_row \<Rightarrow> (str \<times> constraint) list \<Rightarrow> sql_error option" where
  "new_row_errors S rows r [] = None"
| "new_row_errors S rows r (kc # cs) =
     (case new_row_error S rows r (snd kc) of Some e \<Rightarrow> Some e | None \<Rightarrow> new_row_errors S rows r cs)"

definition insert_error :: "schema \<Rightarrow> tbl \<Rightarrow> sql_row \<Rightarrow> sql_error option" where
  "insert_error S t r =
     (case row_error (tbl_columns t) r of
        Some e \<Rightarrow> Some e
      | None \<Rightarrow> (if list_ex (\<lambda>(k, ix). index_clash (tbl_rows t) r ix) (tbl_indexes t) then Some UniqueViolation
                 else new_row_errors S (tbl_rows t) r (tbl_constraints t)))"

text \<open>With \<open>ON CONFLICT DO NOTHING\<close> a duplicate key leaves the rows; the sequence has moved on.\<close>

definition insert_row ::
  "dbms \<Rightarrow> bool \<Rightarrow> str \<Rightarrow> (str \<times> sql_value) list \<Rightarrow> schema \<Rightarrow> schema sql" where
  "insert_row env on_conflict n vals S =
     (case map_of S n of
        None \<Rightarrow> Inl UndefinedTable
      | Some t \<Rightarrow>
          (let r = inserted env t vals;
               t' = t\<lparr>tbl_sequence := map_option (\<lambda>(ty, nxt). (ty, nxt + 1)) (tbl_sequence t)\<rparr> in
           (case insert_error S t r of
              None \<Rightarrow> Inr (set_table n (t'\<lparr>tbl_rows := tbl_rows t @ [r]\<rparr>) S)
            | Some e \<Rightarrow> (if on_conflict \<and> e = UniqueViolation then Inr (set_table n t' S) else Inl e))))"

fun insert_rows ::
  "dbms \<Rightarrow> bool \<Rightarrow> str \<Rightarrow> (str \<times> sql_value) list list \<Rightarrow> schema \<Rightarrow> schema sql" where
  "insert_rows env oc n [] S = Inr S"
| "insert_rows env oc n (v # vs) S = rbind (insert_row env oc n v S) (insert_rows env oc n vs)"

text \<open>
  \<open>DELETE\<close>: a foreign key with \<open>ON DELETE CASCADE\<close> takes the rows that referred to a deleted row
  along, another refuses. The rows a script deletes from \<open>permissions\<close> are referred to by
  \<open>role_permissions\<close> only, which no table refers to, so the cascade is one level deep.
\<close>

fun cascade :: "str \<Rightarrow> sql_row list \<Rightarrow> constraint \<Rightarrow> sql_row list \<Rightarrow> sql_row list" where
  "cascade n kept (ForeignKey cs t rs on) rows =
     (if t = n \<and> on = Some ''CASCADE''
      then (let keys = map (key_of rs) kept in
        filter (\<lambda>r. Null \<in> set (key_of cs r) \<or> key_of cs r \<in> set keys) rows)
      else rows)"
| "cascade n kept (PrimaryKey cs) rows = rows"
| "cascade n kept (Unique cs) rows = rows"

fun restricted :: "str \<Rightarrow> sql_row list \<Rightarrow> constraint \<Rightarrow> sql_row list \<Rightarrow> bool" where
  "restricted n kept (ForeignKey cs t rs on) rows \<longleftrightarrow>
     t = n \<and> on \<noteq> Some ''CASCADE'' \<and> \<not> references_ok cs rows rs kept"
| "restricted n kept (PrimaryKey cs) rows \<longleftrightarrow> False"
| "restricted n kept (Unique cs) rows \<longleftrightarrow> False"

definition after_delete :: "str \<Rightarrow> sql_row list \<Rightarrow> str \<times> tbl \<Rightarrow> str \<times> tbl" where
  "after_delete n kept mu = (fst mu,
     if fst mu = n then (snd mu)\<lparr>tbl_rows := kept\<rparr>
     else (snd mu)\<lparr>tbl_rows :=
       fold (\<lambda>(k, c). cascade n kept c) (tbl_constraints (snd mu)) (tbl_rows (snd mu))\<rparr>)"

definition delete_rows :: "str \<Rightarrow> (sql_row \<Rightarrow> bool) \<Rightarrow> schema \<Rightarrow> schema sql" where
  "delete_rows n P S =
     (case map_of S n of
        None \<Rightarrow> Inl UndefinedTable
      | Some t \<Rightarrow>
          (let kept = filter (\<lambda>r. \<not> P r) (tbl_rows t) in
           if list_ex (\<lambda>(m, u). list_ex (\<lambda>(k, c). restricted n kept c (tbl_rows u)) (tbl_constraints u)) S
           then Inl ForeignKeyViolation
           else Inr (map (after_delete n kept) S)))"

section \<open>The statements of the scripts\<close>

text \<open>
  The SQL that the scripts pass to \<open>op.execute\<close>:
  \<^item> \<open>LowerEmails\<close>: \<open>UPDATE users SET email = lower(email) WHERE email <> lower(email)\<close>;
  \<^item> \<open>SetRoleIdByName\<close>: \<open>UPDATE users SET role_id = (SELECT id FROM roles WHERE name = role)\<close>;
  \<^item> \<open>SetRoleByRoleId\<close>: \<open>UPDATE users SET role = (SELECT name FROM roles WHERE id = role_id)\<close>;
  \<^item> \<open>RenameRole old new\<close>: \<open>UPDATE roles SET name = new WHERE name = old\<close>;
  \<^item> \<open>CopyRoleIds\<close>: \<open>INSERT INTO user_roles (user_id, role_id) SELECT id, role_id FROM users\<close>;
  \<^item> \<open>SetRoleIdToLeast\<close>: \<open>UPDATE users SET role_id = (SELECT MIN(role_id) FROM user_roles WHERE user_id =
    users.id)\<close>;
  \<^item> \<open>SetRoleIdIfNull role\<close>: \<open>UPDATE users SET role_id = (SELECT id FROM roles WHERE name = role) WHERE
    role_id IS NULL\<close>;
  \<^item> \<open>InsertPermission resource action\<close>: \<open>INSERT INTO permissions ... ON CONFLICT DO NOTHING\<close>;
  \<^item> \<open>InsertGrant ignore role resource action scope\<close>: \<open>INSERT INTO role_permissions ... SELECT r.id, p.id,
    scope FROM roles r, permissions p WHERE ...\<close>, with \<open>ON CONFLICT DO NOTHING\<close> when \<open>ignore\<close> holds;
  \<^item> \<open>DeleteGrantsOf resource action\<close> and \<open>DeletePermission resource action\<close>: the two \<open>DELETE\<close>s;
  \<^item> \<open>AlterSequence table type\<close>: \<open>ALTER SEQUENCE table_id_seq AS type\<close>.
\<close>

datatype statement =
    LowerEmails
  | SetRoleIdByName
  | SetRoleByRoleId
  | RenameRole str str
  | CopyRoleIds
  | SetRoleIdToLeast
  | SetRoleIdIfNull str
  | InsertPermission str str
  | InsertGrant bool str str str str
  | DeleteGrantsOf str str
  | DeletePermission str str
  | AlterSequence str sql_type

fun lowered :: "dbms \<Rightarrow> sql_value \<Rightarrow> sql_value" where
  "lowered env (VStr s) = VStr (db_lower env s)"
| "lowered env v = v"

definition select_where :: "str \<Rightarrow> str \<Rightarrow> (sql_row \<Rightarrow> bool) \<Rightarrow> schema \<Rightarrow> sql_value list" where
  "select_where col n P S = map (\<lambda>r. get r col) (filter P (rows_of n S))"

fun least :: "sql_value list \<Rightarrow> sql_value" where
  "least [] = Null"
| "least (VInt i # vs) = (case least vs of VInt j \<Rightarrow> VInt (min i j) | _ \<Rightarrow> VInt i)"
| "least (_ # vs) = least vs"

definition is_permission :: "str \<Rightarrow> str \<Rightarrow> sql_row \<Rightarrow> bool" where
  "is_permission resource action p \<longleftrightarrow> get p ''resource'' = VStr resource \<and> get p ''action'' = VStr action"

definition role_ids_named :: "sql_value \<Rightarrow> schema \<Rightarrow> sql_value list" where
  "role_ids_named v S = select_where ''id'' ''roles'' (\<lambda>r. v \<noteq> Null \<and> get r ''name'' = v) S"

primrec execute :: "dbms \<Rightarrow> statement \<Rightarrow> schema \<Rightarrow> schema sql" where
  "execute env LowerEmails S =
     update_rows ''users'' (\<lambda>u. Inr (put ''email'' (lowered env (get u ''email'')) u)) S"
| "execute env SetRoleIdByName S =
     update_rows ''users'' (\<lambda>u. rbind (scalar (role_ids_named (get u ''role'') S)) (\<lambda>v. Inr (put ''role_id'' v u))) S"
| "execute env SetRoleByRoleId S =
     update_rows ''users'' (\<lambda>u. rbind
       (scalar (select_where ''name'' ''roles'' (\<lambda>r. get u ''role_id'' \<noteq> Null \<and> get r ''id'' = get u ''role_id'') S))
       (\<lambda>v. Inr (put ''role'' v u))) S"
| "execute env (RenameRole old new) S =
     update_rows ''roles'' (\<lambda>r. Inr (if get r ''name'' = VStr old then put ''name'' (VStr new) r else r)) S"
| "execute env CopyRoleIds S =
     insert_rows env False ''user_roles''
       (map (\<lambda>u. [(''user_id'', get u ''id''), (''role_id'', get u ''role_id'')]) (rows_of ''users'' S)) S"
| "execute env SetRoleIdToLeast S =
     update_rows ''users'' (\<lambda>u. Inr (put ''role_id''
       (least (select_where ''role_id'' ''user_roles'' (\<lambda>l. get l ''user_id'' = get u ''id'') S)) u)) S"
| "execute env (SetRoleIdIfNull role) S =
     update_rows ''users'' (\<lambda>u. (if get u ''role_id'' = Null
       then rbind (scalar (role_ids_named (VStr role) S)) (\<lambda>v. Inr (put ''role_id'' v u)) else Inr u)) S"
| "execute env (InsertPermission resource action) S =
     insert_row env True ''permissions'' [(''resource'', VStr resource), (''action'', VStr action)] S"
| "execute env (InsertGrant ignore role resource action scope) S =
     (let permissions = select_where ''id'' ''permissions'' (is_permission resource action) S in
       insert_rows env ignore ''role_permissions''
         (concat (map (\<lambda>r. map (\<lambda>p. [(''role_id'', r), (''permission_id'', p), (''scope'', VStr scope)]) permissions)
            (role_ids_named (VStr role) S))) S)"
| "execute env (DeleteGrantsOf resource action) S =
     (let ids = select_where ''id'' ''permissions'' (is_permission resource action) S in
       delete_rows ''role_permissions'' (\<lambda>g. get g ''permission_id'' \<in> set ids) S)"
| "execute env (DeletePermission resource action) S =
     delete_rows ''permissions'' (is_permission resource action) S"
| "execute env (AlterSequence n ty) S = alter_sequence n ty S"

section \<open>Scripts\<close>

text \<open>The calls on \<open>alembic.op\<close>, and \<open>sa.Column\<close>.\<close>

datatype op =
    CreateTable str "(str \<times> column) list" "(str \<times> constraint) list"
  | DropTable str
  | AddColumn str "str \<times> column"
  | DropColumn str str
  | CreateIndex str str "str list" bool "str option"
  | DropIndex str str
  | CreateUnique str str "str list"
  | CreateForeignKey str str str "str list" "str list" "str option"
  | DropConstraint str str
  | AlterNullable str str bool
  | AlterType str str sql_type
  | BulkInsert str "(str \<times> sql_value) list list"
  | Execute statement

definition Column :: "str \<Rightarrow> sql_type \<Rightarrow> bool \<Rightarrow> server_default \<Rightarrow> str \<times> column" where
  "Column name ty nullable dflt =
     (name, \<lparr>col_type = ty, col_nullable = nullable, col_default = dflt\<rparr>)"

primrec run_op :: "dbms \<Rightarrow> op \<Rightarrow> schema \<Rightarrow> schema sql" where
  "run_op env (CreateTable n cols cons) S = create_table n cols cons S"
| "run_op env (DropTable n) S = drop_table n S"
| "run_op env (AddColumn n c) S = add_column env n (fst c) (snd c) S"
| "run_op env (DropColumn n c) S = drop_column n c S"
| "run_op env (CreateIndex k n cs unique cond) S =
     create_index k n \<lparr>ix_columns = cs, ix_unique = unique, ix_where = cond\<rparr> S"
| "run_op env (DropIndex k n) S = drop_index k n S"
| "run_op env (CreateUnique k n cs) S = add_constraint k n (Unique cs) S"
| "run_op env (CreateForeignKey k n t cs rs on) S = add_constraint k n (ForeignKey cs t rs on) S"
| "run_op env (DropConstraint k n) S = drop_constraint k n S"
| "run_op env (AlterNullable n c b) S = alter_column n c (\<lambda>col. col\<lparr>col_nullable := b\<rparr>) S"
| "run_op env (AlterType n c ty) S = alter_column n c (\<lambda>col. col\<lparr>col_type := ty\<rparr>) S"
| "run_op env (BulkInsert n rows) S = insert_rows env False n rows S"
| "run_op env (Execute stmt) S = execute env stmt S"

fun run_ops :: "dbms \<Rightarrow> op list \<Rightarrow> schema \<Rightarrow> schema sql" where
  "run_ops env [] S = Inr S"
| "run_ops env (x # xs) S = rbind (run_op env x S) (run_ops env xs)"

text \<open>Two schemas with the same tables, columns, constraints, indexes and sequences; rows aside.\<close>

definition same_table :: "tbl \<Rightarrow> tbl \<Rightarrow> bool" where
  "same_table t u \<longleftrightarrow> set (tbl_columns t) = set (tbl_columns u)
     \<and> set (tbl_constraints t) = set (tbl_constraints u)
     \<and> set (tbl_indexes t) = set (tbl_indexes u)
     \<and> map_option fst (tbl_sequence t) = map_option fst (tbl_sequence u)"

definition same_schema :: "schema \<Rightarrow> schema \<Rightarrow> bool" where
  "same_schema S T \<longleftrightarrow> set (map fst S) = set (map fst T)
     \<and> list_all (\<lambda>(n, t). case map_of T n of None \<Rightarrow> False | Some u \<Rightarrow> same_table t u) S"

section \<open>Lemmas\<close>

lemma get_drop [simp]:
  "get (filter (\<lambda>(d, v). d \<noteq> c) r) e = (if e = c then Null else get r e)"
  by (induction r) (auto simp: get_def)

lemma get_Nil [simp]: "get [] c = Null"
  by (simp add: get_def)

lemma get_Cons [simp]: "get ((d, v) # r) c = (if c = d then v else get r c)"
  by (simp add: get_def)

lemma run_ops_append: "run_ops env (xs @ ys) S = rbind (run_ops env xs S) (run_ops env ys)"
  by (induction xs arbitrary: S) (auto simp: rbind_def split: sum.splits)

lemma first_error_None: "first_error f xs = None \<longleftrightarrow> (\<forall>x\<in>set xs. f x = None)"
  by (induction xs) (auto split: option.splits)

lemma first_error_cong: "(\<And>x. x \<in> set xs \<Longrightarrow> f x = g x) \<Longrightarrow> first_error f xs = first_error g xs"
  by (induction xs) (auto split: option.splits)

lemma first_error_map: "first_error f (map g xs) = first_error (f \<circ> g) xs"
  by (induction xs) (auto split: option.splits)

lemma row_error_None: "row_error cols r = None \<longleftrightarrow> (\<forall>nc\<in>set cols. column_error nc r = None)"
  by (simp add: row_error_def first_error_None)

lemma column_error_get: "get r (fst nc) = get r' (fst nc) \<Longrightarrow> column_error nc r = column_error nc r'"
  by (simp add: column_error_def)

lemma column_error_Column [simp]:
  "column_error (Column n ty b d) r = (if get r n = Null \<and> \<not> b then Some NotNullViolation else fits ty (get r n))"
  by (simp add: column_error_def Column_def)

lemma key_of_cong: "(\<And>c. c \<in> set cs \<Longrightarrow> get r c = get r' c) \<Longrightarrow> key_of cs r = key_of cs r'"
  by (simp add: key_of_def)

lemma unique_on_map:
  "(\<And>r. r \<in> set rows \<Longrightarrow> key_of cs (f r) = key_of cs r) \<Longrightarrow> unique_on cs (map f rows) = unique_on cs rows"
  by (simp add: unique_on_def comp_def cong: map_cong)

lemma map_rows_Inr: "(\<And>r. r \<in> set rs \<Longrightarrow> f r = Inr (g r)) \<Longrightarrow> map_rows f rs = Inr (map g rs)"
  by (induction rs) simp_all

lemma map_of_head [simp]: "map_of ((n, t) # R) n = Some t"
  by simp

lemma set_table_absent: "n \<notin> set (map fst R) \<Longrightarrow> set_table n t R = R"
  by (induction R) (auto simp: set_table_def)

lemma set_table_head: "n \<notin> set (map fst R) \<Longrightarrow> set_table n t ((n, u) # R) = (n, t) # R"
  using set_table_absent [of n R t] by (simp add: set_table_def)

lemma on_table_head:
  "n \<notin> set (map fst R) \<Longrightarrow> on_table n f ((n, t) # R) = rbind (f t) (\<lambda>t'. Inr ((n, t') # R))"
  by (simp add: on_table_def set_table_head)

lemma rows_of_head [simp]: "rows_of n ((n, t) # R) = tbl_rows t"
  by (simp add: rows_of_def)

lemma rows_of_tail [simp]: "m \<noteq> n \<Longrightarrow> rows_of m ((n, t) # R) = rows_of m R"
  by (simp add: rows_of_def)

lemma update_rows_head:
  assumes "n \<notin> set (map fst R)" and "map_rows f (tbl_rows t) = Inr rows"
    and "table_error ((n, t) # R) (t\<lparr>tbl_rows := rows\<rparr>) = None"
  shows "update_rows n f ((n, t) # R) = Inr ((n, t\<lparr>tbl_rows := rows\<rparr>) # R)"
  using assms by (simp add: update_rows_def store_rows_def set_table_head del: map_of.simps)

lemma table_error_None:
  "table_error S t = None \<longleftrightarrow>
     (\<forall>r\<in>set (tbl_rows t). row_error (tbl_columns t) r = None)
     \<and> (\<forall>(k, ix)\<in>set (tbl_indexes t). index_ok ix (tbl_rows t))
     \<and> (\<forall>(k, c)\<in>set (tbl_constraints t). constraint_error S (tbl_rows t) c = None)"
  by (fastforce simp: table_error_def first_error_None split: option.splits if_splits)

text \<open>A database all of whose tables satisfy what they declare.\<close>

definition consistent :: "schema \<Rightarrow> bool" where
  "consistent S \<longleftrightarrow> list_all (\<lambda>(n, t). table_error S t = None) S"

end
