(* ===== verification/Migrations.thy ===== *)
theory Migrations
  imports Schema Authorization
begin

text \<open>
  \<open>alembic/versions\<close>: every revision with its \<open>upgrade\<close> and its \<open>downgrade\<close>, statement for statement,
  the chain their \<open>down_revision\<close> fields form, and \<open>alembic/env.py\<close>, which runs a path of the chain in
  one transaction.
\<close>

section \<open>The revisions\<close>

record revision =
  rev_id :: str
  rev_down :: "str option"
  rev_upgrade :: "op list"
  rev_downgrade :: "op list"

subsection \<open>\<open>a96aab63202d\<close>: initial schema\<close>

definition upgrade_a96aab63202d :: "op list" where
  "upgrade_a96aab63202d =
    [CreateTable ''users''
       [Column ''id'' Integer_t False NoDefault,
        Column ''email'' (String_t 255) False NoDefault,
        Column ''hashed_password'' (String_t 255) False NoDefault,
        Column ''created_at'' DateTime_tz False (Expr ''now()'')]
       [(''pk_users'', PrimaryKey [''id''])],
     CreateIndex ''ix_users_email'' ''users'' [''email''] True None,
     CreateTable ''items''
       [Column ''id'' Integer_t False NoDefault,
        Column ''title'' (String_t 255) False NoDefault,
        Column ''description'' Text_t True NoDefault,
        Column ''owner_id'' Integer_t False NoDefault,
        Column ''created_at'' DateTime_tz False (Expr ''now()'')]
       [(''fk_items_owner_id_users'', ForeignKey [''owner_id''] ''users'' [''id''] None),
        (''pk_items'', PrimaryKey [''id''])],
     CreateIndex ''ix_items_owner_id'' ''items'' [''owner_id''] False None]"

definition downgrade_a96aab63202d :: "op list" where
  "downgrade_a96aab63202d =
    [DropIndex ''ix_items_owner_id'' ''items'',
     DropTable ''items'',
     DropIndex ''ix_users_email'' ''users'',
     DropTable ''users'']"

definition revision_a96aab63202d :: "revision" where
  "revision_a96aab63202d =
    \<lparr>rev_id = ''a96aab63202d'', rev_down = None,
     rev_upgrade = upgrade_a96aab63202d, rev_downgrade = downgrade_a96aab63202d\<rparr>"

subsection \<open>\<open>80bc0acf7d07\<close>: add timestamps and user role\<close>

definition upgrade_80bc0acf7d07 :: "op list" where
  "upgrade_80bc0acf7d07 =
    [AddColumn ''items'' (Column ''updated_at'' DateTime_tz False (Expr ''now()'')),
     AddColumn ''users'' (Column ''role'' (String_t 20) False (Literal ''user'')),
     AddColumn ''users'' (Column ''updated_at'' DateTime_tz False (Expr ''now()'')),
     DropIndex ''ix_users_email'' ''users'',
     CreateUnique ''uq_users_email'' ''users'' [''email'']]"

definition downgrade_80bc0acf7d07 :: "op list" where
  "downgrade_80bc0acf7d07 =
    [DropConstraint ''uq_users_email'' ''users'',
     CreateIndex ''ix_users_email'' ''users'' [''email''] True None,
     DropColumn ''users'' ''updated_at'',
     DropColumn ''users'' ''role'',
     DropColumn ''items'' ''updated_at'']"

definition revision_80bc0acf7d07 :: "revision" where
  "revision_80bc0acf7d07 =
    \<lparr>rev_id = ''80bc0acf7d07'', rev_down = Some ''a96aab63202d'',
     rev_upgrade = upgrade_80bc0acf7d07, rev_downgrade = downgrade_80bc0acf7d07\<rparr>"

subsection \<open>\<open>c93eac896d35\<close>: add soft delete\<close>

definition upgrade_c93eac896d35 :: "op list" where
  "upgrade_c93eac896d35 =
    [AddColumn ''items'' (Column ''deleted_at'' DateTime_tz True NoDefault),
     AddColumn ''users'' (Column ''deleted_at'' DateTime_tz True NoDefault),
     DropConstraint ''uq_users_email'' ''users'',
     CreateIndex ''uq_users_email_active'' ''users'' [''email''] True (Some ''deleted_at IS NULL'')]"

definition downgrade_c93eac896d35 :: "op list" where
  "downgrade_c93eac896d35 =
    [DropIndex ''uq_users_email_active'' ''users'',
     CreateUnique ''uq_users_email'' ''users'' [''email''],
     DropColumn ''users'' ''deleted_at'',
     DropColumn ''items'' ''deleted_at'']"

definition revision_c93eac896d35 :: "revision" where
  "revision_c93eac896d35 =
    \<lparr>rev_id = ''c93eac896d35'', rev_down = Some ''80bc0acf7d07'',
     rev_upgrade = upgrade_c93eac896d35, rev_downgrade = downgrade_c93eac896d35\<rparr>"

subsection \<open>\<open>f32374488e8e\<close>: add request logs and a user name\<close>

definition upgrade_f32374488e8e :: "op list" where
  "upgrade_f32374488e8e =
    [CreateTable ''request_logs''
       [Column ''id'' Integer_t False NoDefault,
        Column ''request_id'' (String_t 64) False NoDefault,
        Column ''method'' (String_t 10) False NoDefault,
        Column ''path'' (String_t 512) False NoDefault,
        Column ''status_code'' Integer_t False NoDefault,
        Column ''duration_ms'' Float_t False NoDefault,
        Column ''client_ip'' (String_t 45) True NoDefault,
        Column ''user_id'' Integer_t True NoDefault,
        Column ''created_at'' DateTime_tz False (Expr ''now()'')]
       [(''pk_request_logs'', PrimaryKey [''id''])],
     CreateIndex ''ix_request_logs_created_at'' ''request_logs'' [''created_at''] False None,
     CreateIndex ''ix_request_logs_request_id'' ''request_logs'' [''request_id''] False None,
     CreateIndex ''ix_request_logs_status_code'' ''request_logs'' [''status_code''] False None,
     CreateIndex ''ix_request_logs_user_id_created_at'' ''request_logs'' [''user_id'', ''created_at''] False None,
     AddColumn ''users'' (Column ''name'' (String_t 120) True NoDefault)]"

definition downgrade_f32374488e8e :: "op list" where
  "downgrade_f32374488e8e =
    [DropColumn ''users'' ''name'',
     DropIndex ''ix_request_logs_user_id_created_at'' ''request_logs'',
     DropIndex ''ix_request_logs_status_code'' ''request_logs'',
     DropIndex ''ix_request_logs_request_id'' ''request_logs'',
     DropIndex ''ix_request_logs_created_at'' ''request_logs'',
     DropTable ''request_logs'']"

definition revision_f32374488e8e :: "revision" where
  "revision_f32374488e8e =
    \<lparr>rev_id = ''f32374488e8e'', rev_down = Some ''c93eac896d35'',
     rev_upgrade = upgrade_f32374488e8e, rev_downgrade = downgrade_f32374488e8e\<rparr>"

subsection \<open>\<open>b399ddf7cb8a\<close>: add user preferences\<close>

definition upgrade_b399ddf7cb8a :: "op list" where
  "upgrade_b399ddf7cb8a =
    [CreateTable ''user_preferences''
       [Column ''id'' Integer_t False NoDefault,
        Column ''user_id'' Integer_t False NoDefault,
        Column ''locale'' (String_t 10) False (Literal ''en-US''),
        Column ''theme'' (String_t 10) False (Literal ''system''),
        Column ''show_request_id'' Boolean_t False (Literal ''true''),
        Column ''created_at'' DateTime_tz False (Expr ''now()''),
        Column ''updated_at'' DateTime_tz False (Expr ''now()'')]
       [(''fk_user_preferences_user_id_users'', ForeignKey [''user_id''] ''users'' [''id''] None),
        (''pk_user_preferences'', PrimaryKey [''id''])],
     CreateIndex ''ix_user_preferences_user_id'' ''user_preferences'' [''user_id''] True None]"

definition downgrade_b399ddf7cb8a :: "op list" where
  "downgrade_b399ddf7cb8a =
    [DropIndex ''ix_user_preferences_user_id'' ''user_preferences'',
     DropTable ''user_preferences'']"

definition revision_b399ddf7cb8a :: "revision" where
  "revision_b399ddf7cb8a =
    \<lparr>rev_id = ''b399ddf7cb8a'', rev_down = Some ''f32374488e8e'',
     rev_upgrade = upgrade_b399ddf7cb8a, rev_downgrade = downgrade_b399ddf7cb8a\<rparr>"

subsection \<open>\<open>4793e2423fde\<close>: add revocable refresh tokens\<close>

definition upgrade_4793e2423fde :: "op list" where
  "upgrade_4793e2423fde =
    [CreateTable ''refresh_tokens''
       [Column ''id'' Integer_t False NoDefault,
        Column ''token_hash'' (String_t 64) False NoDefault,
        Column ''user_id'' Integer_t False NoDefault,
        Column ''expires_at'' DateTime_tz False NoDefault,
        Column ''revoked_at'' DateTime_tz True NoDefault,
        Column ''created_at'' DateTime_tz False (Expr ''now()'')]
       [(''fk_refresh_tokens_user_id_users'', ForeignKey [''user_id''] ''users'' [''id''] None),
        (''pk_refresh_tokens'', PrimaryKey [''id'']),
        (''uq_refresh_tokens_token_hash'', Unique [''token_hash''])],
     CreateIndex ''ix_refresh_tokens_user_id'' ''refresh_tokens'' [''user_id''] False None,
     DropIndex ''ix_request_logs_status_code'' ''request_logs'']"

definition downgrade_4793e2423fde :: "op list" where
  "downgrade_4793e2423fde =
    [CreateIndex ''ix_request_logs_status_code'' ''request_logs'' [''status_code''] False None,
     DropIndex ''ix_refresh_tokens_user_id'' ''refresh_tokens'',
     DropTable ''refresh_tokens'']"

definition revision_4793e2423fde :: "revision" where
  "revision_4793e2423fde =
    \<lparr>rev_id = ''4793e2423fde'', rev_down = Some ''b399ddf7cb8a'',
     rev_upgrade = upgrade_4793e2423fde, rev_downgrade = downgrade_4793e2423fde\<rparr>"

subsection \<open>\<open>41ffc6580287\<close>: add per account feature flags\<close>

definition upgrade_41ffc6580287 :: "op list" where
  "upgrade_41ffc6580287 =
    [AddColumn ''user_preferences'' (Column ''features'' (String_t 200) True NoDefault)]"

definition downgrade_41ffc6580287 :: "op list" where
  "downgrade_41ffc6580287 =
    [DropColumn ''user_preferences'' ''features'']"

definition revision_41ffc6580287 :: "revision" where
  "revision_41ffc6580287 =
    \<lparr>rev_id = ''41ffc6580287'', rev_down = Some ''4793e2423fde'',
     rev_upgrade = upgrade_41ffc6580287, rev_downgrade = downgrade_41ffc6580287\<rparr>"

subsection \<open>\<open>0a456e5b983c\<close>: lowercase existing emails\<close>

definition upgrade_0a456e5b983c :: "op list" where
  "upgrade_0a456e5b983c =
    [Execute LowerEmails]"

definition downgrade_0a456e5b983c :: "op list" where
  "downgrade_0a456e5b983c =
    []"

definition revision_0a456e5b983c :: "revision" where
  "revision_0a456e5b983c =
    \<lparr>rev_id = ''0a456e5b983c'', rev_down = Some ''41ffc6580287'',
     rev_upgrade = upgrade_0a456e5b983c, rev_downgrade = downgrade_0a456e5b983c\<rparr>"

subsection \<open>\<open>d1c7a4f2b8e3\<close>: add roles and permissions\<close>

definition PERMISSIONS_d1c7a4f2b8e3 :: "(str \<times> str) list" where
  "PERMISSIONS_d1c7a4f2b8e3 =
    [(''items'', ''read''),
     (''items'', ''create''),
     (''items'', ''update''),
     (''items'', ''delete''),
     (''request_log'', ''read''),
     (''users'', ''read''),
     (''users'', ''update''),
     (''roles'', ''read''),
     (''roles'', ''create''),
     (''roles'', ''update''),
     (''roles'', ''delete''),
     (''feature_flags'', ''read'')]"

definition GRANTS_d1c7a4f2b8e3 :: "(str \<times> (str \<times> str \<times> str) list) list" where
  "GRANTS_d1c7a4f2b8e3 =
    [(''user'', [(''items'', ''read'', ''own''),
      (''items'', ''create'', ''own''),
      (''items'', ''update'', ''own''),
      (''items'', ''delete'', ''own''),
      (''request_log'', ''read'', ''own''),
      (''feature_flags'', ''read'', ''all'')]),
     (''admin'', [(''items'', ''read'', ''own''),
      (''items'', ''create'', ''own''),
      (''items'', ''update'', ''own''),
      (''items'', ''delete'', ''own''),
      (''request_log'', ''read'', ''all''),
      (''users'', ''read'', ''all''),
      (''users'', ''update'', ''all''),
      (''roles'', ''read'', ''all''),
      (''roles'', ''create'', ''all''),
      (''roles'', ''update'', ''all''),
      (''roles'', ''delete'', ''all''),
      (''feature_flags'', ''read'', ''all'')])]"

definition upgrade_d1c7a4f2b8e3 :: "op list" where
  "upgrade_d1c7a4f2b8e3 =
    [CreateTable ''roles''
       [Column ''id'' Integer_t False NoDefault,
        Column ''name'' (String_t 50) False NoDefault,
        Column ''created_at'' DateTime_tz False (Expr ''now()''),
        Column ''updated_at'' DateTime_tz False (Expr ''now()'')]
       [(''pk_roles'', PrimaryKey [''id'']),
        (''uq_roles_name'', Unique [''name''])],
     CreateTable ''permissions''
       [Column ''id'' Integer_t False NoDefault,
        Column ''resource'' (String_t 50) False NoDefault,
        Column ''action'' (String_t 50) False NoDefault]
       [(''pk_permissions'', PrimaryKey [''id'']),
        (''uq_permissions_resource'', Unique [''resource'', ''action''])],
     CreateTable ''role_permissions''
       [Column ''role_id'' Integer_t False NoDefault,
        Column ''permission_id'' Integer_t False NoDefault,
        Column ''scope'' (String_t 10) False NoDefault]
       [(''fk_role_permissions_role_id_roles'', ForeignKey [''role_id''] ''roles'' [''id''] (Some ''CASCADE'')),
        (''fk_role_permissions_permission_id_permissions'', ForeignKey [''permission_id''] ''permissions'' [''id''] (Some ''CASCADE'')),
        (''pk_role_permissions'', PrimaryKey [''role_id'', ''permission_id''])]] @
    [BulkInsert ''roles'' (map (\<lambda>(name, grants). [(''name'', VStr name)]) GRANTS_d1c7a4f2b8e3)] @
    [BulkInsert ''permissions'' (map (\<lambda>(resource, action).
       [(''resource'', VStr resource), (''action'', VStr action)]) PERMISSIONS_d1c7a4f2b8e3)] @
    concat (map (\<lambda>(role, grants). map (\<lambda>(resource, action, scope).
       Execute (InsertGrant False role resource action scope)) grants) GRANTS_d1c7a4f2b8e3) @
    [AddColumn ''users'' (Column ''role_id'' Integer_t True NoDefault),
     Execute SetRoleIdByName,
     AlterNullable ''users'' ''role_id'' False,
     CreateForeignKey ''fk_users_role_id_roles'' ''users'' ''roles'' [''role_id''] [''id''] None,
     DropColumn ''users'' ''role'']"

definition downgrade_d1c7a4f2b8e3 :: "op list" where
  "downgrade_d1c7a4f2b8e3 =
    [AddColumn ''users'' (Column ''role'' (String_t 20) False (Literal ''user'')),
     Execute SetRoleByRoleId,
     DropConstraint ''fk_users_role_id_roles'' ''users'',
     DropColumn ''users'' ''role_id'',
     DropTable ''role_permissions'',
     DropTable ''permissions'',
     DropTable ''roles'']"

definition revision_d1c7a4f2b8e3 :: "revision" where
  "revision_d1c7a4f2b8e3 =
    \<lparr>rev_id = ''d1c7a4f2b8e3'', rev_down = Some ''0a456e5b983c'',
     rev_upgrade = upgrade_d1c7a4f2b8e3, rev_downgrade = downgrade_d1c7a4f2b8e3\<rparr>"

subsection \<open>\<open>e2f8b1c4d906\<close>: rename the admin role\<close>

definition upgrade_e2f8b1c4d906 :: "op list" where
  "upgrade_e2f8b1c4d906 =
    [Execute (RenameRole ''admin'' ''superadmin'')]"

definition downgrade_e2f8b1c4d906 :: "op list" where
  "downgrade_e2f8b1c4d906 =
    [Execute (RenameRole ''superadmin'' ''admin'')]"

definition revision_e2f8b1c4d906 :: "revision" where
  "revision_e2f8b1c4d906 =
    \<lparr>rev_id = ''e2f8b1c4d906'', rev_down = Some ''d1c7a4f2b8e3'',
     rev_upgrade = upgrade_e2f8b1c4d906, rev_downgrade = downgrade_e2f8b1c4d906\<rparr>"

subsection \<open>\<open>c4a17d59f8b2\<close>: let an account hold several roles\<close>

definition upgrade_c4a17d59f8b2 :: "op list" where
  "upgrade_c4a17d59f8b2 =
    [CreateTable ''user_roles''
       [Column ''user_id'' Integer_t False NoDefault,
        Column ''role_id'' Integer_t False NoDefault]
       [(''fk_user_roles_user_id_users'', ForeignKey [''user_id''] ''users'' [''id''] (Some ''CASCADE'')),
        (''fk_user_roles_role_id_roles'', ForeignKey [''role_id''] ''roles'' [''id''] (Some ''CASCADE'')),
        (''pk_user_roles'', PrimaryKey [''user_id'', ''role_id''])],
     Execute CopyRoleIds,
     DropConstraint ''fk_users_role_id_roles'' ''users'',
     DropColumn ''users'' ''role_id'']"

definition downgrade_c4a17d59f8b2 :: "op list" where
  "downgrade_c4a17d59f8b2 =
    [AddColumn ''users'' (Column ''role_id'' Integer_t True NoDefault),
     Execute SetRoleIdToLeast,
     Execute (SetRoleIdIfNull ''user''),
     AlterNullable ''users'' ''role_id'' False,
     CreateForeignKey ''fk_users_role_id_roles'' ''users'' ''roles'' [''role_id''] [''id''] None,
     DropTable ''user_roles'']"

definition revision_c4a17d59f8b2 :: "revision" where
  "revision_c4a17d59f8b2 =
    \<lparr>rev_id = ''c4a17d59f8b2'', rev_down = Some ''e2f8b1c4d906'',
     rev_upgrade = upgrade_c4a17d59f8b2, rev_downgrade = downgrade_c4a17d59f8b2\<rparr>"

subsection \<open>\<open>b7d3e91af204\<close>: gate settings behind a permission\<close>

definition HOLDERS_b7d3e91af204 :: "str list" where
  "HOLDERS_b7d3e91af204 =
    [''user'', ''superadmin'']"

definition upgrade_b7d3e91af204 :: "op list" where
  "upgrade_b7d3e91af204 =
    [Execute (InsertPermission ''settings'' ''read'')] @
    map (\<lambda>role. Execute (InsertGrant True role ''settings'' ''read'' ''all'')) HOLDERS_b7d3e91af204"

definition downgrade_b7d3e91af204 :: "op list" where
  "downgrade_b7d3e91af204 =
    [Execute (DeleteGrantsOf ''settings'' ''read''),
     Execute (DeletePermission ''settings'' ''read'')]"

definition revision_b7d3e91af204 :: "revision" where
  "revision_b7d3e91af204 =
    \<lparr>rev_id = ''b7d3e91af204'', rev_down = Some ''c4a17d59f8b2'',
     rev_upgrade = upgrade_b7d3e91af204, rev_downgrade = downgrade_b7d3e91af204\<rparr>"

subsection \<open>\<open>f5c8021ea6b1\<close>: let feature flags be delegated\<close>

definition upgrade_f5c8021ea6b1 :: "op list" where
  "upgrade_f5c8021ea6b1 =
    [Execute (InsertPermission ''feature_flags'' ''update''),
     Execute (InsertGrant True ''superadmin'' ''feature_flags'' ''update'' ''all'')]"

definition downgrade_f5c8021ea6b1 :: "op list" where
  "downgrade_f5c8021ea6b1 =
    [Execute (DeleteGrantsOf ''feature_flags'' ''update''),
     Execute (DeletePermission ''feature_flags'' ''update'')]"

definition revision_f5c8021ea6b1 :: "revision" where
  "revision_f5c8021ea6b1 =
    \<lparr>rev_id = ''f5c8021ea6b1'', rev_down = Some ''b7d3e91af204'',
     rev_upgrade = upgrade_f5c8021ea6b1, rev_downgrade = downgrade_f5c8021ea6b1\<rparr>"

subsection \<open>\<open>a2e64cb7d130\<close>: let a role carry feature flags\<close>

definition upgrade_a2e64cb7d130 :: "op list" where
  "upgrade_a2e64cb7d130 =
    [AddColumn ''roles'' (Column ''features'' (String_t 200) True NoDefault)]"

definition downgrade_a2e64cb7d130 :: "op list" where
  "downgrade_a2e64cb7d130 =
    [DropColumn ''roles'' ''features'']"

definition revision_a2e64cb7d130 :: "revision" where
  "revision_a2e64cb7d130 =
    \<lparr>rev_id = ''a2e64cb7d130'', rev_down = Some ''f5c8021ea6b1'',
     rev_upgrade = upgrade_a2e64cb7d130, rev_downgrade = downgrade_a2e64cb7d130\<rparr>"

subsection \<open>\<open>9683fb4021be\<close>: add audit logs\<close>

definition upgrade_9683fb4021be :: "op list" where
  "upgrade_9683fb4021be =
    [CreateTable ''audit_logs''
       [Column ''id'' BigInteger_t False NoDefault,
        Column ''occurred_at'' DateTime_tz False (Expr ''now()''),
        Column ''request_id'' (String_t 64) True NoDefault,
        Column ''actor_id'' Integer_t True NoDefault,
        Column ''impersonator_id'' Integer_t True NoDefault,
        Column ''source'' (String_t 16) False NoDefault,
        Column ''method'' (String_t 10) True NoDefault,
        Column ''path'' (String_t 512) True NoDefault,
        Column ''client_ip'' (String_t 45) True NoDefault,
        Column ''table_name'' (String_t 63) False NoDefault,
        Column ''action'' (String_t 20) False NoDefault,
        Column ''row_pk'' (String_t 128) True NoDefault,
        Column ''changes'' JSONB_t False NoDefault,
        Column ''truncated'' Boolean_t False (Literal ''false'')]
       [(''pk_audit_logs'', PrimaryKey [''id''])],
     CreateIndex ''ix_audit_logs_actor_id_occurred_at'' ''audit_logs'' [''actor_id'', ''occurred_at''] False None,
     CreateIndex ''ix_audit_logs_occurred_at'' ''audit_logs'' [''occurred_at''] False None,
     CreateIndex ''ix_audit_logs_request_id'' ''audit_logs'' [''request_id''] False None,
     CreateIndex ''ix_audit_logs_table_name_row_pk'' ''audit_logs'' [''table_name'', ''row_pk''] False None]"

definition downgrade_9683fb4021be :: "op list" where
  "downgrade_9683fb4021be =
    [DropIndex ''ix_audit_logs_table_name_row_pk'' ''audit_logs'',
     DropIndex ''ix_audit_logs_request_id'' ''audit_logs'',
     DropIndex ''ix_audit_logs_occurred_at'' ''audit_logs'',
     DropIndex ''ix_audit_logs_actor_id_occurred_at'' ''audit_logs'',
     DropTable ''audit_logs'']"

definition revision_9683fb4021be :: "revision" where
  "revision_9683fb4021be =
    \<lparr>rev_id = ''9683fb4021be'', rev_down = Some ''a2e64cb7d130'',
     rev_upgrade = upgrade_9683fb4021be, rev_downgrade = downgrade_9683fb4021be\<rparr>"

subsection \<open>\<open>c81a4f7b2d55\<close>: gate the audit log behind a permission\<close>

definition upgrade_c81a4f7b2d55 :: "op list" where
  "upgrade_c81a4f7b2d55 =
    [Execute (InsertPermission ''audit_log'' ''read''),
     Execute (InsertGrant True ''superadmin'' ''audit_log'' ''read'' ''all'')]"

definition downgrade_c81a4f7b2d55 :: "op list" where
  "downgrade_c81a4f7b2d55 =
    [Execute (DeleteGrantsOf ''audit_log'' ''read''),
     Execute (DeletePermission ''audit_log'' ''read'')]"

definition revision_c81a4f7b2d55 :: "revision" where
  "revision_c81a4f7b2d55 =
    \<lparr>rev_id = ''c81a4f7b2d55'', rev_down = Some ''9683fb4021be'',
     rev_upgrade = upgrade_c81a4f7b2d55, rev_downgrade = downgrade_c81a4f7b2d55\<rparr>"

subsection \<open>\<open>d94b6e0f3a17\<close>: add the impersonate permission\<close>

definition upgrade_d94b6e0f3a17 :: "op list" where
  "upgrade_d94b6e0f3a17 =
    [Execute (InsertPermission ''users'' ''impersonate''),
     Execute (InsertGrant True ''superadmin'' ''users'' ''impersonate'' ''all'')]"

definition downgrade_d94b6e0f3a17 :: "op list" where
  "downgrade_d94b6e0f3a17 =
    [Execute (DeleteGrantsOf ''users'' ''impersonate''),
     Execute (DeletePermission ''users'' ''impersonate'')]"

definition revision_d94b6e0f3a17 :: "revision" where
  "revision_d94b6e0f3a17 =
    \<lparr>rev_id = ''d94b6e0f3a17'', rev_down = Some ''c81a4f7b2d55'',
     rev_upgrade = upgrade_d94b6e0f3a17, rev_downgrade = downgrade_d94b6e0f3a17\<rparr>"

subsection \<open>\<open>e37c5a91b204\<close>: add the user delete permission\<close>

definition upgrade_e37c5a91b204 :: "op list" where
  "upgrade_e37c5a91b204 =
    [Execute (InsertPermission ''users'' ''delete''),
     Execute (InsertGrant True ''superadmin'' ''users'' ''delete'' ''all'')]"

definition downgrade_e37c5a91b204 :: "op list" where
  "downgrade_e37c5a91b204 =
    [Execute (DeleteGrantsOf ''users'' ''delete''),
     Execute (DeletePermission ''users'' ''delete'')]"

definition revision_e37c5a91b204 :: "revision" where
  "revision_e37c5a91b204 =
    \<lparr>rev_id = ''e37c5a91b204'', rev_down = Some ''d94b6e0f3a17'',
     rev_upgrade = upgrade_e37c5a91b204, rev_downgrade = downgrade_e37c5a91b204\<rparr>"

subsection \<open>\<open>e476f80fd304\<close>: add an item version counter\<close>

definition upgrade_e476f80fd304 :: "op list" where
  "upgrade_e476f80fd304 =
    [AddColumn ''items'' (Column ''version'' Integer_t False (Expr ''1''))]"

definition downgrade_e476f80fd304 :: "op list" where
  "downgrade_e476f80fd304 =
    [DropColumn ''items'' ''version'']"

definition revision_e476f80fd304 :: "revision" where
  "revision_e476f80fd304 =
    \<lparr>rev_id = ''e476f80fd304'', rev_down = Some ''e37c5a91b204'',
     rev_upgrade = upgrade_e476f80fd304, rev_downgrade = downgrade_e476f80fd304\<rparr>"

subsection \<open>\<open>29c672d5fb69\<close>: add idempotency keys\<close>

definition upgrade_29c672d5fb69 :: "op list" where
  "upgrade_29c672d5fb69 =
    [CreateTable ''idempotency_keys''
       [Column ''id'' Integer_t False NoDefault,
        Column ''key'' (String_t 255) False NoDefault,
        Column ''user_id'' Integer_t False NoDefault,
        Column ''method'' (String_t 10) False NoDefault,
        Column ''path'' (String_t 255) False NoDefault,
        Column ''request_hash'' (String_t 64) False NoDefault,
        Column ''status_code'' Integer_t True NoDefault,
        Column ''response_body'' Text_t True NoDefault,
        Column ''content_type'' (String_t 100) True NoDefault,
        Column ''completed_at'' DateTime_tz True NoDefault,
        Column ''created_at'' DateTime_tz False (Expr ''now()'')]
       [(''pk_idempotency_keys'', PrimaryKey [''id'']),
        (''uq_idempotency_keys_user_id_key'', Unique [''user_id'', ''key''])],
     CreateIndex ''ix_idempotency_keys_created_at'' ''idempotency_keys'' [''created_at''] False None,
     CreateIndex ''ix_idempotency_keys_user_id'' ''idempotency_keys'' [''user_id''] False None]"

definition downgrade_29c672d5fb69 :: "op list" where
  "downgrade_29c672d5fb69 =
    [DropIndex ''ix_idempotency_keys_user_id'' ''idempotency_keys'',
     DropIndex ''ix_idempotency_keys_created_at'' ''idempotency_keys'',
     DropTable ''idempotency_keys'']"

definition revision_29c672d5fb69 :: "revision" where
  "revision_29c672d5fb69 =
    \<lparr>rev_id = ''29c672d5fb69'', rev_down = Some ''e476f80fd304'',
     rev_upgrade = upgrade_29c672d5fb69, rev_downgrade = downgrade_29c672d5fb69\<rparr>"

subsection \<open>\<open>5edda92271a7\<close>: store an account timezone\<close>

definition upgrade_5edda92271a7 :: "op list" where
  "upgrade_5edda92271a7 =
    [AddColumn ''user_preferences'' (Column ''timezone'' (String_t 64) False (Literal ''UTC''))]"

definition downgrade_5edda92271a7 :: "op list" where
  "downgrade_5edda92271a7 =
    [DropColumn ''user_preferences'' ''timezone'']"

definition revision_5edda92271a7 :: "revision" where
  "revision_5edda92271a7 =
    \<lparr>rev_id = ''5edda92271a7'', rev_down = Some ''29c672d5fb69'',
     rev_upgrade = upgrade_5edda92271a7, rev_downgrade = downgrade_5edda92271a7\<rparr>"

subsection \<open>\<open>4e9943672be8\<close>: add single use account tokens\<close>

definition upgrade_4e9943672be8 :: "op list" where
  "upgrade_4e9943672be8 =
    [CreateTable ''single_use_tokens''
       [Column ''id'' Integer_t False NoDefault,
        Column ''token_hash'' (String_t 64) False NoDefault,
        Column ''user_id'' Integer_t False NoDefault,
        Column ''purpose'' (String_t 30) False NoDefault,
        Column ''expires_at'' DateTime_tz False NoDefault,
        Column ''used_at'' DateTime_tz True NoDefault,
        Column ''created_at'' DateTime_tz False (Expr ''now()'')]
       [(''fk_single_use_tokens_user_id_users'', ForeignKey [''user_id''] ''users'' [''id''] None),
        (''pk_single_use_tokens'', PrimaryKey [''id'']),
        (''uq_single_use_tokens_token_hash'', Unique [''token_hash''])],
     CreateIndex ''ix_single_use_tokens_user_id'' ''single_use_tokens'' [''user_id''] False None,
     AddColumn ''users'' (Column ''email_verified_at'' DateTime_tz True NoDefault)]"

definition downgrade_4e9943672be8 :: "op list" where
  "downgrade_4e9943672be8 =
    [DropColumn ''users'' ''email_verified_at'',
     DropIndex ''ix_single_use_tokens_user_id'' ''single_use_tokens'',
     DropTable ''single_use_tokens'']"

definition revision_4e9943672be8 :: "revision" where
  "revision_4e9943672be8 =
    \<lparr>rev_id = ''4e9943672be8'', rev_down = Some ''5edda92271a7'',
     rev_upgrade = upgrade_4e9943672be8, rev_downgrade = downgrade_4e9943672be8\<rparr>"

subsection \<open>\<open>2cafcc5bd6db\<close>: add item attachments\<close>

definition upgrade_2cafcc5bd6db :: "op list" where
  "upgrade_2cafcc5bd6db =
    [CreateTable ''attachments''
       [Column ''id'' Integer_t False NoDefault,
        Column ''key'' (String_t 64) False NoDefault,
        Column ''filename'' (String_t 255) False NoDefault,
        Column ''content_type'' (String_t 100) False NoDefault,
        Column ''size_bytes'' Integer_t False NoDefault,
        Column ''item_id'' Integer_t False NoDefault,
        Column ''created_at'' DateTime_tz False (Expr ''now()''),
        Column ''updated_at'' DateTime_tz False (Expr ''now()'')]
       [(''fk_attachments_item_id_items'', ForeignKey [''item_id''] ''items'' [''id''] None),
        (''pk_attachments'', PrimaryKey [''id'']),
        (''uq_attachments_key'', Unique [''key''])],
     CreateIndex ''ix_attachments_item_id'' ''attachments'' [''item_id''] False None]"

definition downgrade_2cafcc5bd6db :: "op list" where
  "downgrade_2cafcc5bd6db =
    [DropIndex ''ix_attachments_item_id'' ''attachments'',
     DropTable ''attachments'']"

definition revision_2cafcc5bd6db :: "revision" where
  "revision_2cafcc5bd6db =
    \<lparr>rev_id = ''2cafcc5bd6db'', rev_down = Some ''4e9943672be8'',
     rev_upgrade = upgrade_2cafcc5bd6db, rev_downgrade = downgrade_2cafcc5bd6db\<rparr>"

subsection \<open>\<open>d43209d5e476\<close>: stamp when a password changed\<close>

definition upgrade_d43209d5e476 :: "op list" where
  "upgrade_d43209d5e476 =
    [AddColumn ''users'' (Column ''password_changed_at'' DateTime_tz True NoDefault)]"

definition downgrade_d43209d5e476 :: "op list" where
  "downgrade_d43209d5e476 =
    [DropColumn ''users'' ''password_changed_at'']"

definition revision_d43209d5e476 :: "revision" where
  "revision_d43209d5e476 =
    \<lparr>rev_id = ''d43209d5e476'', rev_down = Some ''2cafcc5bd6db'',
     rev_upgrade = upgrade_d43209d5e476, rev_downgrade = downgrade_d43209d5e476\<rparr>"

subsection \<open>\<open>a5f508821053\<close>: add indexes and cascade deletes\<close>

definition upgrade_a5f508821053 :: "op list" where
  "upgrade_a5f508821053 =
    [DropConstraint ''fk_attachments_item_id_items'' ''attachments'',
     CreateForeignKey ''fk_attachments_item_id_items'' ''attachments'' ''items'' [''item_id''] [''id''] (Some ''CASCADE''),
     DropIndex ''ix_items_owner_id'' ''items'',
     CreateIndex ''ix_items_owner_id_deleted_at'' ''items'' [''owner_id'', ''deleted_at''] False None,
     DropConstraint ''fk_items_owner_id_users'' ''items'',
     CreateForeignKey ''fk_items_owner_id_users'' ''items'' ''users'' [''owner_id''] [''id''] (Some ''CASCADE''),
     DropConstraint ''fk_refresh_tokens_user_id_users'' ''refresh_tokens'',
     CreateForeignKey ''fk_refresh_tokens_user_id_users'' ''refresh_tokens'' ''users'' [''user_id''] [''id''] (Some ''CASCADE''),
     AlterType ''request_logs'' ''id'' BigInteger_t,
     Execute (AlterSequence ''request_logs'' BigInteger_t),
     DropConstraint ''fk_single_use_tokens_user_id_users'' ''single_use_tokens'',
     CreateForeignKey ''fk_single_use_tokens_user_id_users'' ''single_use_tokens'' ''users'' [''user_id''] [''id''] (Some ''CASCADE''),
     DropConstraint ''fk_user_preferences_user_id_users'' ''user_preferences'',
     CreateForeignKey ''fk_user_preferences_user_id_users'' ''user_preferences'' ''users'' [''user_id''] [''id''] (Some ''CASCADE'')]"

definition downgrade_a5f508821053 :: "op list" where
  "downgrade_a5f508821053 =
    [DropConstraint ''fk_user_preferences_user_id_users'' ''user_preferences'',
     CreateForeignKey ''fk_user_preferences_user_id_users'' ''user_preferences'' ''users'' [''user_id''] [''id''] None,
     DropConstraint ''fk_single_use_tokens_user_id_users'' ''single_use_tokens'',
     CreateForeignKey ''fk_single_use_tokens_user_id_users'' ''single_use_tokens'' ''users'' [''user_id''] [''id''] None,
     Execute (AlterSequence ''request_logs'' Integer_t),
     AlterType ''request_logs'' ''id'' Integer_t,
     DropConstraint ''fk_refresh_tokens_user_id_users'' ''refresh_tokens'',
     CreateForeignKey ''fk_refresh_tokens_user_id_users'' ''refresh_tokens'' ''users'' [''user_id''] [''id''] None,
     DropConstraint ''fk_items_owner_id_users'' ''items'',
     CreateForeignKey ''fk_items_owner_id_users'' ''items'' ''users'' [''owner_id''] [''id''] None,
     DropIndex ''ix_items_owner_id_deleted_at'' ''items'',
     CreateIndex ''ix_items_owner_id'' ''items'' [''owner_id''] False None,
     DropConstraint ''fk_attachments_item_id_items'' ''attachments'',
     CreateForeignKey ''fk_attachments_item_id_items'' ''attachments'' ''items'' [''item_id''] [''id''] None]"

definition revision_a5f508821053 :: "revision" where
  "revision_a5f508821053 =
    \<lparr>rev_id = ''a5f508821053'', rev_down = Some ''d43209d5e476'',
     rev_upgrade = upgrade_a5f508821053, rev_downgrade = downgrade_a5f508821053\<rparr>"

section \<open>The chain\<close>

text \<open>The files of the directory, by name.\<close>

definition versions :: "revision list" where
  "versions =
    [revision_0a456e5b983c,
     revision_29c672d5fb69,
     revision_2cafcc5bd6db,
     revision_41ffc6580287,
     revision_4793e2423fde,
     revision_4e9943672be8,
     revision_5edda92271a7,
     revision_80bc0acf7d07,
     revision_9683fb4021be,
     revision_a2e64cb7d130,
     revision_a5f508821053,
     revision_a96aab63202d,
     revision_b399ddf7cb8a,
     revision_b7d3e91af204,
     revision_c4a17d59f8b2,
     revision_c81a4f7b2d55,
     revision_c93eac896d35,
     revision_d1c7a4f2b8e3,
     revision_d43209d5e476,
     revision_d94b6e0f3a17,
     revision_e2f8b1c4d906,
     revision_e37c5a91b204,
     revision_e476f80fd304,
     revision_f32374488e8e,
     revision_f5c8021ea6b1]"

text \<open>
  \<open>lineage fuel from\<close>: the revisions after \<open>from\<close> in the order \<open>down_revision\<close> gives, which is the
  order Alembic upgrades in. A fork ends the walk. The number of files is fuel enough.
\<close>

fun lineage :: "nat \<Rightarrow> str option \<Rightarrow> revision list" where
  "lineage 0 from = []"
| "lineage (Suc n) from =
     (case filter (\<lambda>v. rev_down v = from) versions of
        [v] \<Rightarrow> v # lineage n (Some (rev_id v))
      | _ \<Rightarrow> [])"

definition history :: "revision list" where
  "history = lineage (length versions) None"

fun upgrade_through :: "dbms \<Rightarrow> revision list \<Rightarrow> schema \<Rightarrow> schema sql" where
  "upgrade_through env [] S = Inr S"
| "upgrade_through env (v # vs) S = rbind (run_ops env (rev_upgrade v) S) (upgrade_through env vs)"

fun downgrade_through :: "dbms \<Rightarrow> revision list \<Rightarrow> schema \<Rightarrow> schema sql" where
  "downgrade_through env [] S = Inr S"
| "downgrade_through env (v # vs) S = rbind (run_ops env (rev_downgrade v) S) (downgrade_through env vs)"

text \<open>\<open>do_run_migrations\<close>: one transaction, so a failing script leaves the database as it was.\<close>

definition do_run_migrations :: "(schema \<Rightarrow> schema sql) \<Rightarrow> schema \<Rightarrow> sql_error option \<times> schema" where
  "do_run_migrations run S = (case run S of Inl e \<Rightarrow> (Some e, S) | Inr S' \<Rightarrow> (None, S'))"

section \<open>The chain is linear\<close>

lemmas revision_defs =
  revision_a96aab63202d_def
  revision_80bc0acf7d07_def
  revision_c93eac896d35_def
  revision_f32374488e8e_def
  revision_b399ddf7cb8a_def
  revision_4793e2423fde_def
  revision_41ffc6580287_def
  revision_0a456e5b983c_def
  revision_d1c7a4f2b8e3_def
  revision_e2f8b1c4d906_def
  revision_c4a17d59f8b2_def
  revision_b7d3e91af204_def
  revision_f5c8021ea6b1_def
  revision_a2e64cb7d130_def
  revision_9683fb4021be_def
  revision_c81a4f7b2d55_def
  revision_d94b6e0f3a17_def
  revision_e37c5a91b204_def
  revision_e476f80fd304_def
  revision_29c672d5fb69_def
  revision_5edda92271a7_def
  revision_4e9943672be8_def
  revision_2cafcc5bd6db_def
  revision_d43209d5e476_def
  revision_a5f508821053_def

lemma history_eq:
  "history = [revision_a96aab63202d,
     revision_80bc0acf7d07,
     revision_c93eac896d35,
     revision_f32374488e8e,
     revision_b399ddf7cb8a,
     revision_4793e2423fde,
     revision_41ffc6580287,
     revision_0a456e5b983c,
     revision_d1c7a4f2b8e3,
     revision_e2f8b1c4d906,
     revision_c4a17d59f8b2,
     revision_b7d3e91af204,
     revision_f5c8021ea6b1,
     revision_a2e64cb7d130,
     revision_9683fb4021be,
     revision_c81a4f7b2d55,
     revision_d94b6e0f3a17,
     revision_e37c5a91b204,
     revision_e476f80fd304,
     revision_29c672d5fb69,
     revision_5edda92271a7,
     revision_4e9943672be8,
     revision_2cafcc5bd6db,
     revision_d43209d5e476,
     revision_a5f508821053]"
  by (simp add: history_def versions_def numeral_eq_Suc revision_defs)

end
