(* ===== verification/RoleMigration.thy ===== *)
theory RoleMigration
  imports Migrations
begin

text \<open>
  The revisions that turned the \<open>role\<close> column into rows: \<open>d1c7a4f2b8e3\<close> (roles, permissions and
  grants), \<open>e2f8b1c4d906\<close> (\<open>admin\<close> becomes \<open>superadmin\<close>) and \<open>c4a17d59f8b2\<close> (an account holds several
  roles), forwards and backwards, on a database that already has accounts. Every table around
  \<open>users\<close> is arbitrary.
\<close>

section \<open>The schema before roles became rows\<close>

text \<open>
  What the first eight revisions leave, with the rows and the next identifier of each table as
  parameters.
\<close>

definition legacy_users :: "sql_row list \<Rightarrow> int \<Rightarrow> tbl" where
  "legacy_users rows nxt = \<lparr>tbl_columns =
     [Column ''id'' Integer_t False NoDefault, Column ''email'' (String_t 255) False NoDefault,
      Column ''hashed_password'' (String_t 255) False NoDefault,
      Column ''created_at'' DateTime_tz False (Expr ''now()''),
      Column ''role'' (String_t 20) False (Literal ''user''),
      Column ''updated_at'' DateTime_tz False (Expr ''now()''),
      Column ''deleted_at'' DateTime_tz True NoDefault, Column ''name'' (String_t 120) True NoDefault],
     tbl_constraints = [(''pk_users'', PrimaryKey [''id''])],
     tbl_indexes = [(''uq_users_email_active'', \<lparr>ix_columns = [''email''], ix_unique = True,
        ix_where = Some ''deleted_at IS NULL''\<rparr>)],
     tbl_sequence = Some (Integer_t, nxt), tbl_rows = rows\<rparr>"

definition plain_index :: "str \<Rightarrow> str list \<Rightarrow> str \<times> index" where
  "plain_index k cs = (k, \<lparr>ix_columns = cs, ix_unique = False, ix_where = None\<rparr>)"

definition legacy_items :: "sql_row list \<Rightarrow> int \<Rightarrow> tbl" where
  "legacy_items rows nxt = \<lparr>tbl_columns =
     [Column ''id'' Integer_t False NoDefault, Column ''title'' (String_t 255) False NoDefault,
      Column ''description'' Text_t True NoDefault, Column ''owner_id'' Integer_t False NoDefault,
      Column ''created_at'' DateTime_tz False (Expr ''now()''),
      Column ''updated_at'' DateTime_tz False (Expr ''now()''),
      Column ''deleted_at'' DateTime_tz True NoDefault],
     tbl_constraints = [(''fk_items_owner_id_users'', ForeignKey [''owner_id''] ''users'' [''id''] None),
        (''pk_items'', PrimaryKey [''id''])],
     tbl_indexes = [plain_index ''ix_items_owner_id'' [''owner_id'']],
     tbl_sequence = Some (Integer_t, nxt), tbl_rows = rows\<rparr>"

definition legacy_request_logs :: "sql_row list \<Rightarrow> int \<Rightarrow> tbl" where
  "legacy_request_logs rows nxt = \<lparr>tbl_columns =
     [Column ''id'' Integer_t False NoDefault, Column ''request_id'' (String_t 64) False NoDefault,
      Column ''method'' (String_t 10) False NoDefault, Column ''path'' (String_t 512) False NoDefault,
      Column ''status_code'' Integer_t False NoDefault, Column ''duration_ms'' Float_t False NoDefault,
      Column ''client_ip'' (String_t 45) True NoDefault, Column ''user_id'' Integer_t True NoDefault,
      Column ''created_at'' DateTime_tz False (Expr ''now()'')],
     tbl_constraints = [(''pk_request_logs'', PrimaryKey [''id''])],
     tbl_indexes = [plain_index ''ix_request_logs_created_at'' [''created_at''],
        plain_index ''ix_request_logs_request_id'' [''request_id''],
        plain_index ''ix_request_logs_user_id_created_at'' [''user_id'', ''created_at'']],
     tbl_sequence = Some (Integer_t, nxt), tbl_rows = rows\<rparr>"

definition legacy_preferences :: "sql_row list \<Rightarrow> int \<Rightarrow> tbl" where
  "legacy_preferences rows nxt = \<lparr>tbl_columns =
     [Column ''id'' Integer_t False NoDefault, Column ''user_id'' Integer_t False NoDefault,
      Column ''locale'' (String_t 10) False (Literal ''en-US''),
      Column ''theme'' (String_t 10) False (Literal ''system''),
      Column ''show_request_id'' Boolean_t False (Literal ''true''),
      Column ''created_at'' DateTime_tz False (Expr ''now()''),
      Column ''updated_at'' DateTime_tz False (Expr ''now()''),
      Column ''features'' (String_t 200) True NoDefault],
     tbl_constraints =
       [(''fk_user_preferences_user_id_users'', ForeignKey [''user_id''] ''users'' [''id''] None),
        (''pk_user_preferences'', PrimaryKey [''id''])],
     tbl_indexes = [(''ix_user_preferences_user_id'',
        \<lparr>ix_columns = [''user_id''], ix_unique = True, ix_where = None\<rparr>)],
     tbl_sequence = Some (Integer_t, nxt), tbl_rows = rows\<rparr>"

definition legacy_refresh_tokens :: "sql_row list \<Rightarrow> int \<Rightarrow> tbl" where
  "legacy_refresh_tokens rows nxt = \<lparr>tbl_columns =
     [Column ''id'' Integer_t False NoDefault, Column ''token_hash'' (String_t 64) False NoDefault,
      Column ''user_id'' Integer_t False NoDefault, Column ''expires_at'' DateTime_tz False NoDefault,
      Column ''revoked_at'' DateTime_tz True NoDefault,
      Column ''created_at'' DateTime_tz False (Expr ''now()'')],
     tbl_constraints =
       [(''fk_refresh_tokens_user_id_users'', ForeignKey [''user_id''] ''users'' [''id''] None),
        (''pk_refresh_tokens'', PrimaryKey [''id'']),
        (''uq_refresh_tokens_token_hash'', Unique [''token_hash''])],
     tbl_indexes = [plain_index ''ix_refresh_tokens_user_id'' [''user_id'']],
     tbl_sequence = Some (Integer_t, nxt), tbl_rows = rows\<rparr>"

text \<open>The tables other than \<open>users\<close>, and the whole schema around given tables.\<close>

definition legacy_rest :: "(str \<Rightarrow> sql_row list) \<Rightarrow> (str \<Rightarrow> int) \<Rightarrow> schema" where
  "legacy_rest rows nxt =
     [(''items'', legacy_items (rows ''items'') (nxt ''items'')),
      (''request_logs'', legacy_request_logs (rows ''request_logs'') (nxt ''request_logs'')),
      (''user_preferences'', legacy_preferences (rows ''user_preferences'') (nxt ''user_preferences'')),
      (''refresh_tokens'', legacy_refresh_tokens (rows ''refresh_tokens'') (nxt ''refresh_tokens''))]"

definition legacy_schema :: "(str \<Rightarrow> sql_row list) \<Rightarrow> (str \<Rightarrow> int) \<Rightarrow> schema" where
  "legacy_schema rows nxt =
     (''users'', legacy_users (rows ''users'') (nxt ''users'')) # legacy_rest rows nxt"

definition legacy_revisions :: "revision list" where
  "legacy_revisions = [revision_a96aab63202d, revision_80bc0acf7d07, revision_c93eac896d35,
     revision_f32374488e8e, revision_b399ddf7cb8a, revision_4793e2423fde,
     revision_41ffc6580287, revision_0a456e5b983c]"

lemma legacy_upgrade:
  "upgrade_through env legacy_revisions [] = Inr (legacy_schema (\<lambda>_. []) (\<lambda>_. 1))"
  by code_simp

section \<open>The role tables\<close>

definition roles_tbl :: "sql_row list \<Rightarrow> int \<Rightarrow> tbl" where
  "roles_tbl rows nxt = \<lparr>tbl_columns =
     [Column ''id'' Integer_t False NoDefault, Column ''name'' (String_t 50) False NoDefault,
      Column ''created_at'' DateTime_tz False (Expr ''now()''),
      Column ''updated_at'' DateTime_tz False (Expr ''now()'')],
     tbl_constraints = [(''pk_roles'', PrimaryKey [''id'']), (''uq_roles_name'', Unique [''name''])],
     tbl_indexes = [], tbl_sequence = Some (Integer_t, nxt), tbl_rows = rows\<rparr>"

definition permissions_tbl :: "sql_row list \<Rightarrow> int \<Rightarrow> tbl" where
  "permissions_tbl rows nxt = \<lparr>tbl_columns =
     [Column ''id'' Integer_t False NoDefault, Column ''resource'' (String_t 50) False NoDefault,
      Column ''action'' (String_t 50) False NoDefault],
     tbl_constraints = [(''pk_permissions'', PrimaryKey [''id'']),
        (''uq_permissions_resource'', Unique [''resource'', ''action''])],
     tbl_indexes = [], tbl_sequence = Some (Integer_t, nxt), tbl_rows = rows\<rparr>"

definition role_permissions_tbl :: "sql_row list \<Rightarrow> tbl" where
  "role_permissions_tbl rows = \<lparr>tbl_columns =
     [Column ''role_id'' Integer_t False NoDefault, Column ''permission_id'' Integer_t False NoDefault,
      Column ''scope'' (String_t 10) False NoDefault],
     tbl_constraints =
       [(''fk_role_permissions_role_id_roles'', ForeignKey [''role_id''] ''roles'' [''id''] (Some ''CASCADE'')),
        (''fk_role_permissions_permission_id_permissions'',
           ForeignKey [''permission_id''] ''permissions'' [''id''] (Some ''CASCADE'')),
        (''pk_role_permissions'', PrimaryKey [''role_id'', ''permission_id''])],
     tbl_indexes = [], tbl_sequence = None, tbl_rows = rows\<rparr>"

definition role_row :: "dbms \<Rightarrow> int \<Rightarrow> str \<Rightarrow> sql_row" where
  "role_row env i name = [(''id'', VInt i), (''name'', VStr name),
     (''created_at'', VTime (db_now env)), (''updated_at'', VTime (db_now env))]"

definition permission_row :: "int \<Rightarrow> str \<times> str \<Rightarrow> sql_row" where
  "permission_row i p = [(''id'', VInt i), (''resource'', VStr (fst p)), (''action'', VStr (snd p))]"

definition grant_row :: "int \<times> int \<times> str \<Rightarrow> sql_row" where
  "grant_row g = [(''role_id'', VInt (fst g)), (''permission_id'', VInt (fst (snd g))),
     (''scope'', VStr (snd (snd g)))]"

definition granted_rows :: "sql_row list" where
  "granted_rows = map grant_row
     [(1, 1, ''own''), (1, 2, ''own''), (1, 3, ''own''), (1, 4, ''own''), (1, 5, ''own''), (1, 12, ''all''),
      (2, 1, ''own''), (2, 2, ''own''), (2, 3, ''own''), (2, 4, ''own''), (2, 5, ''all''), (2, 6, ''all''),
      (2, 7, ''all''), (2, 8, ''all''), (2, 9, ''all''), (2, 10, ''all''), (2, 11, ''all''), (2, 12, ''all'')]"

definition permission_rows :: "sql_row list" where
  "permission_rows = map (\<lambda>(i, p). permission_row i p) (zip [1, 2, 3, 4, 5, 6, 7, 8, 9, 10, 11, 12]
     PERMISSIONS_d1c7a4f2b8e3)"

lemma create_role_tables:
  "run_ops env (take 3 upgrade_d1c7a4f2b8e3) (legacy_schema rows nxt) =
     Inr (legacy_schema rows nxt @ [(''roles'', roles_tbl [] 1), (''permissions'', permissions_tbl [] 1),
        (''role_permissions'', role_permissions_tbl [])])"
  by code_simp

lemma insert_roles:
  "run_ops env (take 2 (drop 3 upgrade_d1c7a4f2b8e3))
     [(''users'', t1), (''items'', t2), (''request_logs'', t3), (''user_preferences'', t4),
      (''refresh_tokens'', t5), (''roles'', roles_tbl [] 1), (''permissions'', permissions_tbl [] 1),
      (''role_permissions'', t6)] =
   Inr [(''users'', t1), (''items'', t2), (''request_logs'', t3), (''user_preferences'', t4),
      (''refresh_tokens'', t5), (''roles'', roles_tbl [role_row env 1 ''user'', role_row env 2 ''admin''] 3),
      (''permissions'', permissions_tbl permission_rows 13), (''role_permissions'', t6)]"
  by code_simp

lemma insert_grants:
  "run_ops env (take 18 (drop 5 upgrade_d1c7a4f2b8e3))
     [(''users'', t1), (''items'', t2), (''request_logs'', t3), (''user_preferences'', t4),
      (''refresh_tokens'', t5), (''roles'', roles_tbl [role_row env 1 ''user'', role_row env 2 ''admin''] 3),
      (''permissions'', permissions_tbl permission_rows 13), (''role_permissions'', role_permissions_tbl [])] =
   Inr [(''users'', t1), (''items'', t2), (''request_logs'', t3), (''user_preferences'', t4),
      (''refresh_tokens'', t5), (''roles'', roles_tbl [role_row env 1 ''user'', role_row env 2 ''admin''] 3),
      (''permissions'', permissions_tbl permission_rows 13), (''role_permissions'', role_permissions_tbl granted_rows)]"
  by code_simp

section \<open>Accounts through the three revisions\<close>

definition users_base :: "(str \<times> column) list" where
  "users_base =
     [Column ''id'' Integer_t False NoDefault, Column ''email'' (String_t 255) False NoDefault,
      Column ''hashed_password'' (String_t 255) False NoDefault,
      Column ''created_at'' DateTime_tz False (Expr ''now()''),
      Column ''updated_at'' DateTime_tz False (Expr ''now()''),
      Column ''deleted_at'' DateTime_tz True NoDefault, Column ''name'' (String_t 120) True NoDefault]"

definition email_index :: index where
  "email_index = \<lparr>ix_columns = [''email''], ix_unique = True, ix_where = Some ''deleted_at IS NULL''\<rparr>"

definition users_tbl ::
  "(str \<times> column) list \<Rightarrow> (str \<times> constraint) list \<Rightarrow> sql_row list \<Rightarrow> int \<Rightarrow> tbl" where
  "users_tbl cols cons rows nxt = \<lparr>tbl_columns = cols,
     tbl_constraints = (''pk_users'', PrimaryKey [''id'']) # cons,
     tbl_indexes = [(''uq_users_email_active'', email_index)],
     tbl_sequence = Some (Integer_t, nxt), tbl_rows = rows\<rparr>"

definition legacy_columns :: "(str \<times> column) list" where
  "legacy_columns = take 4 users_base @ [Column ''role'' (String_t 20) False (Literal ''user'')] @ drop 4 users_base"

lemma legacy_users_tbl: "legacy_users rows nxt = users_tbl legacy_columns [] rows nxt"
  by (simp add: legacy_users_def users_tbl_def legacy_columns_def users_base_def email_index_def)

lemma users_tbl_simps [simp]:
  "tbl_columns (users_tbl cols cons rows nxt) = cols"
  "tbl_constraints (users_tbl cols cons rows nxt) = (''pk_users'', PrimaryKey [''id'']) # cons"
  "tbl_indexes (users_tbl cols cons rows nxt) = [(''uq_users_email_active'', email_index)]"
  "tbl_rows (users_tbl cols cons rows nxt) = rows"
  "(users_tbl cols cons rows nxt)\<lparr>tbl_rows := rows'\<rparr> = users_tbl cols cons rows' nxt"
  "(users_tbl cols cons rows nxt)\<lparr>tbl_columns := cols'\<rparr> = users_tbl cols' cons rows nxt"
  "(users_tbl cols cons rows nxt)\<lparr>tbl_indexes := [(''uq_users_email_active'', email_index)]\<rparr> =
     users_tbl cols cons rows nxt"
  "(users_tbl cols cons rows nxt)\<lparr>tbl_constraints := (''pk_users'', PrimaryKey [''id'']) # cons'\<rparr> =
     users_tbl cols cons' rows nxt"
  by (simp_all add: users_tbl_def)

text \<open>What the constraints of \<open>users\<close> say of its rows, the role columns aside.\<close>

definition users_ok :: "sql_row list \<Rightarrow> bool" where
  "users_ok rows \<longleftrightarrow> (\<forall>u\<in>set rows. row_error users_base u = None)
     \<and> list_all (\<lambda>u. get u ''id'' \<noteq> Null) rows \<and> unique_on [''id''] rows \<and> index_ok email_index rows"

lemma users_ok_map:
  assumes "\<And>u c. u \<in> set rows \<Longrightarrow> c \<notin> {''role'', ''role_id''} \<Longrightarrow> get (f u) c = get u c"
  shows "users_ok (map f rows) = users_ok rows"
proof -
  have row: "row_error users_base (f u) = row_error users_base u" if "u \<in> set rows" for u
  proof -
    have "\<forall>nc\<in>set users_base. column_error nc (f u) = column_error nc u"
      using assms [OF that] by (simp add: users_base_def)
    then show ?thesis
      unfolding row_error_def by (intro first_error_cong) auto
  qed
  have keys: "key_of [c] (f u) = key_of [c] u" if "u \<in> set rows" "c \<notin> {''role'', ''role_id''}" for u c
    using assms [OF that] by (simp add: key_of_def)
  have "index_ok email_index (map f rows) = index_ok email_index rows"
  proof -
    have sel: "selected_by (ix_where email_index) (f u) = selected_by (ix_where email_index) u"
      if "u \<in> set rows" for u
      using assms [OF that, of "''deleted_at''"] by (simp add: selected_by_def)
    have "filter (selected_by (ix_where email_index)) (map f rows) =
        map f (filter (selected_by (ix_where email_index)) rows)"
      using sel by (simp add: filter_map comp_def cong: filter_cong)
    then show ?thesis
      by (simp add: index_ok_def email_index_def) (rule unique_on_map, simp add: keys)
  qed
  moreover have "unique_on [''id''] (map f rows) = unique_on [''id''] rows"
    by (rule unique_on_map) (simp add: keys)
  ultimately show ?thesis
    using row assms [of _ "''id''"] by (auto simp: users_ok_def list_all_iff)
qed

lemma users_table_ok:
  assumes "users_ok rows" and "set cols \<subseteq> set users_base \<union> set ex"
    and "\<And>u nc. u \<in> set rows \<Longrightarrow> nc \<in> set ex \<Longrightarrow> column_error nc u = None"
    and "\<And>k c. (k, c) \<in> set cons \<Longrightarrow> constraint_error S rows c = None"
  shows "table_error S (users_tbl cols cons rows nxt) = None"
  using assms
  by (fastforce simp: table_error_None users_ok_def row_error_None key_of_def list_all_iff)

definition role_ok :: "sql_row \<Rightarrow> bool" where
  "role_ok u \<longleftrightarrow> get u ''role'' \<noteq> Null \<and> fits (String_t 20) (get u ''role'') = None"

lemma legacy_users_ok:
  assumes "consistent (legacy_schema rows nxt)"
  shows "users_ok (rows ''users'')"
    and "\<And>u. u \<in> set (rows ''users'') \<Longrightarrow> role_ok u"
proof -
  have "table_error (legacy_schema rows nxt) (users_tbl legacy_columns [] (rows ''users'') (nxt ''users'')) = None"
    using assms by (simp add: consistent_def legacy_schema_def legacy_users_tbl)
  then have t: "\<forall>r\<in>set (rows ''users''). \<forall>nc\<in>set legacy_columns. column_error nc r = None"
    "index_ok email_index (rows ''users'')"
    "constraint_error (legacy_schema rows nxt) (rows ''users'') (PrimaryKey [''id'']) = None"
    by (auto simp: table_error_None row_error_None)
  have "set users_base \<subseteq> set legacy_columns"
    by (auto simp: legacy_columns_def users_base_def)
  then show "users_ok (rows ''users'')"
    using t by (auto simp: users_ok_def row_error_None list_all_iff key_of_def split: if_splits)
  show "role_ok u"
    if "u \<in> set (rows ''users'')" for u
    using t(1) that by (auto simp: legacy_columns_def role_ok_def split: if_splits)
qed

subsection \<open>Forwards\<close>

text \<open>The identifier of the row that \<open>d1c7a4f2b8e3\<close> makes for a role.\<close>

definition new_role_id :: "sql_value \<Rightarrow> sql_value" where
  "new_role_id role = (if role = VStr ''user'' then VInt 1 else if role = VStr ''admin'' then VInt 2 else Null)"

definition known_role :: "sql_row \<Rightarrow> bool" where
  "known_role u \<longleftrightarrow> get u ''role'' \<in> {VStr ''user'', VStr ''admin''}"

definition role_id_column :: "bool \<Rightarrow> str \<times> column" where
  "role_id_column nullable = Column ''role_id'' Integer_t nullable NoDefault"

definition role_fk :: "str \<times> constraint" where
  "role_fk = (''fk_users_role_id_roles'', ForeignKey [''role_id''] ''roles'' [''id''] None)"

text \<open>What the scripts need of the tables around \<open>users\<close>.\<close>

definition around_users :: "sql_row list \<Rightarrow> schema \<Rightarrow> bool" where
  "around_users roles R \<longleftrightarrow> ''users'' \<notin> set (map fst R)
     \<and> map_of R ''roles'' = Some (roles_tbl roles 3)
     \<and> \<not> columns_referenced ''users'' [''role''] R \<and> \<not> columns_referenced ''users'' [''role_id''] R"

lemma around_usersD:
  assumes "around_users roles R"
  shows "rows_of ''roles'' ((''users'', t) # R) = roles" and "''users'' \<notin> set (map fst R)"
    and "on_table ''users'' f ((''users'', t) # R) = rbind (f t) (\<lambda>t'. Inr ((''users'', t') # R))"
  using assms by (simp_all add: around_users_def rows_of_def roles_tbl_def on_table_head)

lemma add_role_id:
  assumes "around_users roles R" and "''role_id'' \<notin> set (map fst cols)"
  shows "run_op env (AddColumn ''users'' (role_id_column True)) ((''users'', users_tbl cols cons rows nxt) # R) =
    Inr ((''users'', users_tbl (cols @ [role_id_column True]) cons (map (put ''role_id'' Null) rows) nxt) # R)"
proof -
  have "first_error (column_error (role_id_column True)) (map (put ''role_id'' Null) rows) = None"
    by (simp add: first_error_None role_id_column_def Column_def column_error_def)
  then show ?thesis
    using assms(2)
    by (simp add: add_column_def around_usersD(3) [OF assms(1)] role_id_column_def Column_def default_value_def)
qed

lemma role_id_required:
  assumes "around_users roles R" and "''role_id'' \<notin> set (map fst cols)"
    and "\<And>u. u \<in> set rows \<Longrightarrow> get u ''role_id'' \<noteq> Null \<and> fits Integer_t (get u ''role_id'') = None"
  shows "run_op env (AlterNullable ''users'' ''role_id'' False)
      ((''users'', users_tbl (cols @ [role_id_column True]) cons rows nxt) # R) =
    Inr ((''users'', users_tbl (cols @ [role_id_column False]) cons rows nxt) # R)"
proof -
  have "map_of cols ''role_id'' = None"
    using assms(2) by (simp add: map_of_eq_None_iff)
  moreover have "map (\<lambda>(d, old). (d, if d = ''role_id'' then f old else old)) cols = cols" for f
    using assms(2) by (induction cols) auto
  moreover have "first_error (column_error (''role_id'', snd (role_id_column False))) rows = None"
    using assms(3) by (simp add: first_error_None role_id_column_def Column_def column_error_def)
  ultimately show ?thesis
    by (simp add: alter_column_def around_usersD(3) [OF assms(1)] role_id_column_def Column_def map_add_def)
qed

lemma link_role_id:
  assumes "around_users roles R" and "''role_id'' \<in> set (map fst cols)"
    and "\<And>u. u \<in> set rows \<Longrightarrow> get u ''role_id'' \<in> set (map (\<lambda>r. get r ''id'') roles)"
  shows "run_op env (CreateForeignKey ''fk_users_role_id_roles'' ''users'' ''roles'' [''role_id''] [''id''] None)
      ((''users'', users_tbl cols [] rows nxt) # R) =
    Inr ((''users'', users_tbl cols [role_fk] rows nxt) # R)"
proof -
  have "references_ok [''role_id''] rows [''id''] roles"
    using assms(3) by (auto simp: references_ok_def key_of_def list_all_iff)
  moreover have "declarable ((''users'', users_tbl cols [] rows nxt) # R) (users_tbl cols [] rows nxt)
      (ForeignKey [''role_id''] ''roles'' [''id''] None) = None"
    using assms(1,2) by (simp add: has_columns_def around_users_def roles_tbl_def Column_def)
  ultimately show ?thesis
    by (simp add: add_constraint_def around_usersD [OF assms(1)] role_fk_def)
qed

lemma not_referenced_head:
  "around_users roles R \<Longrightarrow> c \<in> {''role'', ''role_id''} \<Longrightarrow> set cons \<subseteq> {role_fk}
    \<Longrightarrow> \<not> columns_referenced ''users'' [c] ((''users'', users_tbl cols cons rows nxt) # R)"
  by (auto simp: columns_referenced_def around_users_def role_fk_def list_ex_iff)

lemma drop_role_column:
  assumes "around_users roles R" and "c \<in> {''role'', ''role_id''}" and "set cons \<subseteq> {role_fk}"
    and "c \<in> set (map fst cols)" and "c = ''role_id'' \<Longrightarrow> cons = []"
  shows "run_op env (DropColumn ''users'' c) ((''users'', users_tbl cols cons rows nxt) # R) =
    Inr ((''users'', users_tbl (filter (\<lambda>(d, col). d \<noteq> c) cols) cons
      (map (filter (\<lambda>(d, v). d \<noteq> c)) rows) nxt) # R)"
proof -
  have "filter (\<lambda>(k, con). c \<notin> set (constraint_columns con)) cons = cons"
  proof (cases "c = ''role_id''")
    case False
    then have "(\<lambda>(k, con). c \<notin> set (constraint_columns con)) role_fk"
      using assms(2) by (simp add: role_fk_def)
    moreover have "\<forall>k\<in>set cons. k = role_fk"
      using assms(3) by blast
    ultimately show ?thesis
      by (metis (no_types, lifting) filter_True)
  qed (simp add: assms(5))
  moreover have "c \<noteq> ''id''" "c \<noteq> ''email''"
    using assms(2) by auto
  ultimately show ?thesis
    using assms(4) not_referenced_head [OF assms(1,2,3)]
    by (simp add: drop_column_def around_usersD(3) [OF assms(1)] users_tbl_def email_index_def)
qed

definition to_role_id :: "sql_row \<Rightarrow> sql_row" where
  "to_role_id u = put ''role_id'' (new_role_id (get u ''role'')) (put ''role_id'' Null u)"

lemma get_to_role_id [simp]:
  "get (to_role_id u) c = (if c = ''role_id'' then new_role_id (get u ''role'') else get u c)"
  by (simp add: to_role_id_def)

lemma new_role_id_fits [simp]: "fits ty (new_role_id v) = None"
  by (cases ty) (simp_all add: new_role_id_def)

definition first_roles :: "dbms \<Rightarrow> sql_row list" where
  "first_roles env = [role_row env 1 ''user'', role_row env 2 ''admin'']"

lemma role_id_lookup:
  "rows_of ''roles'' S = first_roles env \<Longrightarrow> v \<noteq> Null \<Longrightarrow> scalar (role_ids_named v S) = Inr (new_role_id v)"
  by (simp add: role_ids_named_def select_where_def first_roles_def role_row_def new_role_id_def)

lemma legacy_columns_simps:
  "map fst legacy_columns = [''id'', ''email'', ''hashed_password'', ''created_at'', ''role'', ''updated_at'',
     ''deleted_at'', ''name'']"
  "set (legacy_columns @ [c]) \<subseteq> set users_base \<union> set [c, Column ''role'' (String_t 20) False (Literal ''user'')]"
  "filter (\<lambda>(d, col). d \<noteq> ''role'') legacy_columns = users_base"
  "(case role_id_column b of (d, col) \<Rightarrow> d \<noteq> ''role'')"
  by (auto simp: legacy_columns_def users_base_def Column_def role_id_column_def)

lemma assign_role_ids:
  assumes "around_users (first_roles env) R" and "users_ok rows"
    and "\<And>u. u \<in> set rows \<Longrightarrow> role_ok u"
  shows "run_op env (Execute SetRoleIdByName)
      ((''users'', users_tbl (legacy_columns @ [role_id_column True]) [] (map (put ''role_id'' Null) rows) nxt) # R) =
    Inr ((''users'', users_tbl (legacy_columns @ [role_id_column True]) [] (map to_role_id rows) nxt) # R)"
proof -
  let ?t = "users_tbl (legacy_columns @ [role_id_column True]) [] (map (put ''role_id'' Null) rows) nxt"
  let ?S = "(''users'', ?t) # R"
  have role: "get u ''role'' \<noteq> Null" if "u \<in> set rows" for u
    using assms(3) [OF that] by (simp add: role_ok_def)
  have m: "map_rows (\<lambda>u. rbind (scalar (role_ids_named (get u ''role'') ?S)) (\<lambda>v. Inr (put ''role_id'' v u)))
      (tbl_rows ?t) = Inr (map to_role_id rows)"
  proof -
    have "map to_role_id rows =
        map (\<lambda>u. put ''role_id'' (new_role_id (get u ''role'')) u) (map (put ''role_id'' Null) rows)"
      by (simp add: to_role_id_def)
    then show ?thesis
      by (simp only: users_tbl_simps)
        (rule map_rows_Inr, auto simp: role role_id_lookup [OF around_usersD(1) [OF assms(1)]])
  qed
  have "table_error ?S (users_tbl (legacy_columns @ [role_id_column True]) [] (map to_role_id rows) nxt) = None"
  proof (rule users_table_ok [OF _ legacy_columns_simps(2)])
    show "users_ok (map to_role_id rows)"
      using assms(2) by (subst users_ok_map) auto
    show "column_error nc u = None" if "u \<in> set (map to_role_id rows)"
      "nc \<in> set [role_id_column True, Column ''role'' (String_t 20) False (Literal ''user'')]" for u nc
      using that assms(3) by (auto simp: role_id_column_def role_ok_def)
  qed simp
  then show ?thesis
    using update_rows_head [OF around_usersD(2) [OF assms(1)] m] by simp
qed

text \<open>The rows once \<open>role_id\<close> has replaced \<open>role\<close>.\<close>

definition by_role_id :: "sql_row \<Rightarrow> sql_row" where
  "by_role_id u = filter (\<lambda>(d, v). d \<noteq> ''role'') (to_role_id u)"

lemma get_by_role_id [simp]:
  "get (by_role_id u) c =
     (if c = ''role'' then Null else if c = ''role_id'' then new_role_id (get u ''role'') else get u c)"
  by (simp add: by_role_id_def)

definition role_id_schema :: "sql_row list \<Rightarrow> int \<Rightarrow> schema \<Rightarrow> schema" where
  "role_id_schema rows nxt R = (''users'', users_tbl (users_base @ [role_id_column False]) [role_fk] rows nxt) # R"

lemma first_error_Some:
  assumes "\<exists>x\<in>set xs. f x = Some e" and "\<forall>x\<in>set xs. f x \<in> {None, Some e}"
  shows "first_error f xs = Some e"
  using assms by (induction xs) (auto split: option.splits)

lemma role_id_missing:
  assumes "around_users roles R" and "''role_id'' \<notin> set (map fst cols)"
    and "\<exists>u\<in>set rows. get u ''role_id'' = Null" and "\<forall>u\<in>set rows. fits Integer_t (get u ''role_id'') = None"
  shows "run_op env (AlterNullable ''users'' ''role_id'' False)
      ((''users'', users_tbl (cols @ [role_id_column True]) cons rows nxt) # R) = Inl NotNullViolation"
proof -
  have "map_of cols ''role_id'' = None"
    using assms(2) by (simp add: map_of_eq_None_iff)
  moreover have "first_error (column_error (Column ''role_id'' Integer_t False NoDefault)) rows = Some NotNullViolation"
    using assms(3,4) by (intro first_error_Some) auto
  ultimately show ?thesis
    by (simp add: alter_column_def around_usersD(3) [OF assms(1)] role_id_column_def Column_def map_add_def)
qed

lemma account_ops_d1c7:
  "drop 23 upgrade_d1c7a4f2b8e3 =
     [AddColumn ''users'' (role_id_column True), Execute SetRoleIdByName,
      AlterNullable ''users'' ''role_id'' False,
      CreateForeignKey ''fk_users_role_id_roles'' ''users'' ''roles'' [''role_id''] [''id''] None,
      DropColumn ''users'' ''role'']"
  by code_simp

lemma known_role_id: "role_ok u \<Longrightarrow> (new_role_id (get u ''role'') = Null) = (\<not> known_role u)"
  by (simp add: new_role_id_def known_role_def)

lemma role_id_exists:
  "known_role u \<Longrightarrow> new_role_id (get u ''role'') \<in> set (map (\<lambda>r. get r ''id'') (first_roles env))"
  by (auto simp: new_role_id_def known_role_def first_roles_def role_row_def)

lemma accounts_by_role_id:
  assumes "around_users (first_roles env) R" and "users_ok rows" and "\<And>u. u \<in> set rows \<Longrightarrow> role_ok u"
  shows "run_ops env (drop 23 upgrade_d1c7a4f2b8e3) ((''users'', users_tbl legacy_columns [] rows nxt) # R) =
    (if \<forall>u\<in>set rows. known_role u then Inr (role_id_schema (map by_role_id rows) nxt R) else Inl NotNullViolation)"
proof -
  have nr: "''role_id'' \<notin> set (map fst legacy_columns)"
    by (simp add: legacy_columns_simps)
  note steps = add_role_id [OF assms(1) nr] assign_role_ids [OF assms]
  show ?thesis
  proof (cases "\<forall>u\<in>set rows. known_role u")
    case True
    have req: "get u ''role_id'' \<noteq> Null \<and> fits Integer_t (get u ''role_id'') = None"
      and ex: "get u ''role_id'' \<in> set (map (\<lambda>r. get r ''id'') (first_roles env))"
      if "u \<in> set (map to_role_id rows)" for u
      using that True assms(3) role_id_exists known_role_id by auto
    have fk: "''role_id'' \<in> set (map fst (legacy_columns @ [role_id_column False]))"
      by (simp add: role_id_column_def Column_def)
    have role: "''role'' \<in> set (map fst (legacy_columns @ [role_id_column False]))"
      by (simp add: legacy_columns_simps)
    have drop: "run_op env (DropColumn ''users'' ''role'')
        ((''users'', users_tbl (legacy_columns @ [role_id_column False]) [role_fk] (map to_role_id rows) nxt) # R) =
      Inr (role_id_schema (map by_role_id rows) nxt R)"
      unfolding role_id_schema_def
      by (subst drop_role_column [OF assms(1) _ _ role])
        (simp_all add: legacy_columns_simps by_role_id_def [abs_def] comp_def)
    show ?thesis
      using True
      by (simp only: account_ops_d1c7 run_ops.simps steps rbind_Inr if_True drop
          role_id_required [OF assms(1) nr req] link_role_id [OF assms(1) fk ex])
        simp
  next
    case False
    then have "\<exists>u\<in>set (map to_role_id rows). get u ''role_id'' = Null"
      using assms(3) known_role_id by auto
    moreover have "\<forall>u\<in>set (map to_role_id rows). fits Integer_t (get u ''role_id'') = None"
      by simp
    ultimately show ?thesis
      using False
      by (simp only: account_ops_d1c7 run_ops.simps steps rbind_Inr rbind_Inl if_False
          role_id_missing [OF assms(1) nr])
  qed
qed

text \<open>\<open>e2f8b1c4d906\<close> renames the role, and the other tables stay.\<close>

definition renamed_roles :: "dbms \<Rightarrow> sql_row list" where
  "renamed_roles env = [role_row env 1 ''user'', put ''name'' (VStr ''superadmin'') (role_row env 2 ''admin'')]"

definition role_tables :: "sql_row list \<Rightarrow> schema" where
  "role_tables roles = [(''roles'', roles_tbl roles 3), (''permissions'', permissions_tbl permission_rows 13),
     (''role_permissions'', role_permissions_tbl granted_rows)]"

lemma rename_admin:
  "run_ops env upgrade_e2f8b1c4d906 ([(''users'', t1), (''items'', t2), (''request_logs'', t3),
     (''user_preferences'', t4), (''refresh_tokens'', t5)] @ role_tables (first_roles env)) =
   Inr ([(''users'', t1), (''items'', t2), (''request_logs'', t3),
     (''user_preferences'', t4), (''refresh_tokens'', t5)] @ role_tables (renamed_roles env))"
  by code_simp

definition user_roles_tbl :: "sql_row list \<Rightarrow> tbl" where
  "user_roles_tbl rows = \<lparr>tbl_columns =
     [Column ''user_id'' Integer_t False NoDefault, Column ''role_id'' Integer_t False NoDefault],
     tbl_constraints =
       [(''fk_user_roles_user_id_users'', ForeignKey [''user_id''] ''users'' [''id''] (Some ''CASCADE'')),
        (''fk_user_roles_role_id_roles'', ForeignKey [''role_id''] ''roles'' [''id''] (Some ''CASCADE'')),
        (''pk_user_roles'', PrimaryKey [''user_id'', ''role_id''])],
     tbl_indexes = [], tbl_sequence = None, tbl_rows = rows\<rparr>"

definition role_link :: "sql_row \<Rightarrow> sql_row" where
  "role_link u = [(''user_id'', get u ''id''), (''role_id'', get u ''role_id'')]"

lemma create_user_roles:
  "run_ops env (take 1 upgrade_c4a17d59f8b2)
     (role_id_schema us n (legacy_rest rows nxt @ role_tables roles)) =
   Inr (role_id_schema us n (legacy_rest rows nxt @ role_tables roles @ [(''user_roles'', user_roles_tbl [])]))"
  by code_simp

lemma insert_links:
  assumes "''user_roles'' \<notin> set (map fst P)" and "''users'' \<in> set (map fst P)" and "''roles'' \<in> set (map fst P)"
    and "distinct (map (\<lambda>u. get u ''id'') us)"
    and "\<And>u. u \<in> set us \<Longrightarrow> get u ''id'' \<noteq> Null \<and> fits Integer_t (get u ''id'') = None
        \<and> get u ''id'' \<in> set (map (\<lambda>r. get r ''id'') (rows_of ''users'' P))
        \<and> get u ''id'' \<notin> set (map (\<lambda>l. get l ''user_id'') acc)"
    and "\<And>u. u \<in> set us \<Longrightarrow> get u ''role_id'' \<noteq> Null \<and> fits Integer_t (get u ''role_id'') = None
        \<and> get u ''role_id'' \<in> set (map (\<lambda>r. get r ''id'') (rows_of ''roles'' P))"
  shows "insert_rows env False ''user_roles'' (map role_link us) (P @ [(''user_roles'', user_roles_tbl acc)]) =
    Inr (P @ [(''user_roles'', user_roles_tbl (acc @ map role_link us))])"
  using assms(4-6)
proof (induction us arbitrary: acc)
  case (Cons u us)
  let ?S = "P @ [(''user_roles'', user_roles_tbl acc)]"
  have rows: "rows_of n ?S = rows_of n P" if "n \<in> set (map fst P)" for n
    using that by (auto simp: rows_of_def map_add_def map_of_eq_None_iff split: option.splits)
  have m: "map_of ?S ''user_roles'' = Some (user_roles_tbl acc)"
  proof -
    have "map_of P ''user_roles'' = None"
      using assms(1) by (simp add: map_of_eq_None_iff)
    then show ?thesis
      by (simp add: map_add_def)
  qed
  have ins: "inserted env (user_roles_tbl acc) (role_link u) = role_link u"
    by (simp add: inserted_def user_roles_tbl_def role_link_def Column_def)
  have "insert_error ?S (user_roles_tbl acc) (role_link u) = None"
    using Cons.prems(2,3) [of u] rows [OF assms(2)] rows [OF assms(3)]
    by (auto simp: insert_error_def user_roles_tbl_def row_error_def role_link_def clashes_def key_of_def
        references_ok_def)
  then have "insert_row env False ''user_roles'' (role_link u) ?S =
      Inr (P @ [(''user_roles'', user_roles_tbl (acc @ [role_link u]))])"
    using m ins set_table_absent [OF assms(1)]
    by (simp add: insert_row_def user_roles_tbl_def set_table_def)
  moreover have "insert_rows env False ''user_roles'' (map role_link us)
      (P @ [(''user_roles'', user_roles_tbl (acc @ [role_link u]))]) =
    Inr (P @ [(''user_roles'', user_roles_tbl ((acc @ [role_link u]) @ map role_link us))])"
  proof (rule Cons.IH)
    show "distinct (map (\<lambda>u. get u ''id'') us)"
      using Cons.prems(1) by simp
  next
    fix v assume v: "v \<in> set us"
    then have "get v ''id'' \<noteq> get u ''id''"
      using Cons.prems(1) by (metis (no_types, lifting) distinct.simps(2) image_eqI list.set_map list.simps(9))
    then show "get v ''id'' \<noteq> Null \<and> fits Integer_t (get v ''id'') = None
        \<and> get v ''id'' \<in> set (map (\<lambda>r. get r ''id'') (rows_of ''users'' P))
        \<and> get v ''id'' \<notin> set (map (\<lambda>l. get l ''user_id'') (acc @ [role_link u]))"
      using Cons.prems(2) [of v] v by (simp add: role_link_def)
  qed (use Cons.prems(3) in simp)
  ultimately show ?case
    by simp
qed simp

lemma users_ok_ids:
  assumes "users_ok rows"
  shows "distinct (map (\<lambda>u. get u ''id'') rows)"
    and "\<And>u. u \<in> set rows \<Longrightarrow> get u ''id'' \<noteq> Null \<and> fits Integer_t (get u ''id'') = None"
proof -
  have nn: "get u ''id'' \<noteq> Null" if "u \<in> set rows" for u
    using assms that by (simp add: users_ok_def list_all_iff)
  then have "filter (\<lambda>k. Null \<notin> set k) (map (key_of [''id'']) rows) = map (key_of [''id'']) rows"
    by (force simp: filter_id_conv key_of_def)
  then have "distinct (map (key_of [''id'']) rows)"
    using assms by (simp add: users_ok_def unique_on_def)
  then show "distinct (map (\<lambda>u. get u ''id'') rows)"
    by (simp add: key_of_def [abs_def] distinct_map inj_on_def)
  show "get u ''id'' \<noteq> Null \<and> fits Integer_t (get u ''id'') = None" if "u \<in> set rows" for u
    using assms that nn [OF that] by (force simp: users_ok_def row_error_None users_base_def split: if_splits)
qed

definition without_role_id :: "sql_row \<Rightarrow> sql_row" where
  "without_role_id u = filter (\<lambda>(d, v). d \<noteq> ''role_id'') u"

lemma get_without_role_id [simp]: "get (without_role_id u) c = (if c = ''role_id'' then Null else get u c)"
  by (simp add: without_role_id_def)

lemma drop_role_fk:
  assumes "around_users roles R"
  shows "run_op env (DropConstraint ''fk_users_role_id_roles'' ''users'') ((''users'', users_tbl cols [role_fk] rows nxt) # R) =
    Inr ((''users'', users_tbl cols [] rows nxt) # R)"
  by (simp add: drop_constraint_def around_usersD(3) [OF assms] role_fk_def users_tbl_def)

definition link_schema :: "sql_row list \<Rightarrow> sql_row list \<Rightarrow> int \<Rightarrow> schema \<Rightarrow> schema" where
  "link_schema us links n R = (''users'', users_tbl users_base [] us n) # R @ [(''user_roles'', user_roles_tbl links)]"

lemma around_role_tables:
  "around_users roles (legacy_rest rows nxt @ role_tables roles)"
  "around_users roles (legacy_rest rows nxt @ role_tables roles @ [(''user_roles'', user_roles_tbl links)])"
  by (simp_all add: around_users_def legacy_rest_def role_tables_def columns_referenced_def legacy_items_def
      legacy_request_logs_def legacy_preferences_def legacy_refresh_tokens_def roles_tbl_def permissions_tbl_def
      role_permissions_tbl_def user_roles_tbl_def)

lemma ops_c4a17:
  "drop 1 upgrade_c4a17d59f8b2 =
     [Execute CopyRoleIds, DropConstraint ''fk_users_role_id_roles'' ''users'', DropColumn ''users'' ''role_id'']"
  "downgrade_c4a17d59f8b2 =
     [AddColumn ''users'' (role_id_column True), Execute SetRoleIdToLeast, Execute (SetRoleIdIfNull ''user''),
      AlterNullable ''users'' ''role_id'' False,
      CreateForeignKey ''fk_users_role_id_roles'' ''users'' ''roles'' [''role_id''] [''id''] None,
      DropTable ''user_roles'']"
  by (simp_all add: upgrade_c4a17d59f8b2_def downgrade_c4a17d59f8b2_def role_id_column_def)

lemma accounts_by_links:
  assumes "users_ok us" and "\<And>u. u \<in> set us \<Longrightarrow> get u ''role_id'' \<in> {VInt 1, VInt 2}"
  shows "run_ops env upgrade_c4a17d59f8b2
      (role_id_schema us n (legacy_rest rows nxt @ role_tables (renamed_roles env))) =
    Inr (link_schema (map without_role_id us) (map role_link us) n
      (legacy_rest rows nxt @ role_tables (renamed_roles env)))"
proof -
  let ?R = "legacy_rest rows nxt @ role_tables (renamed_roles env)"
  let ?P = "(''users'', users_tbl (users_base @ [role_id_column False]) [role_fk] us n) # ?R"
  have P: "''user_roles'' \<notin> set (map fst ?P)" "''users'' \<in> set (map fst ?P)" "''roles'' \<in> set (map fst ?P)"
    by (simp_all add: legacy_rest_def role_tables_def)
  have roles: "rows_of ''roles'' ?P = renamed_roles env"
    by (rule around_usersD(1) [OF around_role_tables(1)])
  have "insert_rows env False ''user_roles'' (map role_link us) (?P @ [(''user_roles'', user_roles_tbl [])]) =
      Inr (?P @ [(''user_roles'', user_roles_tbl ([] @ map role_link us))])"
  proof (rule insert_links [OF P users_ok_ids(1) [OF assms(1)]])
    show "get u ''id'' \<noteq> Null \<and> fits Integer_t (get u ''id'') = None
        \<and> get u ''id'' \<in> set (map (\<lambda>r. get r ''id'') (rows_of ''users'' ?P))
        \<and> get u ''id'' \<notin> set (map (\<lambda>l. get l ''user_id'') [])" if "u \<in> set us" for u
      using that users_ok_ids(2) [OF assms(1) that] by simp
    show "get u ''role_id'' \<noteq> Null \<and> fits Integer_t (get u ''role_id'') = None
        \<and> get u ''role_id'' \<in> set (map (\<lambda>r. get r ''id'') (rows_of ''roles'' ?P))" if "u \<in> set us" for u
      unfolding roles using assms(2) [OF that] by (auto simp: renamed_roles_def role_row_def)
  qed
  then have copy: "run_op env (Execute CopyRoleIds)
      (role_id_schema us n (legacy_rest rows nxt @ role_tables (renamed_roles env) @ [(''user_roles'', user_roles_tbl [])])) =
    Inr (role_id_schema us n (legacy_rest rows nxt @ role_tables (renamed_roles env)
      @ [(''user_roles'', user_roles_tbl (map role_link us))]))"
    by (simp add: role_id_schema_def role_link_def [abs_def])
  have cols: "''role_id'' \<in> set (map fst (users_base @ [role_id_column False]))"
    "filter (\<lambda>(d, col). d \<noteq> ''role_id'') (users_base @ [role_id_column False]) = users_base"
    by (simp_all add: role_id_column_def Column_def users_base_def)
  note around = around_role_tables(2) [of "renamed_roles env" rows nxt "map role_link us"]
  have drop: "run_op env (DropColumn ''users'' ''role_id'')
      ((''users'', users_tbl (users_base @ [role_id_column False]) [] us n) # legacy_rest rows nxt
         @ role_tables (renamed_roles env) @ [(''user_roles'', user_roles_tbl (map role_link us))]) =
    Inr (link_schema (map without_role_id us) (map role_link us) n ?R)"
    using drop_role_column [OF around _ _ cols(1), where cons = "[]"]
    by (simp add: link_schema_def cols(2) without_role_id_def [abs_def] del: filter_append)
  note fk = drop_role_fk [OF around, of env "users_base @ [role_id_column False]" us n, folded role_id_schema_def]
  have split: "upgrade_c4a17d59f8b2 = take 1 upgrade_c4a17d59f8b2 @ drop 1 upgrade_c4a17d59f8b2"
    by simp
  show ?thesis
    by (subst split) (simp only: run_ops_append create_user_roles ops_c4a17 run_ops.simps rbind_Inr copy fk drop)
qed

lemma split_d1c7:
  "upgrade_d1c7a4f2b8e3 = (take 3 upgrade_d1c7a4f2b8e3 @ take 2 (drop 3 upgrade_d1c7a4f2b8e3)
     @ take 18 (drop 5 upgrade_d1c7a4f2b8e3)) @ drop 23 upgrade_d1c7a4f2b8e3"
proof -
  have eqs: "drop 23 xs = drop 18 (drop 5 xs)" "drop 5 xs = drop 2 (drop 3 xs)" for xs :: "op list"
    by simp_all
  show ?thesis
    by (simp only: eqs(1) append.assoc append_take_drop_id) (simp only: eqs(2) append_take_drop_id)
qed

lemma role_tables_created:
  "run_ops env (take 3 upgrade_d1c7a4f2b8e3 @ take 2 (drop 3 upgrade_d1c7a4f2b8e3)
     @ take 18 (drop 5 upgrade_d1c7a4f2b8e3)) (legacy_schema rows nxt) =
   Inr (legacy_schema rows nxt @ role_tables (first_roles env))"
  by (simp only: run_ops_append create_role_tables rbind_Inr)
    (simp only: legacy_schema_def legacy_rest_def append.simps insert_roles insert_grants rbind_Inr
      role_tables_def first_roles_def)

lemma legacy_upgrade_roles:
  assumes "consistent (legacy_schema rows nxt)"
  shows "run_ops env upgrade_d1c7a4f2b8e3 (legacy_schema rows nxt) =
    (if \<forall>u\<in>set (rows ''users''). known_role u
     then Inr (role_id_schema (map by_role_id (rows ''users'')) (nxt ''users'')
       (legacy_rest rows nxt @ role_tables (first_roles env)))
     else Inl NotNullViolation)"
proof -
  have "legacy_schema rows nxt @ role_tables (first_roles env) =
      (''users'', users_tbl legacy_columns [] (rows ''users'') (nxt ''users''))
        # legacy_rest rows nxt @ role_tables (first_roles env)"
    by (simp add: legacy_schema_def legacy_users_tbl)
  moreover note accounts_by_role_id [OF around_role_tables(1) legacy_users_ok [OF assms]]
  ultimately show ?thesis
    by (subst split_d1c7) (simp only: run_ops_append [of _ "_ @ _ @ _" "drop _ _"] role_tables_created rbind_Inr)
qed

lemma rename_through:
  "run_ops env upgrade_e2f8b1c4d906 (role_id_schema us n (legacy_rest rows nxt @ role_tables (first_roles env))) =
     Inr (role_id_schema us n (legacy_rest rows nxt @ role_tables (renamed_roles env)))"
  using rename_admin by (simp add: role_id_schema_def legacy_rest_def)

lemma by_role_id_ok: "users_ok rows \<Longrightarrow> users_ok (map by_role_id rows)"
  by (subst users_ok_map) auto

abbreviation role_revisions :: "revision list" where
  "role_revisions \<equiv> [revision_d1c7a4f2b8e3, revision_e2f8b1c4d906, revision_c4a17d59f8b2]"

lemma legacy_upgrade_links:
  assumes "consistent (legacy_schema rows nxt)" and "\<forall>u\<in>set (rows ''users''). known_role u"
  shows "upgrade_through env role_revisions (legacy_schema rows nxt) =
    Inr (link_schema (map without_role_id (map by_role_id (rows ''users'')))
      (map role_link (map by_role_id (rows ''users''))) (nxt ''users'')
      (legacy_rest rows nxt @ role_tables (renamed_roles env)))"
proof -
  have "get u ''role_id'' \<in> {VInt 1, VInt 2}" if "u \<in> set (map by_role_id (rows ''users''))" for u
    using that assms(2) by (auto simp: new_role_id_def known_role_def)
  note links = accounts_by_links [OF by_role_id_ok [OF legacy_users_ok(1) [OF assms(1)]] this]
  have "upgrade_through env role_revisions S =
      rbind (run_ops env upgrade_d1c7a4f2b8e3 S)
        (\<lambda>S. rbind (run_ops env upgrade_e2f8b1c4d906 S) (run_ops env upgrade_c4a17d59f8b2))" for S
    by (simp add: revision_defs rbind_def split: sum.splits)
  then show ?thesis
    by (simp only: legacy_upgrade_roles [OF assms(1)] if_P [OF assms(2)] rbind_Inr rename_through links)
qed

subsection \<open>Backwards\<close>

definition relinked :: "sql_row \<Rightarrow> sql_row" where
  "relinked u = put ''role_id'' (get u ''role_id'') (put ''role_id'' Null (without_role_id u))"

lemma get_relinked [simp]: "get (relinked u) c = get u c"
  by (simp add: relinked_def)

lemma get_role_link [simp]:
  "get (role_link u) ''user_id'' = get u ''id''" "get (role_link u) ''role_id'' = get u ''role_id''"
  by (simp_all add: role_link_def)

lemma links_of:
  assumes "distinct (map (\<lambda>u. get u ''id'') us)" and "u \<in> set us"
  shows "filter (\<lambda>l. get l ''user_id'' = get u ''id'') (map role_link us) = [role_link u]"
  using assms
proof (induction us)
  case (Cons v us)
  have none: "filter (\<lambda>l. get l ''user_id'' = get v ''id'') (map role_link us) = []"
    using Cons.prems(1) by (auto simp: filter_empty_conv image_iff)
  have other: "get u ''id'' \<noteq> get v ''id''" if "u \<noteq> v"
    using Cons.prems that by (auto simp: image_iff)
  show ?case
  proof (cases "u = v")
    case True
    then show ?thesis
      using none by simp
  next
    case False
    then show ?thesis
      using Cons.IH Cons.prems other by simp
  qed
qed simp

lemma fits_small: "v \<in> {VInt 1, VInt 2} \<Longrightarrow> fits Integer_t v = None"
  by auto

lemma relinked_ok: "users_ok us \<Longrightarrow> users_ok (map relinked us)"
  by (subst users_ok_map) auto

lemma accounts_from_links:
  assumes "users_ok us" and "\<And>u. u \<in> set us \<Longrightarrow> get u ''role_id'' \<in> {VInt 1, VInt 2}"
  shows "run_ops env downgrade_c4a17d59f8b2
      (link_schema (map without_role_id us) (map role_link us) n
        (legacy_rest rows nxt @ role_tables (renamed_roles env))) =
    Inr (role_id_schema (map relinked us) n (legacy_rest rows nxt @ role_tables (renamed_roles env)))"
proof -
  let ?R = "legacy_rest rows nxt @ role_tables (renamed_roles env) @ [(''user_roles'', user_roles_tbl (map role_link us))]"
  let ?cols = "users_base @ [role_id_column True]"
  let ?t = "users_tbl ?cols [] (map (put ''role_id'' Null) (map without_role_id us)) n"
  let ?u = "users_tbl ?cols [] (map relinked us) n"
  note around = around_role_tables(2) [of "renamed_roles env" rows nxt "map role_link us"]
  have nr: "''role_id'' \<notin> set (map fst users_base)"
    by (simp add: users_base_def Column_def)
  have links: "rows_of ''user_roles'' ((''users'', t) # ?R) = map role_link us" for t
    by (simp add: rows_of_def legacy_rest_def role_tables_def user_roles_tbl_def)
  have ok: "table_error S ?u = None" for S
    by (rule users_table_ok [OF relinked_ok [OF assms(1)], where ex = "[role_id_column True]"])
      (auto simp: role_id_column_def fits_small [OF assms(2)])
  have "map_rows (\<lambda>u. Inr (put ''role_id''
        (least (select_where ''role_id'' ''user_roles'' (\<lambda>l. get l ''user_id'' = get u ''id'') ((''users'', ?t) # ?R))) u))
      (tbl_rows ?t) = Inr (map relinked us)"
  proof -
    have least: "least (select_where ''role_id'' ''user_roles'' (\<lambda>l. get l ''user_id'' = get u ''id'') ((''users'', t) # ?R)) =
        get u ''role_id''" if "u \<in> set us" for u t
      using assms(2) [OF that] by (auto simp: select_where_def links links_of [OF users_ok_ids(1) [OF assms(1)] that])
    show ?thesis
      by (subst map_rows_Inr [OF refl]) (auto simp: least relinked_def)
  qed
  then have copy: "run_op env (Execute SetRoleIdToLeast) ((''users'', ?t) # ?R) = Inr ((''users'', ?u) # ?R)"
    using update_rows_head [OF around_usersD(2) [OF around], of _ ?t] ok by simp
  have req: "get u ''role_id'' \<noteq> Null \<and> fits Integer_t (get u ''role_id'') = None"
    and ex: "get u ''role_id'' \<in> set (map (\<lambda>r. get r ''id'') (renamed_roles env))"
    if "u \<in> set (map relinked us)" for u
  proof -
    from that obtain x where "x \<in> set us" "u = relinked x"
      by auto
    then have v: "get u ''role_id'' \<in> {VInt 1, VInt 2}"
      using assms(2) [of x] by simp
    show "get u ''role_id'' \<noteq> Null \<and> fits Integer_t (get u ''role_id'') = None"
      using v fits_small [OF v] by auto
    show "get u ''role_id'' \<in> set (map (\<lambda>r. get r ''id'') (renamed_roles env))"
      using v by (auto simp: renamed_roles_def role_row_def)
  qed
  have "map_rows (\<lambda>u. if get u ''role_id'' = Null
      then rbind (scalar (role_ids_named (VStr ''user'') ((''users'', ?u) # ?R))) (\<lambda>v. Inr (put ''role_id'' v u)) else Inr u)
      (tbl_rows ?u) = Inr (map id (map relinked us))"
    by (simp only: users_tbl_simps) (rule map_rows_Inr, use req in simp)
  then have keep: "run_op env (Execute (SetRoleIdIfNull ''user'')) ((''users'', ?u) # ?R) = Inr ((''users'', ?u) # ?R)"
    using update_rows_head [OF around_usersD(2) [OF around], of _ ?u] ok by simp
  have fk: "''role_id'' \<in> set (map fst (users_base @ [role_id_column False]))"
    by (simp add: role_id_column_def Column_def)
  have drop: "run_op env (DropTable ''user_roles'')
      ((''users'', users_tbl (users_base @ [role_id_column False]) [role_fk] (map relinked us) n) # ?R) =
    Inr (role_id_schema (map relinked us) n (legacy_rest rows nxt @ role_tables (renamed_roles env)))"
    by (simp add: role_id_schema_def drop_table_def referenced_def legacy_rest_def role_tables_def role_fk_def
        legacy_items_def legacy_request_logs_def legacy_preferences_def legacy_refresh_tokens_def roles_tbl_def
        permissions_tbl_def role_permissions_tbl_def)
  show ?thesis
    unfolding link_schema_def append.assoc
    by (simp only: ops_c4a17(2) run_ops.simps add_role_id [OF around nr] rbind_Inr copy keep
        role_id_required [OF around nr req] link_role_id [OF around fk ex] drop)
qed

definition restored_roles :: "dbms \<Rightarrow> sql_row list" where
  "restored_roles env = [role_row env 1 ''user'', put ''name'' (VStr ''admin'') (role_row env 2 ''admin'')]"

lemma rename_back:
  "run_ops env downgrade_e2f8b1c4d906 ([(''users'', t1), (''items'', t2), (''request_logs'', t3),
     (''user_preferences'', t4), (''refresh_tokens'', t5)] @ role_tables (renamed_roles env)) =
   Inr ([(''users'', t1), (''items'', t2), (''request_logs'', t3),
     (''user_preferences'', t4), (''refresh_tokens'', t5)] @ role_tables (restored_roles env))"
  by code_simp

lemma rename_back_through:
  "run_ops env downgrade_e2f8b1c4d906 (role_id_schema us n (legacy_rest rows nxt @ role_tables (renamed_roles env))) =
     Inr (role_id_schema us n (legacy_rest rows nxt @ role_tables (restored_roles env)))"
  using rename_back by (simp add: role_id_schema_def legacy_rest_def)

definition role_column :: "str \<times> column" where
  "role_column = Column ''role'' (String_t 20) False (Literal ''user'')"

definition old_role_name :: "sql_value \<Rightarrow> sql_value" where
  "old_role_name v = (if v = VInt 2 then VStr ''admin'' else VStr ''user'')"

definition named :: "sql_row \<Rightarrow> sql_row" where
  "named u = put ''role'' (old_role_name (get u ''role_id'')) (put ''role'' (VStr ''user'') u)"

lemma get_named [simp]:
  "get (named u) c = (if c = ''role'' then old_role_name (get u ''role_id'') else get u c)"
  by (simp add: named_def)

lemma add_role:
  assumes "around_users roles R" and "''role'' \<notin> set (map fst cols)"
  shows "run_op env (AddColumn ''users'' role_column) ((''users'', users_tbl cols cons rows nxt) # R) =
    Inr ((''users'', users_tbl (cols @ [role_column]) cons (map (put ''role'' (VStr ''user'')) rows) nxt) # R)"
proof -
  have "first_error (column_error role_column) (map (put ''role'' (VStr ''user'')) rows) = None"
    by (simp add: first_error_None role_column_def)
  then show ?thesis
    using assms(2)
    by (simp add: add_column_def around_usersD(3) [OF assms(1)] role_column_def Column_def default_value_def)
qed

lemma drop_role_tables:
  "run_ops env [DropTable ''role_permissions'', DropTable ''permissions'', DropTable ''roles'']
     ((''users'', users_tbl cols [] us n) # legacy_rest rows nxt @ role_tables roles) =
   Inr ((''users'', users_tbl cols [] us n) # legacy_rest rows nxt)"
  by code_simp

lemma ops_d1c7_down:
  "downgrade_d1c7a4f2b8e3 =
     [AddColumn ''users'' role_column, Execute SetRoleByRoleId,
      DropConstraint ''fk_users_role_id_roles'' ''users'', DropColumn ''users'' ''role_id'']
     @ [DropTable ''role_permissions'', DropTable ''permissions'', DropTable ''roles'']"
  by (simp add: downgrade_d1c7a4f2b8e3_def role_column_def)

lemma accounts_named:
  assumes "users_ok us" and "\<And>u. u \<in> set us \<Longrightarrow> get u ''role_id'' \<in> {VInt 1, VInt 2}"
  shows "run_ops env downgrade_d1c7a4f2b8e3
      (role_id_schema us n (legacy_rest rows nxt @ role_tables (restored_roles env))) =
    Inr ((''users'', users_tbl (users_base @ [role_column]) [] (map without_role_id (map named us)) n) # legacy_rest rows nxt)"
proof -
  let ?R = "legacy_rest rows nxt @ role_tables (restored_roles env)"
  let ?cols = "users_base @ [role_id_column False] @ [role_column]"
  let ?t = "users_tbl ?cols [role_fk] (map (put ''role'' (VStr ''user'')) us) n"
  let ?u = "users_tbl ?cols [role_fk] (map named us) n"
  note around = around_role_tables(1) [of "restored_roles env" rows nxt]
  have nr: "''role'' \<notin> set (map fst (users_base @ [role_id_column False]))"
    by (simp add: users_base_def role_id_column_def Column_def)
  have names: "scalar (select_where ''name'' ''roles'' (\<lambda>r. v \<noteq> Null \<and> get r ''id'' = v) ((''users'', t) # ?R)) =
      Inr (old_role_name v)" if "v \<in> {VInt 1, VInt 2}" for v t
    unfolding select_where_def around_usersD(1) [OF around]
    using that by (auto simp: restored_roles_def role_row_def old_role_name_def)
  have m: "map_rows (\<lambda>u. rbind
        (scalar (select_where ''name'' ''roles'' (\<lambda>r. get u ''role_id'' \<noteq> Null \<and> get r ''id'' = get u ''role_id'')
          ((''users'', ?t) # ?R))) (\<lambda>v. Inr (put ''role'' v u))) (tbl_rows ?t) = Inr (map named us)"
  proof -
    have "map named us = map (\<lambda>u. put ''role'' (old_role_name (get u ''role_id'')) u) (map (put ''role'' (VStr ''user'')) us)"
      by (simp add: named_def)
    then show ?thesis
      by (simp only: users_tbl_simps) (rule map_rows_Inr, use assms(2) names in auto)
  qed
  have ok: "table_error ((''users'', ?t) # ?R) ?u = None"
  proof (rule users_table_ok [where ex = "[role_id_column False, role_column]"])
    show "users_ok (map named us)"
      using assms(1) by (subst users_ok_map) auto
    show "column_error nc u = None" if "u \<in> set (map named us)" "nc \<in> set [role_id_column False, role_column]" for u nc
      using that assms(2) by (force simp: role_id_column_def role_column_def old_role_name_def)
    show "constraint_error ((''users'', ?t) # ?R) (map named us) c = None" if "(k, c) \<in> set [role_fk]" for k c
    proof -
      have "references_ok [''role_id''] (map named us) [''id''] (restored_roles env)"
        using assms(2) by (fastforce simp: references_ok_def key_of_def list_all_iff restored_roles_def role_row_def)
      then show ?thesis
        using that around_usersD(1) [OF around] by (simp add: role_fk_def)
    qed
  qed auto
  have name: "run_op env (Execute SetRoleByRoleId) ((''users'', ?t) # ?R) = Inr ((''users'', ?u) # ?R)"
    using update_rows_head [OF around_usersD(2) [OF around] m] ok by simp
  have cols: "''role_id'' \<in> set (map fst ?cols)"
    "filter (\<lambda>(d, col). d \<noteq> ''role_id'') (users_base @ [role_id_column False, role_column]) = users_base @ [role_column]"
    by (simp_all add: role_id_column_def role_column_def Column_def users_base_def)
  have drop: "run_op env (DropColumn ''users'' ''role_id'') ((''users'', users_tbl ?cols [] (map named us) n) # ?R) =
    Inr ((''users'', users_tbl (users_base @ [role_column]) [] (map without_role_id (map named us)) n) # ?R)"
    using drop_role_column [OF around _ _ cols(1), where cons = "[]"]
    by (simp add: cols(2) without_role_id_def [abs_def] del: filter_append)
  show ?thesis
    unfolding role_id_schema_def
    by (simp only: ops_d1c7_down run_ops_append run_ops.simps(2) add_role [OF around nr] append.assoc rbind_Inr name
        drop_role_fk [OF around] drop) (simp only: run_ops.simps(1) rbind_Inr drop_role_tables)
qed

section \<open>Properties\<close>

text \<open>The names of the roles that \<open>user_roles\<close> gives an account.\<close>

definition roles_held :: "sql_value \<Rightarrow> schema \<Rightarrow> sql_value list" where
  "roles_held uid S = concat (map (\<lambda>l. select_where ''name'' ''roles'' (\<lambda>r. get r ''id'' = get l ''role_id'') S)
     (filter (\<lambda>l. get l ''user_id'' = uid) (rows_of ''user_roles'' S)))"

text \<open>
  C8. The revisions that moved roles out of the accounts' rows keep everyone's role. On any
  consistent database at revision \<open>0a456e5b983c\<close> whose accounts are \<open>user\<close> or \<open>admin\<close>, the three
  upgrades succeed and every account then holds exactly one role, \<open>superadmin\<close> if it was \<open>admin\<close> and
  \<open>user\<close> otherwise; the three downgrades, run on that result, succeed and give back the schema and, in
  every column, the rows that the accounts and all other tables had before.
\<close>

theorem roles_migrate_both_ways:
  assumes "consistent (legacy_schema rows nxt)" and "\<forall>u\<in>set (rows ''users''). known_role u"
  shows "\<exists>S T. upgrade_through env role_revisions (legacy_schema rows nxt) = Inr S
    \<and> (\<forall>u\<in>set (rows ''users''). roles_held (get u ''id'') S =
         [VStr (if get u ''role'' = VStr ''admin'' then ''superadmin'' else ''user'')])
    \<and> downgrade_through env (rev role_revisions) S = Inr T
    \<and> same_schema T (legacy_schema rows nxt)
    \<and> (\<forall>c\<in>set (map fst legacy_columns). map (\<lambda>u. get u c) (rows_of ''users'' T) = map (\<lambda>u. get u c) (rows ''users''))
    \<and> (\<forall>n. n \<noteq> ''users'' \<longrightarrow> rows_of n T = rows_of n (legacy_schema rows nxt))"
proof -
  let ?us = "map by_role_id (rows ''users'')"
  let ?S = "link_schema (map without_role_id ?us) (map role_link ?us) (nxt ''users'')
      (legacy_rest rows nxt @ role_tables (renamed_roles env))"
  let ?T = "(''users'', users_tbl (users_base @ [role_column]) []
      (map without_role_id (map named (map relinked ?us))) (nxt ''users'')) # legacy_rest rows nxt"
  have ok: "users_ok ?us"
    by (rule by_role_id_ok [OF legacy_users_ok(1) [OF assms(1)]])
  have rid: "get u ''role_id'' \<in> {VInt 1, VInt 2}" if "u \<in> set ?us" for u
    using that assms(2) by (auto simp: new_role_id_def known_role_def)
  then have rid': "get u ''role_id'' \<in> {VInt 1, VInt 2}" if "u \<in> set (map relinked ?us)" for u
  proof -
    from that obtain x where "x \<in> set ?us" "u = relinked x"
      by (auto simp only: list.set_map)
    then show ?thesis
      using rid [of x] by simp
  qed
  have "downgrade_through env (rev role_revisions) S =
      rbind (run_ops env downgrade_c4a17d59f8b2 S)
        (\<lambda>S. rbind (run_ops env downgrade_e2f8b1c4d906 S) (run_ops env downgrade_d1c7a4f2b8e3))" for S
    by (simp add: revision_defs rbind_def split: sum.splits)
  then have down: "downgrade_through env (rev role_revisions) ?S = Inr ?T"
    by (simp only: accounts_from_links [OF ok rid] rbind_Inr rename_back_through accounts_named [OF relinked_ok [OF ok] rid'])
  have held: "roles_held (get u ''id'') ?S = [VStr (if get u ''role'' = VStr ''admin'' then ''superadmin'' else ''user'')]"
    if u: "u \<in> set (rows ''users'')" for u
  proof -
    have tables: "rows_of ''user_roles'' ?S = map role_link ?us" "rows_of ''roles'' ?S = renamed_roles env"
      by (simp_all add: rows_of_def link_schema_def legacy_rest_def role_tables_def user_roles_tbl_def roles_tbl_def)
    have "by_role_id u \<in> set ?us"
      using u by simp
    from links_of [OF users_ok_ids(1) [OF ok] this]
    have "filter (\<lambda>l. get l ''user_id'' = get u ''id'') (map role_link ?us) = [role_link (by_role_id u)]"
      by simp
    moreover have "known_role u"
      using assms(2) u by blast
    ultimately show ?thesis
      unfolding roles_held_def select_where_def tables
      by (auto simp: renamed_roles_def role_row_def new_role_id_def known_role_def simp del: filter_map map_map)
  qed
  have same: "same_schema ?T (legacy_schema rows nxt)"
    by (simp add: same_schema_def same_table_def legacy_schema_def legacy_users_tbl legacy_rest_def users_tbl_def
        legacy_columns_def users_base_def role_column_def) blast
  have cells: "map (\<lambda>u. get u c) (rows_of ''users'' ?T) = map (\<lambda>u. get u c) (rows ''users'')"
    if "c \<in> set (map fst legacy_columns)" for c
  proof -
    have "c \<noteq> ''role_id''"
      using that by (auto simp: legacy_columns_simps)
    then show ?thesis
      using assms(2) by (auto simp: comp_def old_role_name_def new_role_id_def known_role_def)
  qed
  show ?thesis
    using legacy_upgrade_links [OF assms] held down same cells
    by (intro exI [of _ ?S] exI [of _ ?T]) (auto simp: legacy_schema_def)
qed

text \<open>Two accounts, one of each role, beside empty tables.\<close>

definition legacy_account :: "int \<Rightarrow> str \<Rightarrow> str \<Rightarrow> sql_row" where
  "legacy_account i email role = [(''id'', VInt i), (''email'', VStr email), (''hashed_password'', VStr ''h''),
     (''created_at'', VTime 0), (''role'', VStr role), (''updated_at'', VTime 0)]"

definition legacy_sample :: "str \<Rightarrow> sql_row list" where
  "legacy_sample n = (if n = ''users''
     then [legacy_account 1 ''ada@x'' ''admin'', legacy_account 2 ''bob@x'' ''user''] else [])"

definition plain_dbms :: dbms where
  "plain_dbms = \<lparr>db_now = 0, db_lower = map lower_char\<rparr>"

lemma legacy_sample_ok:
  "consistent (legacy_schema legacy_sample (\<lambda>_. 3))" "\<forall>u\<in>set (legacy_sample ''users''). known_role u"
  by code_simp+

theorem roles_migrate_both_ways_witness:
  "consistent (legacy_schema legacy_sample (\<lambda>_. 3))
   \<and> (\<exists>S T. upgrade_through plain_dbms role_revisions (legacy_schema legacy_sample (\<lambda>_. 3)) = Inr S
       \<and> roles_held (VInt 1) S = [VStr ''superadmin''] \<and> roles_held (VInt 2) S = [VStr ''user'']
       \<and> downgrade_through plain_dbms (rev role_revisions) S = Inr T
       \<and> map (\<lambda>u. get u ''role'') (rows_of ''users'' T) = [VStr ''admin'', VStr ''user''])"
proof -
  obtain S T where up: "upgrade_through plain_dbms role_revisions (legacy_schema legacy_sample (\<lambda>_. 3)) = Inr S"
    and held: "\<forall>u\<in>set (legacy_sample ''users''). roles_held (get u ''id'') S =
        [VStr (if get u ''role'' = VStr ''admin'' then ''superadmin'' else ''user'')]"
    and down: "downgrade_through plain_dbms (rev role_revisions) S = Inr T"
    and cells: "\<forall>c\<in>set (map fst legacy_columns).
        map (\<lambda>u. get u c) (rows_of ''users'' T) = map (\<lambda>u. get u c) (legacy_sample ''users'')"
    using roles_migrate_both_ways [OF legacy_sample_ok, of plain_dbms] by blast
  have held': "roles_held (VInt 1) S = [VStr ''superadmin'']" "roles_held (VInt 2) S = [VStr ''user'']"
    using held by (simp_all add: legacy_sample_def legacy_account_def)
  have role: "map (\<lambda>u. get u ''role'') (rows_of ''users'' T) = [VStr ''admin'', VStr ''user'']"
    using bspec [OF cells, of "''role''"] by (simp add: legacy_columns_simps legacy_sample_def legacy_account_def)
  show ?thesis
    by (intro conjI exI [of _ S] exI [of _ T] legacy_sample_ok(1) up held' down role)
qed

lemma lowered_email_ok:
  assumes "row_error legacy_columns u = None" and "\<forall>s. length (db_lower env s) \<le> length s"
  shows "row_error legacy_columns (put ''email'' (lowered env (get u ''email'')) u) = None"
    and "lowered env (get u ''email'') \<noteq> Null"
proof -
  have email: "get u ''email'' \<noteq> Null" "fits (String_t 255) (get u ''email'') = None"
    using assms(1) by (auto simp: row_error_None legacy_columns_def users_base_def split: if_splits)
  then show nn: "lowered env (get u ''email'') \<noteq> Null"
    by (cases "get u ''email''") simp_all
  have "fits (String_t 255) (lowered env (get u ''email'')) = None"
  proof (cases "get u ''email''")
    case (VStr s)
    have "length (db_lower env s) \<le> length s"
      using assms(2) by blast
    then show ?thesis
      using VStr email(2) by (auto split: if_splits)
  qed simp_all
  then show "row_error legacy_columns (put ''email'' (lowered env (get u ''email'')) u) = None"
    using assms(1) nn by (simp add: row_error_None legacy_columns_def users_base_def split: if_splits)
qed

text \<open>
  C29. Lowercasing the stored addresses (\<open>0a456e5b983c\<close>) succeeds exactly when no two active accounts
  have addresses that differ in case only, and then rewrites every address and nothing else; when two
  do, the whole migration run is refused by the unique index and the database stays as it was.
\<close>

theorem lowercase_emails_outcome:
  assumes "consistent (legacy_schema rows nxt)" and "\<forall>s. length (db_lower env s) \<le> length s"
  shows "do_run_migrations (run_ops env upgrade_0a456e5b983c) (legacy_schema rows nxt) =
    (if distinct (map (\<lambda>u. lowered env (get u ''email'')) (filter (\<lambda>u. get u ''deleted_at'' = Null) (rows ''users'')))
     then (None, legacy_schema (rows(''users'' :=
       map (\<lambda>u. put ''email'' (lowered env (get u ''email'')) u) (rows ''users''))) nxt)
     else (Some UniqueViolation, legacy_schema rows nxt))"
proof -
  let ?f = "\<lambda>u. put ''email'' (lowered env (get u ''email'')) u"
  let ?us = "rows ''users''"
  let ?t = "users_tbl legacy_columns [] ?us (nxt ''users'')"
  let ?active = "filter (\<lambda>u. get u ''deleted_at'' = Null) ?us"
  have t: "table_error (legacy_schema rows nxt) ?t = None"
    using assms(1) by (simp add: consistent_def legacy_schema_def legacy_users_tbl)
  then have row: "row_error legacy_columns u = None" if "u \<in> set ?us" for u
    using that by (simp add: table_error_None)
  have rows': "first_error (row_error legacy_columns) (map ?f ?us) = None"
    using lowered_email_ok(1) [OF row assms(2)] by (auto simp: first_error_None)
  have pk: "constraint_error S (map ?f ?us) (PrimaryKey [''id'']) = None" for S
  proof -
    have "unique_on [''id''] (map ?f ?us) = unique_on [''id''] ?us"
      by (rule unique_on_map) (simp add: key_of_def)
    then show ?thesis
      using t by (auto simp: table_error_None key_of_def list_all_iff split: if_splits)
  qed
  have index: "index_ok email_index (map ?f ?us) = distinct (map (\<lambda>u. lowered env (get u ''email'')) ?active)"
  proof -
    have "filter (selected_by (Some ''deleted_at IS NULL'')) (map ?f ?us) = map ?f ?active"
      by (simp add: filter_map comp_def selected_by_def)
    moreover have "filter (\<lambda>k. Null \<notin> set k) (map (key_of [''email'']) (map ?f ?active)) =
        map (\<lambda>u. [lowered env (get u ''email'')]) ?active"
      using lowered_email_ok(2) [OF row assms(2), THEN not_sym]
      by (auto simp: key_of_def comp_def filter_id_conv)
    moreover have "distinct (map (\<lambda>u. [lowered env (get u ''email'')]) ?active) =
        distinct (map (\<lambda>u. lowered env (get u ''email'')) ?active)"
      by (simp add: distinct_map inj_on_def)
    ultimately show ?thesis
      by (simp add: index_ok_def email_index_def unique_on_def del: map_map)
  qed
  have err: "table_error S (users_tbl legacy_columns [] (map ?f ?us) (nxt ''users'')) =
      (if distinct (map (\<lambda>u. lowered env (get u ''email'')) ?active) then None else Some UniqueViolation)" for S
    using rows' pk [of S] by (simp add: table_error_def index del: constraint_error.simps map_map)
  have absent: "''users'' \<notin> set (map fst (legacy_rest rows nxt))"
    by (simp add: legacy_rest_def)
  have rest: "legacy_rest (rows(''users'' := x)) nxt = legacy_rest rows nxt" for x
    by (simp add: legacy_rest_def)
  have "map_rows (\<lambda>u. Inr (?f u)) ?us = Inr (map ?f ?us)"
    by (rule map_rows_Inr) simp
  then show ?thesis
    using err [of "legacy_schema rows nxt"]
    by (simp add: do_run_migrations_def upgrade_0a456e5b983c_def update_rows_def store_rows_def legacy_schema_def
        legacy_users_tbl set_table_head [OF absent] rest)
qed

theorem lowercase_emails_outcome_witness:
  "do_run_migrations (run_ops plain_dbms upgrade_0a456e5b983c)
     (legacy_schema (legacy_sample(''users'' := [legacy_account 1 ''Ada@x'' ''user'', legacy_account 2 ''ada@x'' ''user'']))
       (\<lambda>_. 3)) =
   (Some UniqueViolation,
    legacy_schema (legacy_sample(''users'' := [legacy_account 1 ''Ada@x'' ''user'', legacy_account 2 ''ada@x'' ''user'']))
       (\<lambda>_. 3))"
proof -
  let ?rows = "legacy_sample(''users'' := [legacy_account 1 ''Ada@x'' ''user'', legacy_account 2 ''ada@x'' ''user''])"
  have ok: "consistent (legacy_schema ?rows (\<lambda>_. 3))"
    by code_simp
  have len: "\<forall>s. length (db_lower plain_dbms s) \<le> length s"
    by (simp add: plain_dbms_def)
  have "\<not> distinct (map (\<lambda>u. lowered plain_dbms (get u ''email''))
      (filter (\<lambda>u. get u ''deleted_at'' = Null) (?rows ''users'')))"
    by code_simp
  then show ?thesis
    using lowercase_emails_outcome [OF ok len] by simp
qed

end
