(* ===== verification/Metadata.thy ===== *)
theory Metadata
  imports Schema
begin

text \<open>
  The schema that the declarative models ask for: the columns each class of \<open>app/models\<close> maps, the
  columns its mixins add (\<open>app/db/mixins.py\<close>), the arguments of its table, and the names that
  \<open>NAMING_CONVENTION\<close> (\<open>app/db/base.py\<close>) gives constraints and indexes. \<open>metadata\<close> is
  \<open>Base.metadata\<close>, which \<open>alembic/env.py\<close> hands Alembic as its target.
\<close>

section \<open>Declarations\<close>

record mapped =
  mc_name :: str
  mc_type :: sql_type
  mc_nullable :: bool
  mc_primary_key :: bool
  mc_unique :: bool
  mc_index :: bool
  mc_foreign_key :: "(str \<times> str \<times> str option) option"
  mc_server_default :: server_default

definition mapped_column :: "str \<Rightarrow> sql_type \<Rightarrow> mapped" where
  "mapped_column name ty = \<lparr>mc_name = name, mc_type = ty, mc_nullable = False, mc_primary_key = False,
     mc_unique = False, mc_index = False, mc_foreign_key = None, mc_server_default = NoDefault\<rparr>"

definition optional :: "mapped \<Rightarrow> mapped" where
  "optional c = c\<lparr>mc_nullable := True\<rparr>"

definition primary_key :: "mapped \<Rightarrow> mapped" where
  "primary_key c = c\<lparr>mc_primary_key := True\<rparr>"

definition unique :: "mapped \<Rightarrow> mapped" where
  "unique c = c\<lparr>mc_unique := True\<rparr>"

definition indexed :: "mapped \<Rightarrow> mapped" where
  "indexed c = c\<lparr>mc_index := True\<rparr>"

text \<open>\<open>ForeignKey("table.id", ondelete="CASCADE")\<close>: every foreign key of the models cascades.\<close>

definition cascading :: "str \<Rightarrow> mapped \<Rightarrow> mapped" where
  "cascading t c = c\<lparr>mc_foreign_key := Some (t, ''id'', Some ''CASCADE'')\<rparr>"

definition server_default :: "server_default \<Rightarrow> mapped \<Rightarrow> mapped" where
  "server_default d c = c\<lparr>mc_server_default := d\<rparr>"

text \<open>The entries of \<open>__table_args__\<close>; an unnamed constraint is named by the convention.\<close>

datatype table_arg =
    IndexArg str "str list" bool "str option"
  | UniqueConstraintArg "str list" "str option"

section \<open>Names\<close>

definition ix_name :: "str \<Rightarrow> str \<Rightarrow> str" where
  "ix_name t c = ''ix_'' @ t @ ''_'' @ c"

definition uq_name :: "str \<Rightarrow> str \<Rightarrow> str" where
  "uq_name t c = ''uq_'' @ t @ ''_'' @ c"

definition fk_name :: "str \<Rightarrow> str \<Rightarrow> str \<Rightarrow> str" where
  "fk_name t c r = ''fk_'' @ t @ ''_'' @ c @ ''_'' @ r"

definition pk_name :: "str \<Rightarrow> str" where
  "pk_name t = ''pk_'' @ t"

section \<open>From declarations to tables\<close>

text \<open>
  \<open>unique=True\<close> alone is a unique constraint; together with \<open>index=True\<close> it is one unique index.
\<close>

definition declared_column :: "mapped \<Rightarrow> str \<times> column" where
  "declared_column c = Column (mc_name c) (mc_type c) (mc_nullable c) (mc_server_default c)"

definition declared_constraints :: "str \<Rightarrow> mapped list \<Rightarrow> table_arg list \<Rightarrow> (str \<times> constraint) list" where
  "declared_constraints t cols args =
     (pk_name t, PrimaryKey (map mc_name (filter mc_primary_key cols)))
     # concat (map (\<lambda>c. case mc_foreign_key c of
         None \<Rightarrow> []
       | Some (r, rc, on) \<Rightarrow> [(fk_name t (mc_name c) r, ForeignKey [mc_name c] r [rc] on)]) cols)
     @ map (\<lambda>c. (uq_name t (mc_name c), Unique [mc_name c])) (filter (\<lambda>c. mc_unique c \<and> \<not> mc_index c) cols)
     @ concat (map (\<lambda>a. case a of
         UniqueConstraintArg cs name \<Rightarrow> [(case name of Some n \<Rightarrow> n | None \<Rightarrow> uq_name t (hd cs), Unique cs)]
       | IndexArg _ _ _ _ \<Rightarrow> []) args)"

definition declared_indexes :: "str \<Rightarrow> mapped list \<Rightarrow> table_arg list \<Rightarrow> (str \<times> index) list" where
  "declared_indexes t cols args =
     map (\<lambda>c. (ix_name t (mc_name c), \<lparr>ix_columns = [mc_name c], ix_unique = mc_unique c, ix_where = None\<rparr>))
       (filter mc_index cols)
     @ concat (map (\<lambda>a. case a of
         IndexArg name cs uniq cond \<Rightarrow> [(name, \<lparr>ix_columns = cs, ix_unique = uniq, ix_where = cond\<rparr>)]
       | UniqueConstraintArg _ _ \<Rightarrow> []) args)"

definition declared_table :: "str \<Rightarrow> mapped list \<Rightarrow> table_arg list \<Rightarrow> str \<times> tbl" where
  "declared_table t cols args =
     (t, (new_tbl (map declared_column cols) (declared_constraints t cols args))
           \<lparr>tbl_indexes := declared_indexes t cols args\<rparr>)"

section \<open>Mixins\<close>

definition SoftDeleteMixin :: "mapped list" where
  "SoftDeleteMixin = [optional (mapped_column ''deleted_at'' DateTime_tz)]"

definition CreatedAtMixin :: "mapped list" where
  "CreatedAtMixin = [server_default (Expr ''now()'') (mapped_column ''created_at'' DateTime_tz)]"

definition TimestampMixin :: "mapped list" where
  "TimestampMixin = CreatedAtMixin @ [server_default (Expr ''now()'') (mapped_column ''updated_at'' DateTime_tz)]"

definition VersionMixin :: "mapped list" where
  "VersionMixin = [server_default (Expr ''1'') (mapped_column ''version'' Integer_t)]"

section \<open>The models\<close>

definition id_column :: mapped where
  "id_column = primary_key (mapped_column ''id'' Integer_t)"

definition orm_attachments :: "str \<times> tbl" where
  "orm_attachments = declared_table ''attachments''
     ([id_column,
       unique (mapped_column ''key'' (String_t 64)),
       mapped_column ''filename'' (String_t 255),
       mapped_column ''content_type'' (String_t 100),
       mapped_column ''size_bytes'' Integer_t,
       indexed (cascading ''items'' (mapped_column ''item_id'' Integer_t))] @ TimestampMixin) []"

definition orm_audit_logs :: "str \<times> tbl" where
  "orm_audit_logs = declared_table ''audit_logs''
     [primary_key (mapped_column ''id'' BigInteger_t),
      indexed (server_default (Expr ''now()'') (mapped_column ''occurred_at'' DateTime_tz)),
      indexed (optional (mapped_column ''request_id'' (String_t 64))),
      optional (mapped_column ''actor_id'' Integer_t),
      optional (mapped_column ''impersonator_id'' Integer_t),
      mapped_column ''source'' (String_t 16),
      optional (mapped_column ''method'' (String_t 10)),
      optional (mapped_column ''path'' (String_t 512)),
      optional (mapped_column ''client_ip'' (String_t 45)),
      mapped_column ''table_name'' (String_t 63),
      mapped_column ''action'' (String_t 20),
      optional (mapped_column ''row_pk'' (String_t 128)),
      mapped_column ''changes'' JSONB_t,
      server_default (Literal ''false'') (mapped_column ''truncated'' Boolean_t)]
     [IndexArg ''ix_audit_logs_table_name_row_pk'' [''table_name'', ''row_pk''] False None,
      IndexArg ''ix_audit_logs_actor_id_occurred_at'' [''actor_id'', ''occurred_at''] False None]"

definition orm_idempotency_keys :: "str \<times> tbl" where
  "orm_idempotency_keys = declared_table ''idempotency_keys''
     ([id_column,
       mapped_column ''key'' (String_t 255),
       indexed (mapped_column ''user_id'' Integer_t),
       mapped_column ''method'' (String_t 10),
       mapped_column ''path'' (String_t 255),
       mapped_column ''request_hash'' (String_t 64),
       optional (mapped_column ''status_code'' Integer_t),
       optional (mapped_column ''response_body'' Text_t),
       optional (mapped_column ''content_type'' (String_t 100)),
       optional (mapped_column ''completed_at'' DateTime_tz)] @ CreatedAtMixin)
     [UniqueConstraintArg [''user_id'', ''key''] (Some ''uq_idempotency_keys_user_id_key''),
      IndexArg ''ix_idempotency_keys_created_at'' [''created_at''] False None]"

definition orm_items :: "str \<times> tbl" where
  "orm_items = declared_table ''items''
     ([id_column,
       mapped_column ''title'' (String_t 255),
       optional (mapped_column ''description'' Text_t),
       cascading ''users'' (mapped_column ''owner_id'' Integer_t)]
       @ TimestampMixin @ SoftDeleteMixin @ VersionMixin)
     [IndexArg ''ix_items_owner_id_deleted_at'' [''owner_id'', ''deleted_at''] False None]"

definition orm_refresh_tokens :: "str \<times> tbl" where
  "orm_refresh_tokens = declared_table ''refresh_tokens''
     ([id_column,
       unique (mapped_column ''token_hash'' (String_t 64)),
       indexed (cascading ''users'' (mapped_column ''user_id'' Integer_t)),
       mapped_column ''expires_at'' DateTime_tz,
       optional (mapped_column ''revoked_at'' DateTime_tz)] @ CreatedAtMixin) []"

definition orm_request_logs :: "str \<times> tbl" where
  "orm_request_logs = declared_table ''request_logs''
     ([primary_key (mapped_column ''id'' BigInteger_t),
       indexed (mapped_column ''request_id'' (String_t 64)),
       mapped_column ''method'' (String_t 10),
       mapped_column ''path'' (String_t 512),
       mapped_column ''status_code'' Integer_t,
       mapped_column ''duration_ms'' Float_t,
       optional (mapped_column ''client_ip'' (String_t 45)),
       optional (mapped_column ''user_id'' Integer_t)] @ CreatedAtMixin)
     [IndexArg ''ix_request_logs_user_id_created_at'' [''user_id'', ''created_at''] False None,
      IndexArg ''ix_request_logs_created_at'' [''created_at''] False None]"

definition orm_user_roles :: "str \<times> tbl" where
  "orm_user_roles = declared_table ''user_roles''
     [primary_key (cascading ''users'' (mapped_column ''user_id'' Integer_t)),
      primary_key (cascading ''roles'' (mapped_column ''role_id'' Integer_t))] []"

definition orm_permissions :: "str \<times> tbl" where
  "orm_permissions = declared_table ''permissions''
     [id_column, mapped_column ''resource'' (String_t 50), mapped_column ''action'' (String_t 50)]
     [UniqueConstraintArg [''resource'', ''action''] None]"

definition orm_roles :: "str \<times> tbl" where
  "orm_roles = declared_table ''roles''
     ([id_column, unique (mapped_column ''name'' (String_t 50)),
       optional (mapped_column ''features'' (String_t 200))] @ TimestampMixin) []"

definition orm_role_permissions :: "str \<times> tbl" where
  "orm_role_permissions = declared_table ''role_permissions''
     [primary_key (cascading ''roles'' (mapped_column ''role_id'' Integer_t)),
      primary_key (cascading ''permissions'' (mapped_column ''permission_id'' Integer_t)),
      mapped_column ''scope'' (String_t 10)] []"

definition orm_single_use_tokens :: "str \<times> tbl" where
  "orm_single_use_tokens = declared_table ''single_use_tokens''
     ([id_column,
       unique (mapped_column ''token_hash'' (String_t 64)),
       indexed (cascading ''users'' (mapped_column ''user_id'' Integer_t)),
       mapped_column ''purpose'' (String_t 30),
       mapped_column ''expires_at'' DateTime_tz,
       optional (mapped_column ''used_at'' DateTime_tz)] @ CreatedAtMixin) []"

definition orm_users :: "str \<times> tbl" where
  "orm_users = declared_table ''users''
     ([id_column,
       mapped_column ''email'' (String_t 255),
       optional (mapped_column ''name'' (String_t 120)),
       mapped_column ''hashed_password'' (String_t 255),
       optional (mapped_column ''email_verified_at'' DateTime_tz),
       optional (mapped_column ''password_changed_at'' DateTime_tz)] @ TimestampMixin @ SoftDeleteMixin)
     [IndexArg ''uq_users_email_active'' [''email''] True (Some ''deleted_at IS NULL'')]"

definition orm_user_preferences :: "str \<times> tbl" where
  "orm_user_preferences = declared_table ''user_preferences''
     ([id_column,
       indexed (unique (cascading ''users'' (mapped_column ''user_id'' Integer_t))),
       server_default (Literal ''en-US'') (mapped_column ''locale'' (String_t 10)),
       server_default (Literal ''system'') (mapped_column ''theme'' (String_t 10)),
       server_default (Literal ''UTC'') (mapped_column ''timezone'' (String_t 64)),
       server_default (Literal ''true'') (mapped_column ''show_request_id'' Boolean_t),
       optional (mapped_column ''features'' (String_t 200))] @ TimestampMixin) []"

definition metadata :: schema where
  "metadata = [orm_attachments, orm_audit_logs, orm_idempotency_keys, orm_items, orm_refresh_tokens,
     orm_request_logs, orm_user_roles, orm_permissions, orm_roles, orm_role_permissions,
     orm_single_use_tokens, orm_users, orm_user_preferences]"

end
