(* ===== verification/HeadSchema.thy ===== *)
theory HeadSchema
  imports RoleMigration Metadata "HOL-Library.Multiset"
begin

text \<open>
  The whole chain of revisions: what an empty database has after \<open>alembic upgrade head\<close>, compared with
  what the models declare (\<open>Metadata\<close>) and with what \<open>seed_roles\<close> writes, and that every step can be
  taken back.
\<close>

section \<open>The head of the chain\<close>

definition late_revisions :: "revision list" where
  "late_revisions = [revision_b7d3e91af204, revision_f5c8021ea6b1, revision_a2e64cb7d130, revision_9683fb4021be,
     revision_c81a4f7b2d55, revision_d94b6e0f3a17, revision_e37c5a91b204, revision_e476f80fd304,
     revision_29c672d5fb69, revision_5edda92271a7, revision_4e9943672be8, revision_2cafcc5bd6db,
     revision_d43209d5e476, revision_a5f508821053]"

lemma history_parts: "history = legacy_revisions @ role_revisions @ late_revisions"
  by (simp add: history_eq legacy_revisions_def late_revisions_def)

definition role_head :: "dbms \<Rightarrow> schema" where
  "role_head env = link_schema [] [] 1 (legacy_rest (\<lambda>_. []) (\<lambda>_. 1) @ role_tables (renamed_roles env))"

text \<open>What a schema's rows grant: role name, resource, action, scope.\<close>

definition granted_in :: "schema \<Rightarrow> (sql_value \<times> sql_value \<times> sql_value \<times> sql_value) list" where
  "granted_in S = concat (map (\<lambda>g. concat (map (\<lambda>r. map (\<lambda>p.
       (get r ''name'', get p ''resource'', get p ''action'', get g ''scope''))
       (filter (\<lambda>p. get p ''id'' = get g ''permission_id'') (rows_of ''permissions'' S)))
       (filter (\<lambda>r. get r ''id'' = get g ''role_id'') (rows_of ''roles'' S)))) (rows_of ''role_permissions'' S))"

definition seeded_grants :: "(sql_value \<times> sql_value \<times> sql_value \<times> sql_value) list" where
  "seeded_grants = concat (map (\<lambda>r. map (\<lambda>g. (VStr (role_name r), VStr (perm_resource (grant_permission g)),
       VStr (perm_action (grant_permission g)), VStr (scope_value (grant_scope g)))) (role_grants r))
     (t_roles (seed_roles empty_db)))"


text \<open>Every upgrade of a path can be taken back: its downgrade succeeds and restores the schema.\<close>

fun reversible :: "dbms \<Rightarrow> revision list \<Rightarrow> schema \<Rightarrow> bool" where
  "reversible env [] S = True"
| "reversible env (v # vs) S =
     (case run_ops env (rev_upgrade v) S of
        Inl e \<Rightarrow> False
      | Inr T \<Rightarrow> (case run_ops env (rev_downgrade v) T of Inl e \<Rightarrow> False | Inr U \<Rightarrow> same_schema U S)
                 \<and> reversible env vs T)"

lemma reversible_append:
  "upgrade_through env vs S = Inr T \<Longrightarrow> reversible env vs S \<Longrightarrow> reversible env ws T \<Longrightarrow> reversible env (vs @ ws) S"
  by (induction vs arbitrary: S) (auto simp: rbind_eq_Inr split: sum.splits)

lemma reversible_nth:
  assumes "reversible env vs S" and "i < length vs"
  shows "\<exists>T U V. upgrade_through env (take i vs) S = Inr T \<and> run_ops env (rev_upgrade (vs ! i)) T = Inr U
     \<and> run_ops env (rev_downgrade (vs ! i)) U = Inr V \<and> same_schema V T"
  using assms
proof (induction vs arbitrary: S i)
  case (Cons v vs)
  then obtain T where T: "run_ops env (rev_upgrade v) S = Inr T" "reversible env vs T"
    by (auto split: sum.splits)
  show ?case
  proof (cases i)
    case 0
    then show ?thesis
      using Cons.prems(1) T by (auto split: sum.splits)
  next
    case (Suc j)
    then show ?thesis
      using Cons.IH [OF T(2), of j] Cons.prems(2) T(1) by simp
  qed
qed simp


section \<open>Evaluation along the chain\<close>

lemma upgrade_through_append:
  "upgrade_through env (vs @ ws) S = rbind (upgrade_through env vs S) (upgrade_through env ws)"
  by (induction vs arbitrary: S) (auto simp: rbind_def split: sum.splits)

lemma empty_consistent: "consistent (legacy_schema (\<lambda>_. []) (\<lambda>_. 1))"
  by code_simp

lemma role_upgrade:
  "upgrade_through env role_revisions (legacy_schema (\<lambda>_. []) (\<lambda>_. 1)) = Inr (role_head env)"
  using legacy_upgrade_links [OF empty_consistent, of env] by (simp add: role_head_def)

lemma late_upgrade:
  "case upgrade_through env late_revisions (role_head env) of
     Inl e \<Rightarrow> False
   | Inr S \<Rightarrow> same_schema S metadata \<and> set (granted_in S) = set seeded_grants"
  by code_simp

lemma legacy_reversible: "reversible env legacy_revisions []"
  by code_simp

lemma late_reversible_first: "reversible env (take 7 late_revisions) (role_head env)"
  by code_simp

lemma late_reversible_second:
  "case upgrade_through env (take 7 late_revisions) (role_head env) of
     Inl e \<Rightarrow> False | Inr S \<Rightarrow> reversible env (drop 7 late_revisions) S"
  by code_simp

lemma late_reversible: "reversible env late_revisions (role_head env)"
proof -
  obtain S where "upgrade_through env (take 7 late_revisions) (role_head env) = Inr S"
    and "reversible env (drop 7 late_revisions) S"
    using late_reversible_second [of env] by (auto split: sum.splits)
  from reversible_append [OF this(1) late_reversible_first this(2)] show ?thesis
    by simp
qed

text \<open>The three role revisions, each from the state the one before it leaves.\<close>

lemma role_down_first:
  "case run_ops env downgrade_d1c7a4f2b8e3
      (role_id_schema [] 1 (legacy_rest (\<lambda>_. []) (\<lambda>_. 1) @ role_tables (first_roles env))) of
     Inl e \<Rightarrow> False | Inr U \<Rightarrow> same_schema U (legacy_schema (\<lambda>_. []) (\<lambda>_. 1))"
  by code_simp

lemma role_down_second:
  "case run_ops env downgrade_e2f8b1c4d906
      (role_id_schema [] 1 (legacy_rest (\<lambda>_. []) (\<lambda>_. 1) @ role_tables (renamed_roles env))) of
     Inl e \<Rightarrow> False
   | Inr U \<Rightarrow> same_schema U (role_id_schema [] 1 (legacy_rest (\<lambda>_. []) (\<lambda>_. 1) @ role_tables (first_roles env)))"
  by code_simp

lemma role_down_third:
  "case run_ops env downgrade_c4a17d59f8b2 (role_head env) of
     Inl e \<Rightarrow> False
   | Inr U \<Rightarrow> same_schema U (role_id_schema [] 1 (legacy_rest (\<lambda>_. []) (\<lambda>_. 1) @ role_tables (renamed_roles env)))"
  by code_simp

lemma role_reversible: "reversible env role_revisions (legacy_schema (\<lambda>_. []) (\<lambda>_. 1))"
proof -
  have first: "run_ops env upgrade_d1c7a4f2b8e3 (legacy_schema (\<lambda>_. []) (\<lambda>_. 1)) =
      Inr (role_id_schema [] 1 (legacy_rest (\<lambda>_. []) (\<lambda>_. 1) @ role_tables (first_roles env)))"
    using legacy_upgrade_roles [OF empty_consistent, of env] by simp
  have third: "run_ops env upgrade_c4a17d59f8b2
      (role_id_schema [] 1 (legacy_rest (\<lambda>_. []) (\<lambda>_. 1) @ role_tables (renamed_roles env))) = Inr (role_head env)"
    using accounts_by_links [of "[]" env 1 "\<lambda>_. []" "\<lambda>_. 1"]
    by (simp add: role_head_def users_ok_def unique_on_def index_ok_def)
  show ?thesis
    using role_down_first [of env] role_down_second [of env] role_down_third [of env]
    by (simp add: revision_defs first rename_through third)
qed

section \<open>Properties\<close>

text \<open>
  C7. Upgrading an empty database through the chain of revisions runs every script of the directory,
  succeeds, and leaves exactly the schema that the models declare (tables, columns with their types,
  nullability and defaults, keys, foreign keys, indexes and the type of every identifier sequence), with
  the roles holding exactly the grants that \<open>seed_roles\<close> writes from \<open>BASE_ROLES\<close>.
\<close>

theorem head_matches_models_and_seed:
  "mset (map rev_id history) = mset (map rev_id versions)
   \<and> (\<exists>S. upgrade_through env history [] = Inr S \<and> same_schema S metadata
        \<and> set (granted_in S) = set seeded_grants)"
proof -
  have "mset (map rev_id history) = mset (map rev_id versions)"
    by (simp add: history_eq versions_def)
  moreover obtain S where "upgrade_through env late_revisions (role_head env) = Inr S" "same_schema S metadata"
    "set (granted_in S) = set seeded_grants"
    using late_upgrade [of env] by (auto split: sum.splits)
  moreover have "upgrade_through env history [] = upgrade_through env late_revisions (role_head env)"
    by (simp only: history_parts upgrade_through_append legacy_upgrade rbind_Inr role_upgrade)
  ultimately show ?thesis
    by auto
qed

text \<open>
  C27. Every revision can be taken back where it stands in the chain: from the schema that the revisions
  before it leave, its \<open>upgrade\<close> succeeds, its \<open>downgrade\<close> succeeds on the result, and the schema is
  then the one it started from.
\<close>

theorem every_revision_reversible:
  assumes "i < length history"
  shows "\<exists>S T U. upgrade_through env (take i history) [] = Inr S
    \<and> run_ops env (rev_upgrade (history ! i)) S = Inr T
    \<and> run_ops env (rev_downgrade (history ! i)) T = Inr U \<and> same_schema U S"
proof -
  have "reversible env (role_revisions @ late_revisions) (legacy_schema (\<lambda>_. []) (\<lambda>_. 1))"
    by (rule reversible_append [OF role_upgrade role_reversible late_reversible])
  from reversible_append [OF legacy_upgrade legacy_reversible this]
  show ?thesis
    using reversible_nth [of env history "[]" i] assms by (simp add: history_parts)
qed

theorem every_revision_reversible_witness:
  "24 < length history \<and> (\<exists>S T U. upgrade_through plain_dbms (take 24 history) [] = Inr S
    \<and> run_ops plain_dbms (rev_upgrade (history ! 24)) S = Inr T
    \<and> run_ops plain_dbms (rev_downgrade (history ! 24)) T = Inr U \<and> same_schema U S)"
proof -
  have "24 < length history"
    by (simp add: history_eq)
  then show ?thesis
    using every_revision_reversible [of 24 plain_dbms] by simp
qed

end
