(* ===== verification/Bootstrap.thy ===== *)
theory Bootstrap
  imports PyStr
begin

text \<open>
  \<open>scripts/bootstrap.py\<close>: turning a clone of the template into a project. The files below the root
  are a map from relative paths to their text; \<open>secrets.token_hex(32)\<close> is an argument.
\<close>

type_synonym files = "str \<Rightarrow> str option"

definition TEMPLATE_NAME :: str where
  "TEMPLATE_NAME = ''fastapi-template''"

definition SECRET_PLACEHOLDER :: str where
  "SECRET_PLACEHOLDER = ''change-me-in-production-to-a-random-32-byte-string''"

definition CHANGELOG_HEADER :: str where
  "CHANGELOG_HEADER =
     ''# Changelog'' @ [CHR 0x0A, CHR 0x0A]
     @ ''All notable changes to this project. Generated from Conventional Commits with'' @ [CHR 0x0A]
     @ ''[git-cliff](https://git-cliff.org).'' @ [CHR 0x0A]"

definition RENAMED_FILES :: "str list" where
  "RENAMED_FILES = [''pyproject.toml'', ''compose.yaml'', ''.env.example'', ''alembic.ini'']"

definition NEXT_STEPS :: str where
  "NEXT_STEPS = [CHR 0x0A] @ ''Done. What is left:'' @ [CHR 0x0A]
     @ ''  1. docker compose up -d db'' @ [CHR 0x0A]
     @ ''  2. uv sync'' @ [CHR 0x0A]
     @ ''  3. uv run alembic upgrade head'' @ [CHR 0x0A]
     @ ''  4. uv run fastapi dev app/main.py'' @ [CHR 0x0A]"

section \<open>Names\<close>

text \<open>
  \<open>NAME_PATTERN\<close>: \<open>^[a-z][a-z0-9-]{1,48}[a-z0-9]$\<close>. The \<open>$\<close> of Python's \<open>re\<close> also matches before a
  newline that ends the string.
\<close>

definition is_lower :: "char \<Rightarrow> bool" where
  "is_lower c \<longleftrightarrow> ''a'' ! 0 \<le> c \<and> c \<le> ''z'' ! 0"

definition name_body :: "str \<Rightarrow> bool" where
  "name_body s \<longleftrightarrow> 3 \<le> length s \<and> length s \<le> 50 \<and> is_lower (hd s)
     \<and> list_all (\<lambda>c. is_lower c \<or> is_digit c \<or> c = CHR ''-'') (tl s)
     \<and> last s \<noteq> CHR ''-''"

definition name_matches :: "str \<Rightarrow> bool" where
  "name_matches s \<longleftrightarrow> name_body s \<or> (s \<noteq> [] \<and> last s = CHR 0x0A \<and> name_body (butlast s))"

definition valid_name :: "str \<Rightarrow> str + str" where
  "valid_name name =
     (if \<not> name_matches name
      then Inl (''a project name is lowercase letters, digits and dashes, ''
                @ ''3 to 50 characters, starting with a letter'')
      else Inr name)"

section \<open>Rewriting text\<close>

text \<open>\<open>str.replace\<close>: occurrences from the left, not overlapping.\<close>

function replace :: "str \<Rightarrow> str \<Rightarrow> str \<Rightarrow> str" where
  "replace old new s =
     (if old = [] \<or> s = [] then s
      else if startswith old s then new @ replace old new (drop (length old) s)
      else hd s # replace old new (tl s))"
  by pat_completeness auto
termination
  by (relation "measure (\<lambda>(old, new, s). length s)") auto

declare replace.simps [simp del]

definition rename :: "str \<Rightarrow> str \<Rightarrow> str" where
  "rename content new_name = replace TEMPLATE_NAME new_name content"

definition with_generated_secret :: "str \<Rightarrow> str \<Rightarrow> str" where
  "with_generated_secret token content = replace SECRET_PLACEHOLDER token content"

section \<open>The steps\<close>

fun rename_files_in :: "str list \<Rightarrow> str \<Rightarrow> files \<Rightarrow> str list \<times> files" where
  "rename_files_in [] new_name root = ([], root)"
| "rename_files_in (name # names) new_name root =
     (case root name of
        None \<Rightarrow> rename_files_in names new_name root
      | Some original \<Rightarrow>
          (let renamed = rename original new_name in
           if renamed \<noteq> original
           then (let (touched, root') = rename_files_in names new_name (root(name \<mapsto> renamed))
                 in (name # touched, root'))
           else rename_files_in names new_name root))"

definition rename_files :: "files \<Rightarrow> str \<Rightarrow> str list \<times> files" where
  "rename_files root new_name = rename_files_in RENAMED_FILES new_name root"

definition write_env :: "str \<Rightarrow> files \<Rightarrow> str \<Rightarrow> bool \<times> files" where
  "write_env token root new_name =
     (case root ''.env.example'' of
        Some example \<Rightarrow>
          (if root ''.env'' \<noteq> None then (False, root)
           else (True, root(''.env'' \<mapsto> with_generated_secret token (rename example new_name))))
      | None \<Rightarrow> (False, root))"

definition reset_changelog :: "files \<Rightarrow> bool \<times> files" where
  "reset_changelog root =
     (if root ''CHANGELOG.md'' = None then (False, root)
      else (True, root(''CHANGELOG.md'' \<mapsto> CHANGELOG_HEADER)))"

definition bootstrap :: "str \<Rightarrow> files \<Rightarrow> str \<Rightarrow> str list \<times> files" where
  "bootstrap token root new_name =
     (let (touched, root1) = rename_files root new_name;
          messages = map (\<lambda>file. ''renamed '' @ file) touched;
          (wrote, root2) = write_env token root1 new_name;
          messages = messages @ [if wrote then ''wrote .env with a generated SECRET_KEY''
                                 else ''.env was left alone because it already exists''];
          (emptied, root3) = reset_changelog root2
      in (messages @ (if emptied then [''emptied CHANGELOG.md''] else []), root3))"

text \<open>
  \<open>main\<close>: the name is the argument or the directory's own, and both go through \<open>valid_name\<close>
  (\<open>argparse\<close> converts a string default too); a refused name exits with status 2 and touches nothing.
  The middle component is what is shown, line by line.
\<close>

definition main :: "str \<Rightarrow> str \<Rightarrow> str option \<Rightarrow> files \<Rightarrow> int \<times> str list \<times> files" where
  "main token root_name argument root =
     (case valid_name (case argument of Some name \<Rightarrow> name | None \<Rightarrow> root_name) of
        Inl message \<Rightarrow> (2, [message], root)
      | Inr name \<Rightarrow> (let (done, root') = bootstrap token root name in (0, done @ [NEXT_STEPS], root')))"

section \<open>Lemmas\<close>

lemma replace_Nil [simp]: "replace old new [] = []"
  by (simp add: replace.simps)

lemma startswith_append: "startswith old (old @ s)"
  by (simp add: startswith_def)

lemma replace_occurrence: "old \<noteq> [] \<Longrightarrow> replace old new (old @ s) = new @ replace old new s"
  by (subst replace.simps) (simp add: startswith_append)

lemma rename_files_in_files:
  "distinct names \<Longrightarrow>
     snd (rename_files_in names new_name root) =
       (\<lambda>p. if p \<in> set names then map_option (\<lambda>c. rename c new_name) (root p) else root p)"
proof (induction names arbitrary: root)
  case (Cons name names)
  then show ?case
    by (fastforce simp: Let_def split_beta fun_eq_iff split: option.splits)
qed auto

lemma rename_files_in_touched:
  "distinct names \<Longrightarrow>
     fst (rename_files_in names new_name root) =
       filter (\<lambda>p. \<exists>c. root p = Some c \<and> rename c new_name \<noteq> c) names"
proof (induction names arbitrary: root)
  case (Cons name names)
  have "filter (\<lambda>p. \<exists>c. (root(name \<mapsto> x)) p = Some c \<and> rename c new_name \<noteq> c) names =
      filter (\<lambda>p. \<exists>c. root p = Some c \<and> rename c new_name \<noteq> c) names" for x
    using Cons.prems by (auto intro!: filter_cong)
  then show ?case
    using Cons by (auto simp: Let_def split_beta split: option.splits)
qed simp

lemma renamed_files_distinct: "distinct RENAMED_FILES"
  by (simp add: RENAMED_FILES_def)

lemma replace_absent:
  assumes "\<And>a b. s \<noteq> a @ old @ b"
  shows "replace old new s = s"
  using assms
proof (induction s)
  case (Cons c s)
  have "\<not> startswith old (c # s)"
    using Cons.prems [of "[]" "drop (length old) (c # s)"]
    by (auto simp: startswith_def) (metis append_take_drop_id)
  moreover have "s \<noteq> a @ old @ b" for a b
    using Cons.prems [of "c # a" b] by auto
  ultimately show ?case
    using Cons.IH by (subst replace.simps) auto
qed simp

lemma bootstrap_files:
  "snd (bootstrap token root new_name) =
     snd (reset_changelog (snd (write_env token (snd (rename_files root new_name)) new_name)))"
  by (simp add: bootstrap_def split_beta Let_def)

section \<open>Properties\<close>

text \<open>The name pattern as its regular expression reads.\<close>

lemma char_classes:
  "is_lower c \<longleftrightarrow> c \<in> set ''abcdefghijklmnopqrstuvwxyz''" "is_digit c \<longleftrightarrow> c \<in> set ''0123456789''"
proof -
  have "list_all (\<lambda>c. is_lower c \<longleftrightarrow> c \<in> set ''abcdefghijklmnopqrstuvwxyz'') Enum.enum"
    "list_all (\<lambda>c. is_digit c \<longleftrightarrow> c \<in> set ''0123456789'') Enum.enum"
    by code_simp+
  then show "is_lower c \<longleftrightarrow> c \<in> set ''abcdefghijklmnopqrstuvwxyz''" "is_digit c \<longleftrightarrow> c \<in> set ''0123456789''"
    by (simp_all only: list_all_iff UNIV_enum [symmetric] UNIV_I Ball_def simp_thms)
qed

lemma name_body_iff:
  "name_body s \<longleftrightarrow> (\<exists>c mid e. s = c # mid @ [e] \<and> 1 \<le> length mid \<and> length mid \<le> 48 \<and> is_lower c \<and>
     (\<forall>x\<in>set mid. is_lower x \<or> is_digit x \<or> x = CHR ''-'') \<and> (is_lower e \<or> is_digit e))"
proof
  assume body: "name_body s"
  then obtain c t where s: "s = c # t" by (cases s) (auto simp: name_body_def)
  with body have "t \<noteq> []" by (auto simp: name_body_def)
  then obtain mid e where t: "t = mid @ [e]" by (metis append_butlast_last_id)
  show "\<exists>c mid e. s = c # mid @ [e] \<and> 1 \<le> length mid \<and> length mid \<le> 48 \<and> is_lower c \<and>
     (\<forall>x\<in>set mid. is_lower x \<or> is_digit x \<or> x = CHR ''-'') \<and> (is_lower e \<or> is_digit e)"
    using body by (intro exI [of _ c] exI [of _ mid] exI [of _ e]) (auto simp: s t name_body_def list_all_iff)
next
  have "\<not> is_lower (CHR ''-'')" "\<not> is_digit (CHR ''-'')"
    by code_simp+
  then show "\<exists>c mid e. s = c # mid @ [e] \<and> 1 \<le> length mid \<and> length mid \<le> 48 \<and> is_lower c \<and>
     (\<forall>x\<in>set mid. is_lower x \<or> is_digit x \<or> x = CHR ''-'') \<and> (is_lower e \<or> is_digit e) \<Longrightarrow> name_body s"
    by (auto simp: name_body_def list_all_iff)
qed

lemma name_matches_iff:
  "name_matches s \<longleftrightarrow> (\<exists>c mid e end. s = c # mid @ e # end \<and> 1 \<le> length mid \<and> length mid \<le> 48 \<and>
     c \<in> set ''abcdefghijklmnopqrstuvwxyz'' \<and> set mid \<subseteq> set ''abcdefghijklmnopqrstuvwxyz0123456789-'' \<and>
     e \<in> set ''abcdefghijklmnopqrstuvwxyz0123456789'' \<and> (end = [] \<or> end = [CHR 0x0A]))"
proof -
  have classes: "is_lower x \<or> is_digit x \<longleftrightarrow> x \<in> set ''abcdefghijklmnopqrstuvwxyz0123456789''"
    "is_lower x \<or> is_digit x \<or> x = CHR ''-'' \<longleftrightarrow> x \<in> set ''abcdefghijklmnopqrstuvwxyz0123456789-''" for x
    unfolding char_classes by auto
  have ended: "(s \<noteq> [] \<and> last s = CHR 0x0A \<and> name_body (butlast s)) \<longleftrightarrow> (\<exists>b. s = b @ [CHR 0x0A] \<and> name_body b)"
    by (metis append_butlast_last_id butlast_snoc last_snoc snoc_eq_iff_butlast)
  define fits where "fits = (\<lambda>c mid e. 1 \<le> length mid \<and> length mid \<le> 48 \<and> is_lower c \<and>
     (\<forall>x\<in>set mid. is_lower x \<or> is_digit x \<or> x = CHR ''-'') \<and> (is_lower e \<or> is_digit e))"
  have fits: "fits c mid e \<longleftrightarrow> 1 \<le> length mid \<and> length mid \<le> 48 \<and> c \<in> set ''abcdefghijklmnopqrstuvwxyz'' \<and>
     set mid \<subseteq> set ''abcdefghijklmnopqrstuvwxyz0123456789-'' \<and> e \<in> set ''abcdefghijklmnopqrstuvwxyz0123456789''" for c mid e
    unfolding fits_def classes unfolding char_classes(1) subset_iff Ball_def by (rule refl)
  have body: "name_body b \<longleftrightarrow> (\<exists>c mid e. b = c # mid @ [e] \<and> fits c mid e)" for b
    unfolding name_body_iff fits_def by (rule refl)
  have "name_matches s \<longleftrightarrow> (\<exists>c mid e end. s = c # mid @ e # end \<and> fits c mid e \<and> (end = [] \<or> end = [CHR 0x0A]))"
    unfolding name_matches_def ended unfolding body by auto blast+
  then show ?thesis
    by (simp only: fits conj_assoc)
qed

lemma bootstrap_result:
  assumes "bootstrap token root new_name = (messages, root')"
  shows "(\<forall>p\<in>set RENAMED_FILES. root' p = map_option (\<lambda>c. rename c new_name) (root p))
     \<and> root' ''.env'' = (case (root ''.env'', root ''.env.example'') of
          (Some env, _) \<Rightarrow> Some env
        | (None, Some example) \<Rightarrow> Some (with_generated_secret token (rename (rename example new_name) new_name))
        | (None, None) \<Rightarrow> None)
     \<and> root' ''CHANGELOG.md'' = map_option (\<lambda>_. CHANGELOG_HEADER) (root ''CHANGELOG.md'')
     \<and> (\<forall>p. p \<notin> set RENAMED_FILES \<and> p \<noteq> ''.env'' \<and> p \<noteq> ''CHANGELOG.md'' \<longrightarrow> root' p = root p)
     \<and> messages = map (\<lambda>file. ''renamed '' @ file) (filter (\<lambda>p. \<exists>c. root p = Some c \<and> rename c new_name \<noteq> c) RENAMED_FILES)
        @ [if root ''.env'' = None \<and> root ''.env.example'' \<noteq> None then ''wrote .env with a generated SECRET_KEY''
           else ''.env was left alone because it already exists'']
        @ (if root ''CHANGELOG.md'' = None then [] else [''emptied CHANGELOG.md''])"
proof -
  define root1 where "root1 = snd (rename_files root new_name)"
  have r1: "root1 p = (if p \<in> set RENAMED_FILES then map_option (\<lambda>c. rename c new_name) (root p) else root p)" for p
    by (simp add: root1_def rename_files_def rename_files_in_files [OF renamed_files_distinct])
  have names: "''.env'' \<notin> set RENAMED_FILES" "''CHANGELOG.md'' \<notin> set RENAMED_FILES" "''.env.example'' \<in> set RENAMED_FILES"
    by (simp_all add: RENAMED_FILES_def)
  have root': "root' = snd (reset_changelog (snd (write_env token root1 new_name)))"
    using assms bootstrap_files [of token root new_name] by (simp add: root1_def)
  have "messages =
      map (\<lambda>file. ''renamed '' @ file) (filter (\<lambda>p. \<exists>c. root p = Some c \<and> rename c new_name \<noteq> c) RENAMED_FILES)
      @ [if fst (write_env token root1 new_name) then ''wrote .env with a generated SECRET_KEY''
         else ''.env was left alone because it already exists'']
      @ (if fst (reset_changelog (snd (write_env token root1 new_name))) then [''emptied CHANGELOG.md''] else [])"
    using arg_cong [OF assms, of fst]
    by (simp add: bootstrap_def split_beta Let_def root1_def rename_files_def
        rename_files_in_touched [OF renamed_files_distinct])
  moreover have "fst (write_env token root1 new_name) \<longleftrightarrow> root ''.env'' = None \<and> root ''.env.example'' \<noteq> None"
    using r1 [of "''.env''"] r1 [of "''.env.example''"] names by (auto simp: write_env_def split: option.splits)
  moreover have "fst (reset_changelog (snd (write_env token root1 new_name))) \<longleftrightarrow> root ''CHANGELOG.md'' \<noteq> None"
    using r1 [of "''CHANGELOG.md''"] names by (auto simp: reset_changelog_def write_env_def split: option.splits)
  moreover have "root' p = map_option (\<lambda>c. rename c new_name) (root p)" if "p \<in> set RENAMED_FILES" for p
  proof -
    have "p \<noteq> ''.env''" "p \<noteq> ''CHANGELOG.md''"
      using that names by blast+
    then show ?thesis
      using r1 [of p] that by (auto simp: root' reset_changelog_def write_env_def split: option.splits)
  qed
  moreover have "root' ''.env'' = (case (root ''.env'', root ''.env.example'') of
          (Some env, _) \<Rightarrow> Some env
        | (None, Some example) \<Rightarrow> Some (with_generated_secret token (rename (rename example new_name) new_name))
        | (None, None) \<Rightarrow> None)"
    using r1 [of "''.env''"] r1 [of "''.env.example''"] names
    by (auto simp: root' reset_changelog_def write_env_def split: option.splits)
  moreover have "root' ''CHANGELOG.md'' = map_option (\<lambda>_. CHANGELOG_HEADER) (root ''CHANGELOG.md'')"
    using r1 [of "''CHANGELOG.md''"] names
    by (auto simp: root' reset_changelog_def write_env_def split: option.splits)
  moreover have "root' p = root p" if "p \<notin> set RENAMED_FILES" "p \<noteq> ''.env''" "p \<noteq> ''CHANGELOG.md''" for p
    using r1 [of p] that by (auto simp: root' reset_changelog_def write_env_def split: option.splits)
  ultimately show ?thesis
    by simp
qed

text \<open>
  C30. What running the bootstrap script does to the working tree. The name is the argument, or the name
  of the directory. It is accepted exactly when it is a lower-case letter, 1 to 48
  lower-case letters, digits and dashes, and a lower-case letter or digit, possibly followed by one newline; a refused name ends
  the script with status 2 and changes no file. With an accepted name the script ends with status 0:
  the four template files that exist have the template's name replaced; a \<open>.env\<close> that exists keeps its
  text, and otherwise, when there is an \<open>.env.example\<close>, it is that file's text renamed twice with the
  placeholder replaced by the fresh secret; an existing changelog is reset to its header; every other
  path is untouched. It reports exactly the template files whose text changed, whether it wrote \<open>.env\<close> (when it did
  not, always as if that file existed) and whether it emptied the changelog.
\<close>

theorem bootstrap_outcome:
  assumes "main token root_name argument root = (status, shown, root')"
    and "name = (case argument of Some n \<Rightarrow> n | None \<Rightarrow> root_name)"
  shows "if \<exists>c mid e end. name = c # mid @ e # end \<and> 1 \<le> length mid \<and> length mid \<le> 48 \<and>
      c \<in> set ''abcdefghijklmnopqrstuvwxyz'' \<and> set mid \<subseteq> set ''abcdefghijklmnopqrstuvwxyz0123456789-'' \<and>
      e \<in> set ''abcdefghijklmnopqrstuvwxyz0123456789'' \<and> (end = [] \<or> end = [CHR 0x0A])
    then status = 0
     \<and> (\<forall>p\<in>set RENAMED_FILES. root' p = map_option (\<lambda>c. rename c name) (root p))
     \<and> root' ''.env'' = (case (root ''.env'', root ''.env.example'') of
          (Some env, _) \<Rightarrow> Some env
        | (None, Some example) \<Rightarrow> Some (with_generated_secret token (rename (rename example name) name))
        | (None, None) \<Rightarrow> None)
     \<and> root' ''CHANGELOG.md'' = map_option (\<lambda>_. CHANGELOG_HEADER) (root ''CHANGELOG.md'')
     \<and> (\<forall>p. p \<notin> set RENAMED_FILES \<and> p \<noteq> ''.env'' \<and> p \<noteq> ''CHANGELOG.md'' \<longrightarrow> root' p = root p)
     \<and> shown = map (\<lambda>file. ''renamed '' @ file) (filter (\<lambda>p. \<exists>c. root p = Some c \<and> rename c name \<noteq> c) RENAMED_FILES)
        @ [if root ''.env'' = None \<and> root ''.env.example'' \<noteq> None then ''wrote .env with a generated SECRET_KEY''
           else ''.env was left alone because it already exists'']
        @ (if root ''CHANGELOG.md'' = None then [] else [''emptied CHANGELOG.md'']) @ [NEXT_STEPS]
    else status = 2 \<and> root' = root"
proof (cases "name_matches name")
  case True
  obtain messages root1 where run: "bootstrap token root name = (messages, root1)" by fastforce
  have "status = 0" "shown = messages @ [NEXT_STEPS]" "root' = root1"
    using assms(1) True run unfolding assms(2) by (simp_all add: main_def valid_name_def)
  then show ?thesis
    using bootstrap_result [OF run] True unfolding name_matches_iff by simp
next
  case False
  then have "status = 2" "root' = root"
    using assms(1) unfolding assms(2) by (simp_all add: main_def valid_name_def)
  then show ?thesis
    using False unfolding name_matches_iff by (simp only: if_False simp_thms)
qed

definition sample_root :: files where
  "sample_root = [''pyproject.toml'' \<mapsto> ''name=fastapi-template'', ''README.md'' \<mapsto> ''hello'',
     ''.env'' \<mapsto> ''KEY=mine'']"

theorem bootstrap_outcome_witness:
  "(\<exists>shown root'. main ''5ec'' ''clone'' (Some ''shop'') sample_root = (0, shown, root')
     \<and> root' ''pyproject.toml'' = Some ''name=shop'' \<and> ''renamed pyproject.toml'' \<in> set shown
     \<and> root' ''.env'' = Some ''KEY=mine'' \<and> root' ''README.md'' = Some ''hello'')
   \<and> (\<exists>shown. main ''5ec'' ''My Clone'' None sample_root = (2, shown, sample_root))"
proof -
  have new: "rename ''name=fastapi-template'' ''shop'' = ''name=shop''"
    by code_simp
  have good: "\<exists>c mid e end. ''shop'' = c # mid @ e # end \<and> 1 \<le> length mid \<and> length mid \<le> 48 \<and>
      c \<in> set ''abcdefghijklmnopqrstuvwxyz'' \<and> set mid \<subseteq> set ''abcdefghijklmnopqrstuvwxyz0123456789-'' \<and>
      e \<in> set ''abcdefghijklmnopqrstuvwxyz0123456789'' \<and> (end = [] \<or> end = [CHR 0x0A])"
    by (intro exI [of _ "CHR ''s''"] exI [of _ "''ho''"] exI [of _ "CHR ''p''"] exI [of _ "[]"]) simp
  have bad: "\<not> (\<exists>c mid e end. ''My Clone'' = c # mid @ e # end \<and> 1 \<le> length mid \<and> length mid \<le> 48 \<and>
      c \<in> set ''abcdefghijklmnopqrstuvwxyz'' \<and> set mid \<subseteq> set ''abcdefghijklmnopqrstuvwxyz0123456789-'' \<and>
      e \<in> set ''abcdefghijklmnopqrstuvwxyz0123456789'' \<and> (end = [] \<or> end = [CHR 0x0A]))"
    by auto
  obtain status shown root' where run: "main ''5ec'' ''clone'' (Some ''shop'') sample_root = (status, shown, root')"
    by (metis prod.exhaust)
  obtain status2 shown2 root2 where other: "main ''5ec'' ''My Clone'' None sample_root = (status2, shown2, root2)"
    by (metis prod.exhaust)
  have toml: "''pyproject.toml'' \<in> set RENAMED_FILES" and readme: "''README.md'' \<notin> set RENAMED_FILES"
    by (simp_all add: RENAMED_FILES_def)
  note outcome = bootstrap_outcome [OF run refl, simplified option.case, unfolded if_P [OF good]]
  have "status = 0" "root' ''pyproject.toml'' = Some ''name=shop''" "''renamed pyproject.toml'' \<in> set shown"
    using outcome toml new by (auto simp: sample_root_def)
  moreover have "root' ''.env'' = Some ''KEY=mine''" "root' ''README.md'' = Some ''hello''"
    using outcome readme by (auto simp: sample_root_def)
  moreover have "status2 = 2" "root2 = sample_root"
    using bootstrap_outcome [OF other refl, simplified option.case, unfolded if_not_P [OF bad]] by simp_all
  ultimately show ?thesis
    using run other by blast
qed

text \<open>
  A name that contains the template's own name is renamed twice on its way into \<open>.env\<close>: the example
  has already been rewritten when it is read and rewritten again.
\<close>

theorem env_renamed_twice:
  "valid_name ''my-fastapi-template'' = Inr ''my-fastapi-template''
   \<and> snd (bootstrap token [''.env.example'' \<mapsto> ''DB=fastapi-template''] ''my-fastapi-template'') ''.env.example''
       = Some ''DB=my-fastapi-template''
   \<and> snd (bootstrap token [''.env.example'' \<mapsto> ''DB=fastapi-template''] ''my-fastapi-template'') ''.env''
       = Some ''DB=my-my-fastapi-template''"
  by code_simp

end
