(* ===== verification/ApiInvariant.thy ===== *)
theory ApiInvariant
  imports Routes Jobs Attachments
begin

text \<open>
  The type invariant of the database, over everything the program does to it: every protected and
  public route, the background task of a password reset, attachments, and the scheduled jobs. One
  preservation lemma per operation, combined over the step relation \<open>serves\<close>.
\<close>

section \<open>Steps\<close>

text \<open>\<open>forgot_password\<close>: the answer is the same for every address; the background task does the work.\<close>

definition forgot_password :: "draw \<Rightarrow> str \<Rightarrow> database \<Rightarrow> database result" where
  "forgot_password w email d =
     mailed w (reset_request (dw_ext w) (dw_settings w) (dw_token w) email (dw_now w) d)"

text \<open>The public routes of \<open>auth.py\<close> and \<open>users.py\<close>, with the background task that \<open>forgot_password\<close> leaves.\<close>

datatype public_request =
    Register UserCreate
  | Login str str
  | Refresh str
  | Logout str
  | ForgotPassword str
  | ResetPasswordWith str str
  | VerifyEmailWith str

primrec run_public :: "draw \<Rightarrow> public_request \<Rightarrow> database \<Rightarrow> database result" where
  "run_public w (Register data) d = map_sum id snd (register_user w data d)"
| "run_public w (Login username password) d = map_sum id snd (login_route w username password d)"
| "run_public w (Refresh token) d = map_sum id snd (refresh_route w token d)"
| "run_public w (Logout token) d = Inr (logout_route w token d)"
| "run_public w (ForgotPassword email) d = forgot_password w email d"
| "run_public w (ResetPasswordWith token pw) d = reset_password w token pw d"
| "run_public w (VerifyEmailWith token) d = verify_email w token d"

text \<open>
  A committed piece of work: a transaction begins at some time, a request or task succeeds, a job
  runs. What fails is rolled back and is no step.
\<close>

inductive serves :: "database \<Rightarrow> database \<Rightarrow> bool" where
  begins: "serves d (d\<lparr>tx_now := t\<rparr>)"
| protected: "protected_call w token cx c d = Inr (reply, d') \<Longrightarrow> serves d d'"
| public: "run_public w r d = Inr d' \<Longrightarrow> serves d d'"
| attaches: "att_serve fl s commit_ok r (d, b) = (d', b') \<Longrightarrow> serves d d'"
| works: "job \<in> set (maintenance_jobs s) \<Longrightarrow> job_work job clock d = Some (n, d') \<Longrightarrow> serves d d'"

section \<open>Frames\<close>

lemma wf_app_iff:
  "wf_app d \<longleftrightarrow> wf_accounts d \<and> wf_refresh_tokens d \<and> wf_single_use_tokens d \<and> wf_items d \<and> wf_preferences d"
  by (auto simp: wf_app_def wf_tokens_def wf_sessions_def)

lemmas wf_table_defs = wf_refresh_tokens_def wf_single_use_tokens_def wf_items_def wf_preferences_def

text \<open>A write to accounts and roles that keeps the identifiers of the accounts.\<close>

lemma wf_app_frame:
  assumes "wf_app d" "wf_accounts d'" "user_id ` set (t_users d) \<subseteq> user_id ` set (t_users d')"
    and "t_items d' = t_items d" "t_refresh_tokens d' = t_refresh_tokens d"
    and "t_single_use_tokens d' = t_single_use_tokens d" "t_preferences d' = t_preferences d"
    and "seqs d' TItems = seqs d TItems" "seqs d' TRefreshTokens = seqs d TRefreshTokens"
    and "seqs d' TSingleUseTokens = seqs d TSingleUseTokens" "seqs d' TPreferences = seqs d TPreferences"
  shows "wf_app d'"
proof -
  have "wf_refresh_tokens d'" "wf_single_use_tokens d'"
    using assms by (auto simp: wf_app_iff wf_refresh_tokens_def wf_single_use_tokens_def subset_iff)
  moreover have "wf_items d'" "wf_preferences d'"
    using assms by (auto simp: wf_app_iff wf_items_def wf_preferences_def subset_iff)
  ultimately show ?thesis
    using assms(2) by (simp add: wf_app_iff)
qed

text \<open>What the invariant reads, and the work that does not touch it.\<close>

definition core where
  "core d = ((t_users d, t_user_roles d, t_roles d), (t_items d, t_refresh_tokens d, t_single_use_tokens d, t_preferences d),
     map (seqs d) [TUsers, TRoles, TItems, TRefreshTokens, TSingleUseTokens, TPreferences])"

lemma wf_app_core: "core d' = core d \<Longrightarrow> wf_app d \<Longrightarrow> wf_app d'"
proof (rule wf_app_frame [of d])
  assume "core d' = core d" and "wf_app d"
  then show "wf_accounts d'"
    using wf_accounts_same_tables [of d d'] by (simp add: core_def wf_app_iff)
qed (simp_all add: core_def)

lemma core_frame [simp]:
  "core (audit_create e d) = core d" "core (d\<lparr>tx_now := t\<rparr>) = core d" "core (d\<lparr>t_request_logs := rl\<rparr>) = core d"
  "core (d\<lparr>t_audit_logs := al\<rparr>) = core d" "core (d\<lparr>t_idempotency_keys := ik\<rparr>) = core d"
  "core (d\<lparr>t_attachments := at\<rparr>) = core d" "core (bump TAttachments d) = core d"
  by (simp_all add: core_def audit_create_def)

section \<open>Accounts\<close>

lemma user_save_app:
  assumes "wf_app d" "user_save v d = Inr (w, d')" "set (user_roles v) \<subseteq> set (t_roles d)"
  shows "wf_app d'"
proof (rule wf_app_frame [OF assms(1)])
  show "wf_accounts d'"
    using user_save_wf assms by (auto simp: wf_app_iff)
  show "user_id ` set (t_users d) \<subseteq> user_id ` set (t_users d')"
    using user_save_frame [OF assms(2)] by (metis list.set_map subset_refl)
qed (use user_save_frame [OF assms(2)] in simp_all)

lemma loaded_roles: "wf_app d \<Longrightarrow> user_get i d = Some u \<Longrightarrow> set (user_roles u) \<subseteq> set (t_roles d)"
  using users.get_found [of d i u] by (simp add: wf_app_iff assignable_def)

lemma new_account_app:
  assumes "wf_app d" "role_get_by_name n d = Some role" "user_create (new_user e nm h v [role]) d = Inr (u, d')"
  shows "wf_app d'"
proof -
  have "set [role] \<subseteq> set (t_roles d)"
    using role_get_by_name_SomeD [OF assms(2)] by simp
  then have wf: "wf_accounts d'"
    using user_create_wf [OF wf_appD(1) [OF assms(1)] assms(3)] by simp
  have frame: "user_id ` set (t_users d) \<subseteq> user_id ` set (t_users d') \<and> seqs d' TItems = seqs d TItems
      \<and> seqs d' TRefreshTokens = seqs d TRefreshTokens \<and> seqs d' TSingleUseTokens = seqs d TSingleUseTokens
      \<and> seqs d' TPreferences = seqs d TPreferences"
    using assms(3) by (rule user_create_shape) auto
  show ?thesis
    by (rule wf_app_frame [OF assms(1) wf]) (use frame user_create_frame [OF assms(3)] in simp_all)
qed

lemma register_app:
  assumes "wf_app d" "register ext salt data d = Inr (u, d')"
  shows "wf_app d'"
proof -
  obtain n role where "role_get_by_name n d = Some role"
    and "user_create (new_user (uc_email data) (uc_name data) (hash_password ext salt (uc_password data)) None [role]) d
      = Inr (u, d')"
    using assms(2) by (auto simp: register_def Let_def rbind_eq_Inr role_named_eq_Inr as_conflict_eq_Inr split: if_splits)
  then show ?thesis
    by (rule new_account_app [OF assms(1)])
qed

lemma service_update_app:
  assumes "wf_app d" "user_get (user_id u) d = Some u" "service_update u data d = Inr (w, d')"
  shows "wf_app d'"
proof -
  obtain v where "user_save v d = Inr (w, d')" "user_roles v = user_roles u"
    using assms(3) by (auto simp: service_update_def as_conflict_eq_Inr rbind_eq_Inr split: field.splits if_splits)
  then show ?thesis
    using loaded_roles [OF assms(1,2)] user_save_app [OF assms(1)] by simp
qed

lemma add_role_app:
  assumes "wf_app d" "add_role uid name d = Inr (w, d')"
  shows "wf_app d'"
proof -
  obtain u r where u: "user_get uid d = Some u" "role_get_by_name name d = Some r"
    and "d' = d \<or> user_save (u\<lparr>user_roles := user_roles u @ [r]\<rparr>) d = Inr (w, d')"
    using assms(2) by (auto simp: add_role_def service_get_eq_Inr role_named_eq_Inr rbind_eq_Inr split: if_splits)
  then show ?thesis
    using user_save_app [OF assms(1), of "u\<lparr>user_roles := user_roles u @ [r]\<rparr>"] loaded_roles [OF assms(1) u(1)]
      role_get_by_name_SomeD [OF u(2)] assms(1) by auto
qed

lemma remove_role_app:
  assumes "wf_app d" "remove_role actor uid name d = Inr (w, d')"
  shows "wf_app d'"
proof -
  obtain u v where u: "user_get uid d = Some u" "set (user_roles v) \<subseteq> set (user_roles u)"
    and "d' = d \<or> user_save v d = Inr (w, d')"
  proof -
    obtain u where u: "user_get uid d = Some u"
      and "(w = u \<and> d' = d) \<or> (\<exists>n. user_save (u\<lparr>user_roles := filter (\<lambda>held. role_name held \<noteq> n) (user_roles u)\<rparr>) d = Inr (w, d'))"
      using assms(2) by (auto simp: remove_role_def service_get_eq_Inr role_named_eq_Inr rbind_eq_Inr split: if_splits)
    then show ?thesis
      using that [OF u, of u] that [OF u, of "u\<lparr>user_roles := filter (\<lambda>held. role_name held \<noteq> n) (user_roles u)\<rparr>" for n]
      by fastforce
  qed
  then show ?thesis
    using user_save_app [OF assms(1)] loaded_roles [OF assms(1) u(1)] assms(1) by blast
qed

lemma close_account_app:
  assumes "wf_app d" "user_get (user_id u) d = Some u" "close_account now u d = Inr d'"
  shows "wf_app d'"
proof -
  let ?d = "d\<lparr>t_items := map (\<lambda>i. if item_owned_by (user_id u) i then item_retired now (tx_now d) i else i) (t_items d)\<rparr>"
  have wf: "wf_accounts d" "wf_items d"
    using assms(1) by (simp_all add: wf_app_iff)
  obtain v where save: "user_save (user_mark_deleted now u) ?d = Inr (v, d')"
    using assms(3) by (auto simp: close_account_def item_soft_delete_for_owner_eq [OF wf(2)] user_soft_delete_def map_sum_eq_Inr)
  have "wf_accounts ?d"
    by (rule wf_accounts_same_tables [OF wf(1)]) simp_all
  then have "wf_app ?d"
    using assms(1) retired_wf [OF wf(2), of "user_id u" now "tx_now d"]
    by (simp add: wf_app_iff wf_refresh_tokens_def wf_single_use_tokens_def wf_preferences_def)
  moreover have "set (user_roles (user_mark_deleted now u)) \<subseteq> set (t_roles ?d)"
    using loaded_roles [OF assms(1,2)] by (simp add: user_mark_deleted_def)
  ultimately show ?thesis
    using save user_save_app by blast
qed

section \<open>Roles\<close>

lemma role_create_app:
  assumes "wf_app d" "role_create r d = Inr (r', d')"
  shows "wf_app d'"
  by (rule wf_app_frame [OF assms(1) role_create_wf [OF wf_appD(1) [OF assms(1)] assms(2)]])
    (use assms(2) in \<open>auto elim!: role_create_shape\<close>)

lemma role_save_app:
  assumes "wf_app d" "role_save r d = Inr (r', d')"
  shows "wf_app d'"
  by (rule wf_app_frame [OF assms(1) role_save_wf [OF wf_appD(1) [OF assms(1)] assms(2)]])
    (use assms(2) in \<open>auto elim!: role_save_shape\<close>)

lemma role_delete_app:
  assumes "wf_app d"
  shows "wf_app (role_delete r d)"
  by (rule wf_app_frame [OF assms role_delete_wf [OF wf_appD(1) [OF assms]]]) (simp_all add: role_delete_def)

lemma role_service_delete_app: "wf_app d \<Longrightarrow> role_service_delete rid d = Inr d' \<Longrightarrow> wf_app d'"
  using role_delete_app by (auto simp: role_service_delete_def rbind_eq_Inr split: if_splits)

section \<open>Items and preferences\<close>

lemma item_request_app:
  assumes "wf_app d" "run_item_request now caller req d = Inr d'"
  shows "wf_app d'"
proof -
  have "wf_items d'"
    using item_writes_isolated assms by (auto simp: wf_app_iff)
  moreover have "seqs d' TUsers = seqs d TUsers \<and> seqs d' TRoles = seqs d TRoles \<and> seqs d' TRefreshTokens = seqs d TRefreshTokens
      \<and> seqs d' TSingleUseTokens = seqs d TSingleUseTokens \<and> seqs d' TPreferences = seqs d TPreferences"
    using assms(2) by (cases rule: run_item_request_cases) (auto elim: item_flush_Inr_cases)
  ultimately show ?thesis
    using assms(1) item_request_frame [OF assms(2)] wf_accounts_same_tables [of d d']
    by (simp add: wf_app_iff wf_refresh_tokens_def wf_single_use_tokens_def wf_preferences_def)
qed

lemma pref_update_wf:
  assumes "wf_preferences d" "pref_update uid u d = Inr (p, d')"
  shows "wf_preferences d'"
proof (cases "pref_get_for_user uid d")
  case None
  then have fresh: "\<forall>x\<in>set (t_preferences d). pref_user_id x \<noteq> uid"
    by (auto simp: pref_get_for_user_def find_row_None_iff)
  obtain row where "pref_user_id row = uid" "pref_id row = seqs d TPreferences" "\<not> pref_too_long row"
    "uid \<in> user_id ` set (t_users d)" "d' = bump TPreferences (d\<lparr>t_preferences := t_preferences d @ [row]\<rparr>)"
  proof (rule that)
    show "pref_user_id p = uid" "pref_id p = seqs d TPreferences" "\<not> pref_too_long p"
      "uid \<in> user_id ` set (t_users d)" "d' = bump TPreferences (d\<lparr>t_preferences := t_preferences d @ [p]\<rparr>)"
      using assms(2) None
      by (auto simp: pref_update_def pref_create_def Let_def apply_preferences_def default_preferences_def split: if_splits)
  qed
  then show ?thesis
    using assms(1) fresh by (auto simp: wf_preferences_def keyed_append)
next
  case (Some q)
  then have q: "pref_user_id q = uid"
    by (auto simp: pref_get_for_user_def dest: find_row_SomeD)
  have save: "pref_save (apply_preferences u q) d = Inr (p, d')"
    using Some assms(2) by (simp add: pref_update_def)
  then have "\<not> pref_too_long (apply_preferences u q)"
    by (auto simp: pref_save_def split: if_splits)
  then show ?thesis
    using pref_get_save(2) [OF assms(1) Some _ _ _ save] q by (simp add: apply_preferences_def)
qed

lemma pref_update_app:
  assumes "wf_app d" "pref_update uid u d = Inr (p, d')"
  shows "wf_app d'"
proof -
  have "seqs d' t = seqs d t" if "t \<noteq> TPreferences" for t
    using assms(2) that by (auto simp: pref_update_def pref_create_def pref_save_def Let_def split: option.splits if_splits)
  then show ?thesis
    using assms(1) pref_update_frame [OF assms(2)] pref_update_wf [OF _ assms(2)] wf_accounts_same_tables [of d d']
    by (simp add: wf_app_iff wf_refresh_tokens_def wf_single_use_tokens_def wf_items_def)
qed

section \<open>Sessions and links\<close>

text \<open>Work on one of the two token tables leaves the rest of the invariant to a frame.\<close>

lemma wf_app_tokens:
  assumes "wf_app d" "wf_refresh_tokens d'" "wf_single_use_tokens d'"
    and "t_users d' = t_users d" "t_user_roles d' = t_user_roles d" "t_roles d' = t_roles d" "t_items d' = t_items d"
    and "t_preferences d' = t_preferences d"
    and "\<And>t. t \<noteq> TRefreshTokens \<Longrightarrow> t \<noteq> TSingleUseTokens \<Longrightarrow> seqs d' t = seqs d t"
  shows "wf_app d'"
  using assms wf_accounts_same_tables [of d d'] by (simp add: wf_app_iff wf_items_def wf_preferences_def)

lemma rt_create_app:
  assumes "wf_app d" "rt_create h uid ex d = Inr d'"
  shows "wf_app d'"
proof -
  have "wf_refresh_tokens d'"
    using refresh_store.issue_law [of d h uid ex d'] assms by (simp add: wf_app_iff)
  moreover have "wf_single_use_tokens d'"
    using assms(2) by (rule rt_create_shape) (use assms(1) in \<open>simp add: wf_app_iff wf_single_use_tokens_def\<close>)
  moreover have "t_users d' = t_users d \<and> t_user_roles d' = t_user_roles d \<and> t_roles d' = t_roles d \<and> t_items d' = t_items d
      \<and> t_preferences d' = t_preferences d \<and> (\<forall>t. t \<noteq> TRefreshTokens \<longrightarrow> seqs d' t = seqs d t)"
    using assms(2) by (rule rt_create_shape) simp
  ultimately show ?thesis
    using wf_app_tokens [OF assms(1)] by metis
qed

lemma rt_revoke_app:
  assumes "wf_app d"
  shows "wf_app (snd (rt_revoke h now d))"
proof (rule wf_app_tokens [OF assms])
  show "wf_refresh_tokens (snd (rt_revoke h now d))"
    using refresh_store.spend_law assms by (simp add: wf_app_iff)
qed (use assms in \<open>simp_all add: wf_app_iff rt_revoke_def Let_def wf_single_use_tokens_def\<close>)

lemma rt_revoke_all_app:
  assumes "wf_app d"
  shows "wf_app (snd (rt_revoke_all_for_user uid now d))"
proof (rule wf_app_tokens [OF assms])
  show "wf_refresh_tokens (snd (rt_revoke_all_for_user uid now d))"
    using refresh_store.retire_all_law assms by (simp add: wf_app_iff)
qed (use assms in \<open>simp_all add: wf_app_iff rt_revoke_all_for_user_def Let_def wf_single_use_tokens_def\<close>)

lemma sut_create_app:
  assumes "wf_app d" "sut_create h uid p ex d = Inr d'"
  shows "wf_app d'"
proof -
  have "wf_single_use_tokens d'"
    using single_use_store.issue_law [of d h uid p ex d'] assms by (simp add: wf_app_iff)
  moreover have "wf_refresh_tokens d'"
    using assms(2) by (rule sut_create_shape) (use assms(1) in \<open>simp add: wf_app_iff wf_refresh_tokens_def\<close>)
  moreover have "t_users d' = t_users d \<and> t_user_roles d' = t_user_roles d \<and> t_roles d' = t_roles d \<and> t_items d' = t_items d
      \<and> t_preferences d' = t_preferences d \<and> (\<forall>t. t \<noteq> TSingleUseTokens \<longrightarrow> seqs d' t = seqs d t)"
    using assms(2) by (rule sut_create_shape) simp
  ultimately show ?thesis
    using wf_app_tokens [OF assms(1)] by metis
qed

lemma sut_revoke_all_app:
  assumes "wf_app d"
  shows "wf_app (snd (sut_revoke_all_for uid p now d))"
proof (rule wf_app_tokens [OF assms])
  show "wf_single_use_tokens (snd (sut_revoke_all_for uid p now d))"
    using single_use_store.retire_all_law assms by (simp add: wf_app_iff)
qed (use assms in \<open>simp_all add: wf_app_iff sut_revoke_all_for_def Let_def wf_refresh_tokens_def\<close>)

lemma sut_mark_used_app:
  assumes "wf_app d"
  shows "wf_app (sut_mark_used t now d)"
proof (rule wf_app_tokens [OF assms])
  show "wf_single_use_tokens (sut_mark_used t now d)"
    using wf_sut_stamped assms by (simp add: wf_app_iff sut_mark_used_def)
qed (use assms in \<open>simp_all add: wf_app_iff sut_mark_used_def wf_refresh_tokens_def\<close>)

lemma issue_token_app:
  assumes "wf_app d" "issue_token ext p life cd token uid now d = Inr (issued, d')"
  shows "wf_app d'"
  using assms(2)
proof (cases rule: issue_token_cases)
  case sent
  then show ?thesis
    using sut_create_app [OF sut_revoke_all_app [OF assms(1)]] by blast
qed (use assms(1) in simp)

lemma verification_request_app:
  "wf_app d \<Longrightarrow> verification_request ext s token u now d = Inr (m, d') \<Longrightarrow> wf_app d'"
  by (auto simp: verification_request_def rbind_eq_Inr dest: issue_token_app split: if_splits)

lemma reset_request_app:
  "wf_app d \<Longrightarrow> reset_request ext s token email now d = Inr (m, d') \<Longrightarrow> wf_app d'"
  by (auto simp: reset_request_def rbind_eq_Inr dest: issue_token_app split: option.splits)

lemma reset_confirm_app:
  assumes "wf_app d" "reset_confirm ext salt now token pw d = Inr d'"
  shows "wf_app d'"
proof -
  obtain t u w d1 where u: "user_get (sut_user_id t) d = Some u"
    and save: "user_save (u\<lparr>user_hashed_password := hash_password ext salt pw, user_password_changed_at := Some now\<rparr>) d = Inr (w, d1)"
    and d': "d' = snd (rt_revoke_all_for_user (user_id w) now
        (snd (sut_revoke_all_for (user_id w) PASSWORD_RESET now (sut_mark_used t now d1))))"
    using assms(2) by (auto simp: reset_confirm_def redeem_Some_iff rbind_eq_Inr Let_def split: option.splits)
  have "wf_app d1"
    using user_save_app [OF assms(1) save] loaded_roles [OF assms(1) u] by simp
  then show ?thesis
    unfolding d' by (intro rt_revoke_all_app sut_revoke_all_app sut_mark_used_app)
qed

lemma verification_confirm_app:
  assumes "wf_app d" "verification_confirm ext now token d = Inr (u, d')"
  shows "wf_app d'"
proof -
  let ?v = "\<lambda>x. x\<lparr>user_email_verified_at := Some now\<rparr> :: User"
  obtain t x where x: "user_get (sut_user_id t) d = Some x"
    and d': "d' = sut_mark_used t now d \<or> user_save (?v x) (sut_mark_used t now d) = Inr (u, d')"
    using assms(2) by (auto simp: verification_confirm_def redeem_Some_iff Let_def raise_error_def split: option.splits if_splits)
  have used: "wf_app (sut_mark_used t now d)"
    by (rule sut_mark_used_app [OF assms(1)])
  have "set (user_roles (?v x)) \<subseteq> set (t_roles (sut_mark_used t now d))"
    using loaded_roles [OF assms(1) x] by simp
  then show ?thesis
    using d' used user_save_app [OF used, of "?v x"] by blast
qed

lemma change_password_app:
  assumes "wf_app d" "user_get (user_id u) d = Some u" "change_password ext salt t1 t2 u data d = Inr d'"
  shows "wf_app d'"
proof -
  obtain w d1 where save: "user_save (u\<lparr>user_hashed_password := hash_password ext salt (pc_new_password data),
        user_password_changed_at := Some t1\<rparr>) d = Inr (w, d1)"
    and d': "d' = snd (rt_revoke_all_for_user (user_id w) t2 d1)"
    using assms(3) by (auto simp: change_password_def revoke_sessions_def rbind_eq_Inr split: if_splits)
  then show ?thesis
    using user_save_app [OF assms(1) save] loaded_roles [OF assms(1,2)] rt_revoke_all_app by simp
qed

lemma mailed_eq_Inr: "mailed w r = Inr d' \<Longrightarrow> \<exists>m. r = Inr (m, d')"
  by (auto simp: mailed_def rbind_eq_Inr split: option.splits)

section \<open>Attachments and jobs\<close>

lemma attachment_remove_core:
  "attachment_remove aid owner s = (res, s') \<Longrightarrow> core (ses_db s') = core (ses_db s)"
  by (auto simp: attachment_remove_def attachment_delete_def split: sum.splits)

lemma attachment_add_core:
  assumes "attachment_add fl st key iid owner upload s = (res, s')"
  shows "core (ses_db s') = core (ses_db s)"
proof -
  have "ses_db s' = ses_db s \<or> (\<exists>k f c n row. attachment_create k f c n iid (ses_db s) = Inr (row, ses_db s'))"
    using assms by (auto simp: attachment_add_def Let_def split: sum.splits if_splits prod.splits)
  then show ?thesis
    by (auto simp: attachment_create_def Let_def split: if_splits) (metis core_frame(6,7))
qed

lemma att_serve_core:
  assumes "att_serve fl st commit_ok r (d, b) = (d', b')"
  shows "core d' = core d"
proof (cases r)
  case (AddAttachment key iid owner upload)
  then show ?thesis
    using assms attachment_add_core [of fl st key iid owner upload "\<lparr>ses_db = d, ses_blobs = b, ses_hooks = []\<rparr>"]
    by (auto simp: att_serve_def att_handler_def Let_def split: prod.splits if_splits)
next
  case (RemoveAttachment aid owner)
  then show ?thesis
    using assms attachment_remove_core [of aid owner "\<lparr>ses_db = d, ses_blobs = b, ses_hooks = []\<rparr>"]
    by (auto simp: att_serve_def att_handler_def Let_def split: prod.splits if_splits)
qed

text \<open>A loop of batches keeps what every batch keeps.\<close>

lemma drain_keeps:
  assumes "drain prune clock retention k removed s = Some r"
    and "\<And>now s. Q s \<Longrightarrow> Q (snd (prune now retention DELETE_BATCH_SIZE s))" and "Q s"
  shows "Q (snd r)"
proof -
  let ?keeps = "\<lambda>prune retention. \<forall>now s. Q s \<longrightarrow> Q (snd (prune now retention DELETE_BATCH_SIZE s))"
  have "?keeps prune retention \<longrightarrow> Q s \<longrightarrow> Q (snd r)"
  proof (rule drain.raw_induct [where P = "\<lambda>prune clock retention k removed s r. ?keeps prune retention \<longrightarrow> Q s \<longrightarrow> Q (snd r)",
        OF _ assms(1)], intro impI)
    fix f prune clock retention k removed s r
    assume IH: "\<And>prune clock retention k removed s r. f prune clock retention k removed s = Some r \<Longrightarrow>
        ?keeps prune retention \<longrightarrow> Q s \<longrightarrow> Q (snd r)"
      and body: "(let (batch, s') = prune (clock k) retention DELETE_BATCH_SIZE s in
         if batch < DELETE_BATCH_SIZE then Some (removed + batch, s')
         else f prune clock retention (Suc k) (removed + batch) s') = Some r"
      and keeps: "?keeps prune retention" and "Q s"
    obtain b s' where b: "prune (clock k) retention DELETE_BATCH_SIZE s = (b, s')"
      by force
    with keeps \<open>Q s\<close> have "Q s'"
      by (metis snd_conv)
    then show "Q (snd r)"
      using body b IH keeps by (auto split: if_splits)
  qed
  then show ?thesis
    using assms(2,3) by blast
qed

lemma prune_batch_core:
  "core (snd (audit_log_prune_batch now retention n d)) = core d"
  "core (snd (request_log_prune_batch now retention n d)) = core d"
  "core (snd (idempotency_prune_batch now retention n d)) = core d"
  by (simp_all add: audit_log_prune_batch_def request_log_prune_batch_def idempotency_prune_batch_def prune_before_def
      audit_log_delete_batch_def request_log_delete_batch_def idempotency_delete_batch_def Let_def split: prod.split)

lemma expire_tokens_app:
  assumes "wf_app d"
  shows "wf_app (snd (expire_tokens now d))"
proof -
  have rt: "wf_app (snd (rt_delete_expired now d))" if "wf_app d" for d
  proof (rule wf_app_tokens [OF that])
    show "wf_refresh_tokens (snd (rt_delete_expired now d))"
      using refresh_store.prune_law that by (simp add: wf_app_iff)
  qed (use that in \<open>simp_all add: wf_app_iff rt_delete_expired_def Let_def wf_single_use_tokens_def\<close>)
  have sut: "wf_app (snd (sut_delete_expired now d))" if "wf_app d" for d
  proof (rule wf_app_tokens [OF that])
    show "wf_single_use_tokens (snd (sut_delete_expired now d))"
      using single_use_store.prune_law that by (simp add: wf_app_iff)
  qed (use that in \<open>simp_all add: wf_app_iff sut_delete_expired_def Let_def wf_refresh_tokens_def\<close>)
  show ?thesis
    using sut [OF rt [OF assms]] by (simp add: expire_tokens_def Let_def case_prod_unfold)
qed

lemma job_app:
  assumes "wf_app d" "job \<in> set (maintenance_jobs s)" "job_work job clock d = Some (n, d')"
  shows "wf_app d'"
proof -
  have drained: "wf_app d'" if "drain prune clock r 0 0 d = Some (n, d')"
    and "\<And>now d. core (snd (prune now r DELETE_BATCH_SIZE d)) = core d" for prune r
    using drain_keeps [OF that(1), of "\<lambda>d'. core d' = core d"] that(2) wf_app_core [of d' d] assms(1) by simp
  then show ?thesis
    using assms expire_tokens_app [OF assms(1), of "clock 0"] drained [OF _ prune_batch_core(1)]
      drained [OF _ prune_batch_core(2)] drained [OF _ prune_batch_core(3)]
    by (auto simp: maintenance_jobs_def prune_audit_log_def prune_request_log_def prune_idempotency_keys_def)
qed

section \<open>Routes\<close>

lemma run_public_app:
  assumes "wf_app d" "run_public w r d = Inr d'"
  shows "wf_app d'"
proof (cases r)
  case (Register data)
  then obtain u d1 m where "register (dw_ext w) (dw_salt w) data d = Inr (u, d1)"
    "verification_request (dw_ext w) (dw_settings w) (dw_token w) u (dw_now w) d1 = Inr (m, d')"
    using assms(2) by (auto simp: register_user_def rbind_eq_Inr map_sum_eq_Inr dest!: mailed_eq_Inr)
  then show ?thesis
    using register_app [OF assms(1)] verification_request_app by blast
next
  case (Login e pw)
  then show ?thesis
    using assms rt_create_app by (auto simp: login_route_def map_sum_eq_Inr authenticate_eq_Inr elim!: issue_pair_cases)
next
  case (Refresh token)
  then show ?thesis
    using assms by (auto simp: refresh_route_def map_sum_eq_Inr keep_eq_Inr)
next
  case (Logout token)
  then show ?thesis
    using assms rt_revoke_app by (auto simp: logout_route_def logout_def)
next
  case (ForgotPassword email)
  then show ?thesis
    using assms reset_request_app by (auto simp: forgot_password_def dest!: mailed_eq_Inr)
next
  case (ResetPasswordWith token pw)
  then show ?thesis
    using assms reset_confirm_app by (auto simp: reset_password_def)
next
  case (VerifyEmailWith token)
  then show ?thesis
    using assms verification_confirm_app by (auto simp: verify_email_def rbind_eq_Inr)
qed

lemma impersonation_core:
  "impersonate ext s cx now jti actor target d = Inr (x, d') \<Longrightarrow> core d' = core d"
  "core (stop_impersonating cx u d) = core d"
  by (auto simp: impersonate_def stop_impersonating_def record_impersonation_def raise_error_def split: if_splits)

lemma run_call_app:
  assumes "wf_app d" "user_get (user_id (actor_user a)) d = Some (actor_user a)" "run_call w cx a c d = Inr (reply, d')"
  shows "wf_app d'"
proof (cases c)
  case (UpdateMe data)
  then show ?thesis
    using assms(3) service_update_app [OF assms(1,2)] by (auto simp: answer_eq_Inr update_me_def rbind_eq_Inr)
next
  case (UpdateMyPreferences data)
  then show ?thesis
    using assms(3) pref_update_app [OF assms(1)] by (auto simp: answer_eq_Inr update_my_preferences_def rbind_eq_Inr)
next
  case (DeactivateMe pw)
  then show ?thesis
    using assms(3) close_account_app [OF assms(1,2)]
    by (auto simp: no_content_eq_Inr deactivate_me_def deactivate_def rbind_eq_Inr split: if_splits)
next
  case (ChangePassword data)
  then show ?thesis
    using assms(3) change_password_app [OF assms(1,2)] by (auto simp: no_content_eq_Inr change_password_route_def rbind_eq_Inr)
next
  case ResendVerification
  then show ?thesis
    using assms(3) verification_request_app [OF assms(1)]
    by (auto simp: no_content_eq_Inr resend_email_verification_def rbind_eq_Inr dest!: mailed_eq_Inr)
next
  case StopImpersonating
  then show ?thesis
    using assms(1,3) wf_app_core [OF impersonation_core(2)] by (auto simp: stop_impersonating_route_def split: if_splits)
next
  case (Impersonate i)
  then show ?thesis
    using assms(1,3) wf_app_core [OF impersonation_core(1)] by (auto simp: answer_eq_Inr impersonate_route_def rbind_eq_Inr)
next
  case (UpdateUserFeatures i f)
  then show ?thesis
    using assms(3) pref_update_app [OF assms(1)]
    by (auto simp: answer_eq_Inr update_user_features_def update_features_for_def rbind_eq_Inr)
next
  case (RemoveUser i)
  then obtain t where "user_get i d = Some t" "close_account (dw_now w) t d = Inr d'"
    using assms(3) by (auto simp: no_content_eq_Inr remove_user_def rbind_eq_Inr elim!: remove_account_cases)
  then show ?thesis
    using close_account_app [OF assms(1)] users.get_found [OF wf_appD(1) [OF assms(1)]] by metis
next
  case (AddUserRole i r)
  then show ?thesis
    using assms(3) add_role_app [OF assms(1)] by (auto simp: answer_eq_Inr add_user_role_def rbind_eq_Inr)
next
  case (RemoveUserRole i r)
  then show ?thesis
    using assms(3) remove_role_app [OF assms(1)] by (auto simp: answer_eq_Inr remove_user_role_def rbind_eq_Inr)
next
  case (CreateRole data)
  then show ?thesis
    using assms(3) role_create_app [OF assms(1)]
    by (auto simp: answer_eq_Inr create_role_def rbind_eq_Inr elim!: role_service_create_cases)
next
  case (UpdateRole r data)
  then show ?thesis
    using assms(3) role_save_app [OF assms(1)]
    by (auto simp: answer_eq_Inr update_role_def rbind_eq_Inr elim!: role_service_update_cases)
next
  case (DeleteRole r)
  then show ?thesis
    using assms(3) role_service_delete_app [OF assms(1)] by (auto simp: no_content_eq_Inr delete_role_def rbind_eq_Inr)
next
  case (AddRoleMember r i)
  then show ?thesis
    using assms(3) add_role_app [OF assms(1)]
    by (auto simp: answer_eq_Inr add_role_member_def add_role_by_id_def rbind_eq_Inr)
next
  case (RemoveRoleMember r i)
  then show ?thesis
    using assms(3) remove_role_app [OF assms(1)]
    by (auto simp: answer_eq_Inr remove_role_member_def remove_role_by_id_def rbind_eq_Inr)
next
  case (WriteItem req)
  then have "run_item_request (dw_now w) (user_id (actor_user a)) req d = Inr d'"
    using assms(3) by (cases req) (auto simp: answer_eq_Inr no_content_eq_Inr)
  then show ?thesis
    by (rule item_request_app [OF assms(1)])
qed (use assms(1,3) in \<open>auto simp: answer_eq_Inr keep_eq_Inr\<close>)

lemma serves_app: "serves d d' \<Longrightarrow> wf_app d \<Longrightarrow> wf_app d'"
proof (induction rule: serves.induct)
  case (begins d t)
  then show ?case
    by (rule wf_app_core [OF core_frame(2)])
next
  case (protected w token cx c d reply d')
  then obtain a cx' where "get_actor (dw_ext w) (dw_settings w) (dw_now w) token cx d = Inr (a, cx')"
    "run_call w cx' a c d = Inr (reply, d')"
    by (auto simp: protected_call_def rbind_eq_Inr)
  then show ?case
    using run_call_app [OF protected(2)] get_actor_loaded [OF wf_appD(1) [OF protected(2)]] by blast
next
  case (public w r d d')
  then show ?case
    using run_public_app by blast
next
  case (attaches s ok r d b d' b')
  then show ?case
    using wf_app_core [OF att_serve_core] by blast
next
  case (works job s clock d n d')
  then show ?case
    using job_app by blast
qed

section \<open>Properties\<close>

text \<open>
  C6. The tables of accounts, roles, role assignments, items, refresh tokens, single-use tokens and
  preferences are well typed in every state the service can bring them to. Starting from a state in which they
  are, any sequence of protected calls by anybody, public calls, uploads, background tasks and jobs leaves
  the identifiers of each of these tables unique and below their sequence; the addresses of open
  accounts, the role names, the token digests and the account of a preferences row unique; every item,
  session, link, preferences row and role assignment with its account (and its role); and addresses, names,
  role names and features, titles and preferences within the lengths of their columns. Every account that a
  lookup answers holds only roles that exist, each once. The attachment, idempotency and log tables
  are not part of it.
\<close>

theorem database_stays_well_typed:
  assumes "wf_app d" and "serves\<^sup>*\<^sup>* d d'"
  shows "wf_app d' \<and> (\<forall>i u. user_get i d' = Some u \<longrightarrow>
    user_id u = i \<and> set (user_roles u) \<subseteq> set (t_roles d') \<and> distinct (map role_id (user_roles u)))"
proof -
  have "wf_app d'"
    using assms(2,1) by (induction rule: rtranclp_induct) (auto intro: serves_app)
  then show ?thesis
    using users.get_found [of d'] by (auto simp: wf_app_iff assignable_def)
qed

theorem database_stays_well_typed_witness:
  "\<exists>d. serves\<^sup>*\<^sup>* pair_db d \<and> d \<noteq> pair_db \<and> tx_now d = 77 \<and> wf_app d"
proof -
  obtain reply d1 where c: "protected_call sample_world user_token None (UpdateMyPreferences dark_theme) pair_db = Inr (reply, d1)"
    using pair_preferences [OF user_token_actor] by blast
  have "serves\<^sup>*\<^sup>* pair_db (d1\<lparr>tx_now := 77\<rparr>)"
    using protected [OF c] begins [of d1 77] by (meson converse_rtranclp_into_rtranclp r_into_rtranclp)
  moreover have "tx_now pair_db \<noteq> 77"
    by code_simp
  then have "d1\<lparr>tx_now := 77\<rparr> \<noteq> pair_db"
    by (metis database.select_convs(14) database.surjective database.update_convs(14))
  ultimately show ?thesis
    using database_stays_well_typed [OF pair_facts(1)] by (intro exI [of _ "d1\<lparr>tx_now := 77\<rparr>"]) auto
qed

end
