(* ===== verification/Asgi.thy ===== *)
theory Asgi
  imports Http
begin

text \<open>
  The middleware of \<open>app/core/http\<close> and \<open>app/core/observability\<close> as it is written: on ASGI messages. Theory
  \<open>Http\<close> speaks of whole responses; here an application sends a start message and body chunks, the
  wrappers around \<open>send\<close> see them one at a time, and the wrapper around \<open>receive\<close> hands out the body. The
  message level refines the response level, middleware by middleware and for the whole stack.
\<close>

section \<open>Messages\<close>

datatype message = ResponseStart int headers | ResponseBody str

datatype log_level = LogInfo | LogWarning

datatype log_value = LogNone | LogStr str | LogInt int

type_synonym log_event = "log_level \<times> (str \<times> log_value) list"

text \<open>What an application did with one request: the messages, the exception, the request's state, the log.\<close>

record asgi_run =
  run_sent :: "message list"
  run_raised :: "exn option"
  run_user_id :: "ident option"
  run_request_id :: "str option"
  run_logged :: "log_event list"

type_synonym asgi = "http_req \<Rightarrow> database \<Rightarrow> asgi_run \<times> database"

definition sent_only :: "message list \<Rightarrow> asgi_run" where
  "sent_only ms = \<lparr>run_sent = ms, run_raised = None, run_user_id = None, run_request_id = None, run_logged = []\<rparr>"

definition raised_only :: "exn \<Rightarrow> asgi_run" where
  "raised_only e = \<lparr>run_sent = [], run_raised = Some e, run_user_id = None, run_request_id = None, run_logged = []\<rparr>"

text \<open>A response object, called with \<open>send\<close>.\<close>

definition respond :: "(envelope \<Rightarrow> str) \<Rightarrow> response \<Rightarrow> message list" where
  "respond json r = [ResponseStart (rs_status r) (rs_headers r), ResponseBody (body_bytes json (rs_body r))]"

section \<open>Middleware\<close>

fun wrapped_send :: "bool \<Rightarrow> message \<Rightarrow> message" where
  "wrapped_send hsts (ResponseStart status hs) = ResponseStart status (add_security_headers hsts hs)"
| "wrapped_send hsts (ResponseBody b) = ResponseBody b"

definition asgi_security_headers :: "bool \<Rightarrow> asgi \<Rightarrow> asgi" where
  "asgi_security_headers hsts app q d =
     (if \<not> q_http q then app q d
      else (let (run, d') = app q d in (run\<lparr>run_sent := map (wrapped_send hsts) (run_sent run)\<rparr>, d')))"

definition body_limit_refuse :: "(envelope \<Rightarrow> str) \<Rightarrow> http_req \<Rightarrow> message list" where
  "body_limit_refuse json q =
     respond json (error_response q (status_code_of PayloadTooLargeError)
       (DText BODY_TOO_LARGE_DETAIL) BODY_TOO_LARGE_DETAIL PAYLOAD_TOO_LARGE [] [])"

definition asgi_body_limit :: "(envelope \<Rightarrow> str) \<Rightarrow> int \<Rightarrow> asgi \<Rightarrow> asgi" where
  "asgi_body_limit json limit app q d =
     (if \<not> q_http q then app q d
      else (case declared_length q of
          Inl e \<Rightarrow> (raised_only e, d)
        | Inr declared \<Rightarrow>
            if (case declared of None \<Rightarrow> False | Some n \<Rightarrow> n > limit)
            then (sent_only (body_limit_refuse json q), d)
            else app (q\<lparr>q_body := bounded_receive limit 0 (q_body q)\<rparr>) d))"

text \<open>
  \<open>_buffered\<close>: the body that was read for the fingerprint is handed out again, once; afterwards the
  wrapper is the server's \<open>receive\<close>. Its state is the flag \<open>replayed\<close> and what the server still has.
\<close>

definition buffered_receive :: "str \<Rightarrow> bool \<times> str result list \<Rightarrow> str result option \<times> (bool \<times> str result list)" where
  "buffered_receive body st =
     (case st of
        (False, rest) \<Rightarrow> (Some (Inr body), (True, rest))
      | (True, []) \<Rightarrow> (None, (True, []))
      | (True, m # rest) \<Rightarrow> (Some m, (True, rest)))"

fun buffered :: "nat \<Rightarrow> str \<Rightarrow> bool \<times> str result list \<Rightarrow> str result list" where
  "buffered 0 body st = []"
| "buffered (Suc n) body st =
     (case buffered_receive body st of (None, _) \<Rightarrow> [] | (Some m, st') \<Rightarrow> m # buffered n body st')"

fun content_type_of :: "headers \<Rightarrow> str option" where
  "content_type_of [] = None"
| "content_type_of ((name, v) # hs) = (if lower name = ''content-type'' then Some v else content_type_of hs)"

text \<open>\<open>_CapturedResponse\<close>: what it remembers of the messages it passes on.\<close>

fun captured_send :: "message \<Rightarrow> captured \<Rightarrow> captured" where
  "captured_send (ResponseStart status hs) c = c\<lparr>cp_status_code := status, cp_content_type := content_type_of hs\<rparr>"
| "captured_send (ResponseBody b) c = c\<lparr>cp_body := cp_body c @ b\<rparr>"

definition nothing_captured :: captured where
  "nothing_captured = \<lparr>cp_status_code = 500, cp_content_type = None, cp_body = []\<rparr>"

definition idem_refuse :: "(envelope \<Rightarrow> str) \<Rightarrow> http_req \<Rightarrow> int \<Rightarrow> str \<Rightarrow> ErrorCode \<Rightarrow> message list" where
  "idem_refuse json q status detail code = respond json (error_response q status (DText detail) detail code [] [])"

definition idem_replay :: "StoredResponse \<Rightarrow> message list" where
  "idem_replay stored =
     [ResponseStart (sr_status_code stored) ((REPLAY_HEADER, ''true'') #
        (case sr_content_type stored of None \<Rightarrow> [] | Some t \<Rightarrow> [(''content-type'', t)])),
      ResponseBody (sr_body stored)]"

definition idem_run :: "moments \<Rightarrow> Attempt \<Rightarrow> asgi \<Rightarrow> http_req \<Rightarrow> database \<Rightarrow> asgi_run \<times> database" where
  "idem_run mo a app q d =
     (let (run, d') = app q d in
      (run, idem_finish a (case run_raised run of
          Some e \<Rightarrow> None
        | None \<Rightarrow> Some (fold captured_send (run_sent run) nothing_captured)) (mo_finish mo) d'))"

definition asgi_idempotency :: "ext \<Rightarrow> Settings \<Rightarrow> (envelope \<Rightarrow> str) \<Rightarrow> moments \<Rightarrow> asgi \<Rightarrow> asgi" where
  "asgi_idempotency ext s json mo app q d =
     (case idem_intercept ext s (mo_claim mo) (mo_restart mo) (to_http_request q) d of
        Inl e \<Rightarrow> (raised_only e, d)
      | Inr (v, d1) \<Rightarrow>
          (case v of
             PassThrough \<Rightarrow> app q d1
           | Refuse status detail code \<Rightarrow> (sent_only (idem_refuse json q status detail code), d1)
           | Replay stored \<Rightarrow> (sent_only (idem_replay stored), d1)
           | RunOnce a \<Rightarrow> idem_run mo a app (q\<lparr>q_body := buffered 2 (at_body a) (False, [])\<rparr>) d1))"

text \<open>\<open>_ResponseCapture\<close>: it remembers the status and writes the correlation id into the headers.\<close>

fun response_capture :: "str \<Rightarrow> message \<Rightarrow> int \<times> message list \<Rightarrow> int \<times> message list" where
  "response_capture rid (ResponseStart status hs) (_, out) =
     (status, out @ [ResponseStart status (header_set REQUEST_ID_HEADER rid hs)])"
| "response_capture rid (ResponseBody b) (status, out) = (status, out @ [ResponseBody b])"

text \<open>\<open>_log_request\<close>: every field but the id, which the log's processors add.\<close>

definition log_request :: "RequestRecord \<Rightarrow> log_event" where
  "log_request r =
     (if rr_status_code r \<ge> SERVER_ERROR_STATUS then LogWarning else LogInfo,
      [(''method'', LogStr (rr_method r)), (''path'', LogStr (rr_path r)), (''status_code'', LogInt (rr_status_code r)),
       (''duration_us'', LogInt (rr_duration_us r)),
       (''client_ip'', case rr_client_ip r of None \<Rightarrow> LogNone | Some ip \<Rightarrow> LogStr ip),
       (''user_id'', case rr_user_id r of None \<Rightarrow> LogNone | Some u \<Rightarrow> LogInt u)])"

definition asgi_request_logging ::
  "str set \<Rightarrow> (RequestRecord \<Rightarrow> database \<Rightarrow> database result) option \<Rightarrow> str \<Rightarrow> int \<Rightarrow> asgi \<Rightarrow> asgi" where
  "asgi_request_logging excluded recorder new_id elapsed app q d =
     (if \<not> q_http q then app q d
      else
        (let rid = request_id_of new_id q;
             (run, d1) = app (tagged rid q) d;
             (status, sent) = fold (response_capture rid) (run_sent run) (SERVER_ERROR_STATUS, []);
             run' = run\<lparr>run_sent := sent, run_request_id := Some rid\<rparr>;
             logged = (\<lambda>st. let r = request_record q rid st elapsed (run_user_id run) in
               (run'\<lparr>run_logged := run_logged run @ [log_request r]\<rparr>, persist recorder r d1))
         in case run_raised run of
              Some e \<Rightarrow> logged SERVER_ERROR_STATUS
            | None \<Rightarrow> if q_path q \<notin> excluded then logged status else (run', d1)))"

text \<open>The framework's own outermost layer: an error response, if nothing was sent, and the exception again.\<close>

definition asgi_catch_all :: "(envelope \<Rightarrow> str) \<Rightarrow> asgi \<Rightarrow> asgi" where
  "asgi_catch_all json app q d =
     (let (run, d') = app q d in
      if run_raised run \<noteq> None \<and> run_sent run = []
      then (run\<lparr>run_sent := respond json
              (handle_unexpected_error (q\<lparr>q_request_id := run_request_id run, q_context_id := None\<rparr>))\<rparr>, d')
      else (run, d'))"

definition asgi_create_app ::
  "ext \<Rightarrow> Settings \<Rightarrow> (asgi \<Rightarrow> asgi) \<Rightarrow> (asgi \<Rightarrow> asgi) \<Rightarrow> (envelope \<Rightarrow> str) \<Rightarrow> moments \<Rightarrow> str \<Rightarrow> int \<Rightarrow> asgi \<Rightarrow> asgi" where
  "asgi_create_app ext s limiter cors json mo new_id elapsed routes =
     (let inner = asgi_idempotency ext s json mo routes;
          bounded = asgi_body_limit json (max_request_body_bytes s) inner;
          limited = limiter bounded;
          secured = asgi_security_headers (hsts_is_enabled s) limited;
          logged = asgi_request_logging (parse_excluded_paths (request_log_excluded_paths s))
                     (if request_log_persist_enabled s then Some store_request else None) new_id elapsed secured
      in asgi_catch_all json (if cors_origin_list s = [] then logged else cors logged))"

section \<open>From messages to responses\<close>

fun is_chunk_message :: "message \<Rightarrow> bool" where
  "is_chunk_message (ResponseBody b) = True"
| "is_chunk_message (ResponseStart s hs) = False"

fun chunk_of :: "message \<Rightarrow> str" where
  "chunk_of (ResponseBody b) = b"
| "chunk_of (ResponseStart s hs) = []"

text \<open>What ASGI allows: nothing, or one start and then chunks.\<close>

fun wf_sent :: "message list \<Rightarrow> bool" where
  "wf_sent [] = True"
| "wf_sent (m # ms) = (\<not> is_chunk_message m \<and> list_all is_chunk_message ms)"

fun response_of :: "message list \<Rightarrow> response option" where
  "response_of (ResponseStart s hs # ms) = Some \<lparr>rs_status = s, rs_headers = hs, rs_body = Raw (concat (map chunk_of ms))\<rparr>"
| "response_of _ = None"

definition outcome_of :: "asgi_run \<Rightarrow> outcome" where
  "outcome_of run = \<lparr>o_response = response_of (run_sent run), o_raised = run_raised run,
     o_user_id = run_user_id run, o_request_id = run_request_id run\<rparr>"

text \<open>A response with its envelope written out.\<close>

definition flat :: "(envelope \<Rightarrow> str) \<Rightarrow> outcome \<Rightarrow> outcome" where
  "flat json out = out\<lparr>o_response := map_option (\<lambda>r. r\<lparr>rs_body := Raw (body_bytes json (rs_body r))\<rparr>) (o_response out)\<rparr>"

definition refines :: "(envelope \<Rightarrow> str) \<Rightarrow> asgi \<Rightarrow> app \<Rightarrow> bool" where
  "refines json am a \<longleftrightarrow> (\<forall>q d. wf_sent (run_sent (fst (am q d))) \<and>
     outcome_of (fst (am q d)) = flat json (fst (a q d)) \<and> snd (am q d) = snd (a q d))"

section \<open>Lemmas\<close>

lemma refinesI:
  assumes "\<And>q d. wf_sent (run_sent (fst (am q d)))" "\<And>q d. outcome_of (fst (am q d)) = flat json (fst (a q d))"
    "\<And>q d. snd (am q d) = snd (a q d)"
  shows "refines json am a"
  using assms by (simp add: refines_def)

text \<open>One request on both levels.\<close>

lemma refinesE:
  assumes "refines json am a"
  obtains run out d' where "am q d = (run, d')" "a q d = (out, d')" "wf_sent (run_sent run)" "outcome_of run = flat json out"
  using assms unfolding refines_def by (metis prod.collapse)

lemma flat_simps [simp]:
  "o_raised (flat json out) = o_raised out" "o_user_id (flat json out) = o_user_id out"
  "o_request_id (flat json out) = o_request_id out" "(o_response (flat json out) = None) = (o_response out = None)"
  by (simp_all add: flat_def)

lemma outcome_of_simps [simp]:
  "o_response (outcome_of run) = response_of (run_sent run)" "o_raised (outcome_of run) = run_raised run"
  "o_user_id (outcome_of run) = run_user_id run" "o_request_id (outcome_of run) = run_request_id run"
  by (simp_all add: outcome_of_def)

lemma outcome_of_eq_iff:
  "outcome_of run = flat json out \<longleftrightarrow>
     response_of (run_sent run) = map_option (\<lambda>r. r\<lparr>rs_body := Raw (body_bytes json (rs_body r))\<rparr>) (o_response out) \<and>
     run_raised run = o_raised out \<and> run_user_id run = o_user_id out \<and> run_request_id run = o_request_id out"
  by (cases out) (simp add: outcome_of_def flat_def)

lemma headers_then_body:
  "map_option (\<lambda>r. r\<lparr>rs_headers := f (rs_headers r)\<rparr>) (map_option (\<lambda>r. r\<lparr>rs_body := Raw (body_bytes json (rs_body r))\<rparr>) resp)
   = map_option (\<lambda>r. r\<lparr>rs_body := Raw (body_bytes json (rs_body r))\<rparr>) (map_option (\<lambda>r. r\<lparr>rs_headers := f (rs_headers r)\<rparr>) resp)"
  by (cases resp) simp_all

lemma wf_sent_cases:
  assumes "wf_sent ms"
  obtains "ms = []" | s hs bs where "ms = ResponseStart s hs # map ResponseBody bs"
proof (cases ms)
  case (Cons m rest)
  obtain s hs where m: "m = ResponseStart s hs"
    using assms Cons by (cases m) auto
  have "list_all is_chunk_message rest"
    using assms Cons by simp
  then have "\<exists>bs. rest = map ResponseBody bs"
  proof (induction rest)
    case (Cons x xs)
    then show ?case
      by (cases x) (auto intro: exI [of _ "_ # _"])
  qed simp
  then show ?thesis
    using that(2) Cons m by blast
qed (rule that(1))

lemma chunks_of_bodies [simp]: "map (chunk_of \<circ> ResponseBody) bs = bs"
  by (simp add: comp_def)

lemma wf_respond [simp]: "wf_sent (respond json r)" "respond json r \<noteq> []"
  by (simp_all add: respond_def)

lemma sent_only_simps [simp]:
  "run_sent (sent_only ms) = ms" "run_sent (raised_only e) = []" "run_raised (sent_only ms) = None"
  by (simp_all add: sent_only_def raised_only_def)

lemma outcome_of_respond [simp]: "outcome_of (sent_only (respond json r)) = flat json (responded r)"
  by (simp add: sent_only_def respond_def outcome_of_def flat_def responded_def)

lemma outcome_of_raised [simp]: "outcome_of (raised_only e) = flat json (raised_outcome e)"
  by (simp add: raised_only_def outcome_of_def flat_def raised_outcome_def)

lemma content_type_of_eq: "content_type_of hs = header_get ''content-type'' hs"
proof -
  have "lower ''content-type'' = ''content-type''"
    by code_simp
  then show ?thesis
    by (induction hs) (auto simp: header_get_Cons)
qed

lemma captured_bodies:
  "fold captured_send (map ResponseBody bs) c = c\<lparr>cp_body := cp_body c @ concat bs\<rparr>"
  by (induction bs arbitrary: c) simp_all

lemma captured_of_sent:
  assumes "wf_sent ms" and "response_of ms = map_option (\<lambda>r. r\<lparr>rs_body := Raw (body_bytes json (rs_body r))\<rparr>) resp"
  shows "fold captured_send ms nothing_captured = captured_of json resp"
  using assms(1)
proof (cases rule: wf_sent_cases)
  case 1
  then show ?thesis
    using assms(2) by (cases resp) (simp_all add: nothing_captured_def captured_of_def)
next
  case (2 s hs bs)
  then obtain r where "resp = Some r"
    using assms(2) by (cases resp) auto
  with 2 show ?thesis
    using assms(2) by (cases r) (simp add: nothing_captured_def captured_of_def captured_bodies content_type_of_eq)
qed

lemma capture_bodies:
  "fold (response_capture rid) (map ResponseBody bs) (st, out) = (st, out @ map ResponseBody bs)"
  by (induction bs arbitrary: out) simp_all

lemma buffered_once: "buffered (Suc (Suc n)) body (False, []) = [Inr body]"
  by (simp add: buffered_receive_def)

text \<open>The buffer hands out the body and then whatever the server still sends, in order.\<close>

lemma buffered_rest: "length rest \<le> n \<Longrightarrow> buffered (Suc n) body (False, rest) = Inr body # rest"
proof -
  have "length rest \<le> n \<Longrightarrow> buffered n body (True, rest) = rest"
    by (induction n arbitrary: rest) (auto simp: buffered_receive_def split: list.splits)
  then show "length rest \<le> n \<Longrightarrow> buffered (Suc n) body (False, rest) = Inr body # rest"
    by (simp add: buffered_receive_def)
qed

section \<open>Refinement\<close>

lemma security_headers_refined:
  assumes "refines json am a"
  shows "refines json (asgi_security_headers hsts am) (security_headers hsts a)"
proof -
  have wrapped: "wf_sent (map (wrapped_send hsts) ms)
      \<and> response_of (map (wrapped_send hsts) ms)
        = map_option (\<lambda>r. r\<lparr>rs_headers := add_security_headers hsts (rs_headers r)\<rparr>) (response_of ms)" if "wf_sent ms" for ms
    using that by (cases rule: wf_sent_cases) (auto simp: comp_def list.pred_map list.pred_True)
  have "wf_sent (run_sent (fst (asgi_security_headers hsts am q d)))
      \<and> outcome_of (fst (asgi_security_headers hsts am q d)) = flat json (fst (security_headers hsts a q d))
      \<and> snd (asgi_security_headers hsts am q d) = snd (security_headers hsts a q d)" for q d
  proof -
    obtain run out d' where r: "am q d = (run, d')" "a q d = (out, d')" "wf_sent (run_sent run)" "outcome_of run = flat json out"
      using refinesE [OF assms] .
    then show ?thesis
      using wrapped [OF r(3)]
      by (simp add: asgi_security_headers_def security_headers_def outcome_of_eq_iff headers_then_body on_start_def)
  qed
  then show ?thesis
    by (simp add: refines_def)
qed

lemma body_limit_refined:
  assumes "refines json am a"
  shows "refines json (asgi_body_limit json limit am) (body_limit limit a)"
  using assms
  by (auto simp: refines_def asgi_body_limit_def body_limit_def body_limit_refuse_def split: sum.split)

lemma idem_run_refined:
  assumes "refines json am a"
  shows "wf_sent (run_sent (fst (idem_run mo at am q d)))
    \<and> (let (out, d') = a q d in outcome_of (fst (idem_run mo at am q d)) = flat json out
        \<and> snd (idem_run mo at am q d)
          = idem_finish at (case o_raised out of Some e \<Rightarrow> None | None \<Rightarrow> Some (captured_of json (o_response out))) (mo_finish mo) d')"
proof -
  obtain run out d' where r: "am q d = (run, d')" "a q d = (out, d')" "wf_sent (run_sent run)" "outcome_of run = flat json out"
    using refinesE [OF assms] .
  have "fold captured_send (run_sent run) nothing_captured = captured_of json (o_response out)"
    using r(4) by (intro captured_of_sent [OF r(3)]) (simp add: outcome_of_eq_iff)
  then show ?thesis
    using r by (simp add: idem_run_def outcome_of_eq_iff split: option.split)
qed

lemma idem_replay_outcome:
  "wf_sent (idem_replay stored)"
  "outcome_of (sent_only (idem_replay stored)) = flat json (responded \<lparr>rs_status = sr_status_code stored,
     rs_headers = (REPLAY_HEADER, ''true'') # (case sr_content_type stored of None \<Rightarrow> [] | Some t \<Rightarrow> [(''content-type'', t)]),
     rs_body = Raw (sr_body stored)\<rparr>)"
  by (simp_all add: idem_replay_def sent_only_def outcome_of_def flat_def responded_def body_bytes_def)

lemma idempotency_refined:
  assumes "refines json am a"
  shows "refines json (asgi_idempotency ext s json mo am) (idempotency ext s json mo a)"
proof -
  have "wf_sent (run_sent (fst (asgi_idempotency ext s json mo am q d)))
      \<and> outcome_of (fst (asgi_idempotency ext s json mo am q d)) = flat json (fst (idempotency ext s json mo a q d))
      \<and> snd (asgi_idempotency ext s json mo am q d) = snd (idempotency ext s json mo a q d)" for q d
  proof (cases "idem_intercept ext s (mo_claim mo) (mo_restart mo) (to_http_request q) d")
    case (Inl e)
    then show ?thesis
      by (simp add: asgi_idempotency_def idempotency_def)
  next
    case (Inr vd)
    obtain v d1 where v: "vd = (v, d1)"
      by force
    show ?thesis
    proof (cases v)
      case (RunOnce at)
      have "buffered 2 (at_body at) (False, []) = [Inr (at_body at)]"
        using buffered_once [of 0] by (simp add: numeral_2_eq_2)
      then show ?thesis
        using idem_run_refined [OF assms, of mo at "q\<lparr>q_body := [Inr (at_body at)]\<rparr>" d1] Inr v RunOnce
        by (auto simp: asgi_idempotency_def idempotency_def split: prod.splits)
    next
      case PassThrough
      then show ?thesis
        using Inr v assms by (simp add: asgi_idempotency_def idempotency_def refines_def)
    qed (simp_all add: asgi_idempotency_def idempotency_def Inr v idem_refuse_def idem_replay_outcome)
  qed
  then show ?thesis
    by (simp add: refines_def)
qed

lemma response_captured:
  assumes "wf_sent ms"
  shows "wf_sent (snd (fold (response_capture rid) ms (SERVER_ERROR_STATUS, [])))"
    and "response_of (snd (fold (response_capture rid) ms (SERVER_ERROR_STATUS, [])))
      = map_option (\<lambda>r. r\<lparr>rs_headers := header_set REQUEST_ID_HEADER rid (rs_headers r)\<rparr>) (response_of ms)"
    and "fst (fold (response_capture rid) ms (SERVER_ERROR_STATUS, []))
      = (case response_of ms of Some r \<Rightarrow> rs_status r | None \<Rightarrow> SERVER_ERROR_STATUS)"
  using assms by (cases rule: wf_sent_cases; simp add: capture_bodies list.pred_map comp_def list.pred_True)+

lemma request_logging_refined:
  assumes "refines json am a"
  shows "refines json (asgi_request_logging excluded recorder new_id el am) (request_logging excluded recorder new_id el a)"
proof -
  let ?m = "asgi_request_logging excluded recorder new_id el am" and ?r = "request_logging excluded recorder new_id el a"
  have "wf_sent (run_sent (fst (?m q d))) \<and> outcome_of (fst (?m q d)) = flat json (fst (?r q d)) \<and> snd (?m q d) = snd (?r q d)" for q d
  proof (cases "q_http q")
    case True
    let ?rid = "request_id_of new_id q"
    obtain run out d' where r: "am (tagged ?rid q) d = (run, d')" "a (tagged ?rid q) d = (out, d')" "wf_sent (run_sent run)"
      and eq: "outcome_of run = flat json out"
      using refinesE [OF assms] .
    obtain st sent where cap: "fold (response_capture ?rid) (run_sent run) (SERVER_ERROR_STATUS, []) = (st, sent)"
      by force
    note captured = response_captured [OF r(3), of ?rid, unfolded cap, simplified]
    have "st = (case o_response out of Some x \<Rightarrow> rs_status x | None \<Rightarrow> SERVER_ERROR_STATUS)"
      using captured(3) eq by (cases "o_response out") (simp_all add: outcome_of_eq_iff)
    then show ?thesis
      using True r eq cap captured(1,2)
      by (simp add: asgi_request_logging_def request_logging_def Let_def outcome_of_eq_iff headers_then_body on_start_def
          split: option.split)
  qed (use assms in \<open>simp add: asgi_request_logging_def request_logging_def refines_def\<close>)
  then show ?thesis
    by (simp add: refines_def)
qed

lemma response_of_None: "wf_sent ms \<Longrightarrow> response_of ms = None \<longleftrightarrow> ms = []"
  by (erule wf_sent_cases) simp_all

lemma catch_all_refined:
  assumes "refines json am a"
  shows "refines json (asgi_catch_all json am) (catch_all a)"
proof -
  have "wf_sent (run_sent (fst (asgi_catch_all json am q d)))
      \<and> outcome_of (fst (asgi_catch_all json am q d)) = flat json (fst (catch_all a q d))
      \<and> snd (asgi_catch_all json am q d) = snd (catch_all a q d)" for q d
  proof -
    obtain run out d' where r: "am q d = (run, d')" "a q d = (out, d')" "wf_sent (run_sent run)" "outcome_of run = flat json out"
      using refinesE [OF assms] .
    have "run_sent run = [] \<longleftrightarrow> o_response out = None"
      using r(4) response_of_None [OF r(3)] by (simp add: outcome_of_eq_iff)
    then show ?thesis
      using r
      by (cases "o_raised out"; cases "o_response out")
        (simp_all add: asgi_catch_all_def catch_all_def outcome_of_eq_iff respond_def)
  qed
  then show ?thesis
    by (simp add: refines_def)
qed

section \<open>Properties\<close>

text \<open>
  C25. The stack that handles messages one at a time implements the stack on whole responses. If the routes
  send a well-formed sequence of messages for the response they stand for, and the limiter and the CORS
  middleware keep that correspondence, then the application that \<open>create_app\<close> builds sends, for every request and
  database, nothing or one start message followed by chunks; they carry exactly the status, the headers and the body of the
  response-level stack, the exception and the request's state agree, and so does the database, including the
  stored answer for an idempotency key and the row of the request log.
\<close>

theorem messages_refine_responses:
  assumes "refines json routes_m routes"
    and "\<And>am a. refines json am a \<Longrightarrow> refines json (limiter_m am) (limiter a)"
    and "\<And>am a. refines json am a \<Longrightarrow> refines json (cors_m am) (cors a)"
  shows "refines json (asgi_create_app ext s limiter_m cors_m json mo new_id el routes_m)
    (create_app ext s limiter cors json mo new_id el routes)"
proof -
  let ?inner = "limiter_m (asgi_body_limit json (max_request_body_bytes s) (asgi_idempotency ext s json mo routes_m))"
  have "refines json ?inner (limiter (body_limit (max_request_body_bytes s) (idempotency ext s json mo routes)))"
    by (intro assms(2) body_limit_refined idempotency_refined assms(1))
  note logged = request_logging_refined [OF security_headers_refined [OF this]]
  show ?thesis
    unfolding asgi_create_app_def create_app_def Let_def register_cors_def
    using catch_all_refined [OF logged] catch_all_refined [OF assms(3) [OF logged]] by simp
qed

definition sample_routes_m :: asgi where
  "sample_routes_m q d = (sent_only [ResponseStart 200 [], ResponseBody ''['', ResponseBody '']''], d)"

theorem messages_refine_responses_witness:
  "refines (\<lambda>e. []) sample_routes_m sample_routes
   \<and> refines (\<lambda>e. []) (asgi_create_app plain_ext sample_settings id id (\<lambda>e. []) \<lparr>mo_claim = 1, mo_restart = 1, mo_finish = 1\<rparr> ''abc'' 5
        sample_routes_m)
      (create_app plain_ext sample_settings id id (\<lambda>e. []) \<lparr>mo_claim = 1, mo_restart = 1, mo_finish = 1\<rparr> ''abc'' 5 sample_routes)"
proof -
  have routes: "refines (\<lambda>e. []) sample_routes_m sample_routes"
    by (simp add: refines_def sample_routes_m_def sample_routes_def sent_only_def outcome_of_def flat_def responded_def body_bytes_def)
  show ?thesis
    by (intro conjI routes messages_refine_responses) simp_all
qed

text \<open>
  Every request leaves exactly one line in the log, a warning exactly when it failed, unless its path is excluded and it
  did not raise; the line names the request and the account it turned out to belong to.
\<close>

theorem one_event_per_request:
  assumes "q_http q" and "wf_sent (run_sent (fst (app (tagged (request_id_of new_id q) q) d)))"
    and "asgi_request_logging excluded recorder new_id el app q d = (run, d')"
  shows "let status = (if run_raised run \<noteq> None then 500
        else case response_of (run_sent run) of Some r \<Rightarrow> rs_status r | None \<Rightarrow> 500)
    in run_logged run = run_logged (fst (app (tagged (request_id_of new_id q) q) d))
      @ (if run_raised run = None \<and> q_path q \<in> excluded then []
        else [(if status \<ge> 500 then LogWarning else LogInfo,
               [(''method'', LogStr (q_method q)), (''path'', LogStr (q_path q)), (''status_code'', LogInt status),
                (''duration_us'', LogInt el), (''client_ip'', case q_client q of None \<Rightarrow> LogNone | Some ip \<Rightarrow> LogStr ip),
                (''user_id'', case run_user_id run of None \<Rightarrow> LogNone | Some u \<Rightarrow> LogInt u)])])"
proof -
  let ?rid = "request_id_of new_id q"
  obtain inner d1 where inner: "app (tagged ?rid q) d = (inner, d1)"
    by force
  obtain st sent where cap: "fold (response_capture ?rid) (run_sent inner) (SERVER_ERROR_STATUS, []) = (st, sent)"
    by force
  have wf: "wf_sent (run_sent inner)"
    using assms(2) inner by simp
  note captured = response_captured [OF wf, of ?rid, unfolded cap, simplified]
  have st: "st = (case response_of sent of Some r \<Rightarrow> rs_status r | None \<Rightarrow> 500)"
    using captured(2,3) by (cases "response_of (run_sent inner)") simp_all
  show ?thesis
  proof (cases "run_raised inner")
    case None
    then show ?thesis
      using assms(1,3) inner cap st
      by (auto simp: asgi_request_logging_def Let_def log_request_def request_record_def split: if_splits)
  next
    case (Some e)
    then show ?thesis
      using assms(1,3) inner cap
      by (auto simp: asgi_request_logging_def Let_def log_request_def request_record_def)
  qed
qed

end
