(* ===== verification/AuditSession.thy ===== *)
theory AuditSession
  imports AuditTrail
begin

text \<open>
  The listeners of \<open>listeners.py\<close> over a whole session, with the context variables of \<open>context.py\<close>: any program of
  flushes, failing flushes, bulk statements, commits, rollbacks, context switches, \<open>audit_suppressed\<close> blocks and
  handlers. The code keeps a flag and a buffer between events; the reference reads suppression off
  the program text and has neither.
\<close>

section \<open>Registration\<close>

text \<open>\<open>register_audit_listeners\<close>: the flag \<open>_registered\<close> and how many times the listeners are installed.\<close>

definition register_audit_listeners :: "bool \<times> nat \<Rightarrow> bool \<times> nat" where
  "register_audit_listeners st = (if fst st then st else (True, snd st + 1))"

section \<open>Programs\<close>

text \<open>
  \<open>Flush before after new dirty deleted\<close>: the states of the objects before and after the flush, and the
  session's sets. A flush that fails is rolled back by the session and raises.
\<close>

datatype audit_work =
    Flush store store "ref list" "ref list" "ref list"
  | FailingFlush store "ref list" "ref list" "ref list" exn
  | BulkStatement bool "str option"
  | CommitWork
  | RollbackWork
  | SetAuditContext "AuditContext option"
  | BindActor "ident option" "ident option"
  | Suppressed "audit_work list"
  | Handled "audit_work list"
  | RaiseWork exn

record unit_of_work =
  uw_session :: audit_session
  uw_db :: database
  uw_saved :: database

definition rolled_back :: "unit_of_work \<Rightarrow> unit_of_work" where
  "rolled_back u = u\<lparr>uw_session := after_soft_rollback (uw_session u), uw_db := uw_saved u\<rparr>"

text \<open>Each installed listener runs.\<close>

definition collects :: "nat \<Rightarrow> store \<Rightarrow> ref list \<Rightarrow> ref list \<Rightarrow> ref list \<Rightarrow> audit_session \<Rightarrow> audit_session" where
  "collects n st new dirty deleted s = (before_flush st new dirty deleted ^^ n) s"

definition writes :: "nat \<Rightarrow> store \<Rightarrow> audit_session \<times> database \<Rightarrow> audit_session \<times> database" where
  "writes n st w = ((\<lambda>(s, d). after_flush st s d) ^^ n) w"

text \<open>\<open>set_audit_context\<close>, and \<open>audit_suppressed\<close>: the flag is reset to what it was, whatever the body did.\<close>

definition set_audit_context :: "AuditContext option \<Rightarrow> audit_session \<Rightarrow> audit_session" where
  "set_audit_context c s = s\<lparr>as_context := c\<rparr>"

definition audit_suppressed ::
  "(unit_of_work \<Rightarrow> exn option \<times> unit_of_work) \<Rightarrow> unit_of_work \<Rightarrow> exn option \<times> unit_of_work" where
  "audit_suppressed body u =
     (let token = as_suppressed (uw_session u);
          (r, u') = body (u\<lparr>uw_session := (uw_session u)\<lparr>as_suppressed := True\<rparr>\<rparr>)
      in (r, u'\<lparr>uw_session := (uw_session u')\<lparr>as_suppressed := token\<rparr>\<rparr>))"

fun run_work :: "nat \<Rightarrow> audit_work \<Rightarrow> unit_of_work \<Rightarrow> exn option \<times> unit_of_work"
  and run_all :: "nat \<Rightarrow> audit_work list \<Rightarrow> unit_of_work \<Rightarrow> exn option \<times> unit_of_work" where
  "run_work n (Flush st st' new dirty deleted) u =
     (let (s, d) = writes n st' (collects n st new dirty deleted (uw_session u), uw_db u)
      in (None, u\<lparr>uw_session := s, uw_db := d\<rparr>))"
| "run_work n (FailingFlush st new dirty deleted e) u =
     (Some e, rolled_back (u\<lparr>uw_session := collects n st new dirty deleted (uw_session u)\<rparr>))"
| "run_work n (BulkStatement upd table) u =
     (if n = 0 then (None, u)
      else (case refuse_silent_bulk (uw_session u) upd table of Inl e \<Rightarrow> (Some e, u) | Inr _ \<Rightarrow> (None, u)))"
| "run_work n CommitWork u = (None, u\<lparr>uw_saved := uw_db u\<rparr>)"
| "run_work n RollbackWork u = (None, rolled_back u)"
| "run_work n (SetAuditContext c) u = (None, u\<lparr>uw_session := set_audit_context c (uw_session u)\<rparr>)"
| "run_work n (BindActor a i) u =
     (None, u\<lparr>uw_session := (uw_session u)\<lparr>as_context := bind_actor a i (as_context (uw_session u))\<rparr>\<rparr>)"
| "run_work n (Suppressed ws) u =
     audit_suppressed (\<lambda>u. run_all n ws u) u"
| "run_work n (Handled ws) u = (None, snd (run_all n ws u))"
| "run_work n (RaiseWork e) u = (Some e, u)"
| "run_all n [] u = (None, u)"
| "run_all n (w # ws) u =
     (case run_work n w u of (Some e, u') \<Rightarrow> (Some e, u') | (None, u') \<Rightarrow> run_all n ws u')"

section \<open>The reference\<close>

text \<open>
  What the trail should be: a flush outside every \<open>audit_suppressed\<close> block writes the rows of its changes under the
  context of that moment, once; a flush inside one writes nothing; a bulk statement on an audited
  table is refused exactly outside.
\<close>

record audit_view =
  av_context :: "AuditContext option"
  av_db :: database
  av_saved :: database

fun lexical_work :: "bool \<Rightarrow> audit_work \<Rightarrow> audit_view \<Rightarrow> exn option \<times> audit_view"
  and lexical_all :: "bool \<Rightarrow> audit_work list \<Rightarrow> audit_view \<Rightarrow> exn option \<times> audit_view" where
  "lexical_work hidden (Flush st st' new dirty deleted) v =
     (None, if hidden then v
            else v\<lparr>av_db := fold audit_create (audit_rows (av_context v) st' (collect st new dirty deleted)) (av_db v)\<rparr>)"
| "lexical_work hidden (FailingFlush st new dirty deleted e) v = (Some e, v\<lparr>av_db := av_saved v\<rparr>)"
| "lexical_work hidden (BulkStatement upd table) v =
     (if \<not> hidden \<and> upd \<and> (case table of None \<Rightarrow> False | Some t \<Rightarrow> is_audited t)
      then (Some (RuntimeError ''UnauditedBulkMutation''), v) else (None, v))"
| "lexical_work hidden CommitWork v = (None, v\<lparr>av_saved := av_db v\<rparr>)"
| "lexical_work hidden RollbackWork v = (None, v\<lparr>av_db := av_saved v\<rparr>)"
| "lexical_work hidden (SetAuditContext c) v = (None, v\<lparr>av_context := c\<rparr>)"
| "lexical_work hidden (BindActor a i) v = (None, v\<lparr>av_context := bind_actor a i (av_context v)\<rparr>)"
| "lexical_work hidden (Suppressed ws) v = lexical_all True ws v"
| "lexical_work hidden (Handled ws) v = (None, snd (lexical_all hidden ws v))"
| "lexical_work hidden (RaiseWork e) v = (Some e, v)"
| "lexical_all hidden [] v = (None, v)"
| "lexical_all hidden (w # ws) v =
     (case lexical_work hidden w v of (Some e, v') \<Rightarrow> (Some e, v') | (None, v') \<Rightarrow> lexical_all hidden ws v')"

section \<open>Refinement\<close>

definition at_rest :: "bool \<Rightarrow> audit_view \<Rightarrow> unit_of_work" where
  "at_rest hidden v = \<lparr>uw_session = \<lparr>as_suppressed = hidden, as_context = av_context v, as_pending = []\<rparr>,
     uw_db = av_db v, uw_saved = av_saved v\<rparr>"

lemma registered_once: "snd ((register_audit_listeners ^^ Suc k) (False, 0)) = 1"
proof -
  have "(register_audit_listeners ^^ Suc k) (False, 0) = (True, 1)"
    by (induction k) (simp_all add: register_audit_listeners_def)
  then show ?thesis
    by simp
qed

lemma flush_at_rest:
  "run_work 1 (Flush st st' new dirty deleted) (at_rest hidden v)
   = (None, at_rest hidden (snd (lexical_work hidden (Flush st st' new dirty deleted) v)))"
  by (simp add: at_rest_def writes_def collects_def before_flush_def after_flush_def)

lemma bulk_at_rest:
  "run_work 1 (BulkStatement upd table) (at_rest hidden v)
   = (fst (lexical_work hidden (BulkStatement upd table) v), at_rest hidden v)"
  by (simp add: at_rest_def refuse_silent_bulk_def split: option.split)

lemma run_refines_lexical:
  "run_work 1 w (at_rest hidden v) = (fst (lexical_work hidden w v), at_rest hidden (snd (lexical_work hidden w v)))"
  "run_all 1 ws (at_rest hidden v) = (fst (lexical_all hidden ws v), at_rest hidden (snd (lexical_all hidden ws v)))"
proof (induction hidden w v and hidden ws v rule: lexical_work_lexical_all.induct)
  case (1 hidden st st' new dirty deleted v)
  show ?case
    using flush_at_rest by simp
next
  case (2 hidden st new dirty deleted e v)
  show ?case
    by (simp add: at_rest_def rolled_back_def collects_def before_flush_def after_soft_rollback_def)
next
  case (3 hidden upd table v)
  show ?case
    using bulk_at_rest by simp
next
  case (8 hidden ws v)
  have "(at_rest hidden v)\<lparr>uw_session := (uw_session (at_rest hidden v))\<lparr>as_suppressed := True\<rparr>\<rparr> = at_rest True v"
    by (simp add: at_rest_def)
  then show ?case
    using 8 by (simp add: audit_suppressed_def at_rest_def)
qed (simp_all add: at_rest_def rolled_back_def set_audit_context_def after_soft_rollback_def split: prod.split option.split)

section \<open>Properties\<close>

text \<open>
  C16. The trail follows the program text. However often the listeners are registered, and whatever a session does
  (flushes, failures, commits and rollbacks, bulk statements, changes of the acting account, and
  \<open>audit_suppressed\<close> blocks nested in each other and in exception handlers), it ends as the reference does: each flush
  outside every such block has written the rows of its changes exactly once, under the account acting
  then, each flush inside one has written none, a bulk statement on an audited table was refused exactly
  outside them; a block that raises leaves auditing as it found it, and no entry is left in the buffer.
\<close>

theorem suppression_is_lexical:
  assumes "as_pending (uw_session u) = []"
    and "run_all (snd ((register_audit_listeners ^^ Suc k) (False, 0))) ws u = (r, u')"
    and "lexical_all (as_suppressed (uw_session u)) ws
      \<lparr>av_context = as_context (uw_session u), av_db = uw_db u, av_saved = uw_saved u\<rparr> = (r', v)"
  shows "r = r' \<and> uw_db u' = av_db v \<and> uw_saved u' = av_saved v \<and> as_context (uw_session u') = av_context v
    \<and> as_suppressed (uw_session u') = as_suppressed (uw_session u) \<and> as_pending (uw_session u') = []"
proof -
  let ?v = "\<lparr>av_context = as_context (uw_session u), av_db = uw_db u, av_saved = uw_saved u\<rparr>"
  have "u = at_rest (as_suppressed (uw_session u)) ?v"
    using assms(1) by (cases u; cases "uw_session u") (simp add: at_rest_def)
  then have "run_all 1 ws u = (r', at_rest (as_suppressed (uw_session u)) v)"
    using run_refines_lexical(2) [of ws "as_suppressed (uw_session u)" ?v] assms(3) by simp
  then have "r = r'" "u' = at_rest (as_suppressed (uw_session u)) v"
    using assms(2) unfolding registered_once by simp_all
  then show ?thesis
    by (simp add: at_rest_def)
qed

definition sample_uow :: unit_of_work where
  "sample_uow = \<lparr>uw_session = sample_session, uw_db = empty_db, uw_saved = empty_db\<rparr>"

definition sample_flush_work :: audit_work where
  "sample_flush_work = Flush (\<lambda>_. sample_object None) (\<lambda>_. sample_object (Some [''7''])) [0] [] []"

definition sample_work :: "audit_work list" where
  "sample_work = [sample_flush_work, Handled [Suppressed [sample_flush_work, RaiseWork (KeyError ''x'')]], sample_flush_work]"

theorem suppression_is_lexical_witness:
  "length (t_audit_logs (uw_db (snd (run_all (snd ((register_audit_listeners ^^ Suc 1) (False, 0))) sample_work sample_uow)))) = 2"
proof -
  have rest: "as_pending (uw_session sample_uow) = []"
    by (simp add: sample_uow_def sample_session_def)
  have rows: "length (audit_rows c (\<lambda>_. sample_object (Some [''7''])) (collect (\<lambda>_. sample_object None) [0] [] [])) = 1" for c
    by (simp add: audit_rows_def collect_def collect_new_def audited_table_def sample_object_def is_audited_def EXCLUDED_TABLES_def
        links_def loaded_columns_def is_ignored_def IGNORED_COLUMNS_def changes_from_def)
  have len: "length (t_audit_logs (fold audit_create es d)) = length (t_audit_logs d) + length es" for es d
    by (induction es arbitrary: d) simp_all
  have "length (t_audit_logs (av_db (snd (lexical_all (as_suppressed (uw_session sample_uow)) sample_work
      \<lparr>av_context = as_context (uw_session sample_uow), av_db = uw_db sample_uow, av_saved = uw_saved sample_uow\<rparr>)))) = 2"
    by (simp add: sample_work_def sample_flush_work_def sample_uow_def sample_session_def len rows empty_db_def)
  then show ?thesis
    using suppression_is_lexical [OF rest, of 1 sample_work] by (metis prod.collapse)
qed

end
