(* ===== verification/BlobStorage.thy ===== *)
theory BlobStorage
  imports Attachments
begin

text \<open>
  \<open>app/core/storage/local.py\<close> on files: \<open>LocalStorage\<close> below its root, with the generator \<open>_bounded\<close> of the attachment
  service as the stream it saves and the chunks it reads back. For the keys that the service draws
  it implements the map from keys to bytes that theory \<open>Attachments\<close> uses; for no key whatever
  does it read or touch a file outside its root.
\<close>

section \<open>Streams\<close>

text \<open>
  What consuming \<open>_bounded\<close> does, step by step: chunks to write, the deletion of the blob when the limit is
  passed (unless that raises), and the exception that ends it.
\<close>

datatype stream_event = Yield str | DeleteBlob | StreamFails exn

abbreviation too_large :: "int \<Rightarrow> exn" where
  "too_large limit \<equiv> Domain (make_error PayloadTooLargeError TOO_LARGE (Some ATTACHMENT_TOO_LARGE) (Some [(''limit'', PInt limit)]))"

fun bounded :: "exn option \<Rightarrow> int \<Rightarrow> int \<Rightarrow> chunk list \<Rightarrow> stream_event list" where
  "bounded undeletable limit written [] = []"
| "bounded undeletable limit written (SourceError e # cs) = [StreamFails e]"
| "bounded undeletable limit written (Chunk c # cs) =
     (if written + int (length c) > limit
      then (case undeletable of Some e \<Rightarrow> [StreamFails e] | None \<Rightarrow> [DeleteBlob, StreamFails (too_large limit)])
      else Yield c # bounded undeletable limit (written + int (length c)) cs)"

section \<open>Files\<close>

type_synonym disk = "str list \<rightharpoonup> str"

abbreviation READ_CHUNK_BYTES :: nat where "READ_CHUNK_BYTES \<equiv> 64 * 1024"

text \<open>\<open>_path\<close>, and the directory that the root itself is.\<close>

definition local_path :: "str list \<Rightarrow> str \<Rightarrow> str list result" where
  "local_path root key = rbind (storage_path root key) (\<lambda>p. if p = root then Inl (RuntimeError ''IsADirectoryError'') else Inr p)"

text \<open>
  The handle writes at \<open>path\<close> as long as the file is there; an unlinked file takes what is still written
  with it. The size counts the chunks that were yielded.
\<close>

fun write_stream :: "str \<Rightarrow> str list \<Rightarrow> int \<Rightarrow> stream_event list \<Rightarrow> disk \<Rightarrow> StoredFile result \<times> disk" where
  "write_stream key path n [] fs = (Inr \<lparr>sf_key = key, sf_size_bytes = n\<rparr>, fs)"
| "write_stream key path n (Yield c # es) fs =
     write_stream key path (n + int (length c)) es (fs(path := map_option (\<lambda>b. b @ c) (fs path)))"
| "write_stream key path n (DeleteBlob # es) fs = write_stream key path n es (fs(path := None))"
| "write_stream key path n (StreamFails e # es) fs = (Inl e, fs)"

definition local_save :: "str list \<Rightarrow> faults \<Rightarrow> str \<Rightarrow> stream_event list \<Rightarrow> disk \<Rightarrow> StoredFile result \<times> disk" where
  "local_save root fl key es fs =
     (case local_path root key of
        Inl e \<Rightarrow> (Inl e, fs)
      | Inr path \<Rightarrow>
          (case f_create fl key of
             Some e \<Rightarrow> (Inl e, fs)
           | None \<Rightarrow> write_stream key path 0 es (fs(path \<mapsto> []))))"

text \<open>\<open>while chunk := handle.read(READ_CHUNK_BYTES)\<close>.\<close>

function read_chunks :: "nat \<Rightarrow> str \<Rightarrow> str list" where
  "read_chunks n content = (if n = 0 \<or> content = [] then [] else take n content # read_chunks n (drop n content))"
  by pat_completeness auto

termination
  by (relation "measure (\<lambda>(n, content). length content)") auto

declare read_chunks.simps [simp del]

definition local_open :: "str list \<Rightarrow> str \<Rightarrow> disk \<Rightarrow> str list result" where
  "local_open root key fs =
     rbind (local_path root key) (\<lambda>path.
       case fs path of None \<Rightarrow> Inl (RuntimeError ''FileNotFoundError'') | Some b \<Rightarrow> Inr (read_chunks READ_CHUNK_BYTES b))"

text \<open>\<open>unlink(missing_ok=True)\<close>.\<close>

definition local_delete :: "str list \<Rightarrow> faults \<Rightarrow> str \<Rightarrow> disk \<Rightarrow> exn option \<times> disk" where
  "local_delete root fl key fs =
     (case local_path root key of
        Inl e \<Rightarrow> (Some e, fs)
      | Inr path \<Rightarrow> (case f_delete fl key of Some e \<Rightarrow> (Some e, fs) | None \<Rightarrow> (None, fs(path := None))))"

section \<open>Keys\<close>

text \<open>The names that a key of the service, 32 hexadecimal digits, is one of.\<close>

definition plain_key :: "str \<Rightarrow> bool" where
  "plain_key k \<longleftrightarrow> k \<noteq> [] \<and> CHR ''/'' \<notin> set k \<and> k \<noteq> ''.'' \<and> k \<noteq> ''..''"

definition blobs_of :: "str list \<Rightarrow> disk \<Rightarrow> blobs" where
  "blobs_of root fs = (\<lambda>k. if plain_key k then fs (root @ [k]) else None)"

section \<open>Lemmas\<close>

lemma hex_key_plain:
  assumes "length k = 32" "\<forall>c\<in>set k. c \<in> set ''0123456789abcdef''"
  shows "plain_key k"
proof -
  have "CHR ''/'' \<notin> set ''0123456789abcdef''"
    by simp
  then have "CHR ''/'' \<notin> set k"
    using assms(2) by blast
  moreover have "k \<noteq> []" "k \<noteq> ''.''" "k \<noteq> ''..''"
    using assms(1) by force+
  ultimately show ?thesis
    by (simp add: plain_key_def)
qed

lemma split_on_plain: "c \<notin> set k \<Longrightarrow> split_on c k = [k]"
  by (induction k) auto

lemma local_path_plain: "plain_key k \<Longrightarrow> local_path root k = Inr (root @ [k])"
  by (cases k) (auto simp: local_path_def storage_path_def plain_key_def split_on_plain startswith_def)

lemma local_path_inside: "local_path root k = Inr p \<Longrightarrow> take (length root) p = root \<and> p \<noteq> root"
  by (auto simp: local_path_def storage_path_def Let_def rbind_eq_Inr split: if_splits)

lemma write_stream_frame:
  "write_stream key path n es fs = (r, fs') \<Longrightarrow> p \<noteq> path \<Longrightarrow> fs' p = fs p"
  by (induction key path n es fs rule: write_stream.induct) auto

lemma concat_read_chunks: "0 < n \<Longrightarrow> concat (read_chunks n b) = b"
  by (induction n b rule: read_chunks.induct) (subst read_chunks.simps, auto)

lemma read_chunks_sizes: "c \<in> set (read_chunks n b) \<Longrightarrow> c \<noteq> [] \<and> length c \<le> n"
  by (induction n b rule: read_chunks.induct) (subst (asm) read_chunks.simps, auto split: if_splits)

lemma write_bounded:
  assumes "fs path = Some written"
  shows "fst (write_stream key path (int (length written)) (bounded und limit (int (length written)) cs) fs)
      = fst (save_bounded und limit key written cs blobs)"
    and "snd (write_stream key path (int (length written)) (bounded und limit (int (length written)) cs) fs) path
      = snd (save_bounded und limit key written cs blobs) key"
  using assms by (induction und limit key written cs blobs arbitrary: fs rule: save_bounded.induct) (auto split: option.split)

lemma save_bounded_frame: "k \<noteq> key \<Longrightarrow> snd (save_bounded und limit key written cs b) k = b k"
  by (induction und limit key written cs b rule: save_bounded.induct) (simp_all split: option.split)

lemma local_save_plain:
  assumes "plain_key key" and "local_save root fl key (bounded (f_delete fl key) limit 0 cs) fs = (r, fs')"
  shows "(r, blobs_of root fs') = storage_save fl limit key cs (blobs_of root fs)"
proof (cases "f_create fl key")
  case (Some e)
  then show ?thesis using assms by (simp add: local_save_def local_path_plain storage_save_def)
next
  case None
  let ?fs = "fs(root @ [key] \<mapsto> [])" and ?save = "save_bounded (f_delete fl key) limit key [] cs (blobs_of root fs)"
  have w: "write_stream key (root @ [key]) 0 (bounded (f_delete fl key) limit 0 cs) ?fs = (r, fs')"
    using assms None by (simp add: local_save_def local_path_plain)
  have "fst ?save = r" and here: "snd ?save key = fs' (root @ [key])"
    using write_bounded [of ?fs "root @ [key]" "[]" key "f_delete fl key" limit cs "blobs_of root fs"] w by simp_all
  moreover have "blobs_of root fs' k = snd ?save k" for k
  proof (cases "k = key")
    case True
    then show ?thesis
      using here assms(1) by (simp add: blobs_of_def)
  next
    case False
    then show ?thesis
      using write_stream_frame [OF w, of "root @ [k]"] by (simp add: blobs_of_def save_bounded_frame)
  qed
  ultimately show ?thesis
    using None by (simp add: storage_save_def) (metis ext prod.collapse)
qed

lemma local_save_confined:
  assumes "local_save root fl key es fs = (r, fs')" "take (length root) p \<noteq> root"
  shows "fs' p = fs p"
proof (cases "local_path root key")
  case (Inl e)
  then show ?thesis
    using assms(1) by (simp add: local_save_def)
next
  case (Inr path)
  then have "p \<noteq> path"
    using local_path_inside assms(2) by blast
  then show ?thesis
    using assms(1) Inr write_stream_frame by (fastforce simp: local_save_def split: option.splits)
qed

lemma local_delete_confined:
  "local_delete root fl key fs = (r, fs') \<Longrightarrow> take (length root) p \<noteq> root \<Longrightarrow> fs' p = fs p"
  using local_path_inside [of root key] by (auto simp: local_delete_def split: sum.splits option.splits)

text \<open>A read depends only on the files below the root.\<close>

lemma local_open_confined:
  "(\<And>p. take (length root) p = root \<Longrightarrow> fs2 p = fs p) \<Longrightarrow> local_open root key fs2 = local_open root key fs"
  using local_path_inside [of root key] by (cases "local_path root key") (simp_all add: local_open_def)

section \<open>Properties\<close>

text \<open>
  C10. The files of the local storage implement the map from keys to bytes. For a key like those the service draws,
  saving a bounded stream answers what the map answers and leaves the map's bytes, also when the limit is
  passed, when the source fails midway and when the storage fails to create or delete the file; reading
  yields the stored bytes in non-empty chunks of at most 64 KiB; a deletion that does not fail removes that key alone, and one that fails removes nothing.
  And for every key whatever, also one with slashes and dots, saving and deleting change no file outside
  the root, and reading gives the same answer whatever the files outside the root are.
\<close>

theorem local_storage_implements_blobs:
  assumes "plain_key key" and "local_save root fl key (bounded (f_delete fl key) limit 0 cs) fs = (r, fs')"
    and "local_delete root fl key fs = (e, fs'')"
    and "local_save root fl anykey es fs = (r2, fs2)" and "local_delete root fl anykey fs = (e3, fs3)"
  shows "(r, blobs_of root fs') = storage_save fl limit key cs (blobs_of root fs)
    \<and> (case blobs_of root fs key of
         None \<Rightarrow> isl (local_open root key fs)
       | Some b \<Rightarrow> \<exists>chunks. local_open root key fs = Inr chunks \<and> concat chunks = b \<and> (\<forall>c\<in>set chunks. c \<noteq> [] \<and> length c \<le> 65536))
    \<and> e = f_delete fl key \<and> blobs_of root fs'' = (if e = None then (blobs_of root fs)(key := None) else blobs_of root fs)
    \<and> (\<forall>p. take (length root) p \<noteq> root \<longrightarrow> fs2 p = fs p \<and> fs3 p = fs p)
    \<and> (\<forall>fs4. (\<forall>p. take (length root) p = root \<longrightarrow> fs4 p = fs p) \<longrightarrow> local_open root anykey fs4 = local_open root anykey fs)"
proof -
  have "case blobs_of root fs key of
         None \<Rightarrow> isl (local_open root key fs)
       | Some b \<Rightarrow> \<exists>chunks. local_open root key fs = Inr chunks \<and> concat chunks = b \<and> (\<forall>c\<in>set chunks. c \<noteq> [] \<and> length c \<le> 65536)"
    using concat_read_chunks [of READ_CHUNK_BYTES] read_chunks_sizes [of _ READ_CHUNK_BYTES]
    by (simp add: blobs_of_def assms(1) local_open_def local_path_plain [OF assms(1)] split: option.split)
  moreover have "e = f_delete fl key \<and> blobs_of root fs'' = (if e = None then (blobs_of root fs)(key := None) else blobs_of root fs)"
    using assms(1,3) by (auto simp: local_delete_def local_path_plain blobs_of_def split: option.splits)
  moreover have "\<forall>p. take (length root) p \<noteq> root \<longrightarrow> fs2 p = fs p \<and> fs3 p = fs p"
    using local_save_confined [OF assms(4)] local_delete_confined [OF assms(5)] by blast
  ultimately show ?thesis
    using local_save_plain [OF assms(1,2)] local_open_confined [of root _ fs anykey] by blast
qed

theorem local_storage_implements_blobs_witness:
  "fst (local_save [''data''] no_faults ''k'' (bounded None 3 0 [Chunk ''ab'', Chunk ''c'']) Map.empty) = Inr \<lparr>sf_key = ''k'', sf_size_bytes = 3\<rparr>
   \<and> blobs_of [''data''] (snd (local_save [''data''] no_faults ''k'' (bounded None 3 0 [Chunk ''ab'', Chunk ''c'']) Map.empty)) ''k'' = Some ''abc''
   \<and> snd (local_save [''data''] no_faults ''../etc'' [Yield ''x''] Map.empty) [''etc''] = None
   \<and> local_open [''data''] ''../etc'' [[''etc''] \<mapsto> ''secret''] = local_open [''data''] ''../etc'' Map.empty"
proof -
  have key: "plain_key ''k''"
    by (simp add: plain_key_def)
  have outside: "take (length [''data'']) [''etc''] \<noteq> [''data'']"
    by simp
  obtain r fs' where save: "local_save [''data''] no_faults ''k'' (bounded None 3 0 [Chunk ''ab'', Chunk ''c'']) Map.empty = (r, fs')"
    by force
  obtain e fs'' where del: "local_delete [''data''] no_faults ''k'' Map.empty = (e, fs'')"
    by force
  obtain r2 fs2 where other: "local_save [''data''] no_faults ''../etc'' [Yield ''x''] Map.empty = (r2, fs2)"
    by force
  obtain e3 fs3 where other_del: "local_delete [''data''] no_faults ''../etc'' Map.empty = (e3, fs3)"
    by force
  have none: "f_delete no_faults k = None" "f_create no_faults k = None" for k
    by (simp_all add: no_faults_def)
  note law = local_storage_implements_blobs [OF key save [folded none(1) [of "''k''"]] del other other_del]
  have "storage_save no_faults 3 ''k'' [Chunk ''ab'', Chunk ''c''] (blobs_of [''data''] Map.empty)
      = (Inr \<lparr>sf_key = ''k'', sf_size_bytes = 3\<rparr>, (blobs_of [''data''] Map.empty)(''k'' \<mapsto> ''abc''))"
    by (simp add: storage_save_def none)
  then have "(r, blobs_of [''data''] fs') = (Inr \<lparr>sf_key = ''k'', sf_size_bytes = 3\<rparr>, (blobs_of [''data''] Map.empty)(''k'' \<mapsto> ''abc''))"
    using law by (elim conjE) (simp only:)
  then have "r = Inr \<lparr>sf_key = ''k'', sf_size_bytes = 3\<rparr>" "blobs_of [''data''] fs' ''k'' = Some ''abc''"
    by simp_all
  moreover have "fs2 [''etc''] = None"
    using law outside by (elim conjE allE [of _ "[''etc'']"]) simp
  moreover have "local_open [''data''] ''../etc'' [[''etc''] \<mapsto> ''secret''] = local_open [''data''] ''../etc'' Map.empty"
    using law outside by (elim conjE allE [of _ "[[''etc''] \<mapsto> ''secret'']"]) simp
  ultimately show ?thesis
    unfolding save other by simp
qed

end
