(* ===== verification/Commands.thy ===== *)
theory Commands
  imports Cli Startup ApiInvariant
begin

text \<open>
  \<open>app/cli/main.py\<close> and the two prune scripts: what a command opens, what it prints, and that it leaves
  the process without an open engine. The actions are those of theory \<open>Cli\<close>, the engine is that of
  theory \<open>Startup\<close>.
\<close>

section \<open>Commands\<close>

text \<open>
  A coroutine of \<open>actions.py\<close> run in a process: its result, \<open>None\<close> when it does not return, and the engine
  cache afterwards.
\<close>

type_synonym 'w coroutine = "proc \<Rightarrow> (str \<times> 'w) result option \<times> proc"

text \<open>What the terminal shows: the message, a usage error, or a traceback.\<close>

datatype 'w console = Echoed str 'w | BadParameter str | Raised exn

definition in_session :: "(str \<times> 'w) result option \<Rightarrow> 'w coroutine" where
  "in_session r p = (r, snd (get_session_factory p))"

fun shown :: "(str \<times> 'w) result \<Rightarrow> 'w console" where
  "shown (Inr (message, w)) = Echoed message w"
| "shown (Inl (Domain e)) = BadParameter (err_detail e)"
| "shown (Inl e) = Raised e"

definition cli_run :: "'w coroutine \<Rightarrow> proc \<Rightarrow> ('w console \<times> proc) option" where
  "cli_run work p = (let (r, p') = work p in map_option (\<lambda>r. (shown r, dispose_engine p')) r)"

text \<open>
  The commands, with the arguments that Typer parsed or prompted for. \<open>cm_now\<close> is the clock a command
  reads, \<open>cm_clock\<close> the clocks of the three drains of \<open>prune\<close>.
\<close>

datatype command =
    CreateSuperuser str str
  | GrantRole str str
  | VerifyEmail str
  | Seed
  | DemoSeed bool
  | Prune

record command_env =
  cm_ext :: ext
  cm_settings :: Settings
  cm_salt :: str
  cm_now :: time
  cm_clock :: "nat \<Rightarrow> nat \<Rightarrow> time"

definition beside :: "blobs \<Rightarrow> (str \<times> database) result \<Rightarrow> (str \<times> database \<times> blobs) result" where
  "beside b r = map_sum id (\<lambda>(message, d). (message, d, b)) r"

primrec action :: "command_env \<Rightarrow> command \<Rightarrow> database \<times> blobs \<Rightarrow> (database \<times> blobs) coroutine" where
  "action v (CreateSuperuser email password) w =
     in_session (Some (beside (snd w) (create_superuser (cm_ext v) (cm_salt v) (cm_now v) email password (fst w))))"
| "action v (GrantRole email name) w = in_session (Some (beside (snd w) (grant_role email name (fst w))))"
| "action v (VerifyEmail email) w = in_session (Some (beside (snd w) (cli_verify_email (cm_now v) email (fst w))))"
| "action v Seed w = in_session (Some (beside (snd w) (seed (fst w))))"
| "action v (DemoSeed if_enabled) w =
     (let r = Some (demo_seed (cm_ext v) (cm_settings v) (cm_salt v) (cm_now v) if_enabled w) in
      if if_enabled \<and> \<not> demo_data_enabled (cm_settings v) then Pair r else in_session r)"
| "action v Prune w =
     in_session (map_option (\<lambda>r. beside (snd w) (Inr r))
       (prune (cm_settings v) (cm_clock v 0) (cm_clock v 1) (cm_clock v 2) (cm_now v) (fst w)))"

definition cli :: "command_env \<Rightarrow> command \<Rightarrow> database \<times> blobs \<Rightarrow> proc \<Rightarrow> ((database \<times> blobs) console \<times> proc) option" where
  "cli v c w = cli_run (action v c w)"

section \<open>Scripts\<close>

text \<open>
  \<open>int(sys.argv[1])\<close>, or the setting. Unlike \<open>_run\<close>, a script disposes the engine on the way out only.
\<close>

definition retention_argument :: "str list \<Rightarrow> int \<Rightarrow> int result" where
  "retention_argument argv fallback =
     (case argv of
        [] \<Rightarrow> Inr fallback
      | a # _ \<Rightarrow> (case py_int a of None \<Rightarrow> Inl (ValueError ''invalid literal for int()'') | Some n \<Rightarrow> Inr n))"

definition script_prune_audit :: "(nat \<Rightarrow> time) \<Rightarrow> int \<Rightarrow> database \<Rightarrow> proc \<Rightarrow> (int \<times> database \<times> proc) option" where
  "script_prune_audit clock n d p =
     map_option (\<lambda>(removed, d'). (removed, d', dispose_engine (snd (get_session_factory p))))
       (prune_audit_log clock (days n) d)"

definition script_prune_requests ::
  "(nat \<Rightarrow> time) \<Rightarrow> time \<Rightarrow> int \<Rightarrow> database \<Rightarrow> proc \<Rightarrow> ((int \<times> int) \<times> database \<times> proc) option" where
  "script_prune_requests clock now n d p =
     map_option (\<lambda>(logs, d1). let (tokens, d2) = expire_tokens now d1
         in ((logs, tokens), d2, dispose_engine (snd (get_session_factory p))))
       (prune_request_log clock (days n) d)"

definition prune_audit_log_main ::
  "Settings \<Rightarrow> str list \<Rightarrow> (nat \<Rightarrow> time) \<Rightarrow> database \<Rightarrow> proc \<Rightarrow> (str \<times> database \<times> proc) option result" where
  "prune_audit_log_main s argv clock d p =
     map_sum id (\<lambda>n. map_option (\<lambda>(removed, rest). (''removed '' @ show_int removed @ '' audit rows'', rest))
         (script_prune_audit clock n d p))
       (retention_argument argv (audit_log_retention_days s))"

definition prune_request_log_main ::
  "Settings \<Rightarrow> str list \<Rightarrow> (nat \<Rightarrow> time) \<Rightarrow> time \<Rightarrow> database \<Rightarrow> proc \<Rightarrow> (str \<times> database \<times> proc) option result" where
  "prune_request_log_main s argv clock now d p =
     map_sum id (\<lambda>n. map_option (\<lambda>((logs, tokens), rest).
           (''removed '' @ show_int logs @ '' request rows and '' @ show_int tokens @ '' expired tokens'', rest))
         (script_prune_requests clock now n d p))
       (retention_argument argv (request_log_retention_days s))"

section \<open>The engine\<close>

lemma disposed_all:
  assumes "engine_inv p"
  shows "pr_engine (dispose_engine p) = None \<and> pr_factory (dispose_engine p) = None
    \<and> pr_disposed (dispose_engine p) = {e. e < pr_made (dispose_engine p)} \<and> pr_made (dispose_engine p) = pr_made p"
  using assms by (auto simp: engine_inv_def dispose_engine_def Let_def split: option.splits)

lemma action_proc:
  assumes "engine_inv p"
  shows "engine_inv (snd (action v c w p))"
proof -
  have "engine_inv (snd (get_session_factory p))"
    using get_session_factory_inv [OF assms] by (metis prod.collapse)
  then show ?thesis
    using assms by (cases c) (simp_all add: in_session_def Let_def)
qed

lemma cli_releases:
  assumes "engine_inv p" "cli v c w p = Some (out, q)"
  shows "pr_engine q = None \<and> pr_factory q = None \<and> pr_disposed q = {e. e < pr_made q} \<and> engine_inv q"
proof -
  have "q = dispose_engine (snd (action v c w p))"
    using assms(2) by (auto simp: cli_def cli_run_def case_prod_unfold Let_def)
  then show ?thesis
    using disposed_all dispose_engine_inv action_proc [OF assms(1)] by metis
qed

section \<open>Commands return\<close>

text \<open>The rows of the three logs, identified by their keys.\<close>

definition logs_keyed :: "database \<Rightarrow> bool" where
  "logs_keyed d \<longleftrightarrow> distinct (map al_id (t_audit_logs d)) \<and> distinct (map rl_id (t_request_logs d))
     \<and> distinct (map ik_id (t_idempotency_keys d))"

text \<open>A batch of one log does not touch the others.\<close>

lemma prune_batch_others:
  "t_request_logs (snd (audit_log_prune_batch now retention n d)) = t_request_logs d
   \<and> t_idempotency_keys (snd (audit_log_prune_batch now retention n d)) = t_idempotency_keys d"
  "t_idempotency_keys (snd (request_log_prune_batch now retention n d)) = t_idempotency_keys d"
  by (simp_all add: audit_log_prune_batch_def request_log_prune_batch_def prune_before_def audit_log_delete_batch_def
      request_log_delete_batch_def Let_def case_prod_unfold)

lemma prune_audit_others:
  assumes "prune_audit_log clock retention d = Some (n, d')"
  shows "t_request_logs d' = t_request_logs d \<and> t_idempotency_keys d' = t_idempotency_keys d"
  using drain_keeps [OF assms [unfolded prune_audit_log_def],
      where Q = "\<lambda>x. t_request_logs x = t_request_logs d \<and> t_idempotency_keys x = t_idempotency_keys d"]
  by (simp add: prune_batch_others)

lemma prune_request_others:
  assumes "prune_request_log clock retention d = Some (n, d')"
  shows "t_idempotency_keys d' = t_idempotency_keys d"
  using drain_keeps [OF assms [unfolded prune_request_log_def], where Q = "\<lambda>x. t_idempotency_keys x = t_idempotency_keys d"]
  by (simp add: prune_batch_others)

lemma prune_returns:
  assumes "logs_keyed d" and "\<And>k i j. i \<le> j \<Longrightarrow> clock k i \<le> clock k j"
  shows "\<exists>message d'. prune s (clock 0) (clock 1) (clock 2) now d = Some (message, d')"
proof -
  obtain a d1 where a: "prune_audit_log (clock 0) (days (audit_log_retention_days s)) d = Some (a, d1)"
    using audit_pruner.drain_exact [where clock = "clock 0" and s = d and k = 0 and removed = 0, OF assms(2)] assms(1)
    unfolding logs_keyed_def prune_audit_log_def by blast
  have d1: "t_request_logs d1 = t_request_logs d" "t_idempotency_keys d1 = t_idempotency_keys d"
    using prune_audit_others [OF a] by simp_all
  obtain r d2 where r: "prune_request_log (clock 1) (days (request_log_retention_days s)) d1 = Some (r, d2)"
    using request_pruner.drain_exact [where clock = "clock 1" and s = d1 and k = 0 and removed = 0, OF assms(2)] assms(1)
    unfolding logs_keyed_def prune_request_log_def d1 by blast
  have "t_idempotency_keys d2 = t_idempotency_keys d"
    using prune_request_others [OF r] d1 by simp
  then obtain k d3 where "prune_idempotency_keys (clock 2) (hours (idempotency_retention_hours s)) d2 = Some (k, d3)"
    using idempotency_pruner.drain_exact [where clock = "clock 2" and s = d2 and k = 0 and removed = 0, OF assms(2)] assms(1)
    unfolding logs_keyed_def prune_idempotency_keys_def by metis
  then show ?thesis
    using a r by (simp add: prune_def case_prod_unfold Let_def)
qed

lemma cli_returns:
  assumes "logs_keyed (fst w)" and "\<And>k i j. i \<le> j \<Longrightarrow> cm_clock v k i \<le> cm_clock v k j"
  shows "\<exists>out q. cli v c w p = Some (out, q)"
proof (cases c)
  case Prune
  then show ?thesis
    using prune_returns [where clock = "cm_clock v", OF assms, of "cm_settings v" "cm_now v"]
    by (auto simp: cli_def cli_run_def in_session_def)
qed (simp_all add: cli_def cli_run_def in_session_def Let_def)

section \<open>Commands keep the database well typed\<close>

text \<open>Seeding roles where there is none. Two facts of the tables are evaluated: the pairs are distinct, and so are the grants of a role.\<close>

lemma insert_permissions_core: "core (insert_permissions ps d) = core d"
proof (induction ps d rule: insert_permissions.induct)
  case (2 resource action rest d)
  then show ?case
    by (simp add: core_def)
qed simp

lemma seed_role_app:
  assumes "wf_app d" "name \<notin> role_name ` set (t_roles d)" "distinct (map (perm_id \<circ> grant_permission) grants)"
    and "length name \<le> 50"
  shows "wf_app (bump TRoles (d\<lparr>t_roles := t_roles d @ [\<lparr>role_id = seqs d TRoles, role_name = name, role_features = None,
     role_grants = grants, role_created_at = t, role_updated_at = t\<rparr>]\<rparr>))"
proof (rule wf_app_frame [OF assms(1)])
  show "wf_accounts (bump TRoles (d\<lparr>t_roles := t_roles d @ [\<lparr>role_id = seqs d TRoles, role_name = name, role_features = None,
     role_grants = grants, role_created_at = t, role_updated_at = t\<rparr>]\<rparr>))"
    using assms by (auto simp: wf_app_iff wf_accounts_def wf_users_def wf_roles_def wf_links_def keyed_append role_too_long_def)
qed simp_all

section \<open>Accounts made by a command\<close>

lemma cli_role_eq_Inr: "cli_role name d = Inr r \<longleftrightarrow> role_get_by_name name d = Some r"
  by (auto simp: cli_role_def cli_error_def split: option.splits)

lemma cli_load_found: "wf_app d \<Longrightarrow> cli_load email d = Inr u \<Longrightarrow> user_get (user_id u) d = Some u"
  by (auto simp: cli_load_def cli_error_def wf_app_iff user_by_email_get split: option.splits)

lemma create_superuser_app:
  "wf_app d \<Longrightarrow> create_superuser ext salt now email password d = Inr (m, d') \<Longrightarrow> wf_app d'"
  by (auto simp: create_superuser_def cli_error_def rbind_eq_Inr cli_role_eq_Inr dest: new_account_app split: if_splits)

lemma grant_role_app: "wf_app d \<Longrightarrow> grant_role email name d = Inr (m, d') \<Longrightarrow> wf_app d'"
  by (auto simp: grant_role_def rbind_eq_Inr dest: add_role_app split: if_splits)

lemma cli_verify_email_app:
  assumes "wf_app d" "cli_verify_email now email d = Inr (m, d')"
  shows "wf_app d'"
proof -
  let ?v = "\<lambda>u. u\<lparr>user_email_verified_at := (case user_email_verified_at u of Some t \<Rightarrow> Some t | None \<Rightarrow> Some now)\<rparr> :: User"
  obtain u w where "cli_load email d = Inr u" "user_save (?v u) d = Inr (w, d')"
    using assms(2) by (auto simp: cli_verify_email_def rbind_eq_Inr)
  then show ?thesis
    using loaded_roles [OF assms(1) cli_load_found [OF assms(1)]] user_save_app [OF assms(1), of "?v u"] by simp
qed

lemma prune_app:
  assumes "wf_app d" "prune s c1 c2 c3 now d = Some (m, d')"
  shows "wf_app d'"
proof -
  obtain a d1 r d2 k d3 where steps: "prune_audit_log c1 (days (audit_log_retention_days s)) d = Some (a, d1)"
    "prune_request_log c2 (days (request_log_retention_days s)) d1 = Some (r, d2)"
    "prune_idempotency_keys c3 (hours (idempotency_retention_hours s)) d2 = Some (k, d3)"
    and d': "d' = snd (expire_tokens now d3)"
    using assms(2) by (auto simp: prune_def bind_eq_Some_conv case_prod_unfold Let_def)
  have "wf_app d1"
    using job_app [OF assms(1), of "maintenance_jobs s ! 0" s c1] steps(1) by (simp add: maintenance_jobs_def)
  then have "wf_app d2"
    using job_app [of d1 "maintenance_jobs s ! 1" s c2] steps(2) by (simp add: maintenance_jobs_def)
  then have "wf_app d3"
    using job_app [of d2 "maintenance_jobs s ! 2" s c3] steps(3) by (simp add: maintenance_jobs_def eval_nat_numeral)
  then show ?thesis
    unfolding d' by (rule expire_tokens_app)
qed

section \<open>Seeding keeps the database well typed\<close>

definition permissions_keyed :: "database \<Rightarrow> bool" where
  "permissions_keyed d \<longleftrightarrow> keyed perm_id (t_permissions d) (seqs d TPermissions)"

lemma insert_permissions_keyed: "permissions_keyed d \<Longrightarrow> permissions_keyed (insert_permissions ps d)"
  by (induction ps d rule: insert_permissions.induct) (simp_all add: permissions_keyed_def keyed_append)

lemma seed_grants_distinct:
  assumes "distinct (map perm_id perms)" "distinct (map (\<lambda>(resource, action, scope). (resource, action)) grants)"
  shows "distinct (map (perm_id \<circ> grant_permission) (seed_grants perms grants))"
  using assms(2)
proof (induction grants)
  case (Cons g grants)
  obtain resource action scope where g: "g = (resource, action, scope)"
    by (cases g)
  let ?found = "find_row (\<lambda>p. perm_resource p = resource \<and> perm_action p = action) perms"
  have rest: "grant_permission h \<in> set perms \<and> grant_key h \<in> (\<lambda>(r, a, s). (r, a)) ` set grants"
    if "h \<in> set (seed_grants perms grants)" for h
  proof -
    obtain r a s p where "(r, a, s) \<in> set grants" "h = \<lparr>grant_permission = p, grant_scope = s\<rparr>"
      and "find_row (\<lambda>p. perm_resource p = r \<and> perm_action p = a) perms = Some p"
      using \<open>h \<in> set (seed_grants perms grants)\<close> by (auto simp: seed_grants_def split: option.splits)
    then show ?thesis
      by (force simp: grant_key_def image_iff dest: find_row_SomeD)
  qed
  show ?case
  proof (cases ?found)
    case None
    then show ?thesis
      using Cons by (simp add: g seed_grants_def)
  next
    case (Some p)
    have p: "p \<in> set perms" "perm_resource p = resource" "perm_action p = action"
      using find_row_SomeD [OF Some] by simp_all
    have "perm_id p \<noteq> perm_id (grant_permission h)" if h: "h \<in> set (seed_grants perms grants)" for h
    proof
      assume "perm_id p = perm_id (grant_permission h)"
      then have "p = grant_permission h"
        using distinct_key_eq [OF assms(1)] p(1) rest [OF h] by blast
      then have "(resource, action) \<in> (\<lambda>(r, a, s). (r, a)) ` set grants"
        using rest [OF h] p by (simp add: grant_key_def)
      then show False
        using Cons.prems by (simp add: g)
    qed
    moreover have "seed_grants perms (g # grants) = \<lparr>grant_permission = p, grant_scope = scope\<rparr> # seed_grants perms grants"
      using Some by (simp add: g seed_grants_def)
    ultimately show ?thesis
      using Cons by auto
  qed
qed (simp add: seed_grants_def)

lemma insert_seed_roles_app:
  assumes "wf_app d" "permissions_keyed d" "distinct (map fst rs)" "fst ` set rs \<inter> role_name ` set (t_roles d) = {}"
    and "\<forall>(name, grants)\<in>set rs. length name \<le> 50 \<and> distinct (map (\<lambda>(resource, action, scope). (resource, action)) grants)"
  shows "wf_app (insert_seed_roles rs d) \<and> permissions_keyed (insert_seed_roles rs d)"
  using assms
proof (induction rs d rule: insert_seed_roles.induct)
  case (2 name grants rest d)
  let ?d = "bump TRoles (d\<lparr>t_roles := t_roles d @ [\<lparr>role_id = seqs d TRoles, role_name = name, role_features = None,
     role_grants = seed_grants (t_permissions d) grants, role_created_at = tx_now d, role_updated_at = tx_now d\<rparr>]\<rparr>)"
  have "distinct (map perm_id (t_permissions d))"
    using "2.prems"(2) by (simp add: permissions_keyed_def keyed_def)
  then have "wf_app ?d"
    using "2.prems" by (intro seed_role_app seed_grants_distinct) auto
  moreover have "permissions_keyed ?d"
    using "2.prems"(2) by (simp add: permissions_keyed_def)
  moreover have "fst ` set rest \<inter> role_name ` set (t_roles ?d) = {}"
    using "2.prems"(3,4) by auto
  ultimately show ?case
    using "2.IH" "2.prems"(3,5) by simp
qed simp

lemma BASE_ROLES_distinct:
  "distinct (map fst BASE_ROLES)"
  "\<forall>(name, grants)\<in>set BASE_ROLES. length name \<le> 50 \<and> distinct (map (\<lambda>(resource, action, scope). (resource, action)) grants)"
  by code_simp+

lemma flush_seed_roles_app:
  assumes "wf_app d" "permissions_keyed d" "t_roles d = []" "flush_seed_roles d = Inr d'"
  shows "wf_app d'"
proof -
  let ?d = "insert_permissions seed_pairs d"
  have "wf_app ?d" "t_roles ?d = []"
    using wf_app_core [OF insert_permissions_core assms(1)] insert_permissions_core [of seed_pairs d] assms(3)
    by (simp_all add: core_def)
  then have "wf_app (seed_roles d)"
    unfolding seed_roles_def
    using insert_seed_roles_app [OF _ insert_permissions_keyed [OF assms(2)] BASE_ROLES_distinct(1) _ BASE_ROLES_distinct(2)]
    by simp
  then show ?thesis
    using assms(4) by (simp add: flush_seed_roles_def split: if_splits)
qed

lemma seed_app:
  assumes "wf_app d" "permissions_keyed d" "seed d = Inr (m, d')"
  shows "wf_app d'"
  using assms flush_seed_roles_app [OF assms(1,2)] by (auto simp: seed_def rbind_eq_Inr split: if_splits)

section \<open>Demo data keeps the database well typed\<close>

lemma wf_app_items:
  assumes "wf_app d" "wf_items d'" "t_users d' = t_users d" "t_user_roles d' = t_user_roles d" "t_roles d' = t_roles d"
    and "t_refresh_tokens d' = t_refresh_tokens d" "t_single_use_tokens d' = t_single_use_tokens d"
    and "t_preferences d' = t_preferences d" "\<And>t. t \<noteq> TItems \<Longrightarrow> seqs d' t = seqs d t"
  shows "wf_app d'"
  using assms wf_accounts_same_tables [of d d']
  by (simp add: wf_app_iff wf_refresh_tokens_def wf_single_use_tokens_def wf_preferences_def)

lemma item_create_app:
  assumes "wf_app d" "item_create title description owner d = Inr (item, d')"
  shows "wf_app d' \<and> item_owner_id item = owner \<and> owner \<in> user_id ` set (t_users d') \<and> t_users d' = t_users d"
proof -
  have item: "item_id item = seqs d TItems" "item_owner_id item = owner" "length (item_title item) \<le> 255"
    and owner: "owner \<in> user_id ` set (t_users d)"
    and d': "d' = bump TItems (d\<lparr>t_items := t_items d @ [item]\<rparr>)"
    using assms(2) by (auto simp: item_create_def Let_def split: if_splits)
  have "wf_items d'"
    using assms(1) item owner by (auto simp: d' wf_app_iff wf_items_def keyed_append)
  then have "wf_app d'"
    by (rule wf_app_items [OF assms(1)]) (simp_all add: d')
  then show ?thesis
    using item owner by (simp add: d')
qed

lemma item_retire_app:
  assumes "wf_app d" "item_flush item (item_mark_deleted now item) d = Inr d'" "item_owner_id item \<in> user_id ` set (t_users d)"
  shows "wf_app d' \<and> t_users d' = t_users d"
proof -
  have "wf_items d'"
    using item_flush_wf [of d item "item_mark_deleted now item" d'] assms by (simp add: wf_app_iff item_mark_deleted_def)
  note frame = wf_app_items [OF assms(1) this]
  from assms(2) show ?thesis
    by (cases rule: item_flush_Inr_cases) (use frame assms(1) in simp_all)
qed

lemma seed_items_app:
  "seed_items now uid items d = Inr (titles, d') \<Longrightarrow> wf_app d \<Longrightarrow> wf_app d'"
proof (induction items arbitrary: d titles)
  case (Cons i items)
  obtain item d1 d2 titles2 where create: "item_create (di_title i) (Some (di_description i)) uid d = Inr (item, d1)"
    and retire: "(if di_deleted i then item_flush item (item_mark_deleted now item) d1 else Inr d1) = Inr d2"
    and rest: "seed_items now uid items d2 = Inr (titles2, d')"
    using Cons.prems(1) by (auto simp: rbind_eq_Inr)
  note made = item_create_app [OF Cons.prems(2) create]
  have "wf_app d2"
    using retire made item_retire_app [of d1 item now d2] by (auto split: if_splits)
  then show ?case
    by (rule Cons.IH [OF rest])
qed simp

lemma seed_attachments_app:
  "seed_attachments titles as (d, b) = Inr (d', b') \<Longrightarrow> core d' = core d"
proof (induction as arbitrary: d b)
  case (Cons a as)
  obtain item where "map_of titles (da_item_title a) = Some item"
    using Cons.prems by (auto split: option.splits)
  moreover define key where "key = ''demo/'' @ show_int (item_id item) @ ''/'' @ da_filename a"
  ultimately obtain row d1 where
    "attachment_create key (da_filename a) (da_content_type a) (int (length (da_content a))) (item_id item) d = Inr (row, d1)"
    and "seed_attachments titles as (d1, b(key \<mapsto> da_content a)) = Inr (d', b')"
    using Cons.prems by (auto simp: rbind_eq_Inr Let_def)
  then show ?case
    using Cons.IH by (auto simp: attachment_create_def Let_def split: if_splits)
qed simp

lemma pref_create_app:
  assumes "wf_app d" "pref_create p d = Inr (q, d')"
  shows "wf_app d'"
proof -
  have q: "q = p\<lparr>pref_id := seqs d TPreferences\<rparr>" "\<not> pref_too_long q" "pref_get_for_user (pref_user_id p) d = None"
    "pref_user_id p \<in> user_id ` set (t_users d)" and d': "d' = bump TPreferences (d\<lparr>t_preferences := t_preferences d @ [q]\<rparr>)"
    using assms(2) by (auto simp: pref_create_def Let_def split: if_splits)
  have "\<forall>x\<in>set (t_preferences d). pref_user_id x \<noteq> pref_user_id p"
    using q(3) by (auto simp: pref_get_for_user_def find_row_None_iff)
  then have "wf_preferences d'"
    using assms(1) q by (auto simp: d' wf_app_iff wf_preferences_def keyed_append)
  then show ?thesis
    using assms(1) wf_accounts_same_tables [of d d']
    by (simp add: wf_app_iff wf_refresh_tokens_def wf_single_use_tokens_def wf_items_def d')
qed

lemma seed_account_app:
  assumes "wf_app d" "seed_account ext salt now u (d, b) = Inr (d', b')"
  shows "wf_app d'"
proof -
  obtain role user d1 d2 titles d3 where role: "role_get_by_name (du_role u) d = Some role"
    and create: "user_create (new_user (du_email u) None (hash_password ext salt DEMO_PASSWORD)
       (if du_verified u then Some now else None) [role]) d = Inr (user, d1)"
    and prefs: "(case du_preferences u of None \<Rightarrow> Inr d1 | Some (l, t, z) \<Rightarrow>
        rbind (pref_create ((default_preferences (user_id user))\<lparr>pref_locale := l, pref_theme := t, pref_timezone := z\<rparr>) d1)
          (\<lambda>(p, d'). Inr d')) = Inr d2"
    and items: "seed_items now (user_id user) (du_items u) d2 = Inr (titles, d3)"
    and files: "seed_attachments titles (du_attachments u) (d3, b) = Inr (d', b')"
    using assms(2) unfolding seed_account_def fst_conv snd_conv rbind_eq_Inr cli_role_eq_Inr split_paired_Ex prod.case by blast
  have "wf_app d1"
    by (rule new_account_app [OF assms(1) role create])
  then have "wf_app d2"
    using prefs pref_create_app by (auto simp: rbind_eq_Inr split: option.splits)
  then have "wf_app d3"
    by (rule seed_items_app [OF items])
  then show ?thesis
    by (rule wf_app_core [OF seed_attachments_app [OF files]])
qed

lemma seed_accounts_app:
  "seed_accounts ext salt now us (d, b) = Inr (d', b') \<Longrightarrow> wf_app d \<Longrightarrow> wf_app d'"
proof (induction us arbitrary: d b)
  case (Cons u us)
  obtain d1 b1 where "seed_account ext salt now u (d, b) = Inr (d1, b1)" "seed_accounts ext salt now us (d1, b1) = Inr (d', b')"
    using Cons.prems(1) by (auto simp: rbind_eq_Inr)
  then show ?case
    using Cons.IH seed_account_app [OF Cons.prems(2)] by blast
qed simp

lemma demo_seed_app:
  assumes "wf_app d" "permissions_keyed d" "demo_seed ext s salt now e (d, b) = Inr (m, d', b')"
  shows "wf_app d'"
proof (cases "d' = d")
  case False
  obtain d1 where "(if t_roles d = [] then flush_seed_roles d else Inr d) = Inr d1"
    and accounts: "seed_accounts ext salt now DEMO_USERS (d1, b) = Inr (d', b')"
    using assms(3) False by (auto simp: demo_seed_def seed_demo_def rbind_eq_Inr split: if_splits)
  then have "wf_app d1"
    using assms(1) flush_seed_roles_app [OF assms(1,2)] by (auto split: if_splits)
  then show ?thesis
    by (rule seed_accounts_app [OF accounts])
qed (use assms(1) in simp)

section \<open>Properties\<close>

lemma beside_eq_Inr: "beside b r = Inr (m, d', b') \<longleftrightarrow> r = Inr (m, d') \<and> b' = b"
  by (cases r) (auto simp: beside_def)

lemma action_app:
  assumes "wf_app d" "permissions_keyed d" "fst (action v c (d, b) p) = Some (Inr (m, d', b'))"
  shows "wf_app d'"
  using assms
  by (cases c) (auto simp: in_session_def beside_eq_Inr Let_def split: if_splits
      dest: create_superuser_app grant_role_app cli_verify_email_app seed_app demo_seed_app prune_app)

lemma shown_Echoed: "shown r = Echoed m w \<longleftrightarrow> r = Inr (m, w)"
  by (cases r rule: shown.cases) auto

lemma cli_shows:
  "cli v c w p = Some (out, q) \<longleftrightarrow>
   (\<exists>r. fst (action v c w p) = Some r \<and> out = shown r \<and> q = dispose_engine (snd (action v c w p)))"
  by (auto simp: cli_def cli_run_def case_prod_unfold Let_def)

lemma cli_app:
  assumes "wf_app d" "permissions_keyed d" "cli v c (d, b) p = Some (Echoed m (d', b'), q)"
  shows "wf_app d'"
proof -
  obtain r where r: "fst (action v c (d, b) p) = Some r" "Echoed m (d', b') = shown r"
    using assms(3) unfolding cli_shows by blast
  then have "r = Inr (m, d', b')"
    using shown_Echoed by metis
  then show ?thesis
    using action_app [OF assms(1,2)] r(1) by simp
qed

text \<open>
  C22. Every administrative command returns, whatever the size of the tables that \<open>prune\<close> drains, as long as no
  clock runs backwards. However it ends, it leaves no connection pool open and both caches empty. What it
  writes leaves the database well typed. A command about an address without an account, and the
  creation of one that exists already, are usage errors that name the address.
\<close>

theorem commands_return_and_release:
  assumes "wf_app d" and "permissions_keyed d" and "logs_keyed d" and "uses\<^sup>*\<^sup>* fresh_process p"
    and "\<And>k i j. i \<le> j \<Longrightarrow> cm_clock v k i \<le> cm_clock v k j"
  shows "\<exists>out q. cli v c (d, b) p = Some (out, q)
    \<and> pr_engine q = None \<and> pr_factory q = None \<and> pr_disposed q = {e. e < pr_made q}
    \<and> (\<forall>m d' b'. out = Echoed m (d', b') \<longrightarrow> wf_app d')
    \<and> (\<forall>email. user_get_by_email (normalize_email email) d = None \<and> (c = VerifyEmail email \<or> (\<exists>role. c = GrantRole email role))
        \<longrightarrow> out = BadParameter (''no account is registered as '' @ email))
    \<and> (\<forall>email password. user_get_by_email (normalize_email email) d \<noteq> None \<and> c = CreateSuperuser email password
        \<longrightarrow> out = BadParameter (email @ '' is already registered''))"
proof -
  obtain out q where run: "cli v c (d, b) p = Some (out, q)"
    using cli_returns [of "(d, b)" v c p] assms(3,5) by auto
  have typed: "\<forall>m d' b'. out = Echoed m (d', b') \<longrightarrow> wf_app d'"
    using cli_app [OF assms(1,2)] run by blast
  have "out = BadParameter (''no account is registered as '' @ email)"
    if "user_get_by_email (normalize_email email) d = None" "c = VerifyEmail email \<or> (\<exists>role. c = GrantRole email role)" for email
    using that run by (auto simp: cli_shows in_session_def beside_def grant_role_def cli_verify_email_def cli_load_def
        cli_error_def make_error_def)
  moreover have "out = BadParameter (email @ '' is already registered'')"
    if "user_get_by_email (normalize_email email) d \<noteq> None" "c = CreateSuperuser email password" for email password
    using that run by (auto simp: cli_shows in_session_def beside_def create_superuser_def cli_error_def make_error_def)
  ultimately show ?thesis
    using run typed cli_releases [OF reachable_inv [OF assms(4)] run] by blast
qed

definition sample_command_env :: command_env where
  "sample_command_env = \<lparr>cm_ext = plain_ext, cm_settings = sample_settings, cm_salt = ''s'', cm_now = 5, cm_clock = (\<lambda>k i. int i)\<rparr>"

theorem commands_return_and_release_witness:
  "\<exists>d q. cli sample_command_env Seed (empty_db, Map.empty) fresh_process = Some (Echoed ''seeded the base roles'' (d, Map.empty), q)
     \<and> wf_app d \<and> pr_disposed q = {0}"
proof -
  have "wf_app empty_db"
    by (simp add: wf_app_iff wf_accounts_def wf_users_def wf_roles_def wf_links_def wf_table_defs keyed_def empty_db_def)
  moreover have "permissions_keyed empty_db" "logs_keyed empty_db"
    by (simp_all add: permissions_keyed_def logs_keyed_def keyed_def empty_db_def)
  moreover have "cm_clock sample_command_env k i \<le> cm_clock sample_command_env k j" if "i \<le> j" for k i j
    using that by (simp add: sample_command_env_def)
  moreover have "cli sample_command_env Seed (empty_db, Map.empty) fresh_process =
      Some (Echoed ''seeded the base roles'' (seed_roles empty_db, Map.empty), \<lparr>pr_engine = None, pr_factory = None, pr_made = 1, pr_disposed = {0}\<rparr>)"
    by (simp add: cli_def cli_run_def in_session_def beside_def seed_def flush_seed_roles_def empty_db_def fresh_process_def
        get_session_factory_def get_engine_def dispose_engine_def)
  ultimately show ?thesis
    using commands_return_and_release [of empty_db fresh_process sample_command_env Seed Map.empty] by auto
qed

end
