(* ===== verification/Wiring.thy ===== *)
theory Wiring
  imports ApiInvariant Cli
begin

text \<open>
  The module-level objects that requests share: the rate limiter of \<open>app/core/http/rate_limit.py\<close>, whose route
  limits are registered while the routes are imported and whose storage each application rebinds, and
  the hash that a login compares an unknown address with. Counting hits is slowapi's: a store and its
  connection are parameters.
\<close>

section \<open>The limiter\<close>

text \<open>
  \<open>li_routes\<close> are the limits that the decorators registered, under the module and the name of the handler;
  each is read from the settings at the time of a call.
\<close>

record 'c Limiter =
  li_storage_uri :: "str option"
  li_storage :: 'c
  li_strategy :: 'c
  li_storage_dead :: bool
  li_routes :: "((str \<times> str) \<times> (Settings \<Rightarrow> str)) list"

definition new_limiter :: "(str option \<Rightarrow> 'c) \<Rightarrow> str option \<Rightarrow> 'c Limiter" where
  "new_limiter connect uri =
     \<lparr>li_storage_uri = uri, li_storage = connect uri, li_strategy = connect uri, li_storage_dead = False, li_routes = []\<rparr>"

definition limit :: "str \<times> str \<Rightarrow> (Settings \<Rightarrow> str) \<Rightarrow> 'c Limiter \<Rightarrow> 'c Limiter" where
  "limit handler value l = l\<lparr>li_routes := li_routes l @ [(handler, value)]\<rparr>"

text \<open>The decorators in the order the router imports the modules: \<open>auth.py\<close>, then \<open>users.py\<close>.\<close>

definition import_auth_routes :: "'c Limiter \<Rightarrow> 'c Limiter" where
  "import_auth_routes l =
     (let l = limit (''auth'', ''login'') login_rate_limit l;
          l = limit (''auth'', ''refresh'') login_rate_limit l;
          l = limit (''auth'', ''logout'') login_rate_limit l;
          l = limit (''auth'', ''impersonate'') login_rate_limit l;
          l = limit (''auth'', ''change_password'') login_rate_limit l;
          l = limit (''auth'', ''forgot_password'') mail_rate_limit l;
          l = limit (''auth'', ''reset_password'') mail_rate_limit l;
          l = limit (''auth'', ''verify_email'') mail_rate_limit l
      in limit (''auth'', ''resend_email_verification'') mail_rate_limit l)"

definition import_user_routes :: "'c Limiter \<Rightarrow> 'c Limiter" where
  "import_user_routes l = limit (''users'', ''register_user'') register_rate_limit l"

text \<open>The limiter as the import of the router leaves it; it counts in memory.\<close>

definition limiter :: "(str option \<Rightarrow> 'c) \<Rightarrow> 'c Limiter" where
  "limiter connect = import_user_routes (import_auth_routes (new_limiter connect None))"

definition register_rate_limiting :: "(str option \<Rightarrow> 'c) \<Rightarrow> Settings \<Rightarrow> 'c Limiter \<Rightarrow> 'c Limiter" where
  "register_rate_limiting connect s l =
     (let uri = (if rate_limit_storage_uri s = [] then None else Some (rate_limit_storage_uri s));
          reconfigured = new_limiter connect uri
      in l\<lparr>li_storage_uri := li_storage_uri reconfigured, li_storage := li_storage reconfigured,
           li_strategy := li_strategy reconfigured, li_storage_dead := li_storage_dead reconfigured\<rparr>)"

text \<open>The limits that apply to a call of a handler.\<close>

definition limits_on :: "'c Limiter \<Rightarrow> Settings \<Rightarrow> str \<times> str \<Rightarrow> str list" where
  "limits_on l s handler = map (\<lambda>(h, value). value s) (filter (\<lambda>(h, value). h = handler) (li_routes l))"

section \<open>The hash of an absent account\<close>

definition hash_for_absent_user :: "ext \<Rightarrow> str \<Rightarrow> str option \<Rightarrow> str \<times> str option" where
  "hash_for_absent_user ext salt cache =
     (case cache of
        None \<Rightarrow> (let h = hash_password ext salt ''absent-user-constant-time-placeholder'' in (h, Some h))
      | Some h \<Rightarrow> (h, cache))"

text \<open>The hashes that a sequence of logins gets, each with the salt it would draw.\<close>

fun absent_hashes :: "ext \<Rightarrow> str list \<Rightarrow> str option \<Rightarrow> str list" where
  "absent_hashes ext [] cache = []"
| "absent_hashes ext (salt # salts) cache =
     (let (h, cache') = hash_for_absent_user ext salt cache in h # absent_hashes ext salts cache')"

lemma absent_hashes_cached: "absent_hashes ext salts (Some h) = replicate (length salts) h"
  by (induction salts) (simp_all add: hash_for_absent_user_def)

lemma absent_hashes_constant:
  "absent_hashes ext (salt # salts) None =
     replicate (Suc (length salts)) (hash_password ext salt ''absent-user-constant-time-placeholder'')"
  by (simp add: hash_for_absent_user_def absent_hashes_cached Let_def)

section \<open>Every public call is throttled\<close>

fun handler_of :: "public_request \<Rightarrow> str \<times> str" where
  "handler_of (Register data) = (''users'', ''register_user'')"
| "handler_of (Login username password) = (''auth'', ''login'')"
| "handler_of (Refresh token) = (''auth'', ''refresh'')"
| "handler_of (Logout token) = (''auth'', ''logout'')"
| "handler_of (ForgotPassword email) = (''auth'', ''forgot_password'')"
| "handler_of (ResetPasswordWith token pw) = (''auth'', ''reset_password'')"
| "handler_of (VerifyEmailWith token) = (''auth'', ''verify_email'')"

lemma register_keeps_routes: "li_routes (fold (register_rate_limiting connect) apps l) = li_routes l"
  by (induction apps arbitrary: l) (simp_all add: register_rate_limiting_def Let_def)

lemma limits_on_fold:
  "limits_on (fold (register_rate_limiting connect) apps l) s handler = limits_on l s handler"
  by (simp add: limits_on_def register_keeps_routes)

lemma limits_on_import:
  "limits_on (limiter connect) s (handler_of r) =
     [case r of Register _ \<Rightarrow> register_rate_limit s | Login _ _ \<Rightarrow> login_rate_limit s | Refresh _ \<Rightarrow> login_rate_limit s
      | Logout _ \<Rightarrow> login_rate_limit s | _ \<Rightarrow> mail_rate_limit s]"
  by (cases r) (simp_all add: limits_on_def limiter_def import_user_routes_def import_auth_routes_def limit_def new_limiter_def Let_def)

text \<open>
  However many applications a process creates, every call that needs no token is still throttled, by exactly the
  limit its handler was decorated with, read from the settings in force; sending mail by the mail
  limit. All applications count in the store that the newest one asked for.
\<close>

theorem public_calls_throttled:
  "limits_on (fold (register_rate_limiting connect) apps (limiter connect)) s (handler_of r) =
     [case r of Register _ \<Rightarrow> register_rate_limit s | Login _ _ \<Rightarrow> login_rate_limit s | Refresh _ \<Rightarrow> login_rate_limit s
      | Logout _ \<Rightarrow> login_rate_limit s | _ \<Rightarrow> mail_rate_limit s]
   \<and> (apps = [] \<or> (let l = fold (register_rate_limiting connect) apps (limiter connect);
        uri = (if rate_limit_storage_uri (last apps) = [] then None else Some (rate_limit_storage_uri (last apps)))
      in li_storage_uri l = uri \<and> li_storage l = connect uri \<and> li_strategy l = connect uri))"
proof (cases apps rule: rev_cases)
  case (snoc before newest)
  then show ?thesis
    by (simp add: limits_on_import limits_on_fold register_rate_limiting_def new_limiter_def Let_def
        limits_on_def register_keeps_routes flip: limits_on_import [of connect s r])
qed (simp add: limits_on_import)

section \<open>The attachment service\<close>

record AttachmentService =
  asv_root :: str
  asv_max_bytes :: int
  asv_allowed_types :: "str set"

definition get_attachment_service :: "Settings \<Rightarrow> AttachmentService result" where
  "get_attachment_service s =
     rbind (get_storage s) (\<lambda>root.
       Inr \<lparr>asv_root = root, asv_max_bytes = max_attachment_bytes s, asv_allowed_types = attachment_type_set s\<rparr>)"

text \<open>Settings that pass validation always give the service, with a positive limit.\<close>

lemma valid_settings_attachment_service:
  assumes "fields_ok s"
  shows "\<exists>service. get_attachment_service s = Inr service \<and> 0 < asv_max_bytes service"
  using assms by (simp add: get_attachment_service_def get_storage_def fields_ok_def)

end
