(* ===== verification/Spec2Isabelle.thy ===== *)
theory Spec2Isabelle
  imports RoleService SingleUse Deps Idempotency Jobs Attachments Preferences Mail Http Routes Cli
    Delivery Startup HeadSchema Bootstrap ApiInvariant Asgi AuditSession BlobStorage Commands Wiring
begin

text \<open>
  A verification development of the FastAPI template: a web service with accounts, roles and
  permissions, items with attachments, sessions, single-use links, an audit trail, a request log,
  idempotent writes, and the middleware and jobs around them.

  \<^bold>\<open>The program.\<close> A request passes the middleware of \<open>app/main.py\<close> (correlation id and request log, security
  headers, rate limit, body limit, idempotency), then the dependencies of its route (feature flag, caller,
  impersonation and permission guards), then the route, which calls one service; services call
  repositories, which read and write the tables in the request's transaction. Flushes write the audit
  trail. Mail is sent by the request or by a background task; scheduled jobs delete what has expired.

  \<^bold>\<open>How it is modelled.\<close> All tables are fields of one record \<open>database\<close> (theory \<open>Models\<close>): a table is a list
  of rows in insertion order, with its sequence. A repository or service method is a function of its
  arguments and the database that returns a \<open>result\<close>: \<open>Inl\<close> an exception, after which the
  transaction is rolled back, or \<open>Inr\<close> the value and the database. The clock, the random source and
  identifiers drawn from it are arguments. Times are integers in microseconds; strings are lists of
  characters, the code points below 256. Code outside the repository is a parameter: password
  hashing, SHA-256 and PyJWT are fields of \<open>ext\<close> (theory \<open>Security\<close>, with the hypotheses
  \<open>pw_complete\<close>, \<open>pw_sound\<close> and \<open>jwt_roundtrip\<close>, which a concrete \<open>plain_ext\<close> satisfies), and the address
  parser of pydantic, the time zone database, the mail server, the rate limiter and CORS are arguments
  where they are used.

  \<^bold>\<open>The theories.\<close>
  \<^item> \<open>Prelude\<close>, \<open>PyStr\<close>, \<open>Bytes\<close>, \<open>IsoTime\<close>: table operations and exceptions; Python's string functions and
    integers; UTF-8, percent-encoding and base64 with their round trips; ISO 8601 times.
  \<^item> \<open>Errors\<close> (\<open>core/error_codes.py\<close>, \<open>core/exceptions.py\<close>), \<open>Models\<close> (\<open>models/\<close>), \<open>Config\<close> (\<open>core/config.py\<close>,
    \<open>core/features.py\<close>).
  \<^item> \<open>Authorization\<close> (\<open>core/authorization.py\<close>, \<open>db/seed.py\<close>): scopes and the base roles; \<open>scope_for\<close> equals an
    order-free specification.
  \<^item> \<open>UserRepo\<close>, \<open>UserService\<close>, \<open>RoleService\<close>: accounts and roles. The locale \<open>user_repository\<close> is the contract of
    the user repository; the services' laws are proved in it and reach the model by interpretation.
    Registration, profile, closing and role changes by their whole outcome; superadmins never vanish.
  \<^item> \<open>Items\<close>: items, conditional requests, pages, isolation, and interleaved edits as a step relation
    without lost updates.
  \<^item> \<open>Security\<close>, \<open>TokenRepos\<close>, \<open>AuthService\<close>, \<open>SingleUse\<close>, \<open>Deps\<close>: tokens, sessions, links and the guards. The
    locale \<open>token_store\<close> is the contract both token repositories implement.
  \<^item> \<open>AuditTrail\<close>: the flush listeners over a model of the unit of work; completeness and redaction.
    \<open>AuditSession\<close> runs them over whole sessions and compares the trail with a reference that reads the
    suppressed blocks off the program text.
  \<^item> \<open>Idempotency\<close>: the store refines a contract of key states (locale \<open>idempotency_store\<close>); concurrent
    requests are steps of an inductive relation.
  \<^item> \<open>Pagination\<close>, \<open>Logs\<close>: cursors, and the two logs as instances of the locale \<open>cursor_listing\<close>.
  \<^item> \<open>Jobs\<close>: retention loops as \<open>partial_function (option)\<close>, proved to return (locale \<open>batch_pruner\<close>), the
    scheduler, and the advisory lock of the replicas as a step relation.
  \<^item> \<open>Transactions\<close>, \<open>Attachments\<close>: the session of a request and the hooks on its outcome, with savepoints and
    deferred removal; uploads and the blob store, whose hooks are an instance, with a source and a storage that may
    fail. \<open>BlobStorage\<close>: the local storage on files implements that store.
  \<^item> \<open>Preferences\<close>, \<open>Mail\<close>, \<open>Delivery\<close>: preferences, locales, templates, the mail that carries a link, and the
    conversation with the mail server.
  \<^item> \<open>Logging\<close>, \<open>Startup\<close>: the log processors and handlers, what \<open>create_app\<close> sets up, the cached engine and
    the lifespan of the process.
  \<^item> \<open>Http\<close>: the error envelope and the middleware stack around an arbitrary application. \<open>Asgi\<close>: the same stack
    on single messages, as the code has it, refines it.
  \<^item> \<open>Routes\<close>: every protected and public route, the dispatch of calls, and confinement: what a caller
    without administrative permissions, or an impersonator, cannot change.
  \<^item> \<open>ApiInvariant\<close>: all of these as steps of one relation, under which the tables of accounts, roles, items,
    tokens and preferences stay well typed.
  \<^item> \<open>Cli\<close>, \<open>Commands\<close>: the administrative commands and the demo data, and how a command runs: it returns,
    reports, releases its engine and keeps the database well typed; the prune scripts.
  \<^item> \<open>Wiring\<close>: the objects that requests share, the rate limiter with its route limits and the hash an unknown
    address is compared with, and the attachment service.
  \<^item> \<open>Schema\<close>, \<open>Metadata\<close>, \<open>Migrations\<close>, \<open>RoleMigration\<close>, \<open>HeadSchema\<close>: a relational schema with rows and the
    operations of Alembic on it; the tables that the models declare; the twenty-five revisions of
    \<open>alembic/versions\<close> with their chain. The chain ends in the declared schema and the seeded grants, every
    revision can be taken back, and moving accounts to the roles tables keeps their roles.
  \<^item> \<open>Bootstrap\<close> (\<open>scripts/bootstrap.py\<close>): the script that turns a clone into a project.

  \<^bold>\<open>Bounds.\<close> No loop of the model has fuel but \<open>follow\<close> (theory \<open>Pagination\<close>), which follows cursors for as many
  pages as it is told; the theorems on it say that one page per entry and one more are enough; and \<open>lineage\<close>
  (theory \<open>Migrations\<close>), which walks the chain of revisions for as many steps as there are files. The retention
  loops are unbounded and proved to end. Integer columns are mathematical integers: identifiers come from
  sequences, and an item's version counts its updates. The errors that PostgreSQL raises for an integer
  outside 32 bits, in a path parameter or after so many inserts or updates, are left out; the 32-bit lock key is a
  machine word. Writes check the column lengths of what a caller chooses: addresses, names, role names and
  features, titles, preferences, attachments, idempotency keys and request log rows. The lengths of password hashes
  and of audit rows, whose values the service makes itself, are not checked.

  \<^bold>\<open>Not modelled.\<close> The dependency-injection constructors that only pass repositories and settings on, and
  the service protocols (type annotations), what
  structlog, Prometheus and OpenTelemetry do with their configuration (output), the answers of the mail
  server, the counting of the rate limiter and CORS (third-party middleware), Typer's parsing and prompts, the
  offline mode of the migrations, and the negotiation of \<open>Accept-Language\<close>, which nothing calls. Nor are the
  cancellation of a request in the middle of its work, bodies with a zero byte, which the column of a recorded
  answer refuses, the loss of the connection that holds an advisory lock while the job's own session goes on, and the
  creation and update times of a preferences row, which no code reads. The failures of the storage and of the mail
  server that are modelled are creating, writing and deleting a file, and refusing a mail or failing after taking it.
\<close>

end
